(* ===== verification/Prelude.thy ===== *)
theory Prelude
  imports Main "HOL-Library.Word" "HOL-Library.AList" "HOL-Library.Multiset"
begin

section \<open>Shared vocabulary of the development\<close>

text \<open>
  What every component theory uses: names for the Rust types of the sources (bytes, byte
  vectors, fixed-size hashes), the saturating arithmetic of \<open>u32\<close> and \<open>u64\<close>, the model of
  \<open>HashMap\<close> as an association list with distinct keys, big-endian byte encodings of \<open>u32\<close>,
  and the collections of rewrite rules that the component proofs pull in.

  Conventions. An unsigned integer that is only counted or compared is a \<open>nat\<close> whose width is
  written out where it matters (\<open>sat_add64\<close>, \<open>mod 2 ^ 64\<close>); an integer that is handled bit by bit
  is a word. \<open>Result<T, E>\<close> is the sum \<open>'e + 'a\<close> with \<open>Inl\<close> the error. A hash map is the list
  of its entries: a lookup is \<open>map_of\<close>, and the order of the list stands for the unspecified
  iteration order of the Rust map, so a statement that iterates over a map is about every order.
\<close>

subsection \<open>Types\<close>

type_synonym byte = "8 word"
type_synonym bytes = "byte list"
type_synonym ('k, 'v) hmap = "('k \<times> 'v) list"

text \<open>Strings of the sources are UTF-8 byte vectors; \<open>str_bytes\<close> gives a literal's bytes.\<close>

definition str_bytes :: "string \<Rightarrow> bytes" where
  "str_bytes s = map (\<lambda>c. of_nat (of_char c)) s"

named_theorems hmap_simps
named_theorems width_simps
named_theorems wire_simps

lemma unat_byte_lt: "unat (b :: byte) < 256"
  using unsigned_less [of b] by simp

subsection \<open>Saturating arithmetic\<close>

definition u32_max :: nat where "u32_max = 2 ^ 32 - 1"
definition u64_max :: nat where "u64_max = 2 ^ 64 - 1"

definition sat_add32 :: "nat \<Rightarrow> nat \<Rightarrow> nat" where
  "sat_add32 a b = min (a + b) u32_max"

definition sat_add64 :: "nat \<Rightarrow> nat \<Rightarrow> nat" where
  "sat_add64 a b = min (a + b) u64_max"

definition sat_mul64 :: "nat \<Rightarrow> nat \<Rightarrow> nat" where
  "sat_mul64 a b = min (a * b) u64_max"

text \<open>\<open>saturating_sub\<close> on unsigned integers is the truncated subtraction of \<open>nat\<close>.\<close>

definition sat_sub :: "nat \<Rightarrow> nat \<Rightarrow> nat" where
  "sat_sub a b = a - b"

lemma sat_add64_le [width_simps]: "sat_add64 a b \<le> u64_max"
  by (simp add: sat_add64_def)

lemma sat_add32_le [width_simps]: "sat_add32 a b \<le> u32_max"
  by (simp add: sat_add32_def)

lemma sat_mul64_le [width_simps]: "sat_mul64 a b \<le> u64_max"
  by (simp add: sat_mul64_def)

lemma sat_add64_exact [width_simps]: "a + b \<le> u64_max \<Longrightarrow> sat_add64 a b = a + b"
  by (simp add: sat_add64_def)

lemma sat_add64_ge: "a \<le> u64_max \<Longrightarrow> a \<le> sat_add64 a b"
  by (simp add: sat_add64_def)

lemma sat_add64_mono: "b \<le> c \<Longrightarrow> sat_add64 a b \<le> sat_add64 a c"
  by (simp add: sat_add64_def)

subsection \<open>Casts between integer types\<close>

text \<open>\<open>u64 as i64\<close> reinterprets the bits; \<open>i64 as u64\<close>, \<open>as u32\<close> and \<open>as u8\<close> keep the low bits.\<close>

definition u64_as_i64 :: "nat \<Rightarrow> int" where
  "u64_as_i64 n = (if n < 2 ^ 63 then int n else int n - 2 ^ 64)"

definition i64_as_u64 :: "int \<Rightarrow> nat" where
  "i64_as_u64 i = nat (i mod 2 ^ 64)"

definition i64_as_u32 :: "int \<Rightarrow> nat" where
  "i64_as_u32 i = nat (i mod 2 ^ 32)"

definition i64_as_u8 :: "int \<Rightarrow> nat" where
  "i64_as_u8 i = nat (i mod 2 ^ 8)"

lemma i64_as_u64_of_u64 [width_simps]: "n \<le> u64_max \<Longrightarrow> i64_as_u64 (u64_as_i64 n) = n"
  by (auto simp: i64_as_u64_def u64_as_i64_def u64_max_def mod_diff_right_eq)

lemma u64_as_i64_small [width_simps]: "n < 2 ^ 63 \<Longrightarrow> u64_as_i64 n = int n"
  by (simp add: u64_as_i64_def)

lemma i64_as_u32_of_u32 [width_simps]: "n \<le> u32_max \<Longrightarrow> i64_as_u32 (int n) = n"
  by (auto simp: i64_as_u32_def u32_max_def)

lemma u64_as_i64_range: "n \<le> u64_max \<Longrightarrow> - (2 ^ 63) \<le> u64_as_i64 n \<and> u64_as_i64 n < 2 ^ 63"
  by (auto simp: u64_as_i64_def u64_max_def)

subsection \<open>Hash maps\<close>

definition hm_keys :: "('k, 'v) hmap \<Rightarrow> 'k list" where
  "hm_keys m = map fst m"

definition hm_values :: "('k, 'v) hmap \<Rightarrow> 'v list" where
  "hm_values m = map snd m"

definition hm_wf :: "('k, 'v) hmap \<Rightarrow> bool" where
  "hm_wf m \<longleftrightarrow> distinct (map fst m)"

definition hm_contains :: "('k, 'v) hmap \<Rightarrow> 'k \<Rightarrow> bool" where
  "hm_contains m k \<longleftrightarrow> map_of m k \<noteq> None"

definition hm_insert :: "'k \<Rightarrow> 'v \<Rightarrow> ('k, 'v) hmap \<Rightarrow> ('k, 'v) hmap" where
  "hm_insert k v m = AList.update k v m"

definition hm_remove :: "'k \<Rightarrow> ('k, 'v) hmap \<Rightarrow> ('k, 'v) hmap" where
  "hm_remove k m = AList.delete k m"

text \<open>\<open>get_mut\<close>: the entry of one key is changed in place, if there is one.\<close>

definition hm_modify :: "'k \<Rightarrow> ('v \<Rightarrow> 'v) \<Rightarrow> ('k, 'v) hmap \<Rightarrow> ('k, 'v) hmap" where
  "hm_modify k f m = map (\<lambda>(k', v). if k' = k then (k', f v) else (k', v)) m"

text \<open>\<open>retain\<close>: the entries that satisfy the predicate.\<close>

definition hm_retain :: "('k \<Rightarrow> 'v \<Rightarrow> bool) \<Rightarrow> ('k, 'v) hmap \<Rightarrow> ('k, 'v) hmap" where
  "hm_retain P m = filter (\<lambda>(k, v). P k v) m"

lemma hm_wf_Nil [hmap_simps]: "hm_wf []"
  by (simp add: hm_wf_def)

lemma hm_wf_insert [hmap_simps]: "hm_wf m \<Longrightarrow> hm_wf (hm_insert k v m)"
  by (simp add: hm_wf_def hm_insert_def distinct_update)

lemma hm_wf_remove [hmap_simps]: "hm_wf m \<Longrightarrow> hm_wf (hm_remove k m)"
  by (simp add: hm_wf_def hm_remove_def distinct_delete)

lemma hm_keys_modify [hmap_simps]: "map fst (hm_modify k f m) = map fst m"
  by (simp add: hm_modify_def comp_def case_prod_beta if_distrib cong: if_cong)

lemma hm_wf_modify [hmap_simps]: "hm_wf m \<Longrightarrow> hm_wf (hm_modify k f m)"
  by (simp add: hm_wf_def hm_keys_modify)

lemma hm_wf_retain [hmap_simps]: "hm_wf m \<Longrightarrow> hm_wf (hm_retain P m)"
  by (simp add: hm_wf_def hm_retain_def distinct_map_filter)

lemma map_of_hm_insert [hmap_simps]:
  "map_of (hm_insert k v m) k' = (if k' = k then Some v else map_of m k')"
  by (simp add: hm_insert_def update_conv')

lemma map_of_hm_remove [hmap_simps]:
  "map_of (hm_remove k m) k' = (if k' = k then None else map_of m k')"
  by (simp add: hm_remove_def delete_conv')

lemma map_of_hm_modify [hmap_simps]:
  "map_of (hm_modify k f m) k' = (if k' = k then map_option f (map_of m k) else map_of m k')"
  by (induction m) (auto simp: hm_modify_def)

lemma map_of_hm_retain [hmap_simps]:
  "hm_wf m \<Longrightarrow> map_of (hm_retain P m) k =
     (case map_of m k of None \<Rightarrow> None | Some v \<Rightarrow> if P k v then Some v else None)"
  by (induction m)
    (auto simp: hm_retain_def hm_wf_def map_of_eq_None_iff split: option.splits dest: map_of_SomeD
      intro: rev_image_eqI)

lemma hm_contains_iff [hmap_simps]: "hm_contains m k \<longleftrightarrow> k \<in> fst ` set m"
  by (simp add: hm_contains_def map_of_eq_None_iff)

lemma hm_get_in: "hm_wf m \<Longrightarrow> map_of m k = Some v \<longleftrightarrow> (k, v) \<in> set m"
  by (simp add: hm_wf_def)

lemma set_hm_remove: "set (hm_remove k m) = {(k', v) \<in> set m. k' \<noteq> k}"
  by (auto simp: hm_remove_def AList.delete_eq)

lemma set_hm_insert:
  "hm_wf m \<Longrightarrow> (k', v') \<in> set (hm_insert k v m) \<longleftrightarrow> (if k' = k then v' = v else (k', v') \<in> set m)"
  using hm_get_in[OF hm_wf_insert[of m k v], of k' v'] hm_get_in[of m k' v'] by (auto simp: hmap_simps)

lemma dom_hm_insert: "dom (map_of (hm_insert k v m)) = Set.insert k (dom (map_of m))"
  by (auto simp: hmap_simps split: if_splits)

lemma dom_hm_remove: "hm_wf m \<Longrightarrow> dom (map_of (hm_remove k m)) = dom (map_of m) - {k}"
  by (auto simp: hmap_simps split: if_splits)

lemma length_hm_remove:
  "hm_wf m \<Longrightarrow> map_of m k = Some v \<Longrightarrow> Suc (length (hm_remove k m)) = length m"
proof (induction m)
  case (Cons e m)
  show ?case
  proof (cases "fst e = k")
    case True
    with Cons.prems have "k \<notin> fst ` set m"
      by (auto simp: hm_wf_def)
    with True show ?thesis
      by (cases e) (simp add: hm_remove_def)
  next
    case False
    with Cons show ?thesis
      by (cases e) (auto simp: hm_remove_def hm_wf_def)
  qed
qed simp

subsection \<open>Tables: the interface the components share\<close>

text \<open>
  Several components keep a table keyed by a hash: what they promise is what a lookup returns
  after an insertion or a removal, on states that satisfy their invariant.
\<close>

locale keyed_table =
  fixes invar :: "'t \<Rightarrow> bool"
    and lookup :: "'t \<Rightarrow> 'k \<Rightarrow> 'v option"
    and insert :: "'k \<Rightarrow> 'v \<Rightarrow> 't \<Rightarrow> 't"
    and remove :: "'k \<Rightarrow> 't \<Rightarrow> 't"
  assumes invar_insert: "invar t \<Longrightarrow> invar (insert k v t)"
    and invar_remove: "invar t \<Longrightarrow> invar (remove k t)"
    and lookup_insert: "invar t \<Longrightarrow> lookup (insert k v t) k' = (if k' = k then Some v else lookup t k')"
    and lookup_remove: "invar t \<Longrightarrow> lookup (remove k t) k' = (if k' = k then None else lookup t k')"
begin

lemma lookup_insert_remove:
  "invar t \<Longrightarrow> lookup (remove k (insert k v t)) k' = (if k' = k then None else lookup t k')"
  by (simp add: lookup_insert lookup_remove invar_insert)

lemma lookup_insert_commute:
  "invar t \<Longrightarrow> k1 \<noteq> k2 \<Longrightarrow>
    lookup (insert k1 v1 (insert k2 v2 t)) k = lookup (insert k2 v2 (insert k1 v1 t)) k"
  by (simp add: lookup_insert invar_insert)

lemma fold_remove:
  "invar t \<Longrightarrow> invar (fold remove ks t) \<and>
    (\<forall>k. lookup (fold remove ks t) k = (if k \<in> set ks then None else lookup t k))"
proof (induction ks arbitrary: t)
  case (Cons a ks)
  from Cons.prems have "invar (remove a t)" by (rule invar_remove)
  from Cons.IH [OF this] show ?case
    using Cons.prems by (simp add: lookup_remove)
qed simp

end

interpretation hm: keyed_table hm_wf map_of hm_insert hm_remove
  by unfold_locales (simp_all add: hmap_simps)

subsection \<open>Big-endian encoding of 32-bit integers\<close>

text \<open>\<open>u32::to_be_bytes\<close> and \<open>u32::from_be_bytes\<close>.\<close>

definition be_bytes32 :: "nat \<Rightarrow> bytes" where
  "be_bytes32 n = [of_nat (n div 2 ^ 24), of_nat (n div 2 ^ 16), of_nat (n div 2 ^ 8), of_nat n]"

fun from_be_bytes :: "nat \<Rightarrow> bytes \<Rightarrow> nat" where
  "from_be_bytes acc [] = acc"
| "from_be_bytes acc (b # bs) = from_be_bytes (acc * 256 + unat b) bs"

lemma length_be_bytes32 [simp]: "length (be_bytes32 n) = 4"
  by (simp add: be_bytes32_def)

lemma from_be_bytes_be_bytes32 [wire_simps]:
  assumes "n < 2 ^ 32"
  shows "from_be_bytes 0 (be_bytes32 n) = n"
proof -
  have w: "unat (of_nat m :: byte) = m mod 256" for m
    by (simp add: unat_of_nat)
  define a b c where "a = n div 256" and "b = a div 256" and "c = b div 256"
  have dm: "m div 256 * 256 + m mod 256 = m" for m :: nat
    by simp
  have d: "n div 2 ^ 8 = a" "n div 2 ^ 16 = b" "n div 2 ^ 24 = c"
    by (simp_all add: a_def b_def c_def flip: div_mult2_eq)
  have "c < 256"
    using assms by (simp add: a_def b_def c_def flip: div_mult2_eq)
  then have "((c mod 256 * 256 + b mod 256) * 256 + a mod 256) * 256 + n mod 256 = n"
    using dm [of b] dm [of a] dm [of n] by (simp add: a_def [symmetric] b_def [symmetric] c_def [symmetric])
  then show ?thesis
    by (simp only: be_bytes32_def from_be_bytes.simps w d) simp
qed

text \<open>Big-endian encodings of any width.\<close>

fun be_bytes :: "nat \<Rightarrow> nat \<Rightarrow> bytes" where
  "be_bytes 0 n = []"
| "be_bytes (Suc k) n = be_bytes k (n div 256) @ [of_nat n]"

lemma length_be_bytes [simp]: "length (be_bytes k n) = k"
  by (induction k arbitrary: n) simp_all

lemma from_be_bytes_append: "from_be_bytes acc (xs @ ys) = from_be_bytes (from_be_bytes acc xs) ys"
  by (induction xs arbitrary: acc) simp_all

lemma from_be_bytes_be_bytes: "n < 256 ^ k \<Longrightarrow> from_be_bytes 0 (be_bytes k n) = n"
proof (induction k arbitrary: n)
  case (Suc k)
  then have "n div 256 < 256 ^ k" by (simp add: div_less_iff_less_mult mult.commute)
  from Suc.IH [OF this] show ?case by (simp add: from_be_bytes_append unat_of_nat)
qed simp

subsection \<open>Lists\<close>

text \<open>\<open>slice::chunks\<close>: consecutive pieces of the given size, the last one possibly shorter.\<close>

function chunks :: "nat \<Rightarrow> 'a list \<Rightarrow> 'a list list" where
  "chunks n xs = (if n = 0 \<or> xs = [] then [] else take n xs # chunks n (drop n xs))"
  by pat_completeness auto
termination
  by (relation "measure (\<lambda>(n, xs). length xs)") auto

declare chunks.simps [simp del]

lemma chunks_Nil [simp]: "chunks n [] = []"
  by (simp add: chunks.simps)

lemma chunks_Cons: "0 < n \<Longrightarrow> xs \<noteq> [] \<Longrightarrow> chunks n xs = take n xs # chunks n (drop n xs)"
  by (subst chunks.simps) simp

lemma concat_chunks [simp]: "0 < n \<Longrightarrow> concat (chunks n xs) = xs"
  by (induction n xs rule: chunks.induct) (subst chunks.simps, simp)

lemma ceil_div_step: "0 < n \<Longrightarrow> n < m \<Longrightarrow> Suc ((m - n + n - 1) div n) = (m + n - 1) div n" for m n :: nat
proof -
  assume n: "0 < n" "n < m"
  then have "m + n - 1 = (m - n + n - 1) + n" by simp
  then have "(m + n - 1) div n = (m - n + n - 1 + n) div n" by (rule arg_cong)
  also have "\<dots> = Suc ((m - n + n - 1) div n)" using n by (simp only: div_add_self2)
  finally show ?thesis by simp
qed

lemma ceil_div_one: "0 < m \<Longrightarrow> m \<le> n \<Longrightarrow> (m + n - 1) div n = 1" for m n :: nat
  by (intro div_nat_eqI) auto

lemma length_chunks: "0 < n \<Longrightarrow> length (chunks n xs) = (length xs + n - 1) div n"
proof (induction n xs rule: chunks.induct)
  case (1 n xs)
  show ?case
  proof (cases "xs = []")
    case True
    with "1.prems" show ?thesis by simp
  next
    case False
    with 1 have len: "length (chunks n xs) = Suc ((length xs - n + n - 1) div n)"
      by (simp add: chunks_Cons)
    show ?thesis
    proof (cases "length xs \<le> n")
      case True
      with len "1.prems" have "length (chunks n xs) = 1" by simp
      moreover have "(length xs + n - 1) div n = 1"
        using True False by (intro ceil_div_one) auto
      ultimately show ?thesis by (rule trans [OF _ sym])
    next
      case False
      with len "1.prems" show ?thesis by (simp only: ceil_div_step not_le)
    qed
  qed
qed

lemma chunks_small: "c \<in> set (chunks n xs) \<Longrightarrow> length c \<le> n"
  by (induction n xs rule: chunks.induct) (subst (asm) chunks.simps, auto split: if_splits)

end
