(* ===== verification/Buffers.thy ===== *)
theory Buffers
  imports Prelude
begin

section \<open>Byte buffers (reticulum-patched/src/buffer.rs)\<close>

text \<open>
  The three buffers of the transport crate: \<open>StaticBuffer<N>\<close> (an owned array of \<open>N\<close> bytes with a
  length), \<open>OutputBuffer\<close> (a borrowed slice with a write offset) and \<open>InputBuffer\<close> (a borrowed
  slice with a read offset). A buffer is passed by mutable reference, so an operation returns its
  result together with the buffer it leaves behind, also when it fails. A panic (an index out of
  range) is \<open>None\<close>. The interface \<open>byte_sink\<close> states what the writers promise; both writers
  satisfy it.
\<close>

datatype ret_error =
    OutOfMemory | InvalidArgument | IncorrectSignature | IncorrectHash
  | CryptoError | PacketError | ConnectionError

subsection \<open>Definitions\<close>

text \<open>\<open>buffer[off..off + n].copy_from_slice(data)\<close> with \<open>n\<close> the length of the data.\<close>

definition splice :: "bytes \<Rightarrow> nat \<Rightarrow> bytes \<Rightarrow> bytes" where
  "splice buf off data = take off buf @ data @ drop (off + length data) buf"

record static_buffer =
  sb_buffer :: bytes
  sb_len :: nat

definition sb_new :: "nat \<Rightarrow> static_buffer" where
  "sb_new N = \<lparr>sb_buffer = replicate N 0, sb_len = 0\<rparr>"

definition sb_reset :: "static_buffer \<Rightarrow> static_buffer" where
  "sb_reset b = b\<lparr>sb_len := 0\<rparr>"

definition sb_resize :: "nat \<Rightarrow> static_buffer \<Rightarrow> static_buffer" where
  "sb_resize n b = b\<lparr>sb_len := min n (length (sb_buffer b))\<rparr>"

definition sb_write :: "bytes \<Rightarrow> static_buffer \<Rightarrow> (ret_error + nat) \<times> static_buffer" where
  "sb_write data b =
     (if length data = 0 then (Inr 0, b)
      else if sb_len b + length data > length (sb_buffer b) then (Inl OutOfMemory, b)
      else (Inr (length data),
            \<lparr>sb_buffer = splice (sb_buffer b) (sb_len b) data, sb_len = sb_len b + length data\<rparr>))"

definition sb_safe_write :: "bytes \<Rightarrow> static_buffer \<Rightarrow> nat \<times> static_buffer" where
  "sb_safe_write data b =
     (let max_size = min (length data) (length (sb_buffer b) - sb_len b) in
      case sb_write (take max_size data) b of
        (Inl e, b') \<Rightarrow> (0, b')
      | (Inr n, b') \<Rightarrow> (n, b'))"

definition sb_new_from_slice :: "nat \<Rightarrow> bytes \<Rightarrow> static_buffer" where
  "sb_new_from_slice N data = snd (sb_safe_write data (sb_new N))"

definition sb_rotate_left :: "nat \<Rightarrow> static_buffer \<Rightarrow> (ret_error + nat) \<times> static_buffer" where
  "sb_rotate_left mid b =
     (if mid > sb_len b then (Inl InvalidArgument, b)
      else (Inr (sb_len b - mid),
            \<lparr>sb_buffer = drop mid (sb_buffer b) @ take mid (sb_buffer b), sb_len = sb_len b - mid\<rparr>))"

definition sb_as_slice :: "static_buffer \<Rightarrow> bytes" where
  "sb_as_slice b = take (sb_len b) (sb_buffer b)"

text \<open>\<open>accuire_buf\<close> hands out the first \<open>n\<close> bytes to be overwritten; beyond the array it panics.\<close>

definition sb_acquire :: "nat \<Rightarrow> static_buffer \<Rightarrow> static_buffer option" where
  "sb_acquire n b = (if n \<le> length (sb_buffer b) then Some (b\<lparr>sb_len := n\<rparr>) else None)"

definition sb_acquire_max :: "static_buffer \<Rightarrow> static_buffer" where
  "sb_acquire_max b = b\<lparr>sb_len := length (sb_buffer b)\<rparr>"

record output_buffer =
  ob_buffer :: bytes
  ob_offset :: nat

definition ob_new :: "bytes \<Rightarrow> output_buffer" where
  "ob_new backing = \<lparr>ob_buffer = backing, ob_offset = 0\<rparr>"

definition ob_write :: "bytes \<Rightarrow> output_buffer \<Rightarrow> (ret_error + nat) \<times> output_buffer" where
  "ob_write data b =
     (if length data = 0 then (Inr 0, b)
      else if ob_offset b + length data > length (ob_buffer b) then (Inl OutOfMemory, b)
      else (Inr (length data),
            \<lparr>ob_buffer = splice (ob_buffer b) (ob_offset b) data,
             ob_offset = ob_offset b + length data\<rparr>))"

definition ob_write_byte :: "byte \<Rightarrow> output_buffer \<Rightarrow> (ret_error + nat) \<times> output_buffer" where
  "ob_write_byte x b = ob_write [x] b"

definition ob_reset :: "output_buffer \<Rightarrow> output_buffer" where
  "ob_reset b = b\<lparr>ob_offset := 0\<rparr>"

definition ob_is_full :: "output_buffer \<Rightarrow> bool" where
  "ob_is_full b \<longleftrightarrow> ob_offset b = length (ob_buffer b)"

definition ob_as_slice :: "output_buffer \<Rightarrow> bytes" where
  "ob_as_slice b = take (ob_offset b) (ob_buffer b)"

record input_buffer =
  ib_buffer :: bytes
  ib_offset :: nat

definition ib_new :: "bytes \<Rightarrow> input_buffer" where
  "ib_new backing = \<lparr>ib_buffer = backing, ib_offset = 0\<rparr>"

text \<open>\<open>read\<close> fills a slice of the given size; \<open>read_slice\<close> returns the bytes; both advance alike.\<close>

definition ib_read :: "nat \<Rightarrow> input_buffer \<Rightarrow> (ret_error + bytes) \<times> input_buffer" where
  "ib_read n b =
     (if ib_offset b + n > length (ib_buffer b) then (Inl OutOfMemory, b)
      else (Inr (take n (drop (ib_offset b) (ib_buffer b))), b\<lparr>ib_offset := ib_offset b + n\<rparr>))"

definition ib_read_size :: "nat \<Rightarrow> nat \<Rightarrow> input_buffer \<Rightarrow> (ret_error + bytes) \<times> input_buffer" where
  "ib_read_size buf_len n b =
     (if ib_offset b + n > length (ib_buffer b) then (Inl OutOfMemory, b)
      else if buf_len < n then (Inl OutOfMemory, b)
      else (Inr (take n (drop (ib_offset b) (ib_buffer b))), b\<lparr>ib_offset := ib_offset b + n\<rparr>))"

definition ib_read_byte :: "input_buffer \<Rightarrow> (ret_error + byte) \<times> input_buffer" where
  "ib_read_byte b =
     (case ib_read 1 b of
        (Inl e, b') \<Rightarrow> (Inl e, b')
      | (Inr bs, b') \<Rightarrow> (Inr (hd bs), b'))"

definition ib_bytes_left :: "input_buffer \<Rightarrow> nat" where
  "ib_bytes_left b = length (ib_buffer b) - ib_offset b"

text \<open>Writing several pieces, stopping at the first error as \<open>?\<close> does.\<close>

fun put_all :: "(bytes \<Rightarrow> 'b \<Rightarrow> (ret_error + nat) \<times> 'b) \<Rightarrow> bytes list \<Rightarrow> 'b \<Rightarrow> (ret_error + unit) \<times> 'b" where
  "put_all put [] b = (Inr (), b)"
| "put_all put (d # ds) b =
     (case put d b of
        (Inl e, b') \<Rightarrow> (Inl e, b')
      | (Inr _, b') \<Rightarrow> put_all put ds b')"

subsection \<open>Invariants\<close>

definition sb_wf :: "nat \<Rightarrow> static_buffer \<Rightarrow> bool" where
  "sb_wf N b \<longleftrightarrow> length (sb_buffer b) = N \<and> sb_len b \<le> N"

definition ob_wf :: "output_buffer \<Rightarrow> bool" where
  "ob_wf b \<longleftrightarrow> ob_offset b \<le> length (ob_buffer b)"

definition sb_room :: "static_buffer \<Rightarrow> nat" where
  "sb_room b = length (sb_buffer b) - sb_len b"

definition ob_room :: "output_buffer \<Rightarrow> nat" where
  "ob_room b = length (ob_buffer b) - ob_offset b"

subsection \<open>What a writer promises\<close>

locale byte_sink =
  fixes invar :: "'b \<Rightarrow> bool"
    and contents :: "'b \<Rightarrow> bytes"
    and room :: "'b \<Rightarrow> nat"
    and put :: "bytes \<Rightarrow> 'b \<Rightarrow> (ret_error + nat) \<times> 'b"
  assumes put_ok: "invar b \<Longrightarrow> length d \<le> room b \<Longrightarrow>
      \<exists>b'. put d b = (Inr (length d), b') \<and> invar b' \<and> contents b' = contents b @ d
        \<and> room b' = room b - length d"
    and put_full: "invar b \<Longrightarrow> room b < length d \<Longrightarrow> put d b = (Inl OutOfMemory, b)"
begin

lemma put_all_ok:
  "invar b \<Longrightarrow> length (concat ds) \<le> room b \<Longrightarrow>
    \<exists>b'. put_all put ds b = (Inr (), b') \<and> invar b' \<and> contents b' = contents b @ concat ds
      \<and> room b' = room b - length (concat ds)"
proof (induction ds arbitrary: b)
  case (Cons d ds)
  then obtain b1 where b1: "put d b = (Inr (length d), b1)" "invar b1"
      "contents b1 = contents b @ d" "room b1 = room b - length d"
    using put_ok [of b d] by auto
  with Cons.prems have "length (concat ds) \<le> room b1" by simp
  from Cons.IH [OF b1(2) this] b1 show ?case by auto
qed simp

text \<open>What does not fit fails, and what was written before the failure is a prefix of the pieces.\<close>

lemma put_all_full:
  "invar b \<Longrightarrow> room b < length (concat ds) \<Longrightarrow>
    \<exists>b' n. put_all put ds b = (Inl OutOfMemory, b') \<and> invar b'
      \<and> contents b' = contents b @ concat (take n ds)"
proof (induction ds arbitrary: b)
  case (Cons d ds)
  show ?case
  proof (cases "length d \<le> room b")
    case True
    then obtain b1 where b1: "put d b = (Inr (length d), b1)" "invar b1"
        "contents b1 = contents b @ d" "room b1 = room b - length d"
      using put_ok [of b d] Cons.prems by auto
    with Cons.prems True have "room b1 < length (concat ds)" by simp
    from Cons.IH [OF b1(2) this] obtain b' n where
      "put_all put ds b1 = (Inl OutOfMemory, b')" "invar b'"
      "contents b' = contents b1 @ concat (take n ds)" by blast
    with b1 have "put_all put (d # ds) b = (Inl OutOfMemory, b')"
      "contents b' = contents b @ concat (take (Suc n) (d # ds))" by simp_all
    with \<open>invar b'\<close> show ?thesis by blast
  next
    case False
    then have "put d b = (Inl OutOfMemory, b)" using put_full Cons.prems by simp
    then have "put_all put (d # ds) b = (Inl OutOfMemory, b)"
      "contents b = contents b @ concat (take 0 (d # ds))" by simp_all
    with Cons.prems show ?thesis by blast
  qed
qed simp

lemma put_all_fits_iff:
  "invar b \<Longrightarrow> (fst (put_all put ds b) = Inr ()) = (length (concat ds) \<le> room b)"
  using put_all_ok [of b ds] put_all_full [of b ds] by (cases "length (concat ds) \<le> room b") auto

end

lemma take_splice: "off \<le> length buf \<Longrightarrow> off + length d \<le> length buf \<Longrightarrow>
    take (off + length d) (splice buf off d) = take off buf @ d"
  by (simp add: splice_def)

lemma length_splice: "off + length d \<le> length buf \<Longrightarrow> length (splice buf off d) = length buf"
  by (simp add: splice_def)

interpretation ob: byte_sink ob_wf ob_as_slice ob_room ob_write
  by unfold_locales
    (auto simp: ob_wf_def ob_as_slice_def ob_room_def ob_write_def take_splice length_splice)

interpretation sb: byte_sink "sb_wf N" sb_as_slice sb_room sb_write
  by unfold_locales
    (auto simp: sb_wf_def sb_as_slice_def sb_room_def sb_write_def take_splice length_splice)

lemma ob_wf_new [simp]: "ob_wf (ob_new backing)"
  by (simp add: ob_wf_def ob_new_def)

lemma ob_as_slice_new [simp]: "ob_as_slice (ob_new backing) = []"
  by (simp add: ob_as_slice_def ob_new_def)

lemma ob_room_new [simp]: "ob_room (ob_new backing) = length backing"
  by (simp add: ob_room_def ob_new_def)

lemma ob_offset_eq: "ob_wf b \<Longrightarrow> ob_offset b = length (ob_as_slice b)"
  by (simp add: ob_wf_def ob_as_slice_def)

lemma sb_wf_new [simp]: "sb_wf N (sb_new N)"
  by (simp add: sb_wf_def sb_new_def)

lemma sb_as_slice_new [simp]: "sb_as_slice (sb_new N) = []"
  by (simp add: sb_as_slice_def sb_new_def)

lemma sb_room_new [simp]: "sb_room (sb_new N) = N"
  by (simp add: sb_room_def sb_new_def)

subsection \<open>The static buffer\<close>

text \<open>A safe write stores as much of the data as fits and never fails.\<close>

lemma sb_safe_write_contents:
  assumes "sb_wf N b"
  shows "\<exists>b'. sb_safe_write d b = (min (length d) (sb_room b), b') \<and> sb_wf N b'
      \<and> sb_as_slice b' = sb_as_slice b @ take (sb_room b) d"
proof -
  let ?d = "take (min (length d) (sb_room b)) d"
  have "length ?d \<le> sb_room b" by simp
  from sb.put_ok [OF assms this] obtain b' where b':
    "sb_write ?d b = (Inr (length ?d), b')" "sb_wf N b'" "sb_as_slice b' = sb_as_slice b @ ?d"
    by auto
  then show ?thesis
    by (auto simp: sb_safe_write_def Let_def sb_room_def min_def)
qed

lemma sb_new_from_slice_contents: "sb_as_slice (sb_new_from_slice N d) = take N d"
  using sb_safe_write_contents [OF sb_wf_new, of d N]
  by (auto simp: sb_new_from_slice_def)

lemma sb_rotate_left_contents:
  "sb_wf N b \<Longrightarrow> mid \<le> sb_len b \<Longrightarrow>
    \<exists>b'. sb_rotate_left mid b = (Inr (sb_len b - mid), b') \<and> sb_wf N b'
      \<and> sb_as_slice b' = drop mid (sb_as_slice b)"
  by (auto simp: sb_rotate_left_def sb_wf_def sb_as_slice_def take_drop)

subsection \<open>The input buffer\<close>

lemma ib_read_ok:
  "ib_offset b + n \<le> length (ib_buffer b) \<Longrightarrow>
    ib_read n b = (Inr (take n (drop (ib_offset b) (ib_buffer b))), b\<lparr>ib_offset := ib_offset b + n\<rparr>)"
  by (simp add: ib_read_def)

text \<open>Reading back the pieces of a concatenation, in order.\<close>

lemma ib_read_append:
  "ib_buffer b = pre @ d @ post \<Longrightarrow> ib_offset b = length pre \<Longrightarrow>
    ib_read (length d) b = (Inr d, b\<lparr>ib_offset := length pre + length d\<rparr>)"
  by (simp add: ib_read_def)

lemma ib_read_byte_append:
  "ib_buffer b = pre @ x # post \<Longrightarrow> ib_offset b = length pre \<Longrightarrow>
    ib_read_byte b = (Inr x, b\<lparr>ib_offset := Suc (length pre)\<rparr>)"
  using ib_read_append [of b pre "[x]" post] by (simp add: ib_read_byte_def)

end
