(* ===== verification/Hdlc.thy ===== *)
theory Hdlc
  imports Buffers
begin

section \<open>HDLC framing (reticulum-patched/src/iface/hdlc.rs)\<close>

text \<open>
  A packet travels over a TCP stream between two flag bytes; a flag or an escape byte inside it is
  replaced by the escape byte and the byte with one bit flipped. \<open>hdlc_encode\<close>, \<open>hdlc_find\<close> and
  \<open>hdlc_decode\<close> are \<open>Hdlc::encode\<close>, \<open>Hdlc::find\<close> and \<open>Hdlc::decode\<close>, loop by loop, over the
  buffers of \<open>Buffers\<close>. The reference semantics of a frame is \<open>hdlc_frame\<close>.
\<close>

unbundle bit_operations_syntax

subsection \<open>Definitions\<close>

definition HDLC_FRAME_FLAG :: byte where "HDLC_FRAME_FLAG = 0x7e"
definition HDLC_ESCAPE_BYTE :: byte where "HDLC_ESCAPE_BYTE = 0x7d"
definition HDLC_ESCAPE_MASK :: byte where "HDLC_ESCAPE_MASK = 0x20"

fun hdlc_encode_loop :: "bytes \<Rightarrow> output_buffer \<Rightarrow> (ret_error + unit) \<times> output_buffer" where
  "hdlc_encode_loop [] b = (Inr (), b)"
| "hdlc_encode_loop (x # xs) b =
     (case (if x = HDLC_FRAME_FLAG \<or> x = HDLC_ESCAPE_BYTE
            then ob_write [HDLC_ESCAPE_BYTE, x XOR HDLC_ESCAPE_MASK] b
            else ob_write_byte x b) of
        (Inl e, b') \<Rightarrow> (Inl e, b')
      | (Inr _, b') \<Rightarrow> hdlc_encode_loop xs b')"

definition hdlc_encode :: "bytes \<Rightarrow> output_buffer \<Rightarrow> (ret_error + nat) \<times> output_buffer" where
  "hdlc_encode data b0 =
     (case ob_write_byte HDLC_FRAME_FLAG b0 of
        (Inl e, b1) \<Rightarrow> (Inl e, b1)
      | (Inr _, b1) \<Rightarrow>
         (case hdlc_encode_loop data b1 of
            (Inl e, b2) \<Rightarrow> (Inl e, b2)
          | (Inr _, b2) \<Rightarrow>
             (case ob_write_byte HDLC_FRAME_FLAG b2 of
                (Inl e, b3) \<Rightarrow> (Inl e, b3)
              | (Inr _, b3) \<Rightarrow> (Inr (ob_offset b3), b3))))"

text \<open>The search keeps the index of the first flag seen and returns at the second.\<close>

fun hdlc_find_loop :: "nat \<Rightarrow> nat option \<Rightarrow> bytes \<Rightarrow> (nat \<times> nat) option" where
  "hdlc_find_loop i start [] = None"
| "hdlc_find_loop i start (x # xs) =
     (if x \<noteq> HDLC_FRAME_FLAG then hdlc_find_loop (Suc i) start xs
      else (case start of
              None \<Rightarrow> hdlc_find_loop (Suc i) (Some i) xs
            | Some s \<Rightarrow> Some (s, i)))"

definition hdlc_find :: "bytes \<Rightarrow> (nat \<times> nat) option" where
  "hdlc_find data = hdlc_find_loop 0 None data"

text \<open>The decoder loop: the flags \<open>started\<close> and \<open>escape\<close> of the source; the result says whether
  the closing flag was reached.\<close>

fun hdlc_decode_loop :: "bool \<Rightarrow> bool \<Rightarrow> bytes \<Rightarrow> output_buffer \<Rightarrow> (ret_error + bool) \<times> output_buffer" where
  "hdlc_decode_loop started escape [] b = (Inr False, b)"
| "hdlc_decode_loop started escape (x # xs) b =
     (if escape then
        (case ob_write_byte (x XOR HDLC_ESCAPE_MASK) b of
           (Inl e, b') \<Rightarrow> (Inl e, b')
         | (Inr _, b') \<Rightarrow> hdlc_decode_loop started False xs b')
      else if x = HDLC_FRAME_FLAG then
        (if started then (Inr True, b) else hdlc_decode_loop True False xs b)
      else if x = HDLC_ESCAPE_BYTE then hdlc_decode_loop started True xs b
      else
        (case ob_write_byte x b of
           (Inl e, b') \<Rightarrow> (Inl e, b')
         | (Inr _, b') \<Rightarrow> hdlc_decode_loop started False xs b'))"

definition hdlc_decode :: "bytes \<Rightarrow> output_buffer \<Rightarrow> (ret_error + nat) \<times> output_buffer" where
  "hdlc_decode data b =
     (case hdlc_decode_loop False False data b of
        (Inl e, b') \<Rightarrow> (Inl e, b')
      | (Inr finished, b') \<Rightarrow>
          if \<not> finished then (Inl OutOfMemory, b') else (Inr (ob_offset b'), b'))"

subsection \<open>Reference frames\<close>

definition hdlc_escape :: "byte \<Rightarrow> bytes" where
  "hdlc_escape x =
     (if x = HDLC_FRAME_FLAG \<or> x = HDLC_ESCAPE_BYTE then [HDLC_ESCAPE_BYTE, x XOR HDLC_ESCAPE_MASK]
      else [x])"

definition hdlc_body :: "bytes \<Rightarrow> bytes" where
  "hdlc_body data = concat (map hdlc_escape data)"

definition hdlc_frame :: "bytes \<Rightarrow> bytes" where
  "hdlc_frame data = HDLC_FRAME_FLAG # hdlc_body data @ [HDLC_FRAME_FLAG]"

lemmas hdlc_consts = HDLC_FRAME_FLAG_def HDLC_ESCAPE_BYTE_def HDLC_ESCAPE_MASK_def

subsection \<open>The encoder writes the reference frame\<close>

lemma hdlc_encode_loop_put_all:
  "hdlc_encode_loop data b = put_all ob_write (map hdlc_escape data) b"
  by (induction data arbitrary: b)
    (auto simp: hdlc_escape_def ob_write_byte_def split: prod.splits sum.splits)

lemma put_all_append:
  "put_all put (ds @ es) b =
    (case put_all put ds b of (Inl e, b') \<Rightarrow> (Inl e, b') | (Inr _, b') \<Rightarrow> put_all put es b')"
  by (induction ds arbitrary: b) (auto split: prod.splits sum.splits)

lemma hdlc_encode_put_all:
  "hdlc_encode data b =
    (case put_all ob_write ([[HDLC_FRAME_FLAG]] @ map hdlc_escape data @ [[HDLC_FRAME_FLAG]]) b of
       (Inl e, b') \<Rightarrow> (Inl e, b')
     | (Inr _, b') \<Rightarrow> (Inr (ob_offset b'), b'))"
  by (auto simp: hdlc_encode_def hdlc_encode_loop_put_all put_all_append ob_write_byte_def
      split: prod.splits sum.splits)

lemma concat_frame_pieces:
  "concat ([[HDLC_FRAME_FLAG]] @ map hdlc_escape data @ [[HDLC_FRAME_FLAG]]) = hdlc_frame data"
  by (simp add: hdlc_frame_def hdlc_body_def)

lemma hdlc_encode_ok:
  assumes "ob_wf b" and "length (hdlc_frame data) \<le> ob_room b"
  shows "\<exists>b'. hdlc_encode data b = (Inr (length (ob_as_slice b')), b') \<and> ob_wf b'
      \<and> ob_as_slice b' = ob_as_slice b @ hdlc_frame data"
  using ob.put_all_ok [OF assms(1), of "[[HDLC_FRAME_FLAG]] @ map hdlc_escape data @ [[HDLC_FRAME_FLAG]]"]
    assms(2)
  unfolding concat_frame_pieces hdlc_encode_put_all
  by (auto simp: ob_offset_eq)

lemma hdlc_encode_full:
  assumes "ob_wf b" and "ob_room b < length (hdlc_frame data)"
  shows "fst (hdlc_encode data b) = Inl OutOfMemory"
  using ob.put_all_full [OF assms(1), of "[[HDLC_FRAME_FLAG]] @ map hdlc_escape data @ [[HDLC_FRAME_FLAG]]"]
    assms(2)
  unfolding concat_frame_pieces hdlc_encode_put_all
  by auto

subsection \<open>Escaping\<close>

lemma hdlc_mask_involutive: "(x XOR HDLC_ESCAPE_MASK) XOR HDLC_ESCAPE_MASK = x"
  by (simp add: xor.assoc)

lemma hdlc_escape_no_flag: "HDLC_FRAME_FLAG \<notin> set (hdlc_escape x)"
  by (auto simp: hdlc_escape_def hdlc_consts)

lemma hdlc_body_no_flag: "HDLC_FRAME_FLAG \<notin> set (hdlc_body data)"
  using hdlc_escape_no_flag by (auto simp: hdlc_body_def)

lemma length_hdlc_body: "length data \<le> length (hdlc_body data) \<and> length (hdlc_body data) \<le> 2 * length data"
  by (induction data) (auto simp: hdlc_body_def hdlc_escape_def)

subsection \<open>The decoder inverts the encoder\<close>

lemma hdlc_decode_body:
  assumes "ob_wf b" and "length data \<le> ob_room b"
  shows "\<exists>b'. hdlc_decode_loop True False (hdlc_body data @ HDLC_FRAME_FLAG # rest) b = (Inr True, b')
      \<and> ob_wf b' \<and> ob_as_slice b' = ob_as_slice b @ data"
  using assms
proof (induction data arbitrary: b)
  case Nil
  then show ?case by (simp add: hdlc_body_def)
next
  case (Cons x data)
  then obtain b1 where b1: "ob_write [x] b = (Inr 1, b1)" "ob_wf b1"
      "ob_as_slice b1 = ob_as_slice b @ [x]" "ob_room b1 = ob_room b - 1"
    using ob.put_ok [of b "[x]"] by auto
  have step: "hdlc_decode_loop True False (hdlc_body (x # data) @ HDLC_FRAME_FLAG # rest) b
      = hdlc_decode_loop True False (hdlc_body data @ HDLC_FRAME_FLAG # rest) b1"
    using b1(1)
    by (auto simp: hdlc_body_def hdlc_escape_def ob_write_byte_def hdlc_consts)
  have "length data \<le> ob_room b1" using Cons.prems b1(4) by simp
  from Cons.IH [OF b1(2) this] step b1(3) show ?case by auto
qed

lemma hdlc_decode_frame:
  assumes "ob_wf b" and "length data \<le> ob_room b"
  shows "\<exists>b'. hdlc_decode (hdlc_frame data @ rest) b = (Inr (length (ob_as_slice b')), b') \<and> ob_wf b'
      \<and> ob_as_slice b' = ob_as_slice b @ data"
proof -
  obtain b' where b': "hdlc_decode_loop True False (hdlc_body data @ HDLC_FRAME_FLAG # rest) b = (Inr True, b')"
      "ob_wf b'" "ob_as_slice b' = ob_as_slice b @ data"
    using hdlc_decode_body [OF assms, of rest] by blast
  then show ?thesis
    by (auto simp: hdlc_decode_def hdlc_frame_def ob_offset_eq)
qed

subsection \<open>Finding a frame in a stream\<close>

lemma hdlc_find_loop_skip:
  "HDLC_FRAME_FLAG \<notin> set pre \<Longrightarrow>
    hdlc_find_loop i start (pre @ xs) = hdlc_find_loop (i + length pre) start xs"
  by (induction pre arbitrary: i) auto

lemma hdlc_find_frame:
  assumes "HDLC_FRAME_FLAG \<notin> set pre"
  shows "hdlc_find (pre @ hdlc_frame data @ rest)
      = Some (length pre, length pre + length (hdlc_frame data) - 1)"
  using assms hdlc_body_no_flag [of data]
  by (simp add: hdlc_find_def hdlc_frame_def hdlc_find_loop_skip)

lemma hdlc_find_loop_sound:
  "hdlc_find_loop i start xs = Some (s, e) \<Longrightarrow>
    (case start of Some s0 \<Rightarrow> s = s0 | None \<Rightarrow> i \<le> s \<and> s < e \<and> xs ! (s - i) = HDLC_FRAME_FLAG)
    \<and> i \<le> e \<and> e < i + length xs \<and> xs ! (e - i) = HDLC_FRAME_FLAG"
proof (induction i start xs rule: hdlc_find_loop.induct)
  case (2 i start x xs)
  then show ?case
    by (auto split: if_splits option.splits simp: nth_Cons' Suc_le_eq Suc_diff_Suc)
qed simp

subsection \<open>Properties\<close>

text \<open>Framing round trip over a stream: what \<open>encode\<close> produces for any data, placed in a stream
  after bytes that hold no flag, is located by \<open>find\<close> from its first to its last byte, and
  decoding from there on yields exactly the data, whatever follows.\<close>

theorem hdlc_stream_roundtrip:
  assumes "HDLC_FRAME_FLAG \<notin> set noise" and "2 * length data + 2 \<le> length out" and "length data \<le> length back"
  shows "\<exists>b n b' s e. hdlc_encode data (ob_new out) = (Inr n, b) \<and> n = length (ob_as_slice b)
    \<and> hdlc_find (noise @ ob_as_slice b @ rest) = Some (s, e)
    \<and> s = length noise \<and> Suc e - s = n
    \<and> hdlc_decode (drop s (noise @ ob_as_slice b @ rest)) (ob_new back) = (Inr (length data), b')
    \<and> ob_as_slice b' = data"
proof -
  have "length (hdlc_frame data) \<le> length out"
    using length_hdlc_body [of data] assms(2) by (simp add: hdlc_frame_def)
  then obtain b where b: "hdlc_encode data (ob_new out) = (Inr (length (ob_as_slice b)), b)"
      "ob_as_slice b = hdlc_frame data"
    using hdlc_encode_ok [of "ob_new out" data] by auto
  obtain b' where "hdlc_decode (hdlc_frame data @ rest) (ob_new back) = (Inr (length data), b')"
      "ob_as_slice b' = data"
    using hdlc_decode_frame [of "ob_new back" data rest] assms(3) by auto
  moreover have "hdlc_find (noise @ ob_as_slice b @ rest)
      = Some (length noise, length noise + length (hdlc_frame data) - 1)"
    unfolding b(2) by (rule hdlc_find_frame [OF assms(1)])
  moreover have "length (hdlc_frame data) > 0" by (simp add: hdlc_frame_def)
  ultimately show ?thesis using b by auto
qed

theorem hdlc_stream_roundtrip_witness:
  "\<exists>b n b' s e. hdlc_encode [0x7e, 0x7d, 1] (ob_new (replicate 8 0)) = (Inr n, b) \<and> n = length (ob_as_slice b)
    \<and> hdlc_find ([5, 6] @ ob_as_slice b @ [9]) = Some (s, e)
    \<and> s = length [5::byte, 6] \<and> Suc e - s = n
    \<and> hdlc_decode (drop s ([5, 6] @ ob_as_slice b @ [9])) (ob_new (replicate 3 0))
        = (Inr (length [0x7e::byte, 0x7d, 1]), b')
    \<and> ob_as_slice b' = [0x7e, 0x7d, 1]"
  by (rule hdlc_stream_roundtrip) (simp_all add: HDLC_FRAME_FLAG_def)

text \<open>The encoder succeeds exactly when the escaped frame fits in the room left; a failure is
  always \<open>OutOfMemory\<close>.\<close>

theorem hdlc_encode_iff_fits:
  assumes "ob_wf b"
  shows "(\<exists>n. fst (hdlc_encode data b) = Inr n) = (length (hdlc_frame data) \<le> ob_room b)
    \<and> fst (hdlc_encode data b) \<in> insert (Inl OutOfMemory) (range Inr)"
  using hdlc_encode_ok [OF assms, of data] hdlc_encode_full [OF assms, of data]
  by (cases "length (hdlc_frame data) \<le> ob_room b") auto

theorem hdlc_encode_iff_fits_witness:
  "(\<exists>n. fst (hdlc_encode [0x7e] (ob_new [0, 0, 0])) = Inr n) = (length (hdlc_frame [0x7e]) \<le> ob_room (ob_new [0, 0, 0]))
    \<and> fst (hdlc_encode [0x7e] (ob_new [0, 0, 0])) \<in> insert (Inl OutOfMemory) (range Inr)"
  by (rule hdlc_encode_iff_fits) simp

end
