(* ===== verification/Packets.thy ===== *)
theory Packets
  imports Hdlc
begin

section \<open>Packets (reticulum-patched/src/packet.rs, serde.rs, hash.rs, transport/path_table.rs)\<close>

text \<open>
  The packet header and its one-byte \<open>meta\<close> encoding, the packet context, the packet and its
  serialisation into an \<open>OutputBuffer\<close> and back out of an \<open>InputBuffer\<close>, the address hash and its
  hexadecimal form, the packet hash and the path table that rewrites packets for the next hop.
  SHA-256 comes from a third-party crate: the definitions that hash take it as the argument
  \<open>sha256\<close>.
\<close>

subsection \<open>Header fields\<close>

datatype ifac_flag = Open | Authenticated
datatype header_type = Type1 | Type2
datatype propagation_type = Broadcast | Transport | Reserved1 | Reserved2
datatype destination_type = Single | Group | Plain | Link
datatype packet_type = Data | Announce | LinkRequest | Proof

fun ifac_flag_u8 :: "ifac_flag \<Rightarrow> byte" where
  "ifac_flag_u8 Open = 0" | "ifac_flag_u8 Authenticated = 1"

fun header_type_u8 :: "header_type \<Rightarrow> byte" where
  "header_type_u8 Type1 = 0" | "header_type_u8 Type2 = 1"

fun propagation_type_u8 :: "propagation_type \<Rightarrow> byte" where
  "propagation_type_u8 Broadcast = 0" | "propagation_type_u8 Transport = 1"
| "propagation_type_u8 Reserved1 = 2" | "propagation_type_u8 Reserved2 = 3"

fun destination_type_u8 :: "destination_type \<Rightarrow> byte" where
  "destination_type_u8 Single = 0" | "destination_type_u8 Group = 1"
| "destination_type_u8 Plain = 2" | "destination_type_u8 Link = 3"

fun packet_type_u8 :: "packet_type \<Rightarrow> byte" where
  "packet_type_u8 Data = 0" | "packet_type_u8 Announce = 1"
| "packet_type_u8 LinkRequest = 2" | "packet_type_u8 Proof = 3"

definition ifac_flag_from :: "byte \<Rightarrow> ifac_flag" where
  "ifac_flag_from v = (if v = 0 then Open else if v = 1 then Authenticated else Open)"

definition header_type_from :: "byte \<Rightarrow> header_type" where
  "header_type_from v = (if v AND 1 = 0 then Type1 else if v AND 1 = 1 then Type2 else Type1)"

definition propagation_type_from :: "byte \<Rightarrow> propagation_type" where
  "propagation_type_from v =
     (if v AND 3 = 0 then Broadcast else if v AND 3 = 1 then Transport
      else if v AND 3 = 2 then Reserved1 else if v AND 3 = 3 then Reserved2 else Broadcast)"

definition destination_type_from :: "byte \<Rightarrow> destination_type" where
  "destination_type_from v =
     (if v AND 3 = 0 then Single else if v AND 3 = 1 then Group
      else if v AND 3 = 2 then Plain else if v AND 3 = 3 then Link else Single)"

definition packet_type_from :: "byte \<Rightarrow> packet_type" where
  "packet_type_from v =
     (if v AND 3 = 0 then Data else if v AND 3 = 1 then Announce
      else if v AND 3 = 2 then LinkRequest else if v AND 3 = 3 then Proof else Data)"

datatype packet_context =
    CtxNone | Resource | ResourceAdvrtisement | ResourceRequest | ResourceHashUpdate | ResourceProof
  | ResourceInitiatorCancel | ResourceReceiverCancel | CacheRequest | Request | Response
  | PathResponse | Command | CommandStatus | Channel | KeepAlive | LinkIdentify | LinkClose
  | LinkProof | LinkRTT | LinkRequestProof

fun context_u8 :: "packet_context \<Rightarrow> byte" where
  "context_u8 CtxNone = 0x00" | "context_u8 Resource = 0x01"
| "context_u8 ResourceAdvrtisement = 0x02" | "context_u8 ResourceRequest = 0x03"
| "context_u8 ResourceHashUpdate = 0x04" | "context_u8 ResourceProof = 0x05"
| "context_u8 ResourceInitiatorCancel = 0x06" | "context_u8 ResourceReceiverCancel = 0x07"
| "context_u8 CacheRequest = 0x08" | "context_u8 Request = 0x09" | "context_u8 Response = 0x0A"
| "context_u8 PathResponse = 0x0B" | "context_u8 Command = 0x0C" | "context_u8 CommandStatus = 0x0D"
| "context_u8 Channel = 0x0E" | "context_u8 KeepAlive = 0xFA" | "context_u8 LinkIdentify = 0xFB"
| "context_u8 LinkClose = 0xFC" | "context_u8 LinkProof = 0xFD" | "context_u8 LinkRTT = 0xFE"
| "context_u8 LinkRequestProof = 0xFF"

definition context_from :: "byte \<Rightarrow> packet_context" where
  "context_from v =
     (if v = 0x01 then Resource else if v = 0x02 then ResourceAdvrtisement
      else if v = 0x03 then ResourceRequest else if v = 0x04 then ResourceHashUpdate
      else if v = 0x05 then ResourceProof else if v = 0x06 then ResourceInitiatorCancel
      else if v = 0x07 then ResourceReceiverCancel else if v = 0x08 then CacheRequest
      else if v = 0x09 then Request else if v = 0x0A then Response
      else if v = 0x0B then PathResponse else if v = 0x0C then Command
      else if v = 0x0D then CommandStatus else if v = 0x0E then Channel
      else if v = 0xFA then KeepAlive else if v = 0xFB then LinkIdentify
      else if v = 0xFC then LinkClose else if v = 0xFD then LinkProof
      else if v = 0xFE then LinkRTT else if v = 0xFF then LinkRequestProof
      else CtxNone)"

record header =
  h_ifac_flag :: ifac_flag
  h_header_type :: header_type
  h_propagation_type :: propagation_type
  h_destination_type :: destination_type
  h_packet_type :: packet_type
  h_hops :: byte

definition header_default :: header where
  "header_default = \<lparr>h_ifac_flag = Open, h_header_type = Type1, h_propagation_type = Broadcast,
     h_destination_type = Single, h_packet_type = Data, h_hops = 0\<rparr>"

definition to_meta :: "header \<Rightarrow> byte" where
  "to_meta h =
     push_bit 7 (ifac_flag_u8 (h_ifac_flag h)) OR push_bit 6 (header_type_u8 (h_header_type h))
     OR push_bit 4 (propagation_type_u8 (h_propagation_type h))
     OR push_bit 2 (destination_type_u8 (h_destination_type h))
     OR push_bit 0 (packet_type_u8 (h_packet_type h))"

definition from_meta :: "byte \<Rightarrow> header" where
  "from_meta meta =
     \<lparr>h_ifac_flag = ifac_flag_from (drop_bit 7 meta),
      h_header_type = header_type_from (drop_bit 6 meta),
      h_propagation_type = propagation_type_from (drop_bit 4 meta),
      h_destination_type = destination_type_from (drop_bit 2 meta),
      h_packet_type = packet_type_from (drop_bit 0 meta),
      h_hops = 0\<rparr>"

subsection \<open>Packets and their serialisation\<close>

definition PACKET_MDU :: nat where "PACKET_MDU = 2048"
definition ADDRESS_HASH_SIZE :: nat where "ADDRESS_HASH_SIZE = 16"

record packet_ifac =
  access_code :: bytes
  ifac_length :: nat

record packet =
  p_header :: header
  p_ifac :: "packet_ifac option"
  p_destination :: bytes
  p_transport :: "bytes option"
  p_context :: packet_context
  p_data :: static_buffer

text \<open>\<open>PacketIfac::new_from_slice\<close> indexes a 64-byte array by the slice's length: a longer slice panics.\<close>

definition ifac_new_from_slice :: "bytes \<Rightarrow> packet_ifac option" where
  "ifac_new_from_slice s =
     (if length s \<le> 64 then Some \<lparr>access_code = s @ replicate (64 - length s) 0, ifac_length = length s\<rparr>
      else None)"

definition ifac_as_slice :: "packet_ifac \<Rightarrow> bytes" where
  "ifac_as_slice i = take (ifac_length i) (access_code i)"

definition packet_default :: packet where
  "packet_default = \<lparr>p_header = header_default, p_ifac = None, p_destination = replicate ADDRESS_HASH_SIZE 0,
     p_transport = None, p_context = CtxNone, p_data = sb_new PACKET_MDU\<rparr>"

definition header_serialize :: "header \<Rightarrow> output_buffer \<Rightarrow> (ret_error + nat) \<times> output_buffer" where
  "header_serialize h b = ob_write [to_meta h, h_hops h] b"

definition packet_serialize :: "packet \<Rightarrow> output_buffer \<Rightarrow> (ret_error + nat) \<times> output_buffer" where
  "packet_serialize p b0 =
     (case header_serialize (p_header p) b0 of (Inl e, b1) \<Rightarrow> (Inl e, b1) | (Inr _, b1) \<Rightarrow>
      (case (if h_header_type (p_header p) = Type2
             then (case p_transport p of Some t \<Rightarrow> ob_write t b1 | None \<Rightarrow> (Inr 0, b1))
             else (Inr 0, b1)) of (Inl e, b2) \<Rightarrow> (Inl e, b2) | (Inr _, b2) \<Rightarrow>
       (case ob_write (p_destination p) b2 of (Inl e, b3) \<Rightarrow> (Inl e, b3) | (Inr _, b3) \<Rightarrow>
        (case ob_write [context_u8 (p_context p)] b3 of (Inl e, b4) \<Rightarrow> (Inl e, b4) | (Inr _, b4) \<Rightarrow>
         ob_write (sb_as_slice (p_data p)) b4))))"

definition header_deserialize :: "input_buffer \<Rightarrow> (ret_error + header) \<times> input_buffer" where
  "header_deserialize b0 =
     (case ib_read_byte b0 of (Inl e, b1) \<Rightarrow> (Inl e, b1) | (Inr meta, b1) \<Rightarrow>
      (case ib_read_byte b1 of (Inl e, b2) \<Rightarrow> (Inl e, b2) | (Inr hops, b2) \<Rightarrow>
       (Inr ((from_meta meta)\<lparr>h_hops := hops\<rparr>), b2)))"

definition address_deserialize :: "input_buffer \<Rightarrow> (ret_error + bytes) \<times> input_buffer" where
  "address_deserialize b = ib_read ADDRESS_HASH_SIZE b"

definition context_deserialize :: "input_buffer \<Rightarrow> (ret_error + packet_context) \<times> input_buffer" where
  "context_deserialize b =
     (case ib_read_byte b of (Inl e, b') \<Rightarrow> (Inl e, b') | (Inr v, b') \<Rightarrow> (Inr (context_from v), b'))"

text \<open>\<open>None\<close> is the panic of \<open>accuire_buf\<close> when more bytes are left than a packet holds.\<close>

definition packet_deserialize :: "input_buffer \<Rightarrow> ((ret_error + packet) \<times> input_buffer) option" where
  "packet_deserialize b0 =
     (case header_deserialize b0 of (Inl e, b1) \<Rightarrow> Some (Inl e, b1) | (Inr h, b1) \<Rightarrow>
      (case (if h_header_type h = Type2
             then (case address_deserialize b1 of (Inl e, b2) \<Rightarrow> (Inl e, b2) | (Inr t, b2) \<Rightarrow> (Inr (Some t), b2))
             else (Inr None, b1)) of (Inl e, b2) \<Rightarrow> Some (Inl e, b2) | (Inr transport, b2) \<Rightarrow>
       (case address_deserialize b2 of (Inl e, b3) \<Rightarrow> Some (Inl e, b3) | (Inr destination, b3) \<Rightarrow>
        (case context_deserialize b3 of (Inl e, b4) \<Rightarrow> Some (Inl e, b4) | (Inr ctx, b4) \<Rightarrow>
         (case sb_acquire (ib_bytes_left b4) (sb_new PACKET_MDU) of None \<Rightarrow> None | Some buf \<Rightarrow>
          (case ib_read (ib_bytes_left b4) b4 of (Inl e, b5) \<Rightarrow> Some (Inl e, b5) | (Inr d, b5) \<Rightarrow>
            Some (Inr \<lparr>p_header = h, p_ifac = None, p_destination = destination,
                       p_transport = transport, p_context = ctx,
                       p_data = buf\<lparr>sb_buffer := splice (sb_buffer buf) 0 d\<rparr>\<rparr>, b5)))))))"

definition packet_hash :: "(bytes \<Rightarrow> bytes) \<Rightarrow> packet \<Rightarrow> bytes" where
  "packet_hash sha256 p =
     sha256 ([to_meta (p_header p) AND 0x0f] @ p_destination p @ [context_u8 (p_context p)]
       @ sb_as_slice (p_data p))"

text \<open>The wire form that the writes add up to.\<close>

definition packet_wire :: "packet \<Rightarrow> bytes" where
  "packet_wire p =
     [to_meta (p_header p), h_hops (p_header p)]
     @ (if h_header_type (p_header p) = Type2
        then (case p_transport p of Some t \<Rightarrow> t | None \<Rightarrow> []) else [])
     @ p_destination p @ [context_u8 (p_context p)] @ sb_as_slice (p_data p)"

text \<open>Type invariant of a packet: its hashes have 16 bytes, its data buffer is the packet's, and a
  transport address is present exactly on a type-2 header.\<close>

definition packet_wf :: "packet \<Rightarrow> bool" where
  "packet_wf p \<longleftrightarrow> length (p_destination p) = 16 \<and> sb_wf PACKET_MDU (p_data p)
     \<and> (case p_transport p of None \<Rightarrow> h_header_type (p_header p) = Type1
        | Some t \<Rightarrow> length t = 16 \<and> h_header_type (p_header p) = Type2)"

subsection \<open>Address hashes in hexadecimal\<close>

definition hex_digit :: "nat \<Rightarrow> char" where
  "hex_digit n = (if n < 10 then char_of (48 + n) else char_of (87 + n))"

definition hex_byte :: "byte \<Rightarrow> string" where
  "hex_byte b = [hex_digit (unat b div 16), hex_digit (unat b mod 16)]"

definition to_hex_string :: "bytes \<Rightarrow> string" where
  "to_hex_string h = concat (map hex_byte h)"

definition digit16 :: "char \<Rightarrow> nat option" where
  "digit16 c =
     (let n = of_char c :: nat in
      if 48 \<le> n \<and> n \<le> 57 then Some (n - 48)
      else if 97 \<le> n \<and> n \<le> 102 then Some (n - 87)
      else if 65 \<le> n \<and> n \<le> 70 then Some (n - 55)
      else None)"

text \<open>\<open>u8::from_str_radix(s, 16)\<close> on two characters: a leading plus sign is accepted.\<close>

definition from_str_radix16 :: "char \<Rightarrow> char \<Rightarrow> byte option" where
  "from_str_radix16 c d =
     (if c = CHR ''+'' then map_option of_nat (digit16 d)
      else (case digit16 c of None \<Rightarrow> None | Some h \<Rightarrow>
             (case digit16 d of None \<Rightarrow> None | Some l \<Rightarrow> Some (of_nat (h * 16 + l)))))"

fun parse_hex :: "nat \<Rightarrow> string \<Rightarrow> bytes option" where
  "parse_hex 0 s = Some []"
| "parse_hex (Suc n) (c # d # s) =
     (case from_str_radix16 c d of None \<Rightarrow> None | Some b \<Rightarrow> map_option ((#) b) (parse_hex n s))"
| "parse_hex (Suc n) _ = None"

text \<open>\<open>None\<close> is the panic of \<open>unwrap\<close> on a character that is no digit.\<close>

definition new_from_hex_string :: "string \<Rightarrow> (ret_error + bytes) option" where
  "new_from_hex_string s =
     (if length s < ADDRESS_HASH_SIZE * 2 then Some (Inl IncorrectHash)
      else map_option Inr (parse_hex ADDRESS_HASH_SIZE s))"

subsection \<open>The path table\<close>

record path_entry =
  pe_timestamp :: nat
  received_from :: bytes
  pe_hops :: byte
  pe_iface :: bytes
  pe_packet_hash :: bytes

type_synonym path_table = "(bytes, path_entry) hmap"

definition next_hop_iface :: "path_table \<Rightarrow> bytes \<Rightarrow> bytes option" where
  "next_hop_iface t d = map_option pe_iface (map_of t d)"

definition next_hop :: "path_table \<Rightarrow> bytes \<Rightarrow> bytes option" where
  "next_hop t d = map_option received_from (map_of t d)"

definition path_handle_packet :: "path_table \<Rightarrow> packet \<Rightarrow> packet \<times> bytes option" where
  "path_handle_packet t p =
     (if h_header_type (p_header p) = Type2 then (p, None)
      else if h_packet_type (p_header p) = Announce then (p, None)
      else if h_destination_type (p_header p) = Plain \<or> h_destination_type (p_header p) = Group then (p, None)
      else (case map_of t (p_destination p) of
              None \<Rightarrow> (p, None)
            | Some entry \<Rightarrow>
                (p\<lparr>p_header := (p_header p)\<lparr>h_header_type := Type2\<rparr>,
                   p_transport := Some (received_from entry)\<rparr>, Some (pe_iface entry))))"

subsection \<open>The header byte is a bijection\<close>

lemma from_meta_to_meta: "from_meta (to_meta h) = h\<lparr>h_hops := 0\<rparr>"
proof (cases h)
  case (fields i ht pt dt pk hops)
  then show ?thesis
    by (cases i; cases ht; cases pt; cases dt; cases pk)
      (simp_all add: to_meta_def from_meta_def ifac_flag_from_def header_type_from_def
        propagation_type_from_def destination_type_from_def packet_type_from_def)
qed

lemma word_and_3: "(v AND 3 = 0) \<or> (v AND 3 = 1) \<or> (v AND 3 = 2) \<or> (v AND 3 = 3)" for v :: byte
proof -
  have "v AND 3 = take_bit 2 v" by (simp add: take_bit_eq_mask mask_eq_exp_minus_1)
  then have "unat (v AND 3) = unat v mod 4"
    by (simp only: unsigned_take_bit_eq) (simp add: take_bit_eq_mod)
  then have "unat (v AND 3) < 4" by simp
  then have "unat (v AND 3) \<in> {0,1,2,3}" by (auto simp: less_Suc_eq numeral_eq_Suc)
  then show ?thesis by (auto simp: word_unat_eq_iff)
qed

lemma ifac_back: "ifac_flag_u8 (ifac_flag_from (drop_bit 7 m)) = drop_bit 7 m"
proof -
  have "unat m < 256" by (rule unat_byte_lt)
  moreover from this have "unat (drop_bit 7 m) = unat m div 128"
    by (simp only: unsigned_drop_bit_eq) (simp add: drop_bit_eq_div take_bit_eq_mod)
  ultimately have "unat (drop_bit 7 m) < 2" by simp
  then have "unat (drop_bit 7 m) = 0 \<or> unat (drop_bit 7 m) = 1" by linarith
  then have "drop_bit 7 m = 0 \<or> drop_bit 7 m = 1" by (auto simp: word_unat_eq_iff)
  then show ?thesis by (auto simp: ifac_flag_from_def)
qed

lemma prop_back: "propagation_type_u8 (propagation_type_from v) = v AND 3"
  using word_and_3 [of v] by (auto simp: propagation_type_from_def)

lemma dest_back: "destination_type_u8 (destination_type_from v) = v AND 3"
  using word_and_3 [of v] by (auto simp: destination_type_from_def)

lemma ptype_back: "packet_type_u8 (packet_type_from v) = v AND 3"
  using word_and_3 [of v] by (auto simp: packet_type_from_def)

lemma htype_back: "header_type_u8 (header_type_from v) = v AND 1"
  by (auto simp: header_type_from_def and_one_eq odd_iff_mod_2_eq_one)

lemma bit_3: "bit (3::byte) n \<longleftrightarrow> n < 2"
  by (auto simp: bit_numeral_rec(2) numeral_3_eq_3 bit_1_iff split: nat.split)

lemma to_meta_from_meta: "to_meta (from_meta m) = m"
  unfolding to_meta_def from_meta_def
proof (simp only: header.simps prop_back dest_back ptype_back htype_back ifac_back, rule bit_word_eqI)
  fix n :: nat
  assume "n < LENGTH(8)"
  then have "n \<in> {0,1,2,3,4,5,6,7}" by auto
  then show "bit (push_bit 7 (drop_bit 7 m) OR push_bit 6 (drop_bit 6 m AND 1)
     OR push_bit 4 (drop_bit 4 m AND 3) OR push_bit 2 (drop_bit 2 m AND 3)
     OR push_bit 0 (drop_bit 0 m AND 3)) n = bit m n"
    by (elim insertE emptyE) (simp_all add: bit_simps bit_3)
qed

lemma to_meta_low_nibble:
  "to_meta h AND 0x0f = to_meta (h\<lparr>h_ifac_flag := Open, h_header_type := Type1,
     h_propagation_type := Broadcast, h_hops := 0\<rparr>)"
proof (cases h)
  case (fields i ht pt dt pk hops)
  then show ?thesis
    by (cases i; cases ht; cases pt; cases dt; cases pk) (simp_all add: to_meta_def)
qed

lemma context_from_u8 [simp]: "context_from (context_u8 c) = c"
  by (cases c) (simp_all add: context_from_def)

subsection \<open>Serialisation and parsing\<close>

text \<open>The writes of \<open>serialize\<close>, in order.\<close>

definition packet_pieces :: "packet \<Rightarrow> bytes list" where
  "packet_pieces p =
     [[to_meta (p_header p), h_hops (p_header p)],
      (if h_header_type (p_header p) = Type2
       then (case p_transport p of Some t \<Rightarrow> t | None \<Rightarrow> []) else []),
      p_destination p, [context_u8 (p_context p)], sb_as_slice (p_data p)]"

lemma concat_packet_pieces: "concat (packet_pieces p) = packet_wire p"
  by (simp add: packet_pieces_def packet_wire_def)

lemma ob_write_Nil [simp]: "ob_write [] b = (Inr 0, b)"
  by (simp add: ob_write_def)

definition drop_count :: "(ret_error + nat) \<times> 'b \<Rightarrow> (ret_error + unit) \<times> 'b" where
  "drop_count r = (map_sum id (\<lambda>_. ()) (fst r), snd r)"

lemma put_all_single: "put_all put [d] b = drop_count (put d b)"
  by (simp add: drop_count_def split: prod.split sum.split)

lemma packet_serialize_put_all:
  "drop_count (packet_serialize p b) = put_all ob_write (packet_pieces p) b"
proof -
  have tr: "(if h_header_type (p_header p) = Type2
             then (case p_transport p of Some t \<Rightarrow> ob_write t b1 | None \<Rightarrow> (Inr 0, b1))
             else (Inr 0, b1)) =
        ob_write (if h_header_type (p_header p) = Type2
             then (case p_transport p of Some t \<Rightarrow> t | None \<Rightarrow> []) else []) b1" for b1
    by (simp split: option.split)
  show ?thesis
    unfolding packet_serialize_def packet_pieces_def header_serialize_def tr
    by (simp add: drop_count_def split: prod.split sum.split)
qed

lemma packet_serialize_ok:
  assumes "ob_wf b" and "length (packet_wire p) \<le> ob_room b"
  shows "\<exists>n b'. packet_serialize p b = (Inr n, b') \<and> ob_wf b'
      \<and> ob_as_slice b' = ob_as_slice b @ packet_wire p"
proof -
  obtain b' where "put_all ob_write (packet_pieces p) b = (Inr (), b')" "ob_wf b'"
      "ob_as_slice b' = ob_as_slice b @ packet_wire p"
    using ob.put_all_ok [OF assms(1), of "packet_pieces p"] assms(2)
    by (auto simp: concat_packet_pieces)
  with packet_serialize_put_all [of p b] show ?thesis
    by (cases "packet_serialize p b"; cases "fst (packet_serialize p b)") (auto simp: drop_count_def)
qed

lemma packet_serialize_full:
  assumes "ob_wf b" and "ob_room b < length (packet_wire p)"
  shows "fst (packet_serialize p b) = Inl OutOfMemory"
proof -
  obtain b' where "put_all ob_write (packet_pieces p) b = (Inl OutOfMemory, b')"
    using ob.put_all_full [OF assms(1), of "packet_pieces p"] assms(2)
    by (auto simp: concat_packet_pieces)
  with packet_serialize_put_all [of p b] show ?thesis
    by (cases "packet_serialize p b"; cases "fst (packet_serialize p b)") (auto simp: drop_count_def)
qed

text \<open>Reading at an explicit offset of a datagram.\<close>

lemma ib_read_at:
  "ib_read n \<lparr>ib_buffer = ds, ib_offset = k\<rparr> =
    (if k + n \<le> length ds then (Inr (take n (drop k ds)), \<lparr>ib_buffer = ds, ib_offset = k + n\<rparr>)
     else (Inl OutOfMemory, \<lparr>ib_buffer = ds, ib_offset = k\<rparr>))"
  by (simp add: ib_read_def)

lemma ib_read_byte_at:
  "ib_read_byte \<lparr>ib_buffer = ds, ib_offset = k\<rparr> =
    (if k < length ds then (Inr (ds ! k), \<lparr>ib_buffer = ds, ib_offset = Suc k\<rparr>)
     else (Inl OutOfMemory, \<lparr>ib_buffer = ds, ib_offset = k\<rparr>))"
  by (auto simp: ib_read_byte_def ib_read_at hd_drop_conv_nth take_Suc_conv_app_nth hd_conv_nth)

text \<open>The bytes before the payload: two for the header, sixteen per address, one for the context.\<close>

definition wire_header_len :: "bytes \<Rightarrow> nat" where
  "wire_header_len ds = (if ds \<noteq> [] \<and> h_header_type (from_meta (hd ds)) = Type2 then 35 else 19)"

definition wire_packet :: "bytes \<Rightarrow> packet" where
  "wire_packet ds =
     (let n = wire_header_len ds; payload = drop n ds in
      \<lparr>p_header = (from_meta (ds ! 0))\<lparr>h_hops := ds ! 1\<rparr>, p_ifac = None,
       p_destination = take 16 (drop (n - 17) ds),
       p_transport = (if n = 35 then Some (take 16 (drop 2 ds)) else None),
       p_context = context_from (ds ! (n - 1)),
       p_data = \<lparr>sb_buffer = payload @ replicate (PACKET_MDU - length payload) 0,
                 sb_len = length payload\<rparr>\<rparr>)"

lemma packet_deserialize_cases:
  "map_option fst (packet_deserialize (ib_new ds)) =
    (if length ds < wire_header_len ds then Some (Inl OutOfMemory)
     else if wire_header_len ds + PACKET_MDU < length ds then None
     else Some (Inr (wire_packet ds)))"
proof (cases ds)
  case Nil
  then show ?thesis
    by (simp add: packet_deserialize_def header_deserialize_def ib_new_def ib_read_byte_at wire_header_len_def)
next
  case (Cons x xs)
  then have ne: "ds \<noteq> []" and hd: "ds ! 0 = hd ds" by simp_all
  show ?thesis
  proof (cases "h_header_type (from_meta (hd ds)) = Type2")
    case True
    with ne have w: "wire_header_len ds = 35" by (simp add: wire_header_len_def)
    show ?thesis
      using True hd
      by (auto simp: w packet_deserialize_def header_deserialize_def address_deserialize_def
          context_deserialize_def ADDRESS_HASH_SIZE_def ib_new_def ib_read_byte_at ib_read_at
          ib_bytes_left_def sb_acquire_def sb_new_def splice_def wire_packet_def Let_def numeral_2_eq_2)
  next
    case False
    with ne have w: "wire_header_len ds = 19" by (simp add: wire_header_len_def)
    show ?thesis
      using False hd
      by (auto simp: w packet_deserialize_def header_deserialize_def address_deserialize_def
          context_deserialize_def ADDRESS_HASH_SIZE_def ib_new_def ib_read_byte_at ib_read_at
          ib_bytes_left_def sb_acquire_def sb_new_def splice_def wire_packet_def Let_def numeral_2_eq_2)
  qed
qed

text \<open>A well-formed packet parses back from its wire form, up to the unused tail of its buffer.\<close>

lemma h_type_from_meta: "h_header_type (from_meta (to_meta h)) = h_header_type h"
  by (simp add: from_meta_to_meta)

lemma wire_packet_of_wire:
  assumes "packet_wf p"
  shows "wire_packet (packet_wire p)
    = p\<lparr>p_ifac := None, p_data := \<lparr>sb_buffer = sb_as_slice (p_data p)
          @ replicate (PACKET_MDU - sb_len (p_data p)) 0, sb_len = sb_len (p_data p)\<rparr>\<rparr>"
    and "length (packet_wire p) = wire_header_len (packet_wire p) + sb_len (p_data p)"
  using assms
  by (auto simp: packet_wf_def wire_packet_def packet_wire_def wire_header_len_def Let_def
      h_type_from_meta from_meta_to_meta sb_as_slice_def sb_wf_def numeral_2_eq_2 nth_append
      split: option.splits)

subsection \<open>Hexadecimal strings\<close>

lemma digit16_hex_digit: "n < 16 \<Longrightarrow> digit16 (hex_digit n) = Some n"
  by (auto simp: digit16_def hex_digit_def Let_def)

lemma hex_digit_not_plus: "n < 16 \<Longrightarrow> hex_digit n \<noteq> CHR ''+''"
  using digit16_hex_digit [of n] by (auto simp: digit16_def)

lemma from_str_radix16_hex_byte:
  "from_str_radix16 (hex_digit (unat b div 16)) (hex_digit (unat b mod 16)) = Some b"
proof -
  have "unat b div 16 < 16" using unat_byte_lt [of b] by simp
  moreover have "unat b mod 16 < 16" by simp
  moreover have "unat b div 16 * 16 + unat b mod 16 = unat b" by simp
  ultimately show ?thesis
    by (simp only: from_str_radix16_def digit16_hex_digit hex_digit_not_plus option.case if_False) simp
qed

lemma parse_hex_to_hex_string: "parse_hex (length h) (to_hex_string h @ rest) = Some h"
  by (induction h) (simp_all add: to_hex_string_def hex_byte_def from_str_radix16_hex_byte)

lemma length_to_hex_string: "length (to_hex_string h) = 2 * length h"
  by (induction h) (simp_all add: to_hex_string_def hex_byte_def)

lemma path_keeps_hash: "packet_hash sha256 (fst (path_handle_packet t p)) = packet_hash sha256 p"
proof -
  have nib: "to_meta (h\<lparr>h_header_type := x\<rparr>) AND 0x0f = to_meta h AND 0x0f" for h x
    by (simp add: to_meta_low_nibble)
  show ?thesis
    by (simp add: path_handle_packet_def packet_hash_def nib split: option.split)
qed

subsection \<open>Properties\<close>

text \<open>The one-byte header encoding is a bijection: every header (with its hop count, which
  travels in its own byte, cleared) is recovered from its meta byte, and every byte is the meta
  byte of the header it decodes to.\<close>

theorem meta_bijection: "from_meta (to_meta h) = h\<lparr>h_hops := 0\<rparr> \<and> to_meta (from_meta m) = m"
  by (simp add: from_meta_to_meta to_meta_from_meta)

text \<open>C19. Wire round trip: a well-formed packet serialised into an empty output buffer with enough
  room parses back to the same header, addresses, context and payload.\<close>

theorem packet_roundtrip:
  assumes "packet_wf p" and "length (packet_wire p) \<le> length backing"
  shows "\<exists>n b p' b'. packet_serialize p (ob_new backing) = (Inr n, b)
    \<and> packet_deserialize (ib_new (ob_as_slice b)) = Some (Inr p', b')
    \<and> p' = p\<lparr>p_ifac := None, p_data := p_data p'\<rparr>
    \<and> sb_as_slice (p_data p') = sb_as_slice (p_data p) \<and> packet_wf p'"
proof -
  obtain n b where b: "packet_serialize p (ob_new backing) = (Inr n, b)" "ob_as_slice b = packet_wire p"
    using packet_serialize_ok [of "ob_new backing" p] assms(2) by auto
  note w = wire_packet_of_wire [OF assms(1)]
  have len: "sb_len (p_data p) \<le> PACKET_MDU" "length (sb_buffer (p_data p)) = PACKET_MDU"
    using assms(1) by (simp_all add: packet_wf_def sb_wf_def)
  have "map_option fst (packet_deserialize (ib_new (packet_wire p))) = Some (Inr (wire_packet (packet_wire p)))"
    using w(2) len by (simp add: packet_deserialize_cases)
  then obtain b' where "packet_deserialize (ib_new (packet_wire p)) = Some (Inr (wire_packet (packet_wire p)), b')"
    by auto
  moreover have "packet_wf (wire_packet (packet_wire p))"
    using assms(1) len unfolding w(1) by (simp add: packet_wf_def sb_wf_def sb_as_slice_def split: option.splits)
  ultimately show ?thesis
    using b len by (auto simp: w(1) sb_as_slice_def)
qed

definition sample_packet :: packet where
  "sample_packet = \<lparr>p_header = header_default\<lparr>h_packet_type := Proof, h_hops := 3\<rparr>, p_ifac = None,
     p_destination = replicate 16 7, p_transport = None, p_context = LinkProof, p_data = sb_new PACKET_MDU\<rparr>"

lemma sample_packet_wf: "packet_wf sample_packet" "length (packet_wire sample_packet) = 19"
  by (simp_all add: packet_wf_def sample_packet_def header_default_def packet_wire_def)

theorem packet_roundtrip_witness:
  "\<exists>n b p' b'. packet_serialize sample_packet (ob_new (replicate 64 0)) = (Inr n, b)
    \<and> packet_deserialize (ib_new (ob_as_slice b)) = Some (Inr p', b')
    \<and> p' = sample_packet\<lparr>p_ifac := None, p_data := p_data p'\<rparr>
    \<and> sb_as_slice (p_data p') = sb_as_slice (p_data sample_packet) \<and> packet_wf p'"
  by (rule packet_roundtrip) (simp_all add: sample_packet_wf)

text \<open>C38. Every datagram is classified by its length alone: shorter than its header it is refused
  with \<open>OutOfMemory\<close>; with more than 2048 payload bytes the parser panics (an attacker-controlled
  slice index, \<open>accuire_buf\<close>); otherwise it parses to exactly the packet its bytes describe.\<close>

theorem packet_deserialize_total:
  "map_option fst (packet_deserialize (ib_new ds)) =
    (if length ds < wire_header_len ds then Some (Inl OutOfMemory)
     else if wire_header_len ds + PACKET_MDU < length ds then None
     else Some (Inr (wire_packet ds)))"
  by (rule packet_deserialize_cases)

text \<open>Path rewriting: the packet that the path table hands to the next hop keeps its hash (so
  duplicate detection and proofs still recognise it), and it goes to the interface and through the
  transport of the table's entry for its destination; a packet the table cannot route is unchanged.\<close>

theorem path_handle_packet_keeps_hash:
  "packet_hash sha256 (fst (path_handle_packet t p)) = packet_hash sha256 p
   \<and> snd (path_handle_packet t p) =
       (if h_header_type (p_header p) = Type1 \<and> h_packet_type (p_header p) \<noteq> Announce
           \<and> h_destination_type (p_header p) \<in> {Single, Link}
        then next_hop_iface t (p_destination p) else None)
   \<and> (if snd (path_handle_packet t p) = None then fst (path_handle_packet t p) = p
      else p_transport (fst (path_handle_packet t p)) = next_hop t (p_destination p)
           \<and> h_header_type (p_header (fst (path_handle_packet t p))) = Type2)"
proof -
  have ht: "h_header_type (p_header p) = Type2 \<or> h_header_type (p_header p) = Type1"
    by (cases "h_header_type (p_header p)") simp_all
  have dt: "h_destination_type (p_header p) \<in> {Plain, Group} \<or> h_destination_type (p_header p) \<in> {Single, Link}"
    by (cases "h_destination_type (p_header p)") simp_all
  show ?thesis
    using ht dt path_keeps_hash [of sha256 t p]
    by (auto simp: path_handle_packet_def next_hop_iface_def next_hop_def split: option.splits)
qed

text \<open>An address hash printed in hexadecimal parses back to itself, and any shorter string is
  refused.\<close>

theorem hex_string_roundtrip:
  assumes "length h = ADDRESS_HASH_SIZE"
  shows "new_from_hex_string (to_hex_string h @ rest) = Some (Inr h)
    \<and> (length s < 32 \<longrightarrow> new_from_hex_string s = Some (Inl IncorrectHash))"
  using parse_hex_to_hex_string [of h rest] assms
  by (simp add: new_from_hex_string_def length_to_hex_string ADDRESS_HASH_SIZE_def)

theorem hex_string_roundtrip_witness:
  "new_from_hex_string (to_hex_string (replicate 16 0xa7) @ ''zz'') = Some (Inr (replicate 16 0xa7))
    \<and> new_from_hex_string ''a7'' = Some (Inl IncorrectHash)"
  using hex_string_roundtrip [of "replicate 16 0xa7" "''zz''" "''a7''"]
  by (simp only: ADDRESS_HASH_SIZE_def length_replicate) simp

end
