(* ===== verification/Tcp_Stream.thy ===== *)
theory Tcp_Stream
  imports Packets
begin

section \<open>Packets over a TCP stream (reticulum-patched/src/iface/tcp_client.rs)\<close>

text \<open>
  The transmit task serialises a packet, frames it and writes the frame; the receive task pushes
  every byte it reads into a sliding window, looks for a frame in the window after each byte,
  decodes it, parses the packet, clears the frame and goes on. \<open>N\<close> is \<open>BUFFER_SIZE\<close>, twice the
  compiler's size of a \<open>Packet\<close>. A parser panic ends the task: it is \<open>None\<close>. Sockets,
  cancellation and channels are not modelled: the bytes of the reads are the input, the messages
  sent to the channel (and the warnings) are the events of the output.
\<close>

subsection \<open>Definitions\<close>

record rx_state =
  rx_buffer :: bytes
  hdlc_rx_buffer :: bytes

datatype rx_event = RxPacket packet | RxBadPacket | RxBadFrame

definition rx_init :: "nat \<Rightarrow> rx_state" where
  "rx_init N = \<lparr>rx_buffer = replicate (N + N div 2) 0, hdlc_rx_buffer = replicate N 0\<rparr>"

text \<open>One iteration of \<open>for i in 0..n\<close>.\<close>

definition rx_byte :: "nat \<Rightarrow> byte \<Rightarrow> rx_state \<Rightarrow> (rx_event list \<times> rx_state) option" where
  "rx_byte N x s =
     (let buf = (rx_buffer s)[N - 1 := x] in
      case hdlc_find buf of
        None \<Rightarrow> Some ([], s\<lparr>rx_buffer := tl buf @ [last buf]\<rparr>)
      | Some (f0, f1) \<Rightarrow>
         (let n = f1 + 1 - f0; frame_buffer = take n (drop f0 buf); cleared = splice buf f0 (replicate n 0) in
          case hdlc_decode frame_buffer (ob_new (hdlc_rx_buffer s)) of
            (Inl e, out) \<Rightarrow> Some ([RxBadFrame], \<lparr>rx_buffer = cleared, hdlc_rx_buffer = ob_buffer out\<rparr>)
          | (Inr _, out) \<Rightarrow>
             (case packet_deserialize (ib_new (ob_as_slice out)) of
                None \<Rightarrow> None
              | Some (Inl e, _) \<Rightarrow> Some ([RxBadPacket], \<lparr>rx_buffer = cleared, hdlc_rx_buffer = ob_buffer out\<rparr>)
              | Some (Inr p, _) \<Rightarrow> Some ([RxPacket p], \<lparr>rx_buffer = cleared, hdlc_rx_buffer = ob_buffer out\<rparr>))))"

fun rx_bytes :: "nat \<Rightarrow> bytes \<Rightarrow> rx_state \<Rightarrow> (rx_event list \<times> rx_state) option" where
  "rx_bytes N [] s = Some ([], s)"
| "rx_bytes N (x # xs) s =
     (case rx_byte N x s of
        None \<Rightarrow> None
      | Some (es, s1) \<Rightarrow>
         (case rx_bytes N xs s1 of None \<Rightarrow> None | Some (fs, s2) \<Rightarrow> Some (es @ fs, s2)))"

text \<open>The outer loop: one list of bytes per successful \<open>read\<close>.\<close>

fun rx_reads :: "nat \<Rightarrow> bytes list \<Rightarrow> rx_state \<Rightarrow> (rx_event list \<times> rx_state) option" where
  "rx_reads N [] s = Some ([], s)"
| "rx_reads N (c # cs) s =
     (case rx_bytes N c s of
        None \<Rightarrow> None
      | Some (es, s1) \<Rightarrow>
         (case rx_reads N cs s1 of None \<Rightarrow> None | Some (fs, s2) \<Rightarrow> Some (es @ fs, s2)))"

text \<open>What the transmit task writes for one packet; nothing when a buffer is too small.\<close>

definition tx_packet :: "nat \<Rightarrow> packet \<Rightarrow> bytes" where
  "tx_packet N p =
     (case packet_serialize p (ob_new (replicate N 0)) of
        (Inl e, _) \<Rightarrow> []
      | (Inr _, output) \<Rightarrow>
         (case hdlc_encode (ob_as_slice output) (ob_new (replicate N 0)) of
            (Inl e, _) \<Rightarrow> []
          | (Inr _, hdlc_output) \<Rightarrow> ob_as_slice hdlc_output))"

subsection \<open>The sliding window\<close>

text \<open>Between two bytes the receive buffer is a window of \<open>N - 1\<close> bytes followed by zeros.\<close>

definition rx_window :: "nat \<Rightarrow> bytes \<Rightarrow> rx_state \<Rightarrow> bool" where
  "rx_window N w s \<longleftrightarrow> length w = N - 1 \<and> rx_buffer s = w @ replicate (Suc (N div 2)) 0
     \<and> length (hdlc_rx_buffer s) = N"

definition rx_clean :: "nat \<Rightarrow> rx_state \<Rightarrow> bool" where
  "rx_clean N s \<longleftrightarrow> (\<exists>w. rx_window N w s \<and> HDLC_FRAME_FLAG \<notin> set w)"

lemma rx_clean_init: "0 < N \<Longrightarrow> rx_clean N (rx_init N)"
proof -
  assume "0 < N"
  then have "replicate (N + N div 2) (0 :: byte) = replicate (N - 1) 0 @ replicate (Suc (N div 2)) 0"
    by (simp only: replicate_add [symmetric]) simp
  then have "rx_window N (replicate (N - 1) 0) (rx_init N)"
    by (simp add: rx_window_def rx_init_def)
  then show ?thesis
    unfolding rx_clean_def by (intro exI [of _ "replicate (N - 1) 0"]) (simp add: HDLC_FRAME_FLAG_def)
qed

lemma flag_nonzero: "HDLC_FRAME_FLAG \<noteq> 0" "(0 :: byte) \<noteq> HDLC_FRAME_FLAG"
  by (simp_all add: HDLC_FRAME_FLAG_def)

lemma window_push:
  "length w = N - 1 \<Longrightarrow> (w @ replicate (Suc m) 0)[N - 1 := x] = w @ x # replicate m 0"
  by (simp add: list_update_append)

lemma hdlc_find_none:
  "HDLC_FRAME_FLAG \<notin> set xs \<Longrightarrow> hdlc_find_loop i start xs = None"
  by (induction xs arbitrary: i) auto

lemma hdlc_find_one:
  "HDLC_FRAME_FLAG \<notin> set a \<Longrightarrow> HDLC_FRAME_FLAG \<notin> set b \<Longrightarrow>
    hdlc_find (a @ HDLC_FRAME_FLAG # b) = None"
  by (simp add: hdlc_find_def hdlc_find_loop_skip hdlc_find_none)

lemma hdlc_find_two:
  "HDLC_FRAME_FLAG \<notin> set a \<Longrightarrow> HDLC_FRAME_FLAG \<notin> set b \<Longrightarrow>
    hdlc_find (a @ HDLC_FRAME_FLAG # b @ HDLC_FRAME_FLAG # c) = Some (length a, Suc (length a + length b))"
  by (simp add: hdlc_find_def hdlc_find_loop_skip)

text \<open>A byte that completes no frame slides into the window.\<close>

lemma rx_byte_slide:
  assumes "rx_window N w s" and "1 < N" and "hdlc_find (w @ x # replicate (N div 2) 0) = None"
  shows "\<exists>s'. rx_byte N x s = Some ([], s') \<and> rx_window N (tl w @ [x]) s'"
proof -
  let ?buf = "w @ x # replicate (N div 2) 0"
  have ne: "w \<noteq> []" "N div 2 = Suc (N div 2 - 1)" using assms(1,2) by (auto simp: rx_window_def)
  have "tl ?buf @ [last ?buf] = (tl w @ [x]) @ replicate (Suc (N div 2)) 0"
    using ne(1) ne(2) by (subst (1 2) ne(2)) (simp add: replicate_append_same)
  moreover have "(rx_buffer s)[N - 1 := x] = ?buf"
    using assms(1) window_push [of w N "N div 2" x] by (simp add: rx_window_def)
  ultimately show ?thesis
    using assms by (auto simp: rx_byte_def Let_def rx_window_def)
qed

lemma rx_bytes_append:
  "rx_bytes N (xs @ ys) s =
    (case rx_bytes N xs s of None \<Rightarrow> None
     | Some (es, s1) \<Rightarrow> (case rx_bytes N ys s1 of None \<Rightarrow> None | Some (fs, s2) \<Rightarrow> Some (es @ fs, s2)))"
  by (induction xs arbitrary: s) (auto split: option.splits)

lemma rx_reads_concat: "rx_reads N cs s = rx_bytes N (concat cs) s"
  by (induction cs arbitrary: s) (simp_all add: rx_bytes_append split: option.split)

text \<open>Flag-free bytes after an opening flag are collected behind it.\<close>

lemma rx_bytes_body:
  assumes "rx_window N (a @ HDLC_FRAME_FLAG # b) s" and "1 < N"
    and "HDLC_FRAME_FLAG \<notin> set a" "HDLC_FRAME_FLAG \<notin> set b" "HDLC_FRAME_FLAG \<notin> set ys"
    and "length b + length ys + 2 \<le> N"
  shows "\<exists>a' s'. rx_bytes N ys s = Some ([], s') \<and> rx_window N (a' @ HDLC_FRAME_FLAG # b @ ys) s'
      \<and> HDLC_FRAME_FLAG \<notin> set a'"
  using assms
proof (induction ys arbitrary: a b s)
  case Nil
  then show ?case by auto
next
  case (Cons y ys)
  have "length a + length b + 1 = N - 1" using Cons.prems(1) by (simp add: rx_window_def)
  with Cons.prems(6) obtain z a1 where a: "a = z # a1" by (cases a) auto
  have "hdlc_find (a @ HDLC_FRAME_FLAG # (b @ y # replicate (N div 2) 0)) = None"
    using Cons.prems flag_nonzero by (intro hdlc_find_one) auto
  then obtain s1 where s1: "rx_byte N y s = Some ([], s1)" "rx_window N (a1 @ HDLC_FRAME_FLAG # (b @ [y])) s1"
    using rx_byte_slide [OF Cons.prems(1,2), of y] a by auto
  have "\<exists>a' s'. rx_bytes N ys s1 = Some ([], s') \<and> rx_window N (a' @ HDLC_FRAME_FLAG # (b @ [y]) @ ys) s'
      \<and> HDLC_FRAME_FLAG \<notin> set a'"
    using Cons.prems a by (intro Cons.IH [OF s1(2)]) auto
  with s1(1) show ?case by auto
qed

lemma ob_buffer_new: "ob_buffer (ob_new backing) = backing"
  by (simp add: ob_new_def)

lemma ob_write_length: "length (ob_buffer (snd (ob_write d b))) = length (ob_buffer b)"
  by (simp add: ob_write_def length_splice)

lemma hdlc_decode_loop_buffer:
  "length (ob_buffer (snd (hdlc_decode_loop st esc xs b))) = length (ob_buffer b)"
proof (induction st esc xs b rule: hdlc_decode_loop.induct)
  case (2 started escape x xs b)
  then show ?case
    using ob_write_length [of "[x XOR HDLC_ESCAPE_MASK]" b] ob_write_length [of "[x]" b]
    by (auto simp: ob_write_byte_def split: prod.splits sum.splits)
qed simp

lemma hdlc_decode_buffer: "length (ob_buffer (snd (hdlc_decode xs b))) = length (ob_buffer b)"
  using hdlc_decode_loop_buffer [of False False xs b]
  by (auto simp: hdlc_decode_def split: prod.splits sum.splits)

text \<open>The closing flag completes the frame, which is decoded and cleared.\<close>

lemma rx_byte_close:
  assumes "rx_window N (a @ HDLC_FRAME_FLAG # hdlc_body d) s" and "0 < N"
    and "HDLC_FRAME_FLAG \<notin> set a" and "length d \<le> N"
    and "map_option fst (packet_deserialize (ib_new d)) = Some (Inr p)"
  shows "\<exists>s'. rx_byte N HDLC_FRAME_FLAG s = Some ([RxPacket p], s') \<and> rx_clean N s'"
proof -
  let ?b = "hdlc_body d" and ?z = "replicate (N div 2) (0 :: byte)"
  let ?buf = "a @ HDLC_FRAME_FLAG # ?b @ HDLC_FRAME_FLAG # ?z"
  have len: "length a + length ?b + 2 = N" and hlen: "length (hdlc_rx_buffer s) = N"
    using assms(1,2) by (auto simp: rx_window_def)
  have buf: "(rx_buffer s)[N - 1 := HDLC_FRAME_FLAG] = ?buf"
    using assms(1) window_push [of "a @ HDLC_FRAME_FLAG # ?b" N "N div 2" HDLC_FRAME_FLAG]
    by (simp add: rx_window_def)
  have find: "hdlc_find ?buf = Some (length a, Suc (length a + length ?b))"
    using assms(3) hdlc_body_no_flag by (rule hdlc_find_two)
  have n: "Suc (length a + length ?b) + 1 - length a = length (hdlc_frame d)"
    by (simp add: hdlc_frame_def)
  have frame: "take (length (hdlc_frame d)) (drop (length a) ?buf) = hdlc_frame d"
    by (simp add: hdlc_frame_def)
  have clear: "splice ?buf (length a) (replicate (length (hdlc_frame d)) 0)
      = (a @ replicate (Suc (length ?b)) 0) @ replicate (Suc (N div 2)) 0"
    by (simp add: splice_def hdlc_frame_def replicate_app_Cons_same)
  obtain out where out: "hdlc_decode (hdlc_frame d) (ob_new (hdlc_rx_buffer s)) = (Inr (length d), out)"
      "ob_as_slice out = d" "ob_wf out" "length (ob_buffer out) = N"
    using hdlc_decode_frame [of "ob_new (hdlc_rx_buffer s)" d "[]"] assms(4) hlen
      hdlc_decode_buffer [of "hdlc_frame d" "ob_new (hdlc_rx_buffer s)"]
      ob_buffer_new [of "hdlc_rx_buffer s"]
    by auto
  obtain ib where ib: "packet_deserialize (ib_new d) = Some (Inr p, ib)"
    using assms(5) by (cases "packet_deserialize (ib_new d)") auto
  let ?s' = "\<lparr>rx_buffer = splice ?buf (length a) (replicate (length (hdlc_frame d)) 0), hdlc_rx_buffer = ob_buffer out\<rparr>"
  have "rx_byte N HDLC_FRAME_FLAG s = Some ([RxPacket p], ?s')"
    unfolding rx_byte_def buf Let_def find by (simp only: option.case prod.case n frame out sum.case ib)
  moreover have "rx_window N (a @ replicate (Suc (length ?b)) 0) ?s'"
    using len out(4) unfolding rx_window_def rx_state.simps clear by simp
  then have "rx_clean N ?s'"
    unfolding rx_clean_def using assms(3) flag_nonzero
    by (intro exI [of _ "a @ replicate (Suc (length ?b)) 0"]) simp
  ultimately show ?thesis by blast
qed

text \<open>A whole frame of a packet, fed to a clean receiver.\<close>

lemma rx_bytes_frame:
  assumes "rx_clean N s" and "length (hdlc_frame d) \<le> N"
    and "map_option fst (packet_deserialize (ib_new d)) = Some (Inr p)"
  shows "\<exists>s'. rx_bytes N (hdlc_frame d) s = Some ([RxPacket p], s') \<and> rx_clean N s'"
proof -
  have N: "1 < N" "length (hdlc_body d) + 2 \<le> N" using assms(2) by (auto simp: hdlc_frame_def)
  then have d: "length d \<le> N" using length_hdlc_body [of d] by simp
  obtain w where w: "rx_window N w s" "HDLC_FRAME_FLAG \<notin> set w" using assms(1) by (auto simp: rx_clean_def)
  have "hdlc_find (w @ HDLC_FRAME_FLAG # replicate (N div 2) 0) = None"
    using w(2) flag_nonzero by (intro hdlc_find_one) auto
  then obtain s1 where s1: "rx_byte N HDLC_FRAME_FLAG s = Some ([], s1)" "rx_window N (tl w @ HDLC_FRAME_FLAG # []) s1"
    using rx_byte_slide [OF w(1) N(1), of HDLC_FRAME_FLAG] by auto
  have "HDLC_FRAME_FLAG \<notin> set (tl w)" using w(2) by (cases w) auto
  then obtain a' s2 where s2: "rx_bytes N (hdlc_body d) s1 = Some ([], s2)"
      "rx_window N (a' @ HDLC_FRAME_FLAG # hdlc_body d) s2" "HDLC_FRAME_FLAG \<notin> set a'"
    using rx_bytes_body [OF s1(2) N(1), of "hdlc_body d"] hdlc_body_no_flag N(2) by auto
  obtain s3 where "rx_byte N HDLC_FRAME_FLAG s2 = Some ([RxPacket p], s3)" "rx_clean N s3"
    using rx_byte_close [OF s2(2) _ s2(3) d assms(3)] N(1) by auto
  with s1(1) s2(1) show ?thesis
    by (simp add: hdlc_frame_def rx_bytes_append)
qed

text \<open>The transmitter's bytes for a well-formed packet are the frame of its wire form; 4168 bytes
  hold the frame of the largest packet with every byte escaped.\<close>

lemma packet_wire_bound: "packet_wf p \<Longrightarrow> length (packet_wire p) \<le> 2083"
  by (auto simp: packet_wf_def packet_wire_def sb_as_slice_def sb_wf_def PACKET_MDU_def split: option.splits)

lemma tx_packet_frame:
  assumes "packet_wf p" and "4168 \<le> N"
  shows "tx_packet N p = hdlc_frame (packet_wire p)" and "length (hdlc_frame (packet_wire p)) \<le> N"
proof -
  have len: "length (packet_wire p) \<le> 2083" by (rule packet_wire_bound [OF assms(1)])
  then show N: "length (hdlc_frame (packet_wire p)) \<le> N"
    using length_hdlc_body [of "packet_wire p"] assms(2) by (simp add: hdlc_frame_def)
  obtain n b where b: "packet_serialize p (ob_new (replicate N 0)) = (Inr n, b)" "ob_as_slice b = packet_wire p"
    using packet_serialize_ok [of "ob_new (replicate N 0)" p] len assms(2) by auto
  obtain b' where "hdlc_encode (packet_wire p) (ob_new (replicate N 0)) = (Inr (length (ob_as_slice b')), b')"
      "ob_as_slice b' = hdlc_frame (packet_wire p)"
    using hdlc_encode_ok [of "ob_new (replicate N 0)" "packet_wire p"] N by auto
  with b show "tx_packet N p = hdlc_frame (packet_wire p)" by (simp add: tx_packet_def)
qed

lemma packet_wire_cong:
  "p_header q = p_header p \<Longrightarrow> p_destination q = p_destination p \<Longrightarrow> p_transport q = p_transport p \<Longrightarrow>
    p_context q = p_context p \<Longrightarrow> sb_as_slice (p_data q) = sb_as_slice (p_data p) \<Longrightarrow>
    packet_wire q = packet_wire p"
  by (simp add: packet_wire_def)

lemma packet_deserialize_wire:
  assumes "packet_wf p"
  shows "map_option fst (packet_deserialize (ib_new (packet_wire p))) = Some (Inr (wire_packet (packet_wire p)))"
  using wire_packet_of_wire(2) [OF assms] assms
  by (simp add: packet_deserialize_cases packet_wf_def sb_wf_def)

lemma rx_bytes_tx:
  assumes "4168 \<le> N" and "\<forall>p \<in> set ps. packet_wf p" and "rx_clean N s"
  shows "\<exists>s'. rx_bytes N (concat (map (tx_packet N) ps)) s
      = Some (map (\<lambda>p. RxPacket (wire_packet (packet_wire p))) ps, s') \<and> rx_clean N s'"
  using assms(2,3)
proof (induction ps arbitrary: s)
  case (Cons p ps)
  note tx = tx_packet_frame [of p N, OF _ assms(1)]
  obtain s1 where s1: "rx_bytes N (tx_packet N p) s = Some ([RxPacket (wire_packet (packet_wire p))], s1)" "rx_clean N s1"
    using rx_bytes_frame [OF Cons.prems(2) _ packet_deserialize_wire] tx Cons.prems(1) by auto
  with Cons.IH [OF _ s1(2)] Cons.prems(1) show ?case by (auto simp: rx_bytes_append)
qed simp

subsection \<open>Properties\<close>

text \<open>C2. End to end over a byte stream: whatever well-formed packets one side transmits, in
  whatever pieces the network hands the bytes to the other side, a receiver that starts clean emits
  exactly these packets (same header, addresses, context and payload), in order and without a
  warning, and ends clean.\<close>

theorem tcp_stream_delivers:
  assumes "4168 \<le> N" and "\<forall>p \<in> set ps. packet_wf p" and "rx_clean N s"
    and "concat reads = concat (map (tx_packet N) ps)"
  shows "\<exists>qs s'. rx_reads N reads s = Some (map RxPacket qs, s') \<and> rx_clean N s'
    \<and> map packet_wire qs = map packet_wire ps \<and> map p_header qs = map p_header ps
    \<and> map p_destination qs = map p_destination ps \<and> map p_transport qs = map p_transport ps
    \<and> map p_context qs = map p_context ps
    \<and> map (sb_as_slice \<circ> p_data) qs = map (sb_as_slice \<circ> p_data) ps"
proof -
  let ?q = "\<lambda>p. wire_packet (packet_wire p)"
  obtain s' where "rx_bytes N (concat reads) s = Some (map RxPacket (map ?q ps), s')" "rx_clean N s'"
    using rx_bytes_tx [OF assms(1-3)] by (auto simp: assms(4) comp_def)
  moreover have "p_header (?q p) = p_header p" "p_destination (?q p) = p_destination p"
      "p_transport (?q p) = p_transport p" "p_context (?q p) = p_context p"
      "sb_as_slice (p_data (?q p)) = sb_as_slice (p_data p)" if "p \<in> set ps" for p
    using assms(2) that wire_packet_of_wire(1) [of p]
    by (auto simp: packet_wf_def sb_wf_def sb_as_slice_def)
  moreover from this have "packet_wire (?q p) = packet_wire p" if "p \<in> set ps" for p
    using that by (intro packet_wire_cong)
  ultimately show ?thesis
    by (intro exI [of _ "map ?q ps"] exI [of _ s']) (simp add: rx_reads_concat)
qed

theorem tcp_stream_delivers_witness:
  "\<exists>qs s'. rx_reads 4168 [tx_packet 4168 sample_packet] (rx_init 4168) = Some (map RxPacket qs, s') \<and> rx_clean 4168 s'
    \<and> map packet_wire qs = map packet_wire [sample_packet] \<and> map p_header qs = map p_header [sample_packet]
    \<and> map p_destination qs = map p_destination [sample_packet] \<and> map p_transport qs = map p_transport [sample_packet]
    \<and> map p_context qs = map p_context [sample_packet]
    \<and> map (sb_as_slice \<circ> p_data) qs = map (sb_as_slice \<circ> p_data) [sample_packet]"
  by (rule tcp_stream_delivers) (simp_all add: sample_packet_wf rx_clean_init)

end
