(* ===== verification/Floats.thy ===== *)
theory Floats
  imports Prelude
begin

section \<open>IEEE double precision (f64) as used by the sources\<close>

text \<open>
  Timestamps are \<open>f64\<close> in the sources. Here a \<open>f64\<close> is its 64-bit pattern. The operations that the
  code performs on it are executable definitions on patterns: conversions from integers and from
  \<open>f32\<close>, addition, subtraction, multiplication, division (round to nearest, ties to even),
  comparisons, \<open>max\<close> and the saturating cast to \<open>u64\<close>. A nonnegative rational \<open>n / d\<close> is rounded by
  \<open>f64_round\<close>. A NaN result is the canonical quiet NaN.
\<close>

unbundle bit_operations_syntax

type_synonym f64 = "64 word"

fun bit_len :: "nat \<Rightarrow> nat" where
  "bit_len n = (if n = 0 then 0 else Suc (bit_len (n div 2)))"

declare bit_len.simps [simp del]

subsection \<open>Rounding\<close>

text \<open>\<open>n / d\<close> rounded to the nearest integer, ties to even.\<close>

definition round_half_even :: "nat \<Rightarrow> nat \<Rightarrow> nat" where
  "round_half_even n d =
     (let q = n div d; r = n mod d in
      if 2 * r > d \<or> (2 * r = d \<and> odd q) then q + 1 else q)"

text \<open>The exponent \<open>e\<close> with \<open>2 ^ e \<le> n / d < 2 ^ (e + 1)\<close>, for positive \<open>n\<close> and \<open>d\<close>.\<close>

definition ratio_exp :: "nat \<Rightarrow> nat \<Rightarrow> int" where
  "ratio_exp n d =
     (let e = int (bit_len n) - int (bit_len d) in
      if (if 0 \<le> e then d * 2 ^ nat e \<le> n else d \<le> n * 2 ^ nat (- e)) then e else e - 1)"

text \<open>The pattern (without sign) of the double nearest to \<open>n / d\<close>; the last place has the weight
  \<open>2 ^ u\<close>, at least \<open>2 ^ -1074\<close>, and everything from \<open>2 ^ 1024\<close> on is infinity.\<close>

definition f64_round :: "nat \<Rightarrow> nat \<Rightarrow> nat" where
  "f64_round n d =
     (if n = 0 then 0
      else (let u = max (ratio_exp n d - 52) (- 1074);
                k = (if 0 \<le> u then round_half_even n (d * 2 ^ nat u)
                     else round_half_even (n * 2 ^ nat (- u)) d) in
            min (nat (u + 1074) * 2 ^ 52 + k) (2047 * 2 ^ 52)))"

definition with_sign :: "bool \<Rightarrow> nat \<Rightarrow> f64" where
  "with_sign neg bits = of_nat ((if neg then 2 ^ 63 else 0) + bits)"

subsection \<open>Conversions\<close>

definition u64_to_f64 :: "nat \<Rightarrow> f64" where
  "u64_to_f64 n = with_sign False (f64_round n 1)"

definition i64_to_f64 :: "int \<Rightarrow> f64" where
  "i64_to_f64 i = with_sign (i < 0) (f64_round (nat \<bar>i\<bar>) 1)"

datatype f64_view = NaN | Infinite bool | Finite bool nat int

text \<open>A finite pattern is \<open>\<plusminus> m * 2 ^ e\<close>.\<close>

definition f64_view :: "f64 \<Rightarrow> f64_view" where
  "f64_view w =
     (let s = bit w 63; e = unat (take_bit 11 (drop_bit 52 w)); f = unat (take_bit 52 w) in
      if e = 2047 then (if f = 0 then Infinite s else NaN)
      else if e = 0 then Finite s f (- 1074)
      else Finite s (2 ^ 52 + f) (int e - 1075))"

definition f64_nan :: f64 where "f64_nan = of_nat (2047 * 2 ^ 52 + 2 ^ 51)"
definition f64_inf :: "bool \<Rightarrow> f64" where "f64_inf s = with_sign s (2047 * 2 ^ 52)"

text \<open>\<open>\<plusminus> n * 2 ^ e\<close>, rounded.\<close>

definition f64_scaled :: "bool \<Rightarrow> nat \<Rightarrow> int \<Rightarrow> f64" where
  "f64_scaled s n e = with_sign s (if 0 \<le> e then f64_round (n * 2 ^ nat e) 1 else f64_round n (2 ^ nat (- e)))"

definition f32_to_f64 :: "32 word \<Rightarrow> f64" where
  "f32_to_f64 w =
     (let s = bit w 31; e = unat (take_bit 8 (drop_bit 23 w)); f = unat (take_bit 23 w) in
      if e = 255 then (if f = 0 then f64_inf s else with_sign s (2047 * 2 ^ 52 + 2 ^ 51 + (f mod 2 ^ 22) * 2 ^ 29))
      else if e = 0 then f64_scaled s f (- 149)
      else f64_scaled s (2 ^ 23 + f) (int e - 150))"

subsection \<open>Arithmetic\<close>

definition f64_mul :: "f64 \<Rightarrow> f64 \<Rightarrow> f64" where
  "f64_mul a b = (case (f64_view a, f64_view b) of
       (NaN, _) \<Rightarrow> f64_nan | (_, NaN) \<Rightarrow> f64_nan
     | (Infinite s, Infinite t) \<Rightarrow> f64_inf (s \<noteq> t)
     | (Infinite s, Finite t m e) \<Rightarrow> if m = 0 then f64_nan else f64_inf (s \<noteq> t)
     | (Finite s m e, Infinite t) \<Rightarrow> if m = 0 then f64_nan else f64_inf (s \<noteq> t)
     | (Finite s m e, Finite t n g) \<Rightarrow> f64_scaled (s \<noteq> t) (m * n) (e + g))"

definition f64_div :: "f64 \<Rightarrow> f64 \<Rightarrow> f64" where
  "f64_div a b = (case (f64_view a, f64_view b) of
       (NaN, _) \<Rightarrow> f64_nan | (_, NaN) \<Rightarrow> f64_nan
     | (Infinite s, Infinite t) \<Rightarrow> f64_nan
     | (Infinite s, Finite t m e) \<Rightarrow> f64_inf (s \<noteq> t)
     | (Finite s m e, Infinite t) \<Rightarrow> with_sign (s \<noteq> t) 0
     | (Finite s m e, Finite t n g) \<Rightarrow>
         if n = 0 then (if m = 0 then f64_nan else f64_inf (s \<noteq> t))
         else (let x = e - g in
               with_sign (s \<noteq> t) (if 0 \<le> x then f64_round (m * 2 ^ nat x) n else f64_round m (n * 2 ^ nat (- x)))))"

text \<open>A signed sum of two scaled integers, over the smaller exponent.\<close>

definition f64_add :: "f64 \<Rightarrow> f64 \<Rightarrow> f64" where
  "f64_add a b = (case (f64_view a, f64_view b) of
       (NaN, _) \<Rightarrow> f64_nan | (_, NaN) \<Rightarrow> f64_nan
     | (Infinite s, Infinite t) \<Rightarrow> if s = t then f64_inf s else f64_nan
     | (Infinite s, Finite _ _ _) \<Rightarrow> f64_inf s
     | (Finite _ _ _, Infinite t) \<Rightarrow> f64_inf t
     | (Finite s m e, Finite t n g) \<Rightarrow>
         (let x = min e g; i = int (m * 2 ^ nat (e - x)); j = int (n * 2 ^ nat (g - x));
              v = (if s then - i else i) + (if t then - j else j) in
          if v = 0 then with_sign (s \<and> t) 0 else f64_scaled (v < 0) (nat \<bar>v\<bar>) x))"

definition f64_neg :: "f64 \<Rightarrow> f64" where
  "f64_neg a = a XOR (push_bit 63 1)"

definition f64_sub :: "f64 \<Rightarrow> f64 \<Rightarrow> f64" where
  "f64_sub a b = f64_add a (f64_neg b)"

text \<open>Comparison: an integer key that orders all patterns but NaN; both zeros have the key 0.\<close>

definition f64_key :: "f64 \<Rightarrow> int" where
  "f64_key w = (let m = int (unat (take_bit 63 w)) in if bit w 63 then - m else m)"

definition is_nan :: "f64 \<Rightarrow> bool" where
  "is_nan w \<longleftrightarrow> f64_view w = NaN"

definition f64_lt :: "f64 \<Rightarrow> f64 \<Rightarrow> bool" where
  "f64_lt a b \<longleftrightarrow> \<not> is_nan a \<and> \<not> is_nan b \<and> f64_key a < f64_key b"

definition f64_le :: "f64 \<Rightarrow> f64 \<Rightarrow> bool" where
  "f64_le a b \<longleftrightarrow> \<not> is_nan a \<and> \<not> is_nan b \<and> f64_key a \<le> f64_key b"

text \<open>\<open>f64::max\<close> returns the other operand for a NaN.\<close>

definition f64_max :: "f64 \<Rightarrow> f64 \<Rightarrow> f64" where
  "f64_max a b = (if is_nan a then b else if is_nan b then a else if f64_key a < f64_key b then b else a)"

text \<open>\<open>as u64\<close>: truncation, saturating at both ends, 0 for a NaN.\<close>

definition f64_as_u64 :: "f64 \<Rightarrow> nat" where
  "f64_as_u64 w = (case f64_view w of
       NaN \<Rightarrow> 0
     | Infinite s \<Rightarrow> if s then 0 else u64_max
     | Finite s m e \<Rightarrow> if s then 0 else min (if 0 \<le> e then m * 2 ^ nat e else m div 2 ^ nat (- e)) u64_max)"

text \<open>The literal \<open>1000.0\<close> and the conversions between milliseconds and seconds.\<close>

definition f64_1000 :: f64 where "f64_1000 = u64_to_f64 1000"

definition ms_to_s :: "nat \<Rightarrow> f64" where
  "ms_to_s ms = f64_div (u64_to_f64 ms) f64_1000"

definition s_to_ms :: "f64 \<Rightarrow> nat" where
  "s_to_ms s = f64_as_u64 (f64_mul (f64_max s 0) f64_1000)"

text \<open>The definitions to evaluate conversions of literals with.\<close>

lemmas f64_eval = f64_1000_def u64_to_f64_def f64_round_def ratio_exp_def bit_len.simps round_half_even_def with_sign_def
  f64_max_def is_nan_def f64_view_def f64_key_def f64_mul_def f64_scaled_def f64_as_u64_def u64_max_def

subsection \<open>Decimal output\<close>

text \<open>\<open>Display\<close> of an integer, and of a double: the shortest digits that read back as the same double,
  the nearest of them to the value, without exponent.\<close>

fun show_nat :: "nat \<Rightarrow> string" where
  "show_nat n = (if n < 10 then [char_of (48 + n)] else show_nat (n div 10) @ [char_of (48 + n mod 10)])"

declare show_nat.simps [simp del]

text \<open>The \<open>k\<close> with \<open>10 ^ (k - 1) \<le> n / d < 10 ^ k\<close>; a double below 1 has fewer than 400 zeros after the
  point.\<close>

fun leading_zeros :: "nat \<Rightarrow> nat \<Rightarrow> nat \<Rightarrow> nat" where
  "leading_zeros 0 n d = 0"
| "leading_zeros (Suc fuel) n d = (if 10 * n < d then Suc (leading_zeros fuel (10 * n) d) else 0)"

definition dec_exp :: "nat \<Rightarrow> nat \<Rightarrow> int" where
  "dec_exp n d = (if d \<le> n then int (length (show_nat (n div d))) else - int (leading_zeros 400 n d))"

text \<open>The integers on both sides of \<open>(n / d) * 10 ^ (l - k)\<close> that read back as the pattern \<open>bits\<close>, nearer one first.\<close>

definition dec_candidates :: "nat \<Rightarrow> nat \<Rightarrow> int \<Rightarrow> nat \<Rightarrow> nat \<Rightarrow> nat list" where
  "dec_candidates n d k bits l =
     (let x = int l - k; a = n * 10 ^ nat x; b = d * 10 ^ nat (- x);
          lo = a div b; near = round_half_even a b;
          reads = (\<lambda>c. f64_round (c * 10 ^ nat (- x)) (10 ^ nat x) = bits) in
      filter reads (if near = lo then [lo, lo + 1] else [lo + 1, lo]))"

fun dec_digits :: "nat \<Rightarrow> nat \<Rightarrow> nat \<Rightarrow> int \<Rightarrow> nat \<Rightarrow> nat \<Rightarrow> nat \<times> nat" where
  "dec_digits 0 n d k bits l = (0, l)"
| "dec_digits (Suc fuel) n d k bits l =
     (case dec_candidates n d k bits l of c # _ \<Rightarrow> (c, l) | [] \<Rightarrow> dec_digits fuel n d k bits (Suc l))"

text \<open>The value \<open>0.ds * 10 ^ k\<close> laid out with a point.\<close>

definition place_point :: "string \<Rightarrow> int \<Rightarrow> string" where
  "place_point ds k =
     (let n = int (length ds) in
      if k \<le> 0 then ''0.'' @ replicate (nat (- k)) (CHR ''0'') @ ds
      else if n \<le> k then ds @ replicate (nat (k - n)) (CHR ''0'')
      else take (nat k) ds @ ''.'' @ drop (nat k) ds)"

text \<open>17 digits are enough for every double.\<close>

definition f64_display :: "f64 \<Rightarrow> string" where
  "f64_display w =
     (case f64_view w of
        NaN \<Rightarrow> ''NaN''
      | Infinite s \<Rightarrow> (if s then ''-inf'' else ''inf'')
      | Finite s m e \<Rightarrow>
         (if s then ''-'' else [])
         @ (if m = 0 then ''0''
            else (let n = m * 2 ^ nat e; d = 2 ^ nat (- e); k = dec_exp n d;
                      (c, l) = dec_digits 17 n d k (unat (take_bit 63 w)) 1;
                      ds = show_nat c in
                  place_point (rev (dropWhile (\<lambda>x. x = CHR ''0'') (rev ds))) (k - int l + int (length ds)))))"

end
