(* ===== verification/Msgpack_Values.thy ===== *)
theory Msgpack_Values
  imports Floats
begin

section \<open>MessagePack values (lxmf-rs/src/rns/mod.rs and the crate rmpv)\<close>

text \<open>
  The value type of the third-party crate \<open>rmpv\<close>, its accessors that the code uses
  (\<open>as_i64\<close>, \<open>as_u64\<close>, \<open>as_str\<close>), the conversions of \<open>rns/mod.rs\<close> and the codec as a record of two
  functions, \<open>write_value\<close> and \<open>read_value\<close>. What the code relies on is \<open>reads_back\<close>: a value that
  was written is read back. A \<open>f32\<close> or \<open>f64\<close> is its IEEE bit pattern (theory \<open>Floats\<close>).
\<close>

subsection \<open>Values\<close>

datatype mval =
    MNil | MBool bool | MInt int | MF32 "32 word" | MF64 "64 word" | MStr bytes | MBin bytes
  | MArr "mval list" | MMap "(mval \<times> mval) list" | MExt int bytes

text \<open>\<open>Value::Integer\<close> holds a signed or an unsigned 64-bit integer.\<close>

definition as_i64 :: "mval \<Rightarrow> int option" where
  "as_i64 v = (case v of MInt i \<Rightarrow> if - (2 ^ 63) \<le> i \<and> i < 2 ^ 63 then Some i else None | _ \<Rightarrow> None)"

definition as_u64 :: "mval \<Rightarrow> nat option" where
  "as_u64 v = (case v of MInt i \<Rightarrow> if 0 \<le> i \<and> i < 2 ^ 64 then Some (nat i) else None | _ \<Rightarrow> None)"

subsection \<open>UTF-8\<close>

text \<open>Well-formed UTF-8, the condition under which \<open>as_str\<close> returns a string.\<close>

definition cont_byte :: "byte \<Rightarrow> bool" where
  "cont_byte b \<longleftrightarrow> 0x80 \<le> b \<and> b \<le> 0xbf"

definition utf8_two :: "byte \<Rightarrow> byte \<Rightarrow> bool" where
  "utf8_two a b \<longleftrightarrow> 0xc2 \<le> a \<and> a \<le> 0xdf \<and> cont_byte b"

definition utf8_three :: "byte \<Rightarrow> byte \<Rightarrow> byte \<Rightarrow> bool" where
  "utf8_three a b c \<longleftrightarrow> 0xe0 \<le> a \<and> a \<le> 0xef \<and> cont_byte b \<and> cont_byte c
     \<and> (a = 0xe0 \<longrightarrow> 0xa0 \<le> b) \<and> (a = 0xed \<longrightarrow> b \<le> 0x9f)"

definition utf8_four :: "byte \<Rightarrow> byte \<Rightarrow> byte \<Rightarrow> byte \<Rightarrow> bool" where
  "utf8_four a b c d \<longleftrightarrow> 0xf0 \<le> a \<and> a \<le> 0xf4 \<and> cont_byte b \<and> cont_byte c \<and> cont_byte d
     \<and> (a = 0xf0 \<longrightarrow> 0x90 \<le> b) \<and> (a = 0xf4 \<longrightarrow> b \<le> 0x8f)"

fun utf8_valid :: "bytes \<Rightarrow> bool" where
  "utf8_valid [] = True"
| "utf8_valid (a # bs) =
     (if a < 0x80 then utf8_valid bs
      else (case bs of
              b # c # d # rest \<Rightarrow>
                (if utf8_two a b then utf8_valid (c # d # rest)
                 else if utf8_three a b c then utf8_valid (d # rest)
                 else utf8_four a b c d \<and> utf8_valid rest)
            | [b, c] \<Rightarrow> (if utf8_two a b then utf8_valid [c] else utf8_three a b c)
            | [b] \<Rightarrow> utf8_two a b
            | [] \<Rightarrow> False))"

definition as_str :: "bytes \<Rightarrow> bytes option" where
  "as_str s = (if utf8_valid s then Some s else None)"

lemma utf8_ascii: "\<forall>b \<in> set s. b < 0x80 \<Longrightarrow> utf8_valid s"
  by (induction s) simp_all

lemma str_bytes_utf8: "\<forall>c \<in> set s. of_char c < (128 :: nat) \<Longrightarrow> utf8_valid (str_bytes s)"
proof (rule utf8_ascii)
  assume a: "\<forall>c \<in> set s. of_char c < (128 :: nat)"
  show "\<forall>b \<in> set (str_bytes s). b < 0x80"
  proof
    fix b
    assume "b \<in> set (str_bytes s)"
    then obtain c where c: "c \<in> set s" "b = of_nat (of_char c)" by (auto simp: str_bytes_def)
    with a have "of_char c < (128 :: nat)" by blast
    with c show "b < 0x80" by (simp add: word_less_nat_alt unat_of_nat)
  qed
qed

subsection \<open>Accessors of \<open>rns/mod.rs\<close>\<close>

definition value_to_bytes :: "mval \<Rightarrow> bytes option" where
  "value_to_bytes v = (case v of MBin b \<Rightarrow> Some b | _ \<Rightarrow> None)"

definition value_to_opt_bytes :: "mval \<Rightarrow> bytes option" where
  "value_to_opt_bytes v = (case v of MNil \<Rightarrow> None | _ \<Rightarrow> value_to_bytes v)"

definition value_to_opt_u32 :: "mval \<Rightarrow> nat option" where
  "value_to_opt_u32 v = map_option i64_as_u32 (as_i64 v)"

definition value_to_opt_u64 :: "mval \<Rightarrow> nat option" where
  "value_to_opt_u64 v = (case as_i64 v of Some i \<Rightarrow> if 0 \<le> i then Some (nat i) else None | None \<Rightarrow> None)"

definition value_to_opt_u8 :: "mval \<Rightarrow> nat option" where
  "value_to_opt_u8 v = map_option i64_as_u8 (as_i64 v)"

definition value_to_opt_bool :: "mval \<Rightarrow> bool option" where
  "value_to_opt_bool v = (case v of MBool b \<Rightarrow> Some b | _ \<Rightarrow> None)"

definition value_to_opt_string :: "mval \<Rightarrow> bytes option" where
  "value_to_opt_string v = (case v of MStr s \<Rightarrow> as_str s | _ \<Rightarrow> None)"

definition value_to_f64 :: "mval \<Rightarrow> 64 word option" where
  "value_to_f64 v = (case v of MF64 x \<Rightarrow> Some x | MF32 x \<Rightarrow> Some (f32_to_f64 x)
     | MInt i \<Rightarrow> map_option i64_to_f64 (as_i64 v) | _ \<Rightarrow> None)"

definition value_to_fixed_bytes :: "nat \<Rightarrow> mval \<Rightarrow> bytes option" where
  "value_to_fixed_bytes n v = (case value_to_bytes v of Some b \<Rightarrow> if length b = n then Some b else None | None \<Rightarrow> None)"

lemmas value_defs = value_to_bytes_def value_to_opt_bytes_def value_to_opt_u32_def value_to_opt_u64_def
  value_to_opt_u8_def value_to_opt_bool_def value_to_opt_string_def value_to_f64_def
  value_to_fixed_bytes_def as_i64_def as_u64_def as_str_def

lemma value_to_opt_u64_int [wire_simps]: "n < 2 ^ 63 \<Longrightarrow> value_to_opt_u64 (MInt (int n)) = Some n"
  by (simp add: value_defs)

lemma value_to_opt_u32_int [wire_simps]: "n < 2 ^ 32 \<Longrightarrow> value_to_opt_u32 (MInt (int n)) = Some n"
  by (simp add: value_defs i64_as_u32_def)

lemma value_to_fixed_bytes_bin [wire_simps]: "length b = n \<Longrightarrow> value_to_fixed_bytes n (MBin b) = Some b"
  by (simp add: value_defs)

subsection \<open>The codec\<close>

record codec =
  write_value :: "mval \<Rightarrow> string + bytes"
  read_value :: "bytes \<Rightarrow> string + mval"

definition reads_back :: "codec \<Rightarrow> mval \<Rightarrow> bool" where
  "reads_back c v \<longleftrightarrow> (case write_value c v of Inl _ \<Rightarrow> False | Inr b \<Rightarrow> b \<noteq> [] \<and> read_value c b = Inr v)"

lemma reads_backE:
  assumes "reads_back c v"
  obtains b where "write_value c v = Inr b" "b \<noteq> []" "read_value c b = Inr v"
  using assms by (auto simp: reads_back_def split: sum.splits)

end
