(* ===== verification/Msgpack_Ref.thy ===== *)
theory Msgpack_Ref
  imports Msgpack_Values
begin

section \<open>A reference MessagePack codec\<close>

text \<open>
  A concrete codec in the MessagePack format (every value in its widest form), the instance at
  which the development's statements about an arbitrary codec are evaluated. It shows that the
  assumption on the third-party codec, \<open>reads_back\<close>, holds for every value whose integers,
  lengths and extension tags are in range.
\<close>

function (sequential) mp_enc :: "mval \<Rightarrow> bytes"
and mp_enc_list :: "mval list \<Rightarrow> bytes"
and mp_enc_pairs :: "(mval \<times> mval) list \<Rightarrow> bytes" where
  "mp_enc MNil = [0xc0]"
| "mp_enc (MBool b) = [if b then 0xc3 else 0xc2]"
| "mp_enc (MInt i) = (if 0 \<le> i then 0xcf # be_bytes 8 (nat i) else 0xd3 # be_bytes 8 (nat (i + 2 ^ 64)))"
| "mp_enc (MF32 w) = 0xca # be_bytes 4 (unat w)"
| "mp_enc (MF64 w) = 0xcb # be_bytes 8 (unat w)"
| "mp_enc (MStr s) = 0xdb # be_bytes 4 (length s) @ s"
| "mp_enc (MBin s) = 0xc6 # be_bytes 4 (length s) @ s"
| "mp_enc (MArr vs) = 0xdd # be_bytes 4 (length vs) @ mp_enc_list vs"
| "mp_enc (MMap kvs) = 0xdf # be_bytes 4 (length kvs) @ mp_enc_pairs kvs"
| "mp_enc (MExt t s) = 0xc9 # be_bytes 4 (length s) @ of_int t # s"
| "mp_enc_list [] = []"
| "mp_enc_list (v # vs) = mp_enc v @ mp_enc_list vs"
| "mp_enc_pairs [] = []"
| "mp_enc_pairs ((k, v) # kvs) = mp_enc k @ mp_enc v @ mp_enc_pairs kvs"
  by pat_completeness auto
termination
  by (relation "measure (case_sum size (case_sum (size_list size) (size_list (size_prod size size))))") auto

definition take_exact :: "nat \<Rightarrow> bytes \<Rightarrow> (bytes \<times> bytes) option" where
  "take_exact n bs = (if n \<le> length bs then Some (take n bs, drop n bs) else None)"

definition take_num :: "nat \<Rightarrow> bytes \<Rightarrow> (nat \<times> bytes) option" where
  "take_num n bs = (case take_exact n bs of None \<Rightarrow> None | Some (a, r) \<Rightarrow> Some (from_be_bytes 0 a, r))"

definition take_blob :: "bytes \<Rightarrow> (bytes \<times> bytes) option" where
  "take_blob bs = (case take_num 4 bs of None \<Rightarrow> None | Some (n, r) \<Rightarrow> take_exact n r)"

text \<open>Values that are no arrays, maps or extensions, by their marker byte.\<close>

definition mp_dec_scalar :: "byte \<Rightarrow> bytes \<Rightarrow> (mval \<times> bytes) option" where
  "mp_dec_scalar m r =
     (if m = 0xc0 then Some (MNil, r)
      else if m = 0xc3 then Some (MBool True, r)
      else if m = 0xc2 then Some (MBool False, r)
      else if m = 0xcf then map_option (\<lambda>(n, r). (MInt (int n), r)) (take_num 8 r)
      else if m = 0xd3 then map_option (\<lambda>(n, r). (MInt (int n - 2 ^ 64), r)) (take_num 8 r)
      else if m = 0xca then map_option (\<lambda>(n, r). (MF32 (of_nat n), r)) (take_num 4 r)
      else if m = 0xcb then map_option (\<lambda>(n, r). (MF64 (of_nat n), r)) (take_num 8 r)
      else if m = 0xdb then map_option (\<lambda>(s, r). (MStr s, r)) (take_blob r)
      else if m = 0xc6 then map_option (\<lambda>(s, r). (MBin s, r)) (take_blob r)
      else None)"

fun mp_dec :: "nat \<Rightarrow> bytes \<Rightarrow> (mval \<times> bytes) option"
and mp_dec_list :: "nat \<Rightarrow> nat \<Rightarrow> bytes \<Rightarrow> (mval list \<times> bytes) option"
and mp_dec_pairs :: "nat \<Rightarrow> nat \<Rightarrow> bytes \<Rightarrow> ((mval \<times> mval) list \<times> bytes) option" where
  "mp_dec 0 bs = None"
| "mp_dec (Suc k) [] = None"
| "mp_dec (Suc k) (m # r) =
     (if m = 0xdd then (case take_num 4 r of None \<Rightarrow> None
        | Some (n, r) \<Rightarrow> map_option (\<lambda>(vs, r). (MArr vs, r)) (mp_dec_list k n r))
      else if m = 0xdf then (case take_num 4 r of None \<Rightarrow> None
        | Some (n, r) \<Rightarrow> map_option (\<lambda>(vs, r). (MMap vs, r)) (mp_dec_pairs k n r))
      else if m = 0xc9 then (case take_num 4 r of None \<Rightarrow> None
        | Some (n, r) \<Rightarrow> (case r of [] \<Rightarrow> None
            | t # r \<Rightarrow> map_option (\<lambda>(s, r). (MExt (sint t) s, r)) (take_exact n r)))
      else mp_dec_scalar m r)"
| "mp_dec_list k 0 bs = Some ([], bs)"
| "mp_dec_list 0 (Suc n) bs = None"
| "mp_dec_list (Suc k) (Suc n) bs =
     (case mp_dec k bs of None \<Rightarrow> None | Some (v, r) \<Rightarrow>
       (case mp_dec_list k n r of None \<Rightarrow> None | Some (vs, r) \<Rightarrow> Some (v # vs, r)))"
| "mp_dec_pairs k 0 bs = Some ([], bs)"
| "mp_dec_pairs 0 (Suc n) bs = None"
| "mp_dec_pairs (Suc k) (Suc n) bs =
     (case mp_dec k bs of None \<Rightarrow> None | Some (x, r) \<Rightarrow>
       (case mp_dec k r of None \<Rightarrow> None | Some (v, r) \<Rightarrow>
         (case mp_dec_pairs k n r of None \<Rightarrow> None | Some (vs, r) \<Rightarrow> Some ((x, v) # vs, r))))"

definition ref_codec :: codec where
  "ref_codec = \<lparr>write_value = (\<lambda>v. Inr (mp_enc v)),
     read_value = (\<lambda>bs. case mp_dec (Suc (length bs)) bs of None \<Rightarrow> Inl ''decode'' | Some (v, _) \<Rightarrow> Inr v)\<rparr>"

text \<open>The values the format can represent.\<close>

function (sequential) mval_ok :: "mval \<Rightarrow> bool"
and mvals_ok :: "mval list \<Rightarrow> bool"
and mpairs_ok :: "(mval \<times> mval) list \<Rightarrow> bool" where
  "mval_ok (MInt i) = (- (2 ^ 63) \<le> i \<and> i < 2 ^ 64)"
| "mval_ok (MStr s) = (length s < 2 ^ 32)"
| "mval_ok (MBin s) = (length s < 2 ^ 32)"
| "mval_ok (MArr vs) = (length vs < 2 ^ 32 \<and> mvals_ok vs)"
| "mval_ok (MMap kvs) = (length kvs < 2 ^ 32 \<and> mpairs_ok kvs)"
| "mval_ok (MExt t s) = (- 128 \<le> t \<and> t < 128 \<and> length s < 2 ^ 32)"
| "mval_ok MNil = True"
| "mval_ok (MBool b) = True"
| "mval_ok (MF32 w) = True"
| "mval_ok (MF64 w) = True"
| "mvals_ok [] = True"
| "mvals_ok (v # vs) = (mval_ok v \<and> mvals_ok vs)"
| "mpairs_ok [] = True"
| "mpairs_ok ((k, v) # kvs) = (mval_ok k \<and> mval_ok v \<and> mpairs_ok kvs)"
  by pat_completeness auto
termination
  by (relation "measure (case_sum size (case_sum (size_list size) (size_list (size_prod size size))))") auto

lemma take_num_be: "n < 256 ^ k \<Longrightarrow> take_num k (be_bytes k n @ r) = Some (n, r)"
  by (simp add: take_num_def take_exact_def from_be_bytes_be_bytes)

lemma take_num_4 [simp]: "n < 4294967296 \<Longrightarrow> take_num 4 (be_bytes 4 n @ r) = Some (n, r)"
  using take_num_be [of n 4] by simp

lemma take_num_8 [simp]: "n < 18446744073709551616 \<Longrightarrow> take_num 8 (be_bytes 8 n @ r) = Some (n, r)"
  using take_num_be [of n 8] by simp

lemma take_exact_append [simp]: "take_exact (length s) (s @ r) = Some (s, r)"
  by (simp add: take_exact_def)

lemma take_blob_append [simp]: "length s < 4294967296 \<Longrightarrow> take_blob (be_bytes 4 (length s) @ s @ r) = Some (s, r)"
  by (simp add: take_blob_def)

lemma unat_lt_word32 [simp]: "unat (w :: 32 word) < 4294967296"
  using unsigned_less [of w] by simp

lemma unat_lt_word64 [simp]: "unat (w :: 64 word) < 18446744073709551616"
  using unsigned_less [of w] by simp

lemma sint_of_int_byte: "- 128 \<le> t \<Longrightarrow> t < 128 \<Longrightarrow> sint (of_int t :: byte) = t"
  by (simp add: signed_of_int signed_take_bit_int_eq_self)

lemma enc_nonempty: "mp_enc v \<noteq> []"
  by (cases v) simp_all

text \<open>Fuel as long as the encoding is enough.\<close>

lemma dec_enc:
  "mval_ok v \<Longrightarrow> length (mp_enc v) \<le> k \<Longrightarrow> mp_dec k (mp_enc v @ r) = Some (v, r)"
  "mvals_ok vs \<Longrightarrow> length (mp_enc_list vs) < k \<Longrightarrow> mp_dec_list k (length vs) (mp_enc_list vs @ r) = Some (vs, r)"
  "mpairs_ok kvs \<Longrightarrow> length (mp_enc_pairs kvs) < k \<Longrightarrow> mp_dec_pairs k (length kvs) (mp_enc_pairs kvs @ r) = Some (kvs, r)"
proof (induction v and vs and kvs arbitrary: k r and k r and k r rule: mp_enc_mp_enc_list_mp_enc_pairs.induct)
  case (3 i)
  then obtain k' where "k = Suc k'" by (cases k) (auto split: if_splits)
  with 3 show ?case by (auto simp: mp_dec_scalar_def)
next
  case (8 vs)
  then obtain k' where "k = Suc k'" by (cases k) auto
  with 8 show ?case by simp
next
  case (9 kvs)
  then obtain k' where "k = Suc k'" by (cases k) auto
  with 9 show ?case by simp
next
  case (10 t s)
  then obtain k' where "k = Suc k'" by (cases k) auto
  with 10 show ?case by (simp add: sint_of_int_byte)
next
  case (12 v vs)
  then obtain k' where k: "k = Suc k'" by (cases k) auto
  have "length (mp_enc v) > 0" using enc_nonempty [of v] by simp
  with "12.prems" k have "length (mp_enc_list vs) < k'" "length (mp_enc v) \<le> k'" by (simp_all del: length_greater_0_conv)
  with 12 k show ?case by simp
next
  case (14 x v kvs)
  then obtain k' where k: "k = Suc k'" by (cases k) auto
  have "length (mp_enc v) > 0" "length (mp_enc x) > 0" using enc_nonempty by simp_all
  with "14.prems" k have "length (mp_enc_pairs kvs) < k'" "length (mp_enc v) \<le> k'" "length (mp_enc x) \<le> k'"
    by (simp_all del: length_greater_0_conv)
  with 14 k show ?case by simp
next
  case 1
  then show ?case by (cases k) (auto simp: mp_dec_scalar_def)
next
  case (2 b)
  then show ?case by (cases k) (auto simp: mp_dec_scalar_def)
next
  case (4 w)
  then show ?case by (cases k) (auto simp: mp_dec_scalar_def)
next
  case (5 w)
  then show ?case by (cases k) (auto simp: mp_dec_scalar_def)
next
  case (6 s)
  then show ?case by (cases k) (auto simp: mp_dec_scalar_def)
next
  case (7 s)
  then show ?case by (cases k) (auto simp: mp_dec_scalar_def)
qed simp_all

lemma ref_codec_reads_back: "mval_ok v \<Longrightarrow> reads_back ref_codec v"
  using dec_enc(1) [of v "Suc (length (mp_enc v))" "[]"] enc_nonempty [of v]
  by (simp add: reads_back_def ref_codec_def)

end
