(* ===== verification/Stamps.thy ===== *)
theory Stamps
  imports Msgpack_Ref
begin

section \<open>Proof-of-work stamps (lxmf-rs/src/message.rs, second half)\<close>

text \<open>
  A stamp is 32 random bytes; it is worth as many bits as the SHA-256 hash of the workblock and the
  stamp has leading zeros, and it is valid for a cost when that hash, read as a big-endian number,
  is at most \<open>2 ^ (256 - cost)\<close>. The hash and HKDF functions come from third-party crates (record
  \<open>crypto\<close>); the random generator is a stream of draws. \<open>generate_stamp\<close> draws until a stamp is
  valid, at most a number of rounds that depends on the cost.
\<close>

subsection \<open>Definitions\<close>

record crypto =
  cr_sha256 :: "bytes \<Rightarrow> bytes"
  cr_hkdf :: "bytes \<Rightarrow> bytes \<Rightarrow> bytes option"

datatype lxmf_error =
    InvalidLength | InvalidPayload | InvalidBytes | InvalidTimestamp | MissingSignature
  | MsgpackDecode string | MsgpackEncode string

definition DESTINATION_LENGTH :: nat where "DESTINATION_LENGTH = 16"
definition SIGNATURE_LENGTH :: nat where "SIGNATURE_LENGTH = 64"
definition HASH_LENGTH :: nat where "HASH_LENGTH = 32"
definition STAMP_SIZE :: nat where "STAMP_SIZE = 32"
definition TICKET_LENGTH :: nat where "TICKET_LENGTH = 16"
definition TIMESTAMP_SIZE :: nat where "TIMESTAMP_SIZE = 8"
definition STRUCT_OVERHEAD :: nat where "STRUCT_OVERHEAD = 8"
definition LXMF_OVERHEAD :: nat where
  "LXMF_OVERHEAD = 2 * DESTINATION_LENGTH + SIGNATURE_LENGTH + TIMESTAMP_SIZE + STRUCT_OVERHEAD"
definition WORKBLOCK_EXPAND_ROUNDS :: nat where "WORKBLOCK_EXPAND_ROUNDS = 3000"
definition WORKBLOCK_EXPAND_ROUNDS_PN :: nat where "WORKBLOCK_EXPAND_ROUNDS_PN = 1000"
definition WORKBLOCK_EXPAND_ROUNDS_PEERING :: nat where "WORKBLOCK_EXPAND_ROUNDS_PEERING = 25"

definition full_hash :: "crypto \<Rightarrow> bytes \<Rightarrow> bytes" where
  "full_hash cr d = cr_sha256 cr d"

definition truncated_hash :: "crypto \<Rightarrow> bytes \<Rightarrow> bytes" where
  "truncated_hash cr d = take TICKET_LENGTH (full_hash cr d)"

definition pack_u64_msgpack :: "codec \<Rightarrow> nat \<Rightarrow> lxmf_error + bytes" where
  "pack_u64_msgpack c n = (case write_value c (MInt (int n)) of Inl e \<Rightarrow> Inl (MsgpackEncode e) | Inr b \<Rightarrow> Inr b)"

fun workblock_loop :: "codec \<Rightarrow> crypto \<Rightarrow> bytes \<Rightarrow> nat list \<Rightarrow> lxmf_error + bytes" where
  "workblock_loop c cr material [] = Inr []"
| "workblock_loop c cr material (n # ns) =
     (case pack_u64_msgpack c n of Inl e \<Rightarrow> Inl e | Inr b \<Rightarrow>
       (case cr_hkdf cr (full_hash cr (material @ b)) material of
          None \<Rightarrow> Inl InvalidPayload
        | Some out \<Rightarrow>
           (case workblock_loop c cr material ns of Inl e \<Rightarrow> Inl e | Inr rest \<Rightarrow> Inr (out @ rest))))"

definition stamp_workblock :: "codec \<Rightarrow> crypto \<Rightarrow> bytes \<Rightarrow> nat \<Rightarrow> lxmf_error + bytes" where
  "stamp_workblock c cr material expand_rounds = workblock_loop c cr material [0..<expand_rounds]"

text \<open>\<open>u8::leading_zeros\<close>.\<close>

definition leading_zeros8 :: "byte \<Rightarrow> nat" where
  "leading_zeros8 b = 8 - bit_len (unat b)"

fun count_zeros :: "bytes \<Rightarrow> nat" where
  "count_zeros [] = 0"
| "count_zeros (b # bs) = (if b = 0 then 8 + count_zeros bs else leading_zeros8 b)"

definition stamp_value :: "crypto \<Rightarrow> bytes \<Rightarrow> bytes \<Rightarrow> nat" where
  "stamp_value cr workblock stamp = count_zeros (full_hash cr (workblock @ stamp))"

fun bytes_le :: "bytes \<Rightarrow> bytes \<Rightarrow> bool" where
  "bytes_le (h # hs) (t # ts) = (if h < t then True else if h > t then False else bytes_le hs ts)"
| "bytes_le _ _ = True"

definition stamp_target :: "nat \<Rightarrow> bytes" where
  "stamp_target shift = (replicate HASH_LENGTH 0)[(HASH_LENGTH - 1) - shift div 8 := push_bit (shift mod 8) 1]"

definition stamp_valid :: "crypto \<Rightarrow> bytes \<Rightarrow> bytes \<Rightarrow> nat \<Rightarrow> bool" where
  "stamp_valid cr workblock stamp target_cost =
     (if target_cost = 0 then True
      else if target_cost > 256 then False
      else (let hash = full_hash cr (workblock @ stamp); shift = sat_sub 256 target_cost in
        if shift \<ge> 256 then True else bytes_le hash (stamp_target shift)))"

definition max_rounds :: "nat \<Rightarrow> nat" where
  "max_rounds stamp_cost =
     (if stamp_cost \<le> 15 then u32_max else if stamp_cost \<le> 20 then 10000000 else 1000000)"

text \<open>The drawing loop; \<open>rng i\<close> is what the \<open>i\<close>-th call of \<open>fill_bytes\<close> writes.\<close>

function generate_loop :: "crypto \<Rightarrow> bytes \<Rightarrow> nat \<Rightarrow> (nat \<Rightarrow> bytes) \<Rightarrow> nat \<Rightarrow> bytes option \<times> nat" where
  "generate_loop cr workblock cost rng rounds =
     (let stamp = rng rounds; rounds' = sat_add32 rounds 1 in
      if stamp_valid cr workblock stamp cost then (Some stamp, stamp_value cr workblock stamp)
      else if rounds' \<ge> max_rounds cost then (None, 0)
      else generate_loop cr workblock cost rng rounds')"
  by pat_completeness auto
termination
proof (relation "measure (\<lambda>(cr, wb, cost, rng, rounds). max_rounds cost - rounds)", simp)
  fix cr :: crypto and workblock :: bytes and cost :: nat and rng :: "nat \<Rightarrow> bytes" and rounds x xa :: nat
  assume "xa = sat_add32 rounds 1" and "\<not> max_rounds cost \<le> xa"
  moreover have "max_rounds cost \<le> u32_max" by (simp add: max_rounds_def u32_max_def)
  ultimately show "((cr, workblock, cost, rng, xa), cr, workblock, cost, rng, rounds)
      \<in> measure (\<lambda>(cr, wb, cost, rng, rounds). max_rounds cost - rounds)"
    by (auto simp: sat_add32_def min_def split: if_splits)
qed

declare generate_loop.simps [simp del]

definition generate_stamp :: "codec \<Rightarrow> crypto \<Rightarrow> (nat \<Rightarrow> bytes) \<Rightarrow> bytes \<Rightarrow> nat \<Rightarrow> nat \<Rightarrow> bytes option \<times> nat" where
  "generate_stamp c cr rng message_id stamp_cost expand_rounds =
     (case stamp_workblock c cr message_id expand_rounds of
        Inl _ \<Rightarrow> (None, 0)
      | Inr workblock \<Rightarrow> generate_loop cr workblock stamp_cost rng 0)"

definition validate_peering_key :: "codec \<Rightarrow> crypto \<Rightarrow> bytes \<Rightarrow> bytes \<Rightarrow> nat \<Rightarrow> bool" where
  "validate_peering_key c cr peering_id peering_key target_cost =
     (case stamp_workblock c cr peering_id WORKBLOCK_EXPAND_ROUNDS_PEERING of
        Inl _ \<Rightarrow> False
      | Inr workblock \<Rightarrow> stamp_valid cr workblock peering_key target_cost)"

definition generate_peering_key :: "codec \<Rightarrow> crypto \<Rightarrow> (nat \<Rightarrow> bytes) \<Rightarrow> bytes \<Rightarrow> nat \<Rightarrow> bytes option" where
  "generate_peering_key c cr rng peering_id target_cost =
     fst (generate_stamp c cr rng peering_id target_cost WORKBLOCK_EXPAND_ROUNDS_PEERING)"

definition validate_pn_stamp :: "codec \<Rightarrow> crypto \<Rightarrow> bytes \<Rightarrow> nat \<Rightarrow> (bytes \<times> bytes \<times> nat \<times> bytes) option" where
  "validate_pn_stamp c cr transient_data target_cost =
     (if length transient_data \<le> LXMF_OVERHEAD + STAMP_SIZE then None
      else (let split_at = sat_sub (length transient_data) STAMP_SIZE;
                lxm_data = take split_at transient_data; stamp = drop split_at transient_data;
                transient_id = full_hash cr lxm_data in
        case stamp_workblock c cr transient_id WORKBLOCK_EXPAND_ROUNDS_PN of
          Inl _ \<Rightarrow> None
        | Inr workblock \<Rightarrow>
            if \<not> stamp_valid cr workblock stamp target_cost then None
            else Some (transient_id, lxm_data, stamp_value cr workblock stamp, stamp)))"

subsection \<open>The arithmetic of stamps\<close>

lemma from_be_bytes_acc: "from_be_bytes acc bs = acc * 256 ^ length bs + from_be_bytes 0 bs"
proof (induction bs arbitrary: acc)
  case (Cons b bs)
  show ?case
    by (simp only: from_be_bytes.simps Cons [of "acc * 256 + unat b"] Cons [of "0 * 256 + unat b"])
      (simp add: algebra_simps)
qed simp

lemma from_be_bytes_Cons: "from_be_bytes 0 (b # bs) = unat b * 256 ^ length bs + from_be_bytes 0 bs"
  using from_be_bytes_acc [of "unat b" bs] by simp

lemma from_be_bytes_bound: "from_be_bytes 0 bs < 256 ^ length bs"
proof (induction bs)
  case (Cons b bs)
  have "unat b * 256 ^ length bs + from_be_bytes 0 bs < (unat b + 1) * 256 ^ length bs"
    using Cons by simp
  also have "\<dots> \<le> 256 * 256 ^ length bs" using unat_byte_lt [of b] by (intro mult_right_mono) simp_all
  finally show ?case by (simp only: from_be_bytes_Cons) simp
qed simp

lemma bytes_le_num: "length hs = length ts \<Longrightarrow> bytes_le hs ts \<longleftrightarrow> from_be_bytes 0 hs \<le> from_be_bytes 0 ts"
proof (induction hs ts rule: bytes_le.induct)
  case (1 h hs t ts)
  have lt: "unat a * 256 ^ length hs + x < unat b * 256 ^ length hs + y"
    if "a < b" "x < 256 ^ length hs" for a b :: byte and x y :: nat
  proof -
    have "unat a * 256 ^ length hs + x < (unat a + 1) * 256 ^ length hs" using that by simp
    also have "\<dots> \<le> unat b * 256 ^ length hs"
      using that by (intro mult_right_mono) (simp_all add: word_less_nat_alt)
    finally show ?thesis by simp
  qed
  have len: "length ts = length hs" using "1.prems" by simp
  show ?case
    using 1 lt [of h t "from_be_bytes 0 hs" "from_be_bytes 0 ts"] lt [of t h "from_be_bytes 0 ts" "from_be_bytes 0 hs"]
      from_be_bytes_bound [of hs] from_be_bytes_bound [of ts] len
    by (cases h t rule: linorder_cases) (auto simp: from_be_bytes_Cons simp del: from_be_bytes.simps)
qed simp_all

lemma from_be_bytes_zeros: "from_be_bytes 0 (replicate n 0) = 0"
  by (induction n) simp_all

lemma from_be_bytes_one_hot:
  "k < n \<Longrightarrow> from_be_bytes 0 ((replicate n 0)[k := x]) = unat x * 256 ^ (n - 1 - k)"
proof (induction n arbitrary: k)
  case (Suc n)
  show ?case
  proof (cases k)
    case 0
    then show ?thesis
      by (simp add: from_be_bytes_Cons from_be_bytes_zeros del: from_be_bytes.simps)
  next
    case (Suc k')
    with Suc.IH [of k'] Suc.prems show ?thesis
      by (simp add: from_be_bytes_Cons del: from_be_bytes.simps)
  qed
qed simp

lemma stamp_target_num:
  assumes "shift < 256"
  shows "from_be_bytes 0 (stamp_target shift) = 2 ^ shift" and "length (stamp_target shift) = 32"
proof -
  have "(push_bit (shift mod 8) 1 :: byte) = of_nat (2 ^ (shift mod 8))"
    by (simp add: push_bit_eq_mult)
  moreover have "(2 :: nat) ^ (shift mod 8) < 2 ^ 8" by (rule power_strict_increasing) simp_all
  ultimately have u: "unat (push_bit (shift mod 8) 1 :: byte) = 2 ^ (shift mod 8)"
    by (simp only: unat_of_nat) simp
  have "31 - (31 - shift div 8) = shift div 8" using assms by simp
  then have "from_be_bytes 0 (stamp_target shift) = 2 ^ (shift mod 8) * 256 ^ (shift div 8)"
    using from_be_bytes_one_hot [of "31 - shift div 8" 32 "push_bit (shift mod 8) 1"] u
    by (simp add: stamp_target_def HASH_LENGTH_def)
  also have "(256 :: nat) ^ (shift div 8) = 2 ^ (8 * (shift div 8))" by (simp add: power_mult)
  also have "2 ^ (shift mod 8) * (2 :: nat) ^ (8 * (shift div 8)) = 2 ^ shift"
    by (simp add: power_add [symmetric])
  finally show "from_be_bytes 0 (stamp_target shift) = 2 ^ shift" .
  show "length (stamp_target shift) = 32" by (simp add: stamp_target_def HASH_LENGTH_def)
qed

lemma bit_len_le_iff: "bit_len n \<le> k \<longleftrightarrow> n < 2 ^ k"
proof (induction n arbitrary: k rule: bit_len.induct)
  case (1 n)
  show ?case
  proof (cases "n = 0")
    case True
    then show ?thesis by (simp add: bit_len.simps)
  next
    case False
    then have n: "bit_len n = Suc (bit_len (n div 2))" by (subst bit_len.simps) simp
    show ?thesis
    proof (cases k)
      case 0
      with False n show ?thesis by simp
    next
      case (Suc k')
      with n 1 [OF False, of k'] show ?thesis by auto
    qed
  qed
qed

lemma count_zeros_bit_len: "count_zeros bs + bit_len (from_be_bytes 0 bs) = 8 * length bs"
proof (induction bs)
  case Nil
  then show ?case by (simp add: bit_len.simps)
next
  case (Cons b bs)
  let ?n = "from_be_bytes 0 bs" and ?L = "8 * length bs"
  show ?case
  proof (cases "b = 0")
    case True
    with Cons show ?thesis by simp
  next
    case False
    have pow: "(256 :: nat) ^ length bs = 2 ^ ?L" by (simp add: power_mult)
    have "unat b \<noteq> 0" using False by (simp add: unat_eq_0)
    have small: "?n < 2 ^ ?L" using from_be_bytes_bound [of bs] pow by simp
    have le: "bit_len (unat b * 2 ^ ?L + ?n) \<le> k + ?L \<longleftrightarrow> bit_len (unat b) \<le> k" for k
    proof -
      have "unat b * 2 ^ ?L + ?n < 2 ^ (k + ?L) \<longleftrightarrow> unat b < 2 ^ k"
      proof
        assume "unat b * 2 ^ ?L + ?n < 2 ^ (k + ?L)"
        then have "unat b * 2 ^ ?L < 2 ^ k * 2 ^ ?L" by (simp only: power_add add_lessD1)
        then show "unat b < 2 ^ k" by simp
      next
        assume "unat b < 2 ^ k"
        then have "(unat b + 1) * 2 ^ ?L \<le> 2 ^ k * 2 ^ ?L" by (intro mult_right_mono) simp_all
        with small show "unat b * 2 ^ ?L + ?n < 2 ^ (k + ?L)" by (simp add: power_add)
      qed
      then show ?thesis by (simp only: bit_len_le_iff)
    qed
    have ge: "?L \<le> bit_len (unat b * 2 ^ ?L + ?n)"
    proof (rule ccontr)
      assume "\<not> ?L \<le> bit_len (unat b * 2 ^ ?L + ?n)"
      then have "bit_len (unat b * 2 ^ ?L + ?n) \<le> ?L" by simp
      then have "unat b * 2 ^ ?L + ?n < 2 ^ ?L" by (simp only: bit_len_le_iff)
      with \<open>unat b \<noteq> 0\<close> show False by (cases "unat b") auto
    qed
    then obtain k where k: "bit_len (unat b * 2 ^ ?L + ?n) = k + ?L" by (metis le_add_diff_inverse2)
    with le [of k] le [of "bit_len (unat b)"] have "k = bit_len (unat b)" by simp
    moreover have "bit_len (unat b) \<le> 8" using unat_byte_lt [of b] by (simp add: bit_len_le_iff)
    ultimately show ?thesis
      using k False pow by (simp add: from_be_bytes_Cons leading_zeros8_def del: from_be_bytes.simps)
  qed
qed

lemma stamp_valid_num:
  assumes "length (cr_sha256 cr (workblock @ stamp)) = 32" and "0 < cost" and "cost \<le> 256"
  shows "stamp_valid cr workblock stamp cost
    \<longleftrightarrow> from_be_bytes 0 (cr_sha256 cr (workblock @ stamp)) \<le> 2 ^ (256 - cost)"
  using assms stamp_target_num [of "256 - cost"]
    bytes_le_num [of "cr_sha256 cr (workblock @ stamp)" "stamp_target (256 - cost)"]
  by (auto simp: stamp_valid_def sat_sub_def full_hash_def Let_def)

lemma stamp_value_num:
  assumes "length (cr_sha256 cr (workblock @ stamp)) = 32" and "k \<le> 256"
  shows "k \<le> stamp_value cr workblock stamp
    \<longleftrightarrow> from_be_bytes 0 (cr_sha256 cr (workblock @ stamp)) < 2 ^ (256 - k)"
proof -
  let ?h = "cr_sha256 cr (workblock @ stamp)"
  have "count_zeros ?h + bit_len (from_be_bytes 0 ?h) = 256"
    using count_zeros_bit_len [of ?h] assms(1) by simp
  then have "k \<le> count_zeros ?h \<longleftrightarrow> bit_len (from_be_bytes 0 ?h) \<le> 256 - k" using assms(2) by linarith
  then show ?thesis by (simp only: bit_len_le_iff stamp_value_def full_hash_def)
qed

subsection \<open>Generation\<close>

lemma max_rounds_le: "max_rounds cost \<le> u32_max"
  by (simp add: max_rounds_def u32_max_def)

lemma max_rounds_pos: "0 < max_rounds cost"
  by (simp add: max_rounds_def u32_max_def)

text \<open>The loop returns the first valid draw among the allowed rounds.\<close>

lemma generate_loop_find:
  "r < max_rounds cost \<Longrightarrow> generate_loop cr wb cost rng r =
    (case find (\<lambda>i. stamp_valid cr wb (rng i) cost) [r..<max_rounds cost] of
       None \<Rightarrow> (None, 0)
     | Some i \<Rightarrow> (Some (rng i), stamp_value cr wb (rng i)))"
proof (induction cr wb cost rng r rule: generate_loop.induct)
  case (1 cr wb cost rng r)
  have next_r: "sat_add32 r 1 = Suc r"
    using "1.prems" max_rounds_le [of cost] by (simp add: sat_add32_def)
  have up: "[r..<max_rounds cost] = r # [Suc r..<max_rounds cost]"
    using "1.prems" by (simp add: upt_conv_Cons)
  show ?case
  proof (cases "stamp_valid cr wb (rng r) cost \<or> Suc r \<ge> max_rounds cost")
    case True
    then show ?thesis
      by (subst generate_loop.simps) (auto simp: up next_r [simplified] Let_def)
  next
    case False
    then have "generate_loop cr wb cost rng (Suc r) =
      (case find (\<lambda>i. stamp_valid cr wb (rng i) cost) [Suc r..<max_rounds cost] of
         None \<Rightarrow> (None, 0) | Some i \<Rightarrow> (Some (rng i), stamp_value cr wb (rng i)))"
      using "1.IH" [OF refl refl] next_r by simp
    with False show ?thesis
      by (subst generate_loop.simps) (simp add: up next_r [simplified] Let_def)
  qed
qed

lemma generate_stamp_find:
  "stamp_workblock c cr mid rounds = Inr wb \<Longrightarrow> generate_stamp c cr rng mid cost rounds =
    (case find (\<lambda>i. stamp_valid cr wb (rng i) cost) [0..<max_rounds cost] of
       None \<Rightarrow> (None, 0)
     | Some i \<Rightarrow> (Some (rng i), stamp_value cr wb (rng i)))"
  by (simp add: generate_stamp_def generate_loop_find max_rounds_pos)

lemma generate_stamp_valid:
  assumes "generate_stamp c cr rng mid cost rounds = (Some stamp, v)"
  obtains wb where "stamp_workblock c cr mid rounds = Inr wb" "stamp_valid cr wb stamp cost"
    "v = stamp_value cr wb stamp" "stamp \<in> range rng"
proof -
  obtain wb where wb: "stamp_workblock c cr mid rounds = Inr wb"
    using assms by (auto simp: generate_stamp_def split: sum.splits)
  with assms obtain i where "find (\<lambda>i. stamp_valid cr wb (rng i) cost) [0..<max_rounds cost] = Some i"
      "stamp = rng i" "v = stamp_value cr wb (rng i)"
    by (auto simp: generate_stamp_find split: option.splits)
  with that [OF wb] show thesis by (auto simp: find_Some_iff)
qed

subsection \<open>Properties\<close>

text \<open>C18. The byte-wise stamp check is the numeric one: a stamp is valid for a cost between 1 and 256
  exactly when the hash is at most \<open>2 ^ (256 - cost)\<close>, its value is at least \<open>k\<close> exactly when the
  hash is below \<open>2 ^ (256 - k)\<close>; hence a stamp worth its cost is valid, and a valid stamp is worth
  at least its cost less one (the equality that the check accepts).\<close>

theorem stamp_check_is_numeric:
  assumes "length (cr_sha256 cr (workblock @ stamp)) = 32" and "0 < cost" and "cost \<le> 256"
  shows "stamp_valid cr workblock stamp cost
      = (from_be_bytes 0 (cr_sha256 cr (workblock @ stamp)) \<le> 2 ^ (256 - cost))
    \<and> (cost \<le> stamp_value cr workblock stamp)
      = (from_be_bytes 0 (cr_sha256 cr (workblock @ stamp)) < 2 ^ (256 - cost))
    \<and> (cost \<le> stamp_value cr workblock stamp \<longrightarrow> stamp_valid cr workblock stamp cost)
    \<and> (stamp_valid cr workblock stamp cost \<longrightarrow> cost - 1 \<le> stamp_value cr workblock stamp)"
proof -
  let ?h = "from_be_bytes 0 (cr_sha256 cr (workblock @ stamp))"
  note valid = stamp_valid_num [OF assms] and val = stamp_value_num [OF assms(1,3)]
  have "cost - 1 \<le> stamp_value cr workblock stamp" if "stamp_valid cr workblock stamp cost"
  proof -
    have "?h \<le> 2 ^ (256 - cost)" using that valid by simp
    also have "(2 :: nat) ^ (256 - cost) < 2 ^ (256 - (cost - 1))"
      using assms(2,3) by (intro power_strict_increasing) auto
    finally show ?thesis using stamp_value_num [OF assms(1), of "cost - 1"] assms(3) by simp
  qed
  with valid val show ?thesis by simp
qed

definition zero_crypto :: crypto where
  "zero_crypto = \<lparr>cr_sha256 = (\<lambda>d. replicate 31 0 @ [of_nat (length d)]), cr_hkdf = (\<lambda>s m. Some (take 1 (s @ m)))\<rparr>"

lemma zero_crypto_sha [simp]: "length (cr_sha256 zero_crypto d) = 32"
  by (simp add: zero_crypto_def)

theorem stamp_check_is_numeric_witness:
  "stamp_valid zero_crypto [1] [2, 3] 254 = (from_be_bytes 0 (cr_sha256 zero_crypto ([1] @ [2, 3])) \<le> 2 ^ (256 - 254))
    \<and> (254 \<le> stamp_value zero_crypto [1] [2, 3])
      = (from_be_bytes 0 (cr_sha256 zero_crypto ([1] @ [2, 3])) < 2 ^ (256 - 254))"
  using stamp_check_is_numeric [of zero_crypto "[1]" "[2, 3]" 254] by (simp only: zero_crypto_sha)

text \<open>Stamp generation ends after at most \<open>max_rounds\<close> draws: it returns the first valid draw with
  its value, and nothing exactly when no draw within the limit is valid.\<close>

theorem generate_stamp_first_valid:
  assumes "stamp_workblock c cr mid rounds = Inr wb"
  shows "generate_stamp c cr rng mid cost rounds =
    (case find (\<lambda>i. stamp_valid cr wb (rng i) cost) [0..<max_rounds cost] of
       None \<Rightarrow> (None, 0)
     | Some i \<Rightarrow> (Some (rng i), stamp_value cr wb (rng i)))"
  using assms by (rule generate_stamp_find)

theorem generate_stamp_first_valid_witness:
  "generate_stamp ref_codec zero_crypto (\<lambda>i. replicate 32 0) [7] 0 2 =
    (case find (\<lambda>i. stamp_valid zero_crypto [0, 0] (replicate 32 0) 0) [0..<max_rounds 0] of
       None \<Rightarrow> (None, 0)
     | Some i \<Rightarrow> (Some (replicate 32 0), stamp_value zero_crypto [0, 0] (replicate 32 0)))"
  by (rule generate_stamp_first_valid)
    (simp add: stamp_workblock_def pack_u64_msgpack_def ref_codec_def zero_crypto_def full_hash_def upt_rec numeral_2_eq_2)

text \<open>A propagation stamp that was generated for a message is accepted by the propagation node that
  receives the message with the stamp appended, with the same transient id, value and split.\<close>

theorem pn_stamp_roundtrip:
  assumes "generate_stamp c cr rng (full_hash cr lxm) cost WORKBLOCK_EXPAND_ROUNDS_PN = (Some stamp, v)"
    and "length stamp = STAMP_SIZE" and "LXMF_OVERHEAD < length lxm"
  shows "validate_pn_stamp c cr (lxm @ stamp) cost = Some (full_hash cr lxm, lxm, v, stamp)"
proof -
  from assms(1) obtain wb where wb: "stamp_workblock c cr (full_hash cr lxm) WORKBLOCK_EXPAND_ROUNDS_PN = Inr wb"
      "stamp_valid cr wb stamp cost" "v = stamp_value cr wb stamp"
    by (rule generate_stamp_valid)
  have "sat_sub (length (lxm @ stamp)) STAMP_SIZE = length lxm" using assms(2) by (simp add: sat_sub_def)
  with wb assms(2,3) show ?thesis by (simp add: validate_pn_stamp_def Let_def)
qed

lemma workblock_zero: "\<exists>wb. workblock_loop ref_codec zero_crypto m ns = Inr wb"
  by (induction ns) (auto simp: pack_u64_msgpack_def ref_codec_def zero_crypto_def)

theorem pn_stamp_roundtrip_witness:
  "\<exists>v. validate_pn_stamp ref_codec zero_crypto (replicate 113 9 @ replicate 32 1) 0
     = Some (full_hash zero_crypto (replicate 113 9), replicate 113 9, v, replicate 32 1)"
proof -
  obtain wb where wb: "stamp_workblock ref_codec zero_crypto (full_hash zero_crypto (replicate 113 9)) WORKBLOCK_EXPAND_ROUNDS_PN = Inr wb"
    using workblock_zero by (auto simp: stamp_workblock_def)
  have "[0..<max_rounds 0] = 0 # [1..<max_rounds 0]" using max_rounds_pos [of 0] by (simp add: upt_conv_Cons)
  then obtain v where "generate_stamp ref_codec zero_crypto (\<lambda>i. replicate 32 1) (full_hash zero_crypto (replicate 113 9)) 0
      WORKBLOCK_EXPAND_ROUNDS_PN = (Some (replicate 32 1), v)"
    using generate_stamp_find [OF wb, of "\<lambda>i. replicate 32 1" 0] by (simp add: stamp_valid_def)
  from pn_stamp_roundtrip [OF this] show ?thesis
    by (auto simp: STAMP_SIZE_def LXMF_OVERHEAD_def DESTINATION_LENGTH_def SIGNATURE_LENGTH_def TIMESTAMP_SIZE_def STRUCT_OVERHEAD_def)
qed

end
