(* ===== verification/Messages.thy ===== *)
theory Messages
  imports Stamps
begin

section \<open>LXMF messages (lxmf-rs/src/message.rs, first half)\<close>

text \<open>
  The message, its signed encoding and decoding, signature verification, stamp creation and
  validation, and the storage container. Ed25519 comes from a third-party crate: \<open>sign\<close> is the
  signature of a byte string under the sender's key and \<open>vrf\<close> the verifier. A method that takes
  \<open>&mut self\<close> returns the message it leaves behind together with its result.
\<close>

subsection \<open>Definitions\<close>

definition STATE_GENERATING :: byte where "STATE_GENERATING = 0"
definition REPR_UNKNOWN :: byte where "REPR_UNKNOWN = 0"
definition COST_TICKET :: nat where "COST_TICKET = 0x100"

record lxmessage =
  destination_hash :: bytes
  source_hash :: bytes
  timestamp :: "64 word"
  title :: bytes
  content :: bytes
  m_fields :: mval
  stamp :: "bytes option"
  stamp_cost :: "nat option"
  m_stamp_value :: "nat option"
  m_stamp_valid :: bool
  stamp_checked :: bool
  outbound_ticket :: "bytes option"
  include_ticket :: bool
  defer_stamp :: bool
  m_state :: byte
  m_method :: "byte option"
  representation :: byte
  transport_encrypted :: "bool option"
  transport_encryption :: "bytes option"
  signature :: "bytes option"
  message_id :: "bytes option"

definition msg_new :: "bytes \<Rightarrow> bytes \<Rightarrow> lxmessage" where
  "msg_new dest src =
     \<lparr>destination_hash = dest, source_hash = src, timestamp = 0, title = [], content = [], m_fields = MMap [],
      stamp = None, stamp_cost = None, m_stamp_value = None, m_stamp_valid = False, stamp_checked = False,
      outbound_ticket = None, include_ticket = False, defer_stamp = True, m_state = STATE_GENERATING,
      m_method = None, representation = REPR_UNKNOWN, transport_encrypted = None,
      transport_encryption = None, signature = None, message_id = None\<rparr>"

definition with_strings :: "bytes \<Rightarrow> bytes \<Rightarrow> 64 word \<Rightarrow> bytes \<Rightarrow> bytes \<Rightarrow> mval \<Rightarrow> lxmessage" where
  "with_strings dest src ts ttl cnt flds =
     (msg_new dest src)\<lparr>timestamp := ts, title := ttl, content := cnt, m_fields := flds\<rparr>"

definition set_outbound_ticket :: "bytes \<Rightarrow> lxmessage \<Rightarrow> lxmessage" where
  "set_outbound_ticket t m = m\<lparr>outbound_ticket := Some t\<rparr>"

definition set_stamp_cost :: "nat \<Rightarrow> lxmessage \<Rightarrow> lxmessage" where
  "set_stamp_cost c m = m\<lparr>stamp_cost := Some c\<rparr>"

definition set_defer_stamp :: "bool \<Rightarrow> lxmessage \<Rightarrow> lxmessage" where
  "set_defer_stamp d m = m\<lparr>defer_stamp := d\<rparr>"

definition pack_payload_values :: "codec \<Rightarrow> mval list \<Rightarrow> lxmf_error + bytes" where
  "pack_payload_values c vs = (case write_value c (MArr vs) of Inl e \<Rightarrow> Inl (MsgpackEncode e) | Inr b \<Rightarrow> Inr b)"

definition pack_payload :: "codec \<Rightarrow> lxmessage \<Rightarrow> bool \<Rightarrow> lxmf_error + bytes" where
  "pack_payload c m include_stamp =
     pack_payload_values c
       ([MF64 (timestamp m), MBin (title m), MBin (content m), m_fields m]
        @ (if include_stamp then (case stamp m of Some s \<Rightarrow> [MBin s] | None \<Rightarrow> []) else []))"

definition compute_message_id :: "crypto \<Rightarrow> bytes \<Rightarrow> bytes \<Rightarrow> bytes \<Rightarrow> bytes" where
  "compute_message_id cr dest src packed = cr_sha256 cr (dest @ src @ packed)"

definition build_signed_part :: "bytes \<Rightarrow> bytes \<Rightarrow> bytes \<Rightarrow> bytes \<Rightarrow> bytes" where
  "build_signed_part dest src packed mid = dest @ src @ packed @ mid"

definition msg_value_to_bytes :: "mval \<Rightarrow> lxmf_error + bytes" where
  "msg_value_to_bytes v = (case v of
       MBin d \<Rightarrow> Inr d
     | MStr s \<Rightarrow> (case as_str s of Some b \<Rightarrow> Inr b | None \<Rightarrow> Inl InvalidBytes)
     | _ \<Rightarrow> Inl InvalidBytes)"

definition msg_value_to_f64 :: "mval \<Rightarrow> lxmf_error + 64 word" where
  "msg_value_to_f64 v = (case v of
       MF64 x \<Rightarrow> Inr x
     | MF32 x \<Rightarrow> Inr (f32_to_f64 x)
     | MInt i \<Rightarrow> (case as_i64 v of Some i \<Rightarrow> Inr (i64_to_f64 i) | None \<Rightarrow> Inl InvalidTimestamp)
     | _ \<Rightarrow> Inl InvalidTimestamp)"

text \<open>The proof-of-work branch of \<open>ensure_stamp\<close>.\<close>

definition work_stamp :: "codec \<Rightarrow> crypto \<Rightarrow> (nat \<Rightarrow> bytes) \<Rightarrow> bytes \<Rightarrow> lxmessage \<Rightarrow> lxmessage" where
  "work_stamp c cr rng mid m =
     (case stamp_cost m of
        None \<Rightarrow> m
      | Some cost \<Rightarrow>
         (case generate_stamp c cr rng mid cost WORKBLOCK_EXPAND_ROUNDS of
            (None, _) \<Rightarrow> m
          | (Some s, v) \<Rightarrow> m\<lparr>stamp := Some s, m_stamp_value := Some v,
                             m_stamp_valid := True, stamp_checked := True\<rparr>))"

definition ensure_stamp :: "codec \<Rightarrow> crypto \<Rightarrow> (nat \<Rightarrow> bytes) \<Rightarrow> lxmessage \<Rightarrow> (lxmf_error + unit) \<times> lxmessage" where
  "ensure_stamp c cr rng m =
     (if stamp m \<noteq> None then (Inr (), m)
      else (case message_id m of
        None \<Rightarrow> (Inl MissingSignature, m)
      | Some mid \<Rightarrow>
         (case outbound_ticket m of
            Some t \<Rightarrow>
              if length t = TICKET_LENGTH
              then (Inr (), m\<lparr>stamp := Some (truncated_hash cr (t @ mid)),
                              m_stamp_value := Some COST_TICKET, m_stamp_valid := True, stamp_checked := True\<rparr>)
              else (Inr (), work_stamp c cr rng mid m)
          | None \<Rightarrow> (Inr (), work_stamp c cr rng mid m))))"

definition encode_with_signature :: "codec \<Rightarrow> lxmessage \<Rightarrow> lxmf_error + bytes" where
  "encode_with_signature c m =
     (case signature m of
        None \<Rightarrow> Inl MissingSignature
      | Some sig \<Rightarrow>
         (case pack_payload c m (stamp m \<noteq> None) of
            Inl e \<Rightarrow> Inl e
          | Inr payload \<Rightarrow> Inr (destination_hash m @ source_hash m @ sig @ payload)))"

definition encode_signed ::
  "codec \<Rightarrow> crypto \<Rightarrow> (nat \<Rightarrow> bytes) \<Rightarrow> (bytes \<Rightarrow> bytes) \<Rightarrow> lxmessage \<Rightarrow> (lxmf_error + bytes) \<times> lxmessage" where
  "encode_signed c cr rng sign m =
     (case pack_payload c m False of
        Inl e \<Rightarrow> (Inl e, m)
      | Inr payload \<Rightarrow>
         (let mid = compute_message_id cr (destination_hash m) (source_hash m) payload;
              signed_part = build_signed_part (destination_hash m) (source_hash m) payload mid;
              m1 = m\<lparr>message_id := Some mid\<rparr> in
          case (if defer_stamp m1 then (Inr (), m1) else ensure_stamp c cr rng m1) of
            (Inl e, m2) \<Rightarrow> (Inl e, m2)
          | (Inr _, m2) \<Rightarrow>
             (let m3 = m2\<lparr>signature := Some (sign signed_part)\<rparr> in
              (encode_with_signature c m3, m3))))"

definition msg_decode :: "codec \<Rightarrow> crypto \<Rightarrow> bytes \<Rightarrow> lxmf_error + lxmessage" where
  "msg_decode c cr bs =
     (if length bs < DESTINATION_LENGTH * 2 + SIGNATURE_LENGTH + 1 then Inl InvalidLength
      else (let dest = take DESTINATION_LENGTH bs;
                src = take DESTINATION_LENGTH (drop DESTINATION_LENGTH bs);
                sig = take SIGNATURE_LENGTH (drop (DESTINATION_LENGTH * 2) bs);
                packed = drop (DESTINATION_LENGTH * 2 + SIGNATURE_LENGTH) bs in
        case read_value c packed of
          Inl e \<Rightarrow> Inl (MsgpackDecode e)
        | Inr (MArr arr) \<Rightarrow>
           (if length arr < 4 then Inl InvalidPayload
            else (case msg_value_to_f64 (arr ! 0) of Inl e \<Rightarrow> Inl e | Inr ts \<Rightarrow>
             (case msg_value_to_bytes (arr ! 1) of Inl e \<Rightarrow> Inl e | Inr ttl \<Rightarrow>
              (case msg_value_to_bytes (arr ! 2) of Inl e \<Rightarrow> Inl e | Inr cnt \<Rightarrow>
               (case (if length arr > 4 then map_sum id Some (msg_value_to_bytes (arr ! 4)) else Inr None) of
                  Inl e \<Rightarrow> Inl e
                | Inr stmp \<Rightarrow>
                   (case pack_payload_values c (take 4 arr) of Inl e \<Rightarrow> Inl e | Inr payload \<Rightarrow>
                      Inr ((msg_new dest src)\<lparr>timestamp := ts, title := ttl, content := cnt, m_fields := arr ! 3,
                             stamp := stmp, signature := Some sig,
                             message_id := Some (compute_message_id cr dest src payload)\<rparr>)))))))
        | Inr _ \<Rightarrow> Inl InvalidPayload))"

definition msg_verify :: "codec \<Rightarrow> crypto \<Rightarrow> (bytes \<Rightarrow> bytes \<Rightarrow> bool) \<Rightarrow> lxmessage \<Rightarrow> lxmf_error + bool" where
  "msg_verify c cr vrf m =
     (case signature m of
        None \<Rightarrow> Inl MissingSignature
      | Some sig \<Rightarrow>
         (case pack_payload c m False of
            Inl e \<Rightarrow> Inl e
          | Inr payload \<Rightarrow>
             (let mid = compute_message_id cr (destination_hash m) (source_hash m) payload in
              Inr (vrf (build_signed_part (destination_hash m) (source_hash m) payload mid) sig))))"

text \<open>The ticket branch of \<open>validate_stamp\<close>: the stamp is the truncated hash of ticket and id.\<close>

definition ticket_matches :: "crypto \<Rightarrow> bytes option \<Rightarrow> bytes \<Rightarrow> bytes \<Rightarrow> bool" where
  "ticket_matches cr ticket s mid = (case ticket of None \<Rightarrow> False
     | Some t \<Rightarrow> length t = TICKET_LENGTH \<and> length s = TICKET_LENGTH \<and> truncated_hash cr (t @ mid) = s)"

definition validate_stamp ::
  "codec \<Rightarrow> crypto \<Rightarrow> nat option \<Rightarrow> bytes option \<Rightarrow> lxmessage \<Rightarrow> (lxmf_error + bool) \<times> lxmessage" where
  "validate_stamp c cr cost ticket m0 =
     (let m = m0\<lparr>stamp_checked := True\<rparr> in
      case stamp m of
        None \<Rightarrow> (Inr False, m\<lparr>m_stamp_valid := False\<rparr>)
      | Some s \<Rightarrow>
         (case pack_payload c m False of
            Inl e \<Rightarrow> (Inl e, m)
          | Inr payload \<Rightarrow>
             (let mid = compute_message_id cr (destination_hash m) (source_hash m) payload;
                  m1 = m\<lparr>message_id := Some mid\<rparr> in
              if ticket_matches cr ticket s mid
              then (Inr True, m1\<lparr>m_stamp_value := Some COST_TICKET, m_stamp_valid := True\<rparr>)
              else (case cost of
                 None \<Rightarrow> (Inr False, m1\<lparr>m_stamp_valid := False\<rparr>)
               | Some cst \<Rightarrow>
                  (case stamp_workblock c cr mid WORKBLOCK_EXPAND_ROUNDS of
                     Inl e \<Rightarrow> (Inl e, m1)
                   | Inr wb \<Rightarrow>
                      if stamp_valid cr wb s cst
                      then (Inr True, m1\<lparr>m_stamp_value := Some (stamp_value cr wb s), m_stamp_valid := True\<rparr>)
                      else (Inr False, m1\<lparr>m_stamp_valid := False\<rparr>))))))"

definition paper_packed_from_encrypted :: "lxmessage \<Rightarrow> bytes \<Rightarrow> bytes" where
  "paper_packed_from_encrypted m enc_payload = destination_hash m @ enc_payload"

definition propagation_packed_from_encrypted ::
  "codec \<Rightarrow> lxmessage \<Rightarrow> bytes \<Rightarrow> 64 word \<Rightarrow> bytes option \<Rightarrow> lxmf_error + bytes" where
  "propagation_packed_from_encrypted c m enc_payload ts pstamp =
     (let lxm_data = destination_hash m @ enc_payload @ (case pstamp of Some s \<Rightarrow> s | None \<Rightarrow> []) in
      case write_value c (MArr [MF64 ts, MArr [MBin lxm_data]]) of
        Inl e \<Rightarrow> Inl (MsgpackEncode e)
      | Inr b \<Rightarrow> Inr b)"

definition transient_id_from_encrypted :: "crypto \<Rightarrow> lxmessage \<Rightarrow> bytes \<Rightarrow> bytes" where
  "transient_id_from_encrypted cr m enc_payload = full_hash cr (destination_hash m @ enc_payload)"

definition generate_propagation_stamp ::
  "codec \<Rightarrow> crypto \<Rightarrow> (nat \<Rightarrow> bytes) \<Rightarrow> lxmessage \<Rightarrow> bytes \<Rightarrow> nat \<Rightarrow> lxmf_error + (bytes \<times> bytes \<times> nat)" where
  "generate_propagation_stamp c cr rng m enc_payload cost =
     (let tid = transient_id_from_encrypted cr m enc_payload in
      case generate_stamp c cr rng tid cost WORKBLOCK_EXPAND_ROUNDS_PN of
        (None, _) \<Rightarrow> Inl InvalidPayload
      | (Some s, v) \<Rightarrow> Inr (tid, s, v))"

text \<open>The base64 encoder is the argument \<open>b64\<close>.\<close>

definition as_uri_from_paper :: "(bytes \<Rightarrow> bytes) \<Rightarrow> bytes \<Rightarrow> bytes" where
  "as_uri_from_paper b64 paper = str_bytes ''lxm://'' @ b64 paper"

subsection \<open>The storage container\<close>

definition key :: "string \<Rightarrow> mval" where
  "key s = MStr (str_bytes s)"

definition container_entries :: "lxmessage \<Rightarrow> bytes \<Rightarrow> (mval \<times> mval) list" where
  "container_entries m b =
     [(key ''lxmf_bytes'', MBin b), (key ''state'', MInt (int (unat (m_state m))))]
     @ (case m_method m of Some x \<Rightarrow> [(key ''method'', MInt (int (unat x)))] | None \<Rightarrow> [])
     @ (case transport_encrypted m of Some f \<Rightarrow> [(key ''transport_encrypted'', MBool f)] | None \<Rightarrow> [])
     @ (case transport_encryption m of Some e \<Rightarrow> [(key ''transport_encryption'', MStr e)] | None \<Rightarrow> [])"

definition packed_container :: "codec \<Rightarrow> lxmessage \<Rightarrow> lxmf_error + bytes" where
  "packed_container c m =
     (case encode_with_signature c m of
        Inl e \<Rightarrow> Inl e
      | Inr b \<Rightarrow> (case write_value c (MMap (container_entries m b)) of Inl e \<Rightarrow> Inl (MsgpackEncode e) | Inr out \<Rightarrow> Inr out))"

text \<open>The variables of the loop over the entries.\<close>

record container_acc =
  ca_bytes :: "bytes option"
  ca_state :: "byte option"
  ca_method :: "byte option"
  ca_encrypted :: "bool option"
  ca_encryption :: "bytes option"

definition u8_of_value :: "mval \<Rightarrow> byte option" where
  "u8_of_value v = (case as_u64 v of Some n \<Rightarrow> if n < 256 then Some (of_nat n) else None | None \<Rightarrow> None)"

definition container_entry :: "container_acc \<Rightarrow> mval \<times> mval \<Rightarrow> container_acc" where
  "container_entry acc kv =
     (case kv of (k, v) \<Rightarrow>
      (case (case k of MStr s \<Rightarrow> as_str s | _ \<Rightarrow> None) of
         None \<Rightarrow> acc
       | Some s \<Rightarrow>
          if s = str_bytes ''lxmf_bytes'' then (case v of MBin b \<Rightarrow> acc\<lparr>ca_bytes := Some b\<rparr> | _ \<Rightarrow> acc)
          else if s = str_bytes ''state'' then (case v of MInt _ \<Rightarrow> acc\<lparr>ca_state := u8_of_value v\<rparr> | _ \<Rightarrow> acc)
          else if s = str_bytes ''method'' then (case v of MInt _ \<Rightarrow> acc\<lparr>ca_method := u8_of_value v\<rparr> | _ \<Rightarrow> acc)
          else if s = str_bytes ''transport_encrypted'' then (case v of MBool b \<Rightarrow> acc\<lparr>ca_encrypted := Some b\<rparr> | _ \<Rightarrow> acc)
          else if s = str_bytes ''transport_encryption'' then (case v of MStr e \<Rightarrow> acc\<lparr>ca_encryption := as_str e\<rparr> | _ \<Rightarrow> acc)
          else acc))"

definition unpack_from_container :: "codec \<Rightarrow> crypto \<Rightarrow> bytes \<Rightarrow> lxmf_error + lxmessage" where
  "unpack_from_container c cr bs =
     (case read_value c bs of
        Inl e \<Rightarrow> Inl (MsgpackDecode e)
      | Inr (MMap entries) \<Rightarrow>
         (let acc = foldl container_entry \<lparr>ca_bytes = None, ca_state = None, ca_method = None, ca_encrypted = None, ca_encryption = None\<rparr> entries in
          case ca_bytes acc of
            None \<Rightarrow> Inl InvalidPayload
          | Some b \<Rightarrow>
             (case msg_decode c cr b of
                Inl e \<Rightarrow> Inl e
              | Inr m \<Rightarrow> Inr (m\<lparr>m_state := (case ca_state acc of Some s \<Rightarrow> s | None \<Rightarrow> STATE_GENERATING),
                                m_method := ca_method acc, transport_encrypted := ca_encrypted acc,
                                transport_encryption := ca_encryption acc\<rparr>)))
      | Inr _ \<Rightarrow> Inl InvalidPayload)"

subsection \<open>Encoding and decoding\<close>

lemmas length_consts = DESTINATION_LENGTH_def SIGNATURE_LENGTH_def HASH_LENGTH_def STAMP_SIZE_def TICKET_LENGTH_def

text \<open>The values of a payload, and the message that a decoder builds from them.\<close>

definition payload_values :: "lxmessage \<Rightarrow> bool \<Rightarrow> mval list" where
  "payload_values m inc =
     [MF64 (timestamp m), MBin (title m), MBin (content m), m_fields m]
     @ (if inc then (case stamp m of Some s \<Rightarrow> [MBin s] | None \<Rightarrow> []) else [])"

definition msg_wf :: "lxmessage \<Rightarrow> bool" where
  "msg_wf m \<longleftrightarrow> length (destination_hash m) = 16 \<and> length (source_hash m) = 16"

text \<open>What arrives at the other side: the content fields, the stamp, the signature and the id.\<close>

definition received_form :: "lxmessage \<Rightarrow> bytes \<Rightarrow> bytes \<Rightarrow> lxmessage" where
  "received_form m sig mid =
     (msg_new (destination_hash m) (source_hash m))\<lparr>timestamp := timestamp m, title := title m, content := content m,
        m_fields := m_fields m, stamp := stamp m, signature := Some sig, message_id := Some mid\<rparr>"

lemma pack_payload_values_eq: "pack_payload c m inc = pack_payload_values c (payload_values m inc)"
  by (simp add: pack_payload_def payload_values_def)

lemma pack_payload_ok: "pack_payload c m inc = Inr b \<longleftrightarrow> write_value c (MArr (payload_values m inc)) = Inr b"
  by (simp add: pack_payload_values_eq pack_payload_values_def split: sum.split)

lemma pack_payload_cong:
  "timestamp m = timestamp n \<Longrightarrow> title m = title n \<Longrightarrow> content m = content n \<Longrightarrow> m_fields m = m_fields n \<Longrightarrow>
    pack_payload c m False = pack_payload c n False"
  by (simp add: pack_payload_def)

lemma msg_decode_encoded:
  assumes m: "msg_wf m" and sig: "signature m = Some sig" "length sig = 64"
    and rb: "reads_back c (MArr (payload_values m (stamp m \<noteq> None)))"
    and p0: "pack_payload c m False = Inr p0"
  obtains bs where "encode_with_signature c m = Inr bs"
    "msg_decode c cr bs = Inr (received_form m sig (compute_message_id cr (destination_hash m) (source_hash m) p0))"
proof -
  obtain p where p: "write_value c (MArr (payload_values m (stamp m \<noteq> None))) = Inr p" "p \<noteq> []"
      "read_value c p = Inr (MArr (payload_values m (stamp m \<noteq> None)))"
    using rb by (rule reads_backE)
  let ?bs = "destination_hash m @ source_hash m @ sig @ p"
  have enc: "encode_with_signature c m = Inr ?bs"
    using sig p(1) pack_payload_ok [of c m "stamp m \<noteq> None" p] by (simp add: encode_with_signature_def)
  have take4: "pack_payload_values c (take 4 (payload_values m (stamp m \<noteq> None))) = Inr p0"
    using p0 by (simp add: pack_payload_values_eq payload_values_def)
  have "msg_decode c cr ?bs = Inr (received_form m sig (compute_message_id cr (destination_hash m) (source_hash m) p0))"
    using m sig(2) p(2,3) take4
    by (cases "stamp m")
      (simp_all add: msg_decode_def msg_wf_def length_consts Let_def payload_values_def msg_value_to_f64_def
        msg_value_to_bytes_def received_form_def)
  with enc that show thesis by blast
qed

lemma ensure_stamp_fields:
  assumes "ensure_stamp c cr rng m = (r, m')"
  shows "m' = m\<lparr>stamp := stamp m', m_stamp_value := m_stamp_value m', m_stamp_valid := m_stamp_valid m',
      stamp_checked := stamp_checked m'\<rparr>" and "message_id m = Some mid \<Longrightarrow> r = Inr ()"
  using assms by (auto simp: ensure_stamp_def work_stamp_def split: if_splits option.splits prod.splits)

lemma encode_signedE:
  assumes "encode_signed c cr rng sign m = (Inr bs, m')"
  obtains p0 mid m2 where "pack_payload c m False = Inr p0"
    "mid = compute_message_id cr (destination_hash m) (source_hash m) p0"
    "m2 = (if defer_stamp m then m\<lparr>message_id := Some mid\<rparr> else snd (ensure_stamp c cr rng (m\<lparr>message_id := Some mid\<rparr>)))"
    "m' = m2\<lparr>signature := Some (sign (build_signed_part (destination_hash m) (source_hash m) p0 mid))\<rparr>"
    "encode_with_signature c m' = Inr bs"
    "timestamp m' = timestamp m" "title m' = title m" "content m' = content m" "m_fields m' = m_fields m"
    "destination_hash m' = destination_hash m" "source_hash m' = source_hash m" "message_id m' = Some mid"
proof -
  obtain p0 where p0: "pack_payload c m False = Inr p0"
    using assms by (auto simp: encode_signed_def split: sum.splits)
  define mid where "mid = compute_message_id cr (destination_hash m) (source_hash m) p0"
  define m1 where "m1 = m\<lparr>message_id := Some mid\<rparr>"
  obtain r m2 where m2: "(if defer_stamp m1 then (Inr (), m1) else ensure_stamp c cr rng m1) = (r, m2)" by fastforce
  have r: "r = Inr ()" using m2 ensure_stamp_fields(2) [of c cr rng m1 r m2 mid] by (auto simp: m1_def split: if_splits)
  have same: "m2 = m1\<lparr>stamp := stamp m2, m_stamp_value := m_stamp_value m2, m_stamp_valid := m_stamp_valid m2,
      stamp_checked := stamp_checked m2\<rparr>"
    using m2 ensure_stamp_fields(1) [of c cr rng m1 r m2] by (auto split: if_splits)
  have eq: "m' = m2\<lparr>signature := Some (sign (build_signed_part (destination_hash m) (source_hash m) p0 mid))\<rparr>"
      "encode_with_signature c m' = Inr bs"
    using assms p0 m2 r unfolding encode_signed_def Let_def mid_def [symmetric] m1_def [symmetric]
    by (auto simp: m1_def mid_def split: if_splits)
  have "m2 = (if defer_stamp m then m\<lparr>message_id := Some mid\<rparr> else snd (ensure_stamp c cr rng (m\<lparr>message_id := Some mid\<rparr>)))"
    using m2 by (auto simp: m1_def split: if_splits)
  moreover have "timestamp m' = timestamp m" "title m' = title m" "content m' = content m" "m_fields m' = m_fields m"
      "destination_hash m' = destination_hash m" "source_hash m' = source_hash m" "message_id m' = Some mid"
    unfolding eq(1) by (subst same, simp add: m1_def)+
  ultimately show thesis using that p0 mid_def eq by blast
qed

text \<open>What the receiver decodes from a signed message.\<close>

lemma encode_signed_received:
  assumes enc: "encode_signed c cr rng sign m = (Inr bs, m')" and m: "msg_wf m" and sgn: "\<And>x. length (sign x) = 64"
    and rb: "reads_back c (MArr (payload_values m' (stamp m' \<noteq> None)))"
  obtains p0 mid where "pack_payload c m False = Inr p0"
    "mid = compute_message_id cr (destination_hash m) (source_hash m) p0"
    "msg_decode c cr bs = Inr (received_form m' (sign (build_signed_part (destination_hash m) (source_hash m) p0 mid)) mid)"
proof -
  from enc obtain p0 mid m2 where e: "pack_payload c m False = Inr p0"
    "mid = compute_message_id cr (destination_hash m) (source_hash m) p0"
    "m' = m2\<lparr>signature := Some (sign (build_signed_part (destination_hash m) (source_hash m) p0 mid))\<rparr>"
    "encode_with_signature c m' = Inr bs"
    and f: "timestamp m' = timestamp m" "title m' = title m" "content m' = content m" "m_fields m' = m_fields m"
    "destination_hash m' = destination_hash m" "source_hash m' = source_hash m" "message_id m' = Some mid"
    by (rule encode_signedE)
  have p0': "pack_payload c m' False = Inr p0" using pack_payload_cong [OF f(1-4)] e(1) by simp
  have wf: "msg_wf m'" using m f by (simp add: msg_wf_def)
  have sg: "signature m' = Some (sign (build_signed_part (destination_hash m) (source_hash m) p0 mid))" by (simp add: e(3))
  obtain bs' where "encode_with_signature c m' = Inr bs'"
    "msg_decode c cr bs' = Inr (received_form m' (sign (build_signed_part (destination_hash m) (source_hash m) p0 mid))
       (compute_message_id cr (destination_hash m') (source_hash m') p0))"
    using msg_decode_encoded [OF wf sg sgn rb p0'] by blast
  with e f that show thesis by simp
qed

lemma received_form_payload: "pack_payload c (received_form m sig mid) False = pack_payload c m False"
  by (rule pack_payload_cong) (simp_all add: received_form_def)

lemma received_form_fields [simp]:
  "destination_hash (received_form m sig mid) = destination_hash m"
  "source_hash (received_form m sig mid) = source_hash m"
  "timestamp (received_form m sig mid) = timestamp m" "title (received_form m sig mid) = title m"
  "content (received_form m sig mid) = content m" "m_fields (received_form m sig mid) = m_fields m"
  "stamp (received_form m sig mid) = stamp m" "signature (received_form m sig mid) = Some sig"
  "message_id (received_form m sig mid) = Some mid"
  by (simp_all add: received_form_def msg_new_def)

text \<open>Where a stamp comes from: the ticket, or proof of work for the cost.\<close>

lemma work_stamp_source:
  assumes "stamp (work_stamp c cr rng mid m) = Some s" and "stamp m = None"
  obtains cost wb where "stamp_cost m = Some cost" "stamp_workblock c cr mid WORKBLOCK_EXPAND_ROUNDS = Inr wb"
    "stamp_valid cr wb s cost" "m_stamp_value (work_stamp c cr rng mid m) = Some (stamp_value cr wb s)"
proof -
  obtain cost v where g: "stamp_cost m = Some cost" "generate_stamp c cr rng mid cost WORKBLOCK_EXPAND_ROUNDS = (Some s, v)"
    using assms by (auto simp: work_stamp_def split: option.splits prod.splits)
  from g(2) obtain wb where "stamp_workblock c cr mid WORKBLOCK_EXPAND_ROUNDS = Inr wb" "stamp_valid cr wb s cost"
      "v = stamp_value cr wb s"
    by (rule generate_stamp_valid)
  with g that show thesis by (simp add: work_stamp_def)
qed

lemma ensure_stamp_source:
  assumes "m2 = (if defer_stamp m then m\<lparr>message_id := Some mid\<rparr> else snd (ensure_stamp c cr rng (m\<lparr>message_id := Some mid\<rparr>)))"
    and "stamp m2 = Some s" and "stamp m = None" and "\<And>x. length (cr_sha256 cr x) = 32"
  shows "(ticket_matches cr (outbound_ticket m) s mid \<and> m_stamp_value m2 = Some COST_TICKET)
      \<or> (\<not> ticket_matches cr (outbound_ticket m) s mid \<and>
         (\<exists>cost wb. stamp_cost m = Some cost \<and> stamp_workblock c cr mid WORKBLOCK_EXPAND_ROUNDS = Inr wb
           \<and> stamp_valid cr wb s cost \<and> m_stamp_value m2 = Some (stamp_value cr wb s)))"
proof (cases "\<exists>t. outbound_ticket m = Some t \<and> length t = TICKET_LENGTH")
  case True
  with assms show ?thesis
    by (auto simp: ensure_stamp_def ticket_matches_def truncated_hash_def full_hash_def TICKET_LENGTH_def split: if_splits)
next
  case False
  then have "\<not> ticket_matches cr (outbound_ticket m) s mid" by (auto simp: ticket_matches_def split: option.splits)
  moreover have "m2 = work_stamp c cr rng mid (m\<lparr>message_id := Some mid\<rparr>)"
    using False assms by (auto simp: ensure_stamp_def split: option.splits if_splits)
  moreover obtain cost wb where "stamp_cost m = Some cost" "stamp_workblock c cr mid WORKBLOCK_EXPAND_ROUNDS = Inr wb"
      "stamp_valid cr wb s cost" "m_stamp_value m2 = Some (stamp_value cr wb s)"
    using work_stamp_source [of c cr rng mid "m\<lparr>message_id := Some mid\<rparr>" s] assms(2,3) calculation(2) by auto
  ultimately show ?thesis by blast
qed

subsection \<open>The container entries\<close>

lemma str_key [simp]: "as_str (str_bytes ''lxmf_bytes'') = Some (str_bytes ''lxmf_bytes'')"
  "as_str (str_bytes ''state'') = Some (str_bytes ''state'')"
  "as_str (str_bytes ''method'') = Some (str_bytes ''method'')"
  "as_str (str_bytes ''transport_encrypted'') = Some (str_bytes ''transport_encrypted'')"
  "as_str (str_bytes ''transport_encryption'') = Some (str_bytes ''transport_encryption'')"
  by (simp_all add: as_str_def str_bytes_utf8)

lemma str_bytes_neq: "length s \<noteq> length t \<Longrightarrow> str_bytes s \<noteq> str_bytes t"
  by (metis length_map str_bytes_def)

lemma container_entry_known:
  "container_entry acc (key ''lxmf_bytes'', MBin b) = acc\<lparr>ca_bytes := Some b\<rparr>"
  "container_entry acc (key ''state'', MInt i) = acc\<lparr>ca_state := u8_of_value (MInt i)\<rparr>"
  "container_entry acc (key ''method'', MInt i) = acc\<lparr>ca_method := u8_of_value (MInt i)\<rparr>"
  "container_entry acc (key ''transport_encrypted'', MBool f) = acc\<lparr>ca_encrypted := Some f\<rparr>"
  "container_entry acc (key ''transport_encryption'', MStr e) = acc\<lparr>ca_encryption := as_str e\<rparr>"
  by (simp_all add: container_entry_def key_def str_bytes_neq)

lemma u8_of_value_byte [simp]: "u8_of_value (MInt (uint (x :: byte))) = Some x"
proof -
  have "int (unat x) < 256" using unat_byte_lt [of x] by linarith
  then have "uint x < 256" by simp
  then show ?thesis using unat_byte_lt [of x] by (simp add: u8_of_value_def as_u64_def)
qed

lemma container_entries_fold:
  assumes "case transport_encryption m of None \<Rightarrow> True | Some e \<Rightarrow> utf8_valid e"
  shows "foldl container_entry \<lparr>ca_bytes = None, ca_state = None, ca_method = None, ca_encrypted = None, ca_encryption = None\<rparr>
      (container_entries m b) = \<lparr>ca_bytes = Some b, ca_state = Some (m_state m), ca_method = m_method m,
      ca_encrypted = transport_encrypted m, ca_encryption = transport_encryption m\<rparr>"
  using assms
  by (cases "m_method m"; cases "transport_encrypted m"; cases "transport_encryption m")
    (simp_all add: container_entries_def container_entry_known as_str_def)

lemma signed_message_received:
  assumes "encode_signed c cr rng sign m = (Inr bs, m')" and "msg_wf m"
    and "\<And>x. length (sign x) = 64" and "\<And>x. vrf x (sign x)"
    and "reads_back c (MArr (payload_values m' (stamp m' \<noteq> None)))"
  shows "\<exists>d. msg_decode c cr bs = Inr d \<and> msg_verify c cr vrf d = Inr True
    \<and> destination_hash d = destination_hash m \<and> source_hash d = source_hash m \<and> timestamp d = timestamp m
    \<and> title d = title m \<and> content d = content m \<and> m_fields d = m_fields m
    \<and> stamp d = stamp m' \<and> signature d = signature m' \<and> message_id d = message_id m'"
proof -
  from assms(1) obtain m2 where f: "timestamp m' = timestamp m" "title m' = title m" "content m' = content m"
      "m_fields m' = m_fields m" "destination_hash m' = destination_hash m" "source_hash m' = source_hash m"
    by (rule encode_signedE)
  from assms(1) obtain p1 mid1 m3 where sg: "pack_payload c m False = Inr p1"
      "mid1 = compute_message_id cr (destination_hash m) (source_hash m) p1"
      "signature m' = Some (sign (build_signed_part (destination_hash m) (source_hash m) p1 mid1))"
      "message_id m' = Some mid1"
    by (rule encode_signedE) simp
  from encode_signed_received [OF assms(1-3,5)] obtain p0 mid where d: "pack_payload c m False = Inr p0"
    "mid = compute_message_id cr (destination_hash m) (source_hash m) p0"
    "msg_decode c cr bs = Inr (received_form m' (sign (build_signed_part (destination_hash m) (source_hash m) p0 mid)) mid)"
    by blast
  let ?d = "received_form m' (sign (build_signed_part (destination_hash m) (source_hash m) p0 mid)) mid"
  have "pack_payload c ?d False = Inr p0"
    unfolding received_form_payload using pack_payload_cong [OF f(1-4)] d(1) by simp
  then have "msg_verify c cr vrf ?d = Inr True"
    using assms(4) f d(2) by (simp add: msg_verify_def)
  with d sg f show ?thesis by auto
qed

subsection \<open>Properties\<close>

text \<open>C5. A signed message arrives intact and verifies: if a message is encoded and signed, decoding
  the bytes yields the same destination, source, timestamp, title, content, fields, stamp,
  signature and message id, and the decoded message verifies under the sender's key. (The codec
  reads back the payload; signatures have 64 bytes and verify.)\<close>

theorem signed_message_roundtrip:
  assumes "encode_signed c cr rng sign m = (Inr bs, m')" and "msg_wf m"
    and "\<And>x. length (sign x) = 64" and "\<And>x. vrf x (sign x)"
    and "reads_back c (MArr (payload_values m' (stamp m' \<noteq> None)))"
  shows "\<exists>d. msg_decode c cr bs = Inr d \<and> msg_verify c cr vrf d = Inr True
    \<and> destination_hash d = destination_hash m \<and> source_hash d = source_hash m \<and> timestamp d = timestamp m
    \<and> title d = title m \<and> content d = content m \<and> m_fields d = m_fields m
    \<and> stamp d = stamp m' \<and> signature d = signature m' \<and> message_id d = message_id m'"
  using assms by (rule signed_message_received)

definition sample_message :: lxmessage where
  "sample_message = with_strings (replicate 16 1) (replicate 16 2) 5 [72, 105] [33] (MMap [])"

definition zero_sign :: "bytes \<Rightarrow> bytes" where
  "zero_sign x = replicate 63 0 @ [of_nat (length x)]"

lemma sample_encode:
  "encode_signed ref_codec zero_crypto rng zero_sign sample_message
    = (encode_with_signature ref_codec (snd (encode_signed ref_codec zero_crypto rng zero_sign sample_message)),
       snd (encode_signed ref_codec zero_crypto rng zero_sign sample_message))"
  "stamp (snd (encode_signed ref_codec zero_crypto rng zero_sign sample_message)) = None"
  by (simp_all add: encode_signed_def pack_payload_def pack_payload_values_def ref_codec_def sample_message_def
      with_strings_def msg_new_def Let_def)

lemma sample_encode_ok:
  obtains bs where "encode_signed ref_codec zero_crypto rng zero_sign sample_message
    = (Inr bs, snd (encode_signed ref_codec zero_crypto rng zero_sign sample_message))"
  by (simp add: encode_signed_def encode_with_signature_def pack_payload_def pack_payload_values_def ref_codec_def
      sample_message_def with_strings_def msg_new_def Let_def)

theorem signed_message_roundtrip_witness:
  "\<exists>bs d. fst (encode_signed ref_codec zero_crypto (\<lambda>i. []) zero_sign sample_message) = Inr bs
    \<and> msg_decode ref_codec zero_crypto bs = Inr d
    \<and> msg_verify ref_codec zero_crypto (\<lambda>x s. s = zero_sign x) d = Inr True \<and> title d = [72, 105]"
proof -
  let ?m = "snd (encode_signed ref_codec zero_crypto (\<lambda>i. []) zero_sign sample_message)"
  obtain bs where e: "encode_signed ref_codec zero_crypto (\<lambda>i. []) zero_sign sample_message = (Inr bs, ?m)"
    by (rule sample_encode_ok)
  from e obtain m2 where f: "timestamp ?m = timestamp sample_message" "title ?m = title sample_message"
      "content ?m = content sample_message" "m_fields ?m = m_fields sample_message"
    by (rule encode_signedE)
  have ok: "reads_back ref_codec (MArr (payload_values ?m (stamp ?m \<noteq> None)))"
    unfolding payload_values_def f sample_encode(2)
    by (rule ref_codec_reads_back) (simp add: sample_message_def with_strings_def msg_new_def)
  have wf: "msg_wf sample_message" by (simp add: msg_wf_def sample_message_def with_strings_def msg_new_def)
  have len: "\<And>x. length (zero_sign x) = 64" by (simp add: zero_sign_def)
  have "title sample_message = [72, 105]" by (simp add: sample_message_def with_strings_def)
  moreover have "fst (encode_signed ref_codec zero_crypto (\<lambda>i. []) zero_sign sample_message) = Inr bs"
    by (subst e) simp
  moreover obtain d where "msg_decode ref_codec zero_crypto bs = Inr d"
      "msg_verify ref_codec zero_crypto (\<lambda>x s. s = zero_sign x) d = Inr True" "title d = title sample_message"
    using signed_message_roundtrip [OF e wf len _ ok, of "\<lambda>x s. s = zero_sign x"] by blast
  ultimately show ?thesis by auto
qed

text \<open>C6. The stamp that a sender attaches is accepted by the receiver: if a message without a stamp
  gets one while it is encoded, then the decoded message validates, against the cost and the ticket
  that the sender used, with the value that the sender recorded.\<close>

theorem attached_stamp_validates:
  assumes "encode_signed c cr rng sign m = (Inr bs, m')" and "msg_wf m" and "\<And>x. length (sign x) = 64"
    and "reads_back c (MArr (payload_values m' (stamp m' \<noteq> None)))"
    and "\<And>x. length (cr_sha256 cr x) = 32"
    and "stamp m = None" and "stamp m' = Some s"
  shows "\<exists>d v. msg_decode c cr bs = Inr d \<and> validate_stamp c cr (stamp_cost m) (outbound_ticket m) d = (Inr True, v)
    \<and> m_stamp_valid v \<and> m_stamp_value v = m_stamp_value m' \<and> message_id v = message_id m'"
proof -
  from assms(1) obtain p0 mid m2 where e: "pack_payload c m False = Inr p0"
    "mid = compute_message_id cr (destination_hash m) (source_hash m) p0"
    "m2 = (if defer_stamp m then m\<lparr>message_id := Some mid\<rparr> else snd (ensure_stamp c cr rng (m\<lparr>message_id := Some mid\<rparr>)))"
    "m' = m2\<lparr>signature := Some (sign (build_signed_part (destination_hash m) (source_hash m) p0 mid))\<rparr>"
    and f: "timestamp m' = timestamp m" "title m' = title m" "content m' = content m" "m_fields m' = m_fields m"
    "destination_hash m' = destination_hash m" "source_hash m' = source_hash m" "message_id m' = Some mid"
    by (rule encode_signedE)
  from encode_signed_received [OF assms(1-4)] obtain sig where
    d: "msg_decode c cr bs = Inr (received_form m' sig mid)" using e by auto
  have p0: "pack_payload c ((received_form m' sig mid)\<lparr>stamp_checked := True\<rparr>) False = Inr p0"
    using pack_payload_cong [of "(received_form m' sig mid)\<lparr>stamp_checked := True\<rparr>" m c] e(1) f by simp
  have st: "stamp m2 = Some s" "m_stamp_value m' = m_stamp_value m2" using assms(7) e(4) by simp_all
  have val: "(ticket_matches cr (outbound_ticket m) s mid \<and> m_stamp_value m2 = Some COST_TICKET)
      \<or> (\<not> ticket_matches cr (outbound_ticket m) s mid \<and>
         (\<exists>cost wb. stamp_cost m = Some cost \<and> stamp_workblock c cr mid WORKBLOCK_EXPAND_ROUNDS = Inr wb
           \<and> stamp_valid cr wb s cost \<and> m_stamp_value m2 = Some (stamp_value cr wb s)))"
    using st(1) assms(5,6) e(3) by (intro ensure_stamp_source) auto
  then show ?thesis
    using d p0 e(2) f assms(7) st(2) by (auto simp: validate_stamp_def Let_def)
qed

definition ticket_message :: lxmessage where
  "ticket_message = set_defer_stamp False (set_outbound_ticket (replicate 16 4) sample_message)"

theorem attached_stamp_validates_witness:
  "\<exists>bs d v. fst (encode_signed ref_codec zero_crypto (\<lambda>i. []) zero_sign ticket_message) = Inr bs
    \<and> msg_decode ref_codec zero_crypto bs = Inr d
    \<and> validate_stamp ref_codec zero_crypto None (Some (replicate 16 4)) d = (Inr True, v)"
proof -
  let ?m = "snd (encode_signed ref_codec zero_crypto (\<lambda>i. []) zero_sign ticket_message)"
  note defs = ticket_message_def set_defer_stamp_def set_outbound_ticket_def sample_message_def with_strings_def msg_new_def
  obtain bs where e: "encode_signed ref_codec zero_crypto (\<lambda>i. []) zero_sign ticket_message = (Inr bs, ?m)"
    by (simp add: encode_signed_def encode_with_signature_def pack_payload_def pack_payload_values_def ref_codec_def
        defs Let_def ensure_stamp_def TICKET_LENGTH_def)
  have st: "stamp ?m = Some (replicate 16 0)"
    by (simp add: encode_signed_def pack_payload_def pack_payload_values_def ref_codec_def zero_crypto_def
        defs Let_def ensure_stamp_def TICKET_LENGTH_def truncated_hash_def full_hash_def)
  from e obtain m2 where f: "timestamp ?m = timestamp ticket_message" "title ?m = title ticket_message"
      "content ?m = content ticket_message" "m_fields ?m = m_fields ticket_message"
    by (rule encode_signedE)
  have ok: "reads_back ref_codec (MArr (payload_values ?m (stamp ?m \<noteq> None)))"
    unfolding payload_values_def f st by (rule ref_codec_reads_back) (simp add: defs)
  have t: "stamp_cost ticket_message = None" "outbound_ticket ticket_message = Some (replicate 16 4)" "stamp ticket_message = None"
    "msg_wf ticket_message" by (simp_all add: defs msg_wf_def)
  have "\<exists>d v. msg_decode ref_codec zero_crypto bs = Inr d
      \<and> validate_stamp ref_codec zero_crypto (stamp_cost ticket_message) (outbound_ticket ticket_message) d = (Inr True, v)
      \<and> m_stamp_valid v \<and> m_stamp_value v = m_stamp_value ?m \<and> message_id v = message_id ?m"
    by (rule attached_stamp_validates [OF e t(4) _ ok _ t(3) st]) (simp_all add: zero_sign_def)
  moreover have "fst (encode_signed ref_codec zero_crypto (\<lambda>i. []) zero_sign ticket_message) = Inr bs"
    by (subst e) simp
  ultimately show ?thesis unfolding t by blast
qed

text \<open>The storage container of a signed message unpacks to the received form of the message
  together with its state, method and transport encryption.\<close>

theorem container_roundtrip:
  assumes "packed_container c m = Inr bs" and "msg_wf m" and "signature m = Some sig" and "length sig = 64"
    and "pack_payload c m False = Inr p0"
    and "reads_back c (MArr (payload_values m (stamp m \<noteq> None)))"
    and "\<And>b. encode_with_signature c m = Inr b \<Longrightarrow> reads_back c (MMap (container_entries m b))"
    and "case transport_encryption m of None \<Rightarrow> True | Some e \<Rightarrow> utf8_valid e"
  shows "unpack_from_container c cr bs
    = Inr ((received_form m sig (compute_message_id cr (destination_hash m) (source_hash m) p0))
        \<lparr>m_state := m_state m, m_method := m_method m, transport_encrypted := transport_encrypted m,
         transport_encryption := transport_encryption m\<rparr>)"
proof -
  obtain b where b: "encode_with_signature c m = Inr b"
    "msg_decode c cr b = Inr (received_form m sig (compute_message_id cr (destination_hash m) (source_hash m) p0))"
    using msg_decode_encoded [OF assms(2-4,6,5)] by blast
  have "write_value c (MMap (container_entries m b)) = Inr bs"
    using assms(1) b(1) by (auto simp: packed_container_def split: sum.splits)
  then have "read_value c bs = Inr (MMap (container_entries m b))"
    using assms(7) [OF b(1)] by (simp add: reads_back_def)
  moreover have "foldl container_entry \<lparr>ca_bytes = None, ca_state = None, ca_method = None, ca_encrypted = None, ca_encryption = None\<rparr>
      (container_entries m b) = \<lparr>ca_bytes = Some b, ca_state = Some (m_state m), ca_method = m_method m,
      ca_encrypted = transport_encrypted m, ca_encryption = transport_encryption m\<rparr>"
    using assms(8) by (rule container_entries_fold)
  ultimately show ?thesis using b(2) by (simp add: unpack_from_container_def)
qed

theorem container_roundtrip_witness:
  "\<exists>bs. packed_container ref_codec (sample_message\<lparr>signature := Some (replicate 64 3), m_state := 4\<rparr>) = Inr bs
    \<and> unpack_from_container ref_codec zero_crypto bs
    = Inr ((received_form (sample_message\<lparr>signature := Some (replicate 64 3), m_state := 4\<rparr>) (replicate 64 3)
          (compute_message_id zero_crypto (replicate 16 1) (replicate 16 2)
             (mp_enc (MArr [MF64 5, MBin [72, 105], MBin [33], MMap []]))))\<lparr>m_state := 4\<rparr>)"
proof -
  let ?m = "sample_message\<lparr>signature := Some (replicate 64 3), m_state := 4\<rparr>"
  note defs = sample_message_def with_strings_def msg_new_def
  have p0: "pack_payload ref_codec ?m False = Inr (mp_enc (MArr [MF64 5, MBin [72, 105], MBin [33], MMap []]))"
    by (simp add: pack_payload_def pack_payload_values_def ref_codec_def defs)
  obtain bs where bs: "packed_container ref_codec ?m = Inr bs"
    by (simp add: packed_container_def encode_with_signature_def pack_payload_def pack_payload_values_def ref_codec_def defs)
  have ok: "reads_back ref_codec (MArr (payload_values ?m (stamp ?m \<noteq> None)))"
    by (rule ref_codec_reads_back) (simp add: payload_values_def defs)
  have cont: "reads_back ref_codec (MMap (container_entries ?m b))" if "encode_with_signature ref_codec ?m = Inr b" for b
  proof (rule ref_codec_reads_back)
    have "length b < 2 ^ 32"
      using that by (auto simp: encode_with_signature_def pack_payload_def pack_payload_values_def ref_codec_def defs)
    then show "mval_ok (MMap (container_entries ?m b))"
      by (simp add: container_entries_def defs key_def str_bytes_def)
  qed
  have "unpack_from_container ref_codec zero_crypto bs
    = Inr ((received_form ?m (replicate 64 3) (compute_message_id zero_crypto (destination_hash ?m) (source_hash ?m)
             (mp_enc (MArr [MF64 5, MBin [72, 105], MBin [33], MMap []]))))
        \<lparr>m_state := m_state ?m, m_method := m_method ?m, transport_encrypted := transport_encrypted ?m,
         transport_encryption := transport_encryption ?m\<rparr>)"
    by (rule container_roundtrip [OF bs _ _ _ p0 ok cont]) (simp_all add: msg_wf_def defs)
  with bs show ?thesis by (auto simp: defs received_form_def)
qed

end
