(* ===== verification/Delivery.thy ===== *)
theory Delivery
  imports Messages Packets
begin

section \<open>Delivery and requests (lxmf-rs/src/rns/transport.rs)\<close>

text \<open>
  \<open>RnsOutbound::deliver\<close> turns a message into a packet, a resource or a paper URI according to the
  delivery mode and the crypto policy; \<open>decode_packet\<close> is its inverse on the receiving side. Beside
  it the request and response payloads with their ids. The encryptor is a trait object: a record
  of its two methods. Addresses are the 16-byte hashes of the destinations; the signing key is the
  function \<open>ro_sign\<close>.
\<close>

subsection \<open>Types\<close>

datatype delivery_mode = Opportunistic | Direct | Propagated | Paper
datatype crypto_policy = AllowPlaintext | EnforceRatchets

datatype rns_error =
    Reticulum ret_error | Io string | InvalidDestinationHash
  | CryptoPolicyViolation crypto_policy delivery_mode string
  | Lxmf lxmf_error | Msgpack string

definition METHOD_OPPORTUNISTIC :: byte where "METHOD_OPPORTUNISTIC = 1"
definition METHOD_DIRECT :: byte where "METHOD_DIRECT = 2"
definition METHOD_PROPAGATED :: byte where "METHOD_PROPAGATED = 3"
definition METHOD_PAPER :: byte where "METHOD_PAPER = 5"
definition REPR_PACKET :: byte where "REPR_PACKET = 1"
definition REPR_RESOURCE :: byte where "REPR_RESOURCE = 2"

datatype delivery_output =
    OutPacket packet | OutResource bytes packet_context bytes | OutPaperUri bytes

record rns_request =
  req_id :: bytes
  req_at :: f64
  req_path_hash :: bytes
  req_data :: mval

record rns_response =
  rsp_id :: bytes
  rsp_data :: mval

datatype received =
    RMessage lxmessage
  | RPropagated f64 bytes bytes "bytes option" bool
  | RPropagationResource bytes "bytes option"
  | RRequest rns_request "bytes option"
  | RResponse rns_response "bytes option"
  | RControlRequest rns_request "bytes option"

record encrypt_hook =
  eh_encrypt :: "bytes \<Rightarrow> rns_error + bytes"
  provides_encryption :: bool

definition null_encryptor :: encrypt_hook where
  "null_encryptor = \<lparr>eh_encrypt = Inr, provides_encryption = False\<rparr>"

record rns_outbound =
  ro_source :: bytes
  ro_destination :: bytes
  ro_sign :: "bytes \<Rightarrow> bytes"
  ro_encryptor :: encrypt_hook
  ro_policy :: crypto_policy

text \<open>The environment of third-party functions: codec, hashes, random draws, base64.\<close>

record env =
  e_codec :: codec
  e_crypto :: crypto
  e_rng :: "nat \<Rightarrow> bytes"
  e_b64 :: "bytes \<Rightarrow> bytes"

subsection \<open>Sending\<close>

definition address_hash_to_array :: "bytes \<Rightarrow> rns_error + bytes" where
  "address_hash_to_array h = (if length h \<noteq> DESTINATION_LENGTH then Inl InvalidDestinationHash else Inr h)"

definition check_outbound :: "crypto_policy \<Rightarrow> delivery_mode \<Rightarrow> encrypt_hook \<Rightarrow> rns_error + unit" where
  "check_outbound policy mode enc =
     (case policy of
        AllowPlaintext \<Rightarrow> Inr ()
      | EnforceRatchets \<Rightarrow>
         (if mode = Opportunistic \<or> mode = Direct
          then Inl (CryptoPolicyViolation policy mode ''delivery mode does not apply LXMF-layer encryption yet'')
          else if provides_encryption enc then Inr ()
          else Inl (CryptoPolicyViolation policy mode ''encryptor does not provide encryption (NullEncryptor?)'')))"

definition prepare_message :: "rns_outbound \<Rightarrow> lxmessage \<Rightarrow> (rns_error + unit) \<times> lxmessage" where
  "prepare_message out m =
     (case address_hash_to_array (ro_destination out) of
        Inl e \<Rightarrow> (Inl e, m)
      | Inr d \<Rightarrow>
         (let m1 = m\<lparr>destination_hash := d\<rparr> in
          case address_hash_to_array (ro_source out) of
            Inl e \<Rightarrow> (Inl e, m1)
          | Inr s \<Rightarrow> (Inr (), m1\<lparr>source_hash := s\<rparr>)))"

definition packet_from_payload_hash_with_context ::
  "bytes \<Rightarrow> bytes \<Rightarrow> destination_type \<Rightarrow> packet_context \<Rightarrow> rns_error + packet" where
  "packet_from_payload_hash_with_context dest payload dt ctx =
     (case sb_write payload (sb_new PACKET_MDU) of
        (Inl e, _) \<Rightarrow> Inl (Reticulum e)
      | (Inr _, buf) \<Rightarrow> Inr
          \<lparr>p_header = header_default\<lparr>h_destination_type := dt, h_packet_type := Data\<rparr>, p_ifac = None,
           p_destination = dest, p_transport = None, p_context = ctx, p_data = buf\<rparr>)"

definition packet_from_payload :: "bytes \<Rightarrow> bytes \<Rightarrow> destination_type \<Rightarrow> rns_error + packet" where
  "packet_from_payload dest payload dt = packet_from_payload_hash_with_context dest payload dt CtxNone"

definition deliver_as_packet_or_resource ::
  "bytes \<Rightarrow> bytes \<Rightarrow> lxmessage \<Rightarrow> destination_type \<Rightarrow> (rns_error + delivery_output) \<times> lxmessage" where
  "deliver_as_packet_or_resource dest payload m dt =
     (if length payload \<le> PACKET_MDU
      then (map_sum id OutPacket (packet_from_payload dest payload dt), m\<lparr>representation := REPR_PACKET\<rparr>)
      else (Inr (OutResource dest Resource payload), m\<lparr>representation := REPR_RESOURCE\<rparr>))"

text \<open>The match on the mode, after the message was encoded.\<close>

definition deliver_packed ::
  "env \<Rightarrow> rns_outbound \<Rightarrow> delivery_mode \<Rightarrow> bytes \<Rightarrow> lxmessage \<Rightarrow> (rns_error + delivery_output) \<times> lxmessage" where
  "deliver_packed E out mode packed m =
     (case mode of
        Opportunistic \<Rightarrow> deliver_as_packet_or_resource (ro_destination out) (drop DESTINATION_LENGTH packed)
          (m\<lparr>m_method := Some METHOD_OPPORTUNISTIC\<rparr>) Single
      | Direct \<Rightarrow> deliver_as_packet_or_resource (ro_destination out) packed (m\<lparr>m_method := Some METHOD_DIRECT\<rparr>) Single
      | Propagated \<Rightarrow>
         (let m1 = m\<lparr>m_method := Some METHOD_PROPAGATED\<rparr> in
          case eh_encrypt (ro_encryptor out) (drop DESTINATION_LENGTH packed) of
            Inl e \<Rightarrow> (Inl e, m1)
          | Inr encrypted \<Rightarrow>
             (case propagation_packed_from_encrypted (e_codec E) m1 encrypted (timestamp m1) None of
                Inl e \<Rightarrow> (Inl (Lxmf e), m1)
              | Inr propagation \<Rightarrow> deliver_as_packet_or_resource (ro_destination out) propagation m1 Single))
      | Paper \<Rightarrow>
         (let m1 = m\<lparr>m_method := Some METHOD_PAPER\<rparr> in
          case eh_encrypt (ro_encryptor out) (drop DESTINATION_LENGTH packed) of
            Inl e \<Rightarrow> (Inl e, m1)
          | Inr encrypted \<Rightarrow>
             (Inr (OutPaperUri (as_uri_from_paper (e_b64 E) (paper_packed_from_encrypted m1 encrypted))), m1)))"

definition deliver :: "env \<Rightarrow> rns_outbound \<Rightarrow> lxmessage \<Rightarrow> delivery_mode \<Rightarrow> (rns_error + delivery_output) \<times> lxmessage" where
  "deliver E out m mode =
     (case check_outbound (ro_policy out) mode (ro_encryptor out) of
        Inl e \<Rightarrow> (Inl e, m)
      | Inr _ \<Rightarrow>
         (case prepare_message out m of
            (Inl e, m1) \<Rightarrow> (Inl e, m1)
          | (Inr _, m1) \<Rightarrow>
             (case encode_signed (e_codec E) (e_crypto E) (e_rng E) (ro_sign out) m1 of
                (Inl e, m2) \<Rightarrow> (Inl (Lxmf e), m2)
              | (Inr packed, m2) \<Rightarrow> deliver_packed E out mode packed m2)))"

subsection \<open>Receiving\<close>

definition decode_propagated_payload ::
  "env \<Rightarrow> bytes \<Rightarrow> bytes option \<Rightarrow> bool \<Rightarrow> rns_error + received" where
  "decode_propagated_payload E payload src count_client =
     (case read_value (e_codec E) payload of
        Inl e \<Rightarrow> Inl (Msgpack e)
      | Inr (MArr arr) \<Rightarrow>
         (if length arr < 2 then Inl (Lxmf InvalidPayload)
          else (case arr ! 0 of
             MF64 ts \<Rightarrow>
               (case arr ! 1 of
                  MArr inner \<Rightarrow>
                    (if length inner \<noteq> 1 then Inl (Lxmf InvalidPayload)
                     else (case inner ! 0 of
                        MBin b \<Rightarrow> Inr (RPropagated ts b (full_hash (e_crypto E) b) src count_client)
                      | _ \<Rightarrow> Inl (Lxmf InvalidPayload)))
                | _ \<Rightarrow> Inl (Lxmf InvalidPayload))
           | _ \<Rightarrow> Inl (Lxmf InvalidPayload)))
      | Inr _ \<Rightarrow> Inl (Lxmf InvalidPayload))"

fun all_binaries :: "mval list \<Rightarrow> rns_error + bytes list" where
  "all_binaries [] = Inr []"
| "all_binaries (v # vs) =
     (case v of
        MBin b \<Rightarrow> (case all_binaries vs of Inl e \<Rightarrow> Inl e | Inr bs \<Rightarrow> Inr (b # bs))
      | _ \<Rightarrow> Inl (Lxmf InvalidPayload))"

definition decode_propagation_resource_payload :: "env \<Rightarrow> bytes \<Rightarrow> rns_error + bytes list" where
  "decode_propagation_resource_payload E payload =
     (case read_value (e_codec E) payload of
        Inl e \<Rightarrow> Inl (Msgpack e)
      | Inr (MArr arr) \<Rightarrow>
         (if length arr < 2 then Inl (Lxmf InvalidPayload)
          else (case arr ! 1 of MArr items \<Rightarrow> all_binaries items | _ \<Rightarrow> Inl (Lxmf InvalidPayload)))
      | Inr _ \<Rightarrow> Inl (Lxmf InvalidPayload))"

definition decode_packet_with_source :: "env \<Rightarrow> packet \<Rightarrow> delivery_mode \<Rightarrow> bytes option \<Rightarrow> rns_error + received" where
  "decode_packet_with_source E p mode src =
     (case mode of
        Opportunistic \<Rightarrow>
          (case msg_decode (e_codec E) (e_crypto E) (p_destination p @ sb_as_slice (p_data p)) of
             Inl e \<Rightarrow> Inl (Lxmf e) | Inr m \<Rightarrow> Inr (RMessage m))
      | Direct \<Rightarrow>
          (case msg_decode (e_codec E) (e_crypto E) (sb_as_slice (p_data p)) of
             Inl e \<Rightarrow> Inl (Lxmf e) | Inr m \<Rightarrow> Inr (RMessage m))
      | Propagated \<Rightarrow> decode_propagated_payload E (sb_as_slice (p_data p)) src True
      | Paper \<Rightarrow> Inl (Lxmf InvalidPayload))"

definition decode_packet :: "env \<Rightarrow> packet \<Rightarrow> delivery_mode \<Rightarrow> rns_error + received" where
  "decode_packet E p mode = decode_packet_with_source E p mode None"

subsection \<open>Requests and responses\<close>

definition truncate_sha256_bytes :: "crypto \<Rightarrow> bytes \<Rightarrow> bytes" where
  "truncate_sha256_bytes cr b = take DESTINATION_LENGTH (cr_sha256 cr b)"

definition request_path_hash :: "crypto \<Rightarrow> bytes \<Rightarrow> bytes" where
  "request_path_hash cr path = truncate_sha256_bytes cr path"

definition request_id_from_payload :: "crypto \<Rightarrow> bytes \<Rightarrow> bytes" where
  "request_id_from_payload cr payload = truncate_sha256_bytes cr payload"

definition request_id_from_packet :: "crypto \<Rightarrow> packet \<Rightarrow> bytes" where
  "request_id_from_packet cr p = take DESTINATION_LENGTH (packet_hash (cr_sha256 cr) p)"

definition request_id_from_packet_parts ::
  "crypto \<Rightarrow> bytes \<Rightarrow> packet_context \<Rightarrow> destination_type \<Rightarrow> packet_type \<Rightarrow> bytes \<Rightarrow> bytes" where
  "request_id_from_packet_parts cr dest ctx dt pt payload =
     take DESTINATION_LENGTH (cr_sha256 cr
       ([to_meta (header_default\<lparr>h_destination_type := dt, h_packet_type := pt\<rparr>) AND 0x0f] @ dest
        @ [context_u8 ctx] @ payload))"

definition request_id_for_destination :: "crypto \<Rightarrow> bytes \<Rightarrow> bytes \<Rightarrow> rns_error + bytes" where
  "request_id_for_destination cr dest payload =
     Inr (request_id_from_packet_parts cr dest Request Single Data payload)"

definition encode_request_bytes :: "env \<Rightarrow> rns_request \<Rightarrow> rns_error + bytes" where
  "encode_request_bytes E r =
     map_sum Msgpack id (write_value (e_codec E) (MArr [MF64 (req_at r), MBin (req_path_hash r), req_data r]))"

definition decode_request_bytes_with_request_id :: "env \<Rightarrow> bytes \<Rightarrow> bytes \<Rightarrow> rns_error + rns_request" where
  "decode_request_bytes_with_request_id E b rid =
     (case read_value (e_codec E) b of
        Inl e \<Rightarrow> Inl (Msgpack e)
      | Inr (MArr arr) \<Rightarrow>
         (if length arr < 3 then Inl (Msgpack ''request missing fields'')
          else (case value_to_f64 (arr ! 0) of
             None \<Rightarrow> Inl (Msgpack ''invalid requested_at'')
           | Some at \<Rightarrow>
              (case value_to_fixed_bytes DESTINATION_LENGTH (arr ! 1) of
                 None \<Rightarrow> Inl (Msgpack ''invalid request path hash'')
               | Some ph \<Rightarrow> Inr \<lparr>req_id = rid, req_at = at, req_path_hash = ph, req_data = arr ! 2\<rparr>)))
      | Inr _ \<Rightarrow> Inl (Msgpack ''request must be array''))"

definition decode_request_bytes :: "env \<Rightarrow> bytes \<Rightarrow> rns_error + rns_request" where
  "decode_request_bytes E b = decode_request_bytes_with_request_id E b (request_id_from_payload (e_crypto E) b)"

definition decode_request_bytes_for_destination :: "env \<Rightarrow> bytes \<Rightarrow> bytes \<Rightarrow> rns_error + rns_request" where
  "decode_request_bytes_for_destination E dest b =
     (case request_id_for_destination (e_crypto E) dest b of
        Inl e \<Rightarrow> Inl e
      | Inr rid \<Rightarrow> decode_request_bytes_with_request_id E b rid)"

definition encode_response_bytes :: "env \<Rightarrow> rns_response \<Rightarrow> rns_error + bytes" where
  "encode_response_bytes E r =
     map_sum Msgpack id (write_value (e_codec E) (MArr [MBin (rsp_id r), rsp_data r]))"

definition decode_response_bytes :: "env \<Rightarrow> bytes \<Rightarrow> rns_error + rns_response" where
  "decode_response_bytes E b =
     (case read_value (e_codec E) b of
        Inl e \<Rightarrow> Inl (Msgpack e)
      | Inr (MArr arr) \<Rightarrow>
         (if length arr < 2 then Inl (Msgpack ''response missing fields'')
          else (case value_to_fixed_bytes DESTINATION_LENGTH (arr ! 0) of
             None \<Rightarrow> Inl (Msgpack ''invalid response id'')
           | Some rid \<Rightarrow> Inr \<lparr>rsp_id = rid, rsp_data = arr ! 1\<rparr>))
      | Inr _ \<Rightarrow> Inl (Msgpack ''response must be array''))"

definition decode_request_packet :: "env \<Rightarrow> packet \<Rightarrow> rns_error + rns_request" where
  "decode_request_packet E p =
     (if p_context p \<noteq> Request then Inl (Msgpack ''packet is not request'')
      else (case decode_request_bytes E (sb_as_slice (p_data p)) of
         Inl e \<Rightarrow> Inl e
       | Inr r \<Rightarrow> Inr (r\<lparr>req_id := request_id_from_packet (e_crypto E) p\<rparr>)))"

definition decode_response_packet :: "env \<Rightarrow> packet \<Rightarrow> rns_error + rns_response" where
  "decode_response_packet E p =
     (if p_context p \<noteq> Response then Inl (Msgpack ''packet is not response'')
      else decode_response_bytes E (sb_as_slice (p_data p)))"

definition ensure_request_id :: "crypto \<Rightarrow> rns_request \<Rightarrow> bytes \<Rightarrow> rns_request" where
  "ensure_request_id cr r payload =
     (if list_all (\<lambda>b. b = 0) (req_id r) then r\<lparr>req_id := request_id_from_payload cr payload\<rparr> else r)"

definition build_request_packet_for_hash :: "env \<Rightarrow> bytes \<Rightarrow> rns_request \<Rightarrow> (rns_error + packet) \<times> rns_request" where
  "build_request_packet_for_hash E dest r =
     (case encode_request_bytes E r of
        Inl e \<Rightarrow> (Inl e, r)
      | Inr payload \<Rightarrow>
         (case packet_from_payload_hash_with_context dest payload Single Request of
            Inl e \<Rightarrow> (Inl e, r)
          | Inr p \<Rightarrow>
             (case request_id_for_destination (e_crypto E) dest payload of
                Inl e \<Rightarrow> (Inl e, r)
              | Inr rid \<Rightarrow> (Inr p, r\<lparr>req_id := rid\<rparr>))))"

definition build_response_packet_for_hash :: "env \<Rightarrow> bytes \<Rightarrow> rns_response \<Rightarrow> rns_error + packet" where
  "build_response_packet_for_hash E dest r =
     (case encode_response_bytes E r of
        Inl e \<Rightarrow> Inl e
      | Inr payload \<Rightarrow> packet_from_payload_hash_with_context dest payload Single Response)"

subsection \<open>What a delivered packet carries\<close>

lemma packet_from_payload_fits:
  assumes "length payload \<le> PACKET_MDU"
  shows "\<exists>p. packet_from_payload_hash_with_context dest payload dt ctx = Inr p"
  using sb.put_ok [OF sb_wf_new, of payload PACKET_MDU] assms
  by (auto simp: packet_from_payload_hash_with_context_def)

lemma packet_from_payload_inv:
  assumes "packet_from_payload_hash_with_context dest payload dt ctx = Inr p"
  shows "p_destination p = dest" and "p_context p = ctx" and "sb_as_slice (p_data p) = payload"
    and "p_header p = header_default\<lparr>h_destination_type := dt, h_packet_type := Data\<rparr>"
    and "length dest = 16 \<Longrightarrow> packet_wf p"
proof -
  have len: "length payload \<le> PACKET_MDU"
  proof (rule ccontr)
    assume "\<not> length payload \<le> PACKET_MDU"
    then have "sb_write payload (sb_new PACKET_MDU) = (Inl OutOfMemory, sb_new PACKET_MDU)"
      using sb.put_full [OF sb_wf_new, of PACKET_MDU payload] by simp
    with assms show False by (simp add: packet_from_payload_hash_with_context_def)
  qed
  obtain b where b: "sb_write payload (sb_new PACKET_MDU) = (Inr (length payload), b)" "sb_wf PACKET_MDU b"
      "sb_as_slice b = payload"
    using sb.put_ok [OF sb_wf_new, of payload PACKET_MDU] len by auto
  then show "p_destination p = dest" and "p_context p = ctx" and "sb_as_slice (p_data p) = payload"
    and "p_header p = header_default\<lparr>h_destination_type := dt, h_packet_type := Data\<rparr>"
    and "length dest = 16 \<Longrightarrow> packet_wf p"
    using assms by (auto simp: packet_from_payload_hash_with_context_def packet_wf_def header_default_def)
qed

lemma deliver_as_packet:
  assumes "deliver_as_packet_or_resource dest payload m dt = (Inr (OutPacket p), m')"
  shows "packet_from_payload_hash_with_context dest payload dt CtxNone = Inr p" and "m' = m\<lparr>representation := REPR_PACKET\<rparr>"
  using assms by (auto simp: deliver_as_packet_or_resource_def packet_from_payload_def map_sum_def split: if_splits sum.splits)

definition outbound_wf :: "rns_outbound \<Rightarrow> bool" where
  "outbound_wf out \<longleftrightarrow> length (ro_source out) = 16 \<and> length (ro_destination out) = 16"

text \<open>The stages of a delivery that produced a packet.\<close>

lemma deliver_packetE:
  assumes "deliver E out m mode = (Inr (OutPacket p), m')" and "outbound_wf out"
  obtains packed m2 where
    "encode_signed (e_codec E) (e_crypto E) (e_rng E) (ro_sign out)
       (m\<lparr>destination_hash := ro_destination out, source_hash := ro_source out\<rparr>) = (Inr packed, m2)"
    "deliver_packed E out mode packed m2 = (Inr (OutPacket p), m')"
  using assms
  by (auto simp: deliver_def prepare_message_def address_hash_to_array_def outbound_wf_def length_consts Let_def
      split: sum.splits prod.splits)

lemma encode_with_signature_prefix:
  "encode_with_signature c m = Inr bs \<Longrightarrow> length (destination_hash m) = 16 \<Longrightarrow> take 16 bs = destination_hash m"
  by (auto simp: encode_with_signature_def split: option.splits sum.splits)

lemma delivered_message_decodes:
  assumes "deliver E out m mode = (Inr (OutPacket p), m')" and "outbound_wf out" and "mode \<in> {Opportunistic, Direct}"
    and "\<And>x. length (ro_sign out x) = 64" and "\<And>x. vrf x (ro_sign out x)"
    and "reads_back (e_codec E) (MArr (payload_values m' (stamp m' \<noteq> None)))"
  shows "packet_wf p \<and> p_destination p = ro_destination out \<and> h_packet_type (p_header p) = Data
    \<and> (\<exists>d. decode_packet_with_source E p mode src = Inr (RMessage d)
        \<and> msg_verify (e_codec E) (e_crypto E) vrf d = Inr True
        \<and> destination_hash d = ro_destination out \<and> source_hash d = ro_source out \<and> timestamp d = timestamp m
        \<and> title d = title m \<and> content d = content m \<and> m_fields d = m_fields m \<and> stamp d = stamp m'
        \<and> message_id d = message_id m')"
proof -
  let ?m1 = "m\<lparr>destination_hash := ro_destination out, source_hash := ro_source out\<rparr>"
  from assms(1,2) obtain packed m2 where enc: "encode_signed (e_codec E) (e_crypto E) (e_rng E) (ro_sign out) ?m1 = (Inr packed, m2)"
    and del: "deliver_packed E out mode packed m2 = (Inr (OutPacket p), m')"
    by (rule deliver_packetE)
  let ?payload = "if mode = Direct then packed else drop 16 packed"
  obtain meth where pk: "packet_from_payload_hash_with_context (ro_destination out) ?payload Single CtxNone = Inr p"
      and m': "m' = m2\<lparr>m_method := meth, representation := REPR_PACKET\<rparr>"
    using del assms(3) deliver_as_packet by (fastforce simp: deliver_packed_def length_consts)
  have wf1: "msg_wf ?m1" using assms(2) by (simp add: msg_wf_def outbound_wf_def)
  have "payload_values m' (stamp m' \<noteq> None) = payload_values m2 (stamp m2 \<noteq> None)" by (simp add: m' payload_values_def)
  then have rb: "reads_back (e_codec E) (MArr (payload_values m2 (stamp m2 \<noteq> None)))" using assms(6) by simp
  obtain d where d: "msg_decode (e_codec E) (e_crypto E) packed = Inr d" "msg_verify (e_codec E) (e_crypto E) vrf d = Inr True"
      "destination_hash d = ro_destination out" "source_hash d = ro_source out" "timestamp d = timestamp m"
      "title d = title m" "content d = content m" "m_fields d = m_fields m" "stamp d = stamp m2" "message_id d = message_id m2"
    using signed_message_received [where vrf = vrf, OF enc wf1 assms(4,5) rb] by auto
  have "take 16 packed = ro_destination out"
  proof -
    from enc have "encode_with_signature (e_codec E) m2 = Inr packed" "destination_hash m2 = ro_destination out"
      by (elim encode_signedE; simp)+
    then show ?thesis using encode_with_signature_prefix assms(2) by (auto simp: outbound_wf_def)
  qed
  then have whole: "ro_destination out @ drop 16 packed = packed" by (metis append_take_drop_id)
  note inv = packet_from_payload_inv [OF pk]
  have "decode_packet_with_source E p mode src = Inr (RMessage d)"
    using d(1) inv(1,3) assms(3) whole by (auto simp: decode_packet_with_source_def split: if_splits)
  with d inv assms(2) show ?thesis by (auto simp: m' outbound_wf_def header_default_def)
qed

text \<open>The ids that the two ends of a request compute.\<close>

lemma request_id_of_packet:
  assumes "packet_from_payload_hash_with_context dest payload Single Request = Inr p"
  shows "request_id_from_packet cr p = request_id_from_packet_parts cr dest Request Single Data payload"
  using packet_from_payload_inv [OF assms]
  by (simp add: request_id_from_packet_def request_id_from_packet_parts_def packet_hash_def)

lemma decode_encode_request:
  assumes "encode_request_bytes E r = Inr b" and "length (req_path_hash r) = 16"
    and "reads_back (e_codec E) (MArr [MF64 (req_at r), MBin (req_path_hash r), req_data r])"
  shows "decode_request_bytes_with_request_id E b rid = Inr (r\<lparr>req_id := rid\<rparr>)"
  using assms
  by (auto simp: encode_request_bytes_def decode_request_bytes_with_request_id_def reads_back_def map_sum_def
      value_defs DESTINATION_LENGTH_def split: sum.splits)

subsection \<open>Properties\<close>

text \<open>C39. A message that \<open>deliver\<close> turned into a packet, opportunistic or direct, decodes on the other
  side to a message with the addresses of the route and the sender's timestamp, title, content,
  fields, stamp and id, and it verifies under the sender's key.\<close>

theorem delivered_packet_decodes:
  assumes "deliver E out m mode = (Inr (OutPacket p), m')" and "outbound_wf out" and "mode \<in> {Opportunistic, Direct}"
    and "\<And>x. length (ro_sign out x) = 64" and "\<And>x. vrf x (ro_sign out x)"
    and "reads_back (e_codec E) (MArr (payload_values m' (stamp m' \<noteq> None)))"
  shows "packet_wf p \<and> p_destination p = ro_destination out \<and> h_packet_type (p_header p) = Data
    \<and> (\<exists>d. decode_packet_with_source E p mode src = Inr (RMessage d)
        \<and> msg_verify (e_codec E) (e_crypto E) vrf d = Inr True
        \<and> destination_hash d = ro_destination out \<and> source_hash d = ro_source out \<and> timestamp d = timestamp m
        \<and> title d = title m \<and> content d = content m \<and> m_fields d = m_fields m \<and> stamp d = stamp m'
        \<and> message_id d = message_id m')"
  using assms by (rule delivered_message_decodes)

definition sample_env :: env where
  "sample_env = \<lparr>e_codec = ref_codec, e_crypto = zero_crypto, e_rng = (\<lambda>i. replicate 32 0), e_b64 = id\<rparr>"

definition sample_outbound :: rns_outbound where
  "sample_outbound = \<lparr>ro_source = replicate 16 2, ro_destination = replicate 16 1, ro_sign = zero_sign,
     ro_encryptor = null_encryptor, ro_policy = AllowPlaintext\<rparr>"

lemma sample_outbound_wf: "outbound_wf sample_outbound" "\<And>x. length (ro_sign sample_outbound x) = 64"
  by (simp_all add: outbound_wf_def sample_outbound_def zero_sign_def)

lemma sample_deliver:
  obtains p m' where "deliver sample_env sample_outbound sample_message Direct = (Inr (OutPacket p), m')"
    "reads_back (e_codec sample_env) (MArr (payload_values m' (stamp m' \<noteq> None)))" "title m' = [72, 105]"
proof -
  let ?m1 = "sample_message\<lparr>destination_hash := ro_destination sample_outbound, source_hash := ro_source sample_outbound\<rparr>"
  have m1: "?m1 = sample_message"
    by (simp add: sample_message_def sample_outbound_def with_strings_def msg_new_def)
  obtain bs where e: "encode_signed ref_codec zero_crypto (e_rng sample_env) zero_sign sample_message
      = (Inr bs, snd (encode_signed ref_codec zero_crypto (e_rng sample_env) zero_sign sample_message))"
    by (rule sample_encode_ok)
  let ?m2 = "snd (encode_signed ref_codec zero_crypto (e_rng sample_env) zero_sign sample_message)"
  from e obtain mx where f: "timestamp ?m2 = timestamp sample_message" "title ?m2 = title sample_message"
      "content ?m2 = content sample_message" "m_fields ?m2 = m_fields sample_message"
    by (rule encode_signedE)
  have st: "stamp ?m2 = None" by (rule sample_encode(2))
  have len: "length bs \<le> PACKET_MDU"
    using e by (auto simp: encode_signed_def encode_with_signature_def pack_payload_def pack_payload_values_def ref_codec_def
        sample_message_def with_strings_def msg_new_def Let_def PACKET_MDU_def zero_sign_def)
  obtain p where p: "packet_from_payload_hash_with_context (ro_destination sample_outbound) bs Single CtxNone = Inr p"
    using packet_from_payload_fits [OF len] by blast
  let ?m' = "?m2\<lparr>m_method := Some METHOD_DIRECT, representation := REPR_PACKET\<rparr>"
  have "prepare_message sample_outbound sample_message = (Inr (), sample_message)"
    by (simp add: prepare_message_def address_hash_to_array_def sample_outbound_def length_consts
        sample_message_def with_strings_def msg_new_def)
  moreover have "check_outbound (ro_policy sample_outbound) Direct (ro_encryptor sample_outbound) = Inr ()"
    by (simp add: check_outbound_def sample_outbound_def)
  moreover have "encode_signed (e_codec sample_env) (e_crypto sample_env) (e_rng sample_env) (ro_sign sample_outbound) sample_message
      = (Inr bs, ?m2)"
    using e by (simp add: sample_env_def sample_outbound_def)
  ultimately have "deliver sample_env sample_outbound sample_message Direct = (Inr (OutPacket p), ?m')"
    using p len by (simp add: deliver_def deliver_packed_def deliver_as_packet_or_resource_def packet_from_payload_def)
  moreover have "payload_values ?m' (stamp ?m' \<noteq> None)
      = [MF64 (timestamp sample_message), MBin (title sample_message), MBin (content sample_message), m_fields sample_message]"
    using f st by (simp add: payload_values_def)
  then have "reads_back (e_codec sample_env) (MArr (payload_values ?m' (stamp ?m' \<noteq> None)))"
    by (simp only:) (simp add: sample_env_def sample_message_def with_strings_def ref_codec_reads_back)
  moreover have "title ?m' = [72, 105]" using f by (simp add: sample_message_def with_strings_def)
  ultimately show thesis using that by blast
qed

theorem delivered_packet_decodes_witness:
  "\<exists>p m' d. deliver sample_env sample_outbound sample_message Direct = (Inr (OutPacket p), m')
    \<and> decode_packet_with_source sample_env p Direct None = Inr (RMessage d) \<and> title d = title sample_message"
proof -
  obtain p m' where e: "deliver sample_env sample_outbound sample_message Direct = (Inr (OutPacket p), m')"
    "reads_back (e_codec sample_env) (MArr (payload_values m' (stamp m' \<noteq> None)))"
    by (rule sample_deliver)
  have d: "Direct \<in> {Opportunistic, Direct}" by simp
  from delivered_packet_decodes [where vrf = "\<lambda>x s. s = ro_sign sample_outbound x" and src = None,
      OF e(1) sample_outbound_wf(1) d sample_outbound_wf(2) _ e(2)] e(1)
  show ?thesis by blast
qed

text \<open>Crypto policy: under \<open>EnforceRatchets\<close> nothing leaves unencrypted: opportunistic and direct
  deliveries, and every delivery with an encryptor that provides none, fail with a policy violation
  and leave the message untouched.\<close>

theorem enforced_policy_blocks_plaintext:
  assumes "ro_policy out = EnforceRatchets"
    and "mode \<in> {Opportunistic, Direct} \<or> provides_encryption (ro_encryptor out) = False"
  shows "\<exists>reason. deliver E out m mode = (Inl (CryptoPolicyViolation EnforceRatchets mode reason), m)"
  using assms by (auto simp: deliver_def check_outbound_def)

theorem enforced_policy_blocks_plaintext_witness:
  "\<exists>reason. deliver sample_env (sample_outbound\<lparr>ro_policy := EnforceRatchets\<rparr>) sample_message Paper
     = (Inl (CryptoPolicyViolation EnforceRatchets Paper reason), sample_message)"
  by (rule enforced_policy_blocks_plaintext) (simp_all add: sample_outbound_def null_encryptor_def)

text \<open>Request ids agree: the id that the sender of a request records when it builds the packet is
  the id that the receiver computes from the packet, also after the packet was rerouted and its hop
  count changed, and the received request has the sender's time, path and data.\<close>

theorem request_ids_agree:
  assumes "build_request_packet_for_hash E dest r = (Inr p, r')" and "length (req_path_hash r) = 16"
    and "reads_back (e_codec E) (MArr [MF64 (req_at r), MBin (req_path_hash r), req_data r])"
  shows "decode_request_packet E p = Inr r'
    \<and> decode_request_packet E (fst (path_handle_packet t p)) = Inr r'
    \<and> decode_request_bytes_for_destination E dest (sb_as_slice (p_data p)) = Inr r'
    \<and> r' = r\<lparr>req_id := req_id r'\<rparr>"
proof -
  obtain b where b: "encode_request_bytes E r = Inr b"
      "packet_from_payload_hash_with_context dest b Single Request = Inr p"
      "r' = r\<lparr>req_id := request_id_from_packet_parts (e_crypto E) dest Request Single Data b\<rparr>"
    using assms(1) by (auto simp: build_request_packet_for_hash_def request_id_for_destination_def split: sum.splits)
  note inv = packet_from_payload_inv [OF b(2)]
  note dec = decode_encode_request [OF b(1) assms(2,3)]
  have p: "decode_request_packet E p = Inr r'"
    using inv dec b(3) request_id_of_packet [OF b(2)]
    by (simp add: decode_request_packet_def decode_request_bytes_def)
  have q: "p_context (fst (path_handle_packet t p)) = p_context p" "p_data (fst (path_handle_packet t p)) = p_data p"
    by (simp_all add: path_handle_packet_def split: option.split)
  have "request_id_from_packet (e_crypto E) (fst (path_handle_packet t p)) = request_id_from_packet (e_crypto E) p"
    by (simp add: request_id_from_packet_def path_keeps_hash)
  with p q have "decode_request_packet E (fst (path_handle_packet t p)) = Inr r'"
    by (simp add: decode_request_packet_def split: sum.splits if_splits)
  with p dec inv(3) b(3) show ?thesis
    by (simp add: decode_request_bytes_for_destination_def request_id_for_destination_def)
qed

theorem request_ids_agree_witness:
  "\<exists>p r'. build_request_packet_for_hash sample_env (replicate 16 5)
       \<lparr>req_id = replicate 16 0, req_at = 7, req_path_hash = replicate 16 9, req_data = MNil\<rparr> = (Inr p, r')
    \<and> decode_request_packet sample_env p = Inr r'"
proof -
  let ?r = "\<lparr>req_id = replicate 16 0, req_at = 7, req_path_hash = replicate 16 9, req_data = MNil\<rparr>"
  have rb: "reads_back (e_codec sample_env) (MArr [MF64 (req_at ?r), MBin (req_path_hash ?r), req_data ?r])"
    by (simp add: sample_env_def ref_codec_reads_back)
  obtain b where b: "encode_request_bytes sample_env ?r = Inr b" "length b \<le> PACKET_MDU"
    by (simp add: encode_request_bytes_def sample_env_def ref_codec_def PACKET_MDU_def)
  obtain p where "packet_from_payload_hash_with_context (replicate 16 5) b Single Request = Inr p"
    using packet_from_payload_fits [OF b(2)] by blast
  with b(1) obtain r' where "build_request_packet_for_hash sample_env (replicate 16 5) ?r = (Inr p, r')"
    by (simp add: build_request_packet_for_hash_def request_id_for_destination_def)
  with request_ids_agree [OF this _ rb] show ?thesis by auto
qed

end
