(* ===== verification/Caches.thy ===== *)
theory Caches
  imports Packets
begin

section \<open>Duplicate suppression (utils/cache_set.rs, transport/packet_cache.rs, router.rs)\<close>

text \<open>
  Three caches decide whether something was seen before: \<open>CacheSet\<close> of the transport crate,
  \<open>DeliveredCache\<close> of the router (both a set with a queue that evicts the oldest element) and
  \<open>PacketCache\<close>, a map from packet hashes to the time and the smallest hop count of the packet. The
  interface \<open>dedup_cache\<close> states what the first two share: the elements, oldest first, are the
  last ones accepted, at most as many as the capacity.
\<close>

subsection \<open>CacheSet\<close>

record 'a cache_set =
  cs_capacity :: nat
  cs_set :: "'a set"
  cs_queue :: "'a list"

definition cs_new :: "nat \<Rightarrow> 'a cache_set" where
  "cs_new n = \<lparr>cs_capacity = n, cs_set = {}, cs_queue = []\<rparr>"

definition cs_contains :: "'a \<Rightarrow> 'a cache_set \<Rightarrow> bool" where
  "cs_contains x c \<longleftrightarrow> x \<in> cs_set c"

text \<open>\<open>pop_front\<close> on the queue, removing what it yields from the set.\<close>

definition cs_evict :: "'a cache_set \<Rightarrow> 'a cache_set" where
  "cs_evict c = (case cs_queue c of
       [] \<Rightarrow> c
     | oldest # q \<Rightarrow> c\<lparr>cs_queue := q, cs_set := cs_set c - {oldest}\<rparr>)"

definition cs_insert :: "'a \<Rightarrow> 'a cache_set \<Rightarrow> bool \<times> 'a cache_set" where
  "cs_insert x c =
     (if x \<in> cs_set c then (False, c)
      else (let c1 = (if card (cs_set c) = cs_capacity c then cs_evict c else c) in
            (True, c1\<lparr>cs_set := insert x (cs_set c1), cs_queue := cs_queue c1 @ [x]\<rparr>)))"

definition cs_invar :: "'a cache_set \<Rightarrow> bool" where
  "cs_invar c \<longleftrightarrow> 0 < cs_capacity c \<and> distinct (cs_queue c) \<and> set (cs_queue c) = cs_set c
     \<and> length (cs_queue c) \<le> cs_capacity c"

subsection \<open>DeliveredCache\<close>

record delivered_cache =
  max_entries :: nat
  dc_order :: "bytes list"
  dc_seen :: "bytes set"

definition dc_new :: "nat \<Rightarrow> delivered_cache" where
  "dc_new n = \<lparr>max_entries = n, dc_order = [], dc_seen = {}\<rparr>"

definition seen_before :: "bytes \<Rightarrow> delivered_cache \<Rightarrow> bool" where
  "seen_before x c \<longleftrightarrow> x \<in> dc_seen c"

text \<open>The eviction loop \<open>while order.len() > max_entries\<close>.\<close>

fun dc_trim :: "nat \<Rightarrow> bytes list \<Rightarrow> bytes set \<Rightarrow> bytes list \<times> bytes set" where
  "dc_trim n [] seen = ([], seen)"
| "dc_trim n (oldest # q) seen =
     (if length (oldest # q) > n then dc_trim n q (seen - {oldest}) else (oldest # q, seen))"

definition mark_delivered :: "bytes \<Rightarrow> delivered_cache \<Rightarrow> bool \<times> delivered_cache" where
  "mark_delivered x c =
     (if x \<in> dc_seen c then (False, c)
      else (let (q, s) = dc_trim (max_entries c) (dc_order c @ [x]) (insert x (dc_seen c)) in
            (True, c\<lparr>dc_order := q, dc_seen := s\<rparr>)))"

definition dc_len :: "delivered_cache \<Rightarrow> nat" where
  "dc_len c = card (dc_seen c)"

definition dc_invar :: "delivered_cache \<Rightarrow> bool" where
  "dc_invar c \<longleftrightarrow> distinct (dc_order c) \<and> set (dc_order c) = dc_seen c \<and> length (dc_order c) \<le> max_entries c"

subsection \<open>PacketCache\<close>

record packet_track =
  pt_time :: nat
  pt_min_hops :: byte

type_synonym packet_cache = "(bytes, packet_track) hmap"

text \<open>\<open>release\<close> collects the hashes of the expired entries and then removes them one by one.\<close>

definition pc_release :: "nat \<Rightarrow> nat \<Rightarrow> packet_cache \<Rightarrow> packet_cache" where
  "pc_release now duration m =
     fold hm_remove (map fst (filter (\<lambda>(h, t). now - pt_time t > duration) m)) m"

definition pc_update :: "(bytes \<Rightarrow> bytes) \<Rightarrow> nat \<Rightarrow> packet \<Rightarrow> packet_cache \<Rightarrow> bool \<times> packet_cache" where
  "pc_update sha256 now p m =
     (let hash = packet_hash sha256 p in
      case map_of m hash of
        Some t \<Rightarrow> (False, hm_modify hash (\<lambda>t. t\<lparr>pt_time := now, pt_min_hops := min (h_hops (p_header p)) (pt_min_hops t)\<rparr>) m)
      | None \<Rightarrow> (True, hm_insert hash \<lparr>pt_time = now, pt_min_hops = h_hops (p_header p)\<rparr> m))"

subsection \<open>What a bounded duplicate cache promises\<close>

text \<open>The last \<open>n\<close> elements of a list.\<close>

definition lastn :: "nat \<Rightarrow> 'a list \<Rightarrow> 'a list" where
  "lastn n xs = drop (length xs - n) xs"

lemma lastn_all [simp]: "length xs \<le> n \<Longrightarrow> lastn n xs = xs"
  by (simp add: lastn_def)

lemma length_lastn [simp]: "length (lastn n xs) = min n (length xs)"
  by (simp add: lastn_def)

lemma lastn_lastn_append: "lastn n (lastn n xs @ ys) = lastn n (xs @ ys)"
  by (cases "length xs \<le> n") (auto simp: lastn_def add.commute)

lemma lastn_member: "length ys < n \<Longrightarrow> x \<in> set (lastn n (xs @ x # ys))"
  by (auto simp: lastn_def)

text \<open>Offering a sequence of elements to a cache; the flags say which ones were new.\<close>

fun feed :: "('a \<Rightarrow> 's \<Rightarrow> bool \<times> 's) \<Rightarrow> 'a list \<Rightarrow> 's \<Rightarrow> bool list \<times> 's" where
  "feed ins [] s = ([], s)"
| "feed ins (x # xs) s =
     (let (b, s1) = ins x s; (bs, s2) = feed ins xs s1 in (b # bs, s2))"

definition accepted :: "'a list \<Rightarrow> bool list \<Rightarrow> 'a list" where
  "accepted xs bs = map fst (filter snd (zip xs bs))"

locale dedup_cache =
  fixes invar :: "'s \<Rightarrow> bool"
    and contents :: "'s \<Rightarrow> 'a list"
    and cap :: "'s \<Rightarrow> nat"
    and ins :: "'a \<Rightarrow> 's \<Rightarrow> bool \<times> 's"
  assumes bounded: "invar s \<Longrightarrow> distinct (contents s) \<and> length (contents s) \<le> cap s"
    and ins_seen: "invar s \<Longrightarrow> x \<in> set (contents s) \<Longrightarrow> ins x s = (False, s)"
    and ins_new: "invar s \<Longrightarrow> x \<notin> set (contents s) \<Longrightarrow>
      \<exists>s'. ins x s = (True, s') \<and> invar s' \<and> cap s' = cap s \<and> contents s' = lastn (cap s) (contents s @ [x])"
begin

lemma feed_contents:
  "invar s \<Longrightarrow> feed ins xs s = (bs, s') \<Longrightarrow>
    invar s' \<and> cap s' = cap s \<and> length bs = length xs
    \<and> contents s' = lastn (cap s) (contents s @ accepted xs bs)"
proof (induction xs arbitrary: s bs s')
  case Nil
  then show ?case using bounded by (auto simp: accepted_def)
next
  case (Cons x xs)
  obtain b s1 where s1: "ins x s = (b, s1)" by fastforce
  with Cons.prems(2) obtain cs where cs: "feed ins xs s1 = (cs, s')" "bs = b # cs"
    by (auto split: prod.splits)
  show ?case
  proof (cases "x \<in> set (contents s)")
    case True
    with ins_seen Cons.prems(1) s1 have "b = False" "s1 = s" by auto
    with Cons.IH [OF Cons.prems(1)] cs show ?thesis by (auto simp: accepted_def)
  next
    case False
    from ins_new [OF Cons.prems(1) False] s1 have *: "b = True" "invar s1" "cap s1 = cap s"
      "contents s1 = lastn (cap s) (contents s @ [x])" by auto
    from Cons.IH [OF *(2) cs(1)] * cs(2) show ?thesis
      by (auto simp: accepted_def lastn_lastn_append)
  qed
qed

text \<open>An accepted element is refused until the capacity is used up by newer elements.\<close>

lemma remembers_new:
  assumes s: "invar s" and x: "ins x s = (True, s1)" and xs: "feed ins xs s1 = (bs, s2)"
    and few: "length (accepted xs bs) < cap s"
  shows "ins x s2 = (False, s2)"
proof -
  have new: "x \<notin> set (contents s)" using ins_seen [OF s] x by auto
  from ins_new [OF s new] x have s1: "invar s1" "cap s1 = cap s"
      "contents s1 = lastn (cap s) (contents s @ [x])" by auto
  from feed_contents [OF s1(1) xs] s1 have s2: "invar s2"
      "contents s2 = lastn (cap s) (contents s @ x # accepted xs bs)"
    by (auto simp: lastn_lastn_append)
  from lastn_member [OF few] s2 have "x \<in> set (contents s2)" by simp
  with ins_seen [OF s2(1)] show ?thesis by simp
qed

end

lemma dc_trim_lastn:
  "distinct q \<Longrightarrow> dc_trim n q (set q) = (lastn n q, set (lastn n q))"
proof (induction q)
  case (Cons x q)
  then have "set (x # q) - {x} = set q" by auto
  with Cons show ?case
    by (auto simp: lastn_def Suc_diff_le)
qed (simp add: lastn_def)

interpretation dc: dedup_cache dc_invar dc_order max_entries mark_delivered
proof
  fix s x
  assume inv: "dc_invar s"
  then show "distinct (dc_order s) \<and> length (dc_order s) \<le> max_entries s"
    by (simp add: dc_invar_def)
  show "x \<in> set (dc_order s) \<Longrightarrow> mark_delivered x s = (False, s)"
    using inv by (simp add: mark_delivered_def dc_invar_def)
  assume new: "x \<notin> set (dc_order s)"
  have "dc_trim (max_entries s) (dc_order s @ [x]) (insert x (dc_seen s))
      = (lastn (max_entries s) (dc_order s @ [x]), set (lastn (max_entries s) (dc_order s @ [x])))"
    using dc_trim_lastn [of "dc_order s @ [x]" "max_entries s"] inv new by (simp add: dc_invar_def)
  moreover have "distinct (lastn (max_entries s) (dc_order s @ [x]))"
    using inv new by (simp add: dc_invar_def lastn_def del: drop_append)
  ultimately show "\<exists>s'. mark_delivered x s = (True, s') \<and> dc_invar s' \<and> max_entries s' = max_entries s
      \<and> dc_order s' = lastn (max_entries s) (dc_order s @ [x])"
    using inv new by (auto simp: mark_delivered_def dc_invar_def)
qed

interpretation cs: dedup_cache cs_invar cs_queue cs_capacity cs_insert
proof
  fix s :: "'a cache_set" and x
  assume inv: "cs_invar s"
  then show "distinct (cs_queue s) \<and> length (cs_queue s) \<le> cs_capacity s"
    by (simp add: cs_invar_def)
  show "x \<in> set (cs_queue s) \<Longrightarrow> cs_insert x s = (False, s)"
    using inv by (simp add: cs_insert_def cs_invar_def)
  assume new: "x \<notin> set (cs_queue s)"
  have card: "card (cs_set s) = length (cs_queue s)"
    using inv by (metis cs_invar_def distinct_card)
  show "\<exists>s'. cs_insert x s = (True, s') \<and> cs_invar s' \<and> cs_capacity s' = cs_capacity s
      \<and> cs_queue s' = lastn (cs_capacity s) (cs_queue s @ [x])"
  proof (cases "length (cs_queue s) = cs_capacity s")
    case True
    then obtain y q where q: "cs_queue s = y # q" using inv by (cases "cs_queue s") (auto simp: cs_invar_def)
    with True new inv card show ?thesis
      by (auto simp: cs_insert_def cs_evict_def cs_invar_def lastn_def)
  next
    case False
    with new inv card show ?thesis
      by (auto simp: cs_insert_def cs_invar_def)
  qed
qed

lemma dc_invar_new: "dc_invar (dc_new n)"
  by (simp add: dc_invar_def dc_new_def)

lemma cs_invar_new: "0 < n \<Longrightarrow> cs_invar (cs_new n)"
  by (simp add: cs_invar_def cs_new_def)

subsection \<open>The packet cache\<close>

lemma pc_release_lookup:
  assumes "hm_wf m"
  shows "hm_wf (pc_release now d m)"
    and "map_of (pc_release now d m) h =
      (case map_of m h of None \<Rightarrow> None | Some t \<Rightarrow> if now - pt_time t > d then None else Some t)"
proof -
  let ?ks = "map fst (filter (\<lambda>(h, t). now - pt_time t > d) m)"
  from hm.fold_remove [OF assms, of ?ks] have *: "hm_wf (pc_release now d m)"
    "map_of (pc_release now d m) h = (if h \<in> set ?ks then None else map_of m h)"
    by (simp_all add: pc_release_def)
  then show "hm_wf (pc_release now d m)" by simp
  have "h \<in> set ?ks \<longleftrightarrow> (\<exists>t. map_of m h = Some t \<and> now - pt_time t > d)"
    using assms by (force simp: hm_get_in)
  then show "map_of (pc_release now d m) h =
      (case map_of m h of None \<Rightarrow> None | Some t \<Rightarrow> if now - pt_time t > d then None else Some t)"
    using *(2) by (auto split: option.splits)
qed

lemma pc_update_lookup:
  "fst (pc_update sha256 now p m) = (map_of m (packet_hash sha256 p) = None)"
  "map_of (snd (pc_update sha256 now p m)) h =
    (if h = packet_hash sha256 p
     then Some \<lparr>pt_time = now, pt_min_hops =
            (case map_of m h of None \<Rightarrow> h_hops (p_header p) | Some t \<Rightarrow> min (h_hops (p_header p)) (pt_min_hops t))\<rparr>
     else map_of m h)"
  "hm_wf m \<Longrightarrow> hm_wf (snd (pc_update sha256 now p m))"
  by (auto simp: pc_update_def Let_def hmap_simps split: option.split)

subsection \<open>Properties\<close>

text \<open>The router's delivered cache: a message id accepted as new is refused as a duplicate for as
  long as fewer than \<open>max_entries\<close> new ids have been accepted after it, whatever was offered in
  between, and the cache never holds more than \<open>max_entries\<close> ids.\<close>

theorem delivered_cache_suppresses:
  assumes "dc_invar c" and "mark_delivered x c = (True, c1)" and "feed mark_delivered xs c1 = (bs, c2)"
    and "length (accepted xs bs) < max_entries c"
  shows "mark_delivered x c2 = (False, c2) \<and> seen_before x c2 \<and> dc_len c2 \<le> max_entries c"
proof -
  have dup: "mark_delivered x c2 = (False, c2)"
    by (rule dc.remembers_new [OF assms])
  have c1: "dc_invar c1" "max_entries c1 = max_entries c"
    using dc.feed_contents [OF assms(1), of "[x]" "[True]" c1] assms(2) by simp_all
  from dc.feed_contents [OF c1(1) assms(3)] c1(2) have c2: "dc_invar c2" "max_entries c2 = max_entries c"
    by simp_all
  then have "dc_len c2 \<le> max_entries c"
    by (metis dc_invar_def dc_len_def distinct_card)
  with dup show ?thesis by (auto simp: mark_delivered_def seen_before_def split: if_splits prod.splits)
qed

theorem delivered_cache_suppresses_witness:
  "\<exists>c1 c2. mark_delivered [1] (dc_new 2) = (True, c1) \<and> feed mark_delivered [[2], [1], [2]] c1 = ([True, False, False], c2)
    \<and> mark_delivered [1] c2 = (False, c2) \<and> seen_before [1] c2 \<and> dc_len c2 \<le> max_entries (dc_new 2)"
proof -
  define c1 where "c1 = snd (mark_delivered [1] (dc_new 2))"
  define c2 where "c2 = snd (feed mark_delivered [[2], [1], [2]] c1)"
  have 1: "mark_delivered [1] (dc_new 2) = (True, c1)"
    by (simp add: c1_def mark_delivered_def dc_new_def)
  have 2: "feed mark_delivered [[2], [1], [2]] c1 = ([True, False, False], c2)"
    by (simp add: c2_def c1_def mark_delivered_def dc_new_def)
  have "length (accepted [[2], [1], [2 :: byte]] [True, False, False]) < max_entries (dc_new 2)"
    by (simp add: accepted_def dc_new_def)
  from delivered_cache_suppresses [OF dc_invar_new 1 2 this] 1 2 show ?thesis by blast
qed

text \<open>The transport's \<open>CacheSet\<close> gives the same guarantee for every positive capacity.\<close>

theorem cache_set_suppresses:
  assumes "cs_invar c" and "cs_insert x c = (True, c1)" and "feed cs_insert xs c1 = (bs, c2)"
    and "length (accepted xs bs) < cs_capacity c"
  shows "cs_insert x c2 = (False, c2) \<and> cs_contains x c2 \<and> cs_invar c2 \<and> card (cs_set c2) \<le> cs_capacity c"
proof -
  have dup: "cs_insert x c2 = (False, c2)"
    by (rule cs.remembers_new [OF assms])
  have c1: "cs_invar c1" "cs_capacity c1 = cs_capacity c"
    using cs.feed_contents [OF assms(1), of "[x]" "[True]" c1] assms(2) by simp_all
  from cs.feed_contents [OF c1(1) assms(3)] c1(2) have c2: "cs_invar c2" "cs_capacity c2 = cs_capacity c"
    by simp_all
  then have "card (cs_set c2) \<le> cs_capacity c"
    by (metis cs_invar_def distinct_card)
  with dup c2 show ?thesis by (auto simp: cs_insert_def cs_contains_def Let_def split: if_splits)
qed

theorem cache_set_suppresses_witness:
  "\<exists>c1 c2. cs_insert (1 :: nat) (cs_new 2) = (True, c1) \<and> feed cs_insert [2, 1] c1 = ([True, False], c2)
    \<and> cs_insert 1 c2 = (False, c2) \<and> cs_contains 1 c2 \<and> cs_invar c2 \<and> card (cs_set c2) \<le> cs_capacity (cs_new 2 :: nat cache_set)"
proof -
  define c1 :: "nat cache_set" where "c1 = snd (cs_insert 1 (cs_new 2))"
  define c2 where "c2 = snd (feed cs_insert [2, 1] c1)"
  have 1: "cs_insert 1 (cs_new 2) = (True, c1)"
    by (simp add: c1_def cs_insert_def cs_new_def)
  have 2: "feed cs_insert [2, 1] c1 = ([True, False], c2)"
    by (simp add: c2_def c1_def cs_insert_def cs_new_def Let_def)
  have "length (accepted [2, 1 :: nat] [True, False]) < cs_capacity (cs_new 2 :: nat cache_set)"
    by (simp add: accepted_def cs_new_def)
  from cache_set_suppresses [OF cs_invar_new 1 2 this] 1 2 show ?thesis by auto
qed

text \<open>The packet cache reports a packet as new exactly when it holds no entry for its hash; a
  repeated packet, even one that the path table has rewritten for its next hop and whose hop count
  changed, is a duplicate as long as its entry has not expired, and releasing removes exactly the
  entries older than the given duration.\<close>

theorem packet_cache_detects:
  assumes "hm_wf m"
  shows "fst (pc_update sha256 now p m) = (map_of m (packet_hash sha256 p) = None)
    \<and> (now' - now \<le> d \<longrightarrow>
        \<not> fst (pc_update sha256 later ((fst (path_handle_packet t p))
                \<lparr>p_header := (p_header (fst (path_handle_packet t p)))\<lparr>h_hops := n\<rparr>\<rparr>)
             (pc_release now' d (snd (pc_update sha256 now p m)))))
    \<and> map_of (pc_release now' d m) h =
        (case map_of m h of None \<Rightarrow> None | Some e \<Rightarrow> if now' - pt_time e > d then None else Some e)"
proof -
  let ?q = "fst (path_handle_packet t p)"
  have "to_meta (p_header ?q\<lparr>h_hops := n\<rparr>) AND 0x0f = to_meta (p_header ?q) AND 0x0f"
    by (simp add: to_meta_low_nibble)
  moreover have "packet_hash sha256 ?q = packet_hash sha256 p"
    by (rule path_keeps_hash)
  ultimately have hash: "packet_hash sha256 (?q\<lparr>p_header := (p_header ?q)\<lparr>h_hops := n\<rparr>\<rparr>) = packet_hash sha256 p"
    by (simp add: packet_hash_def)
  show ?thesis
    using pc_release_lookup(2) [OF pc_update_lookup(3) [OF assms], of now' d sha256 now p "packet_hash sha256 p"]
      pc_release_lookup(2) [OF assms, of now' d h]
    by (simp add: pc_update_lookup hash)
qed

theorem packet_cache_detects_witness:
  "fst (pc_update id 5 sample_packet []) = (map_of ([] :: packet_cache) (packet_hash id sample_packet) = None)
    \<and> \<not> fst (pc_update id 9 ((fst (path_handle_packet [] sample_packet))
                \<lparr>p_header := (p_header (fst (path_handle_packet [] sample_packet)))\<lparr>h_hops := 4\<rparr>\<rparr>)
             (pc_release 8 10 (snd (pc_update id 5 sample_packet []))))
    \<and> map_of (pc_release 8 10 []) [] = None"
  using packet_cache_detects [OF hm_wf_Nil, of id 5 sample_packet 8 10 9 4 "[]" "[]"] by simp

end
