(* ===== verification/Outbox.thy ===== *)
theory Outbox
  imports Delivery Caches
begin

section \<open>The outbound queue (storage.rs MessageStore, router.rs RnsRouter)\<close>

text \<open>
  \<open>RnsRouter\<close> queues messages, delivers them one at a time with retries and exponential backoff,
  tracks deliveries in flight and keeps a copy of its queue in a \<open>MessageStore\<close>. The store is a trait
  object: a record of its five methods over an arbitrary state. What the router needs of it is the
  interface \<open>message_store\<close>; \<open>InMemoryStore\<close> provides it. The callbacks are observers
  (\<open>Fn(&...)\<close>) that cannot change the router and are left out; the propagation directory of the
  router is a component of its own.
\<close>

subsection \<open>The message store\<close>

record queued_message =
  q_id :: nat
  q_message :: lxmessage
  q_mode :: delivery_mode
  q_attempts :: "32 word"
  q_next_attempt_at_ms :: nat

datatype failure = ByError rns_error | ByText string

record failed_delivery =
  fd_id :: nat
  fd_error :: failure
  fd_message :: lxmessage
  fd_attempts :: "32 word"

record 's message_store_ops =
  save_outbound :: "queued_message \<Rightarrow> 's \<Rightarrow> 's"
  remove_outbound :: "nat \<Rightarrow> 's \<Rightarrow> 's"
  load_outbound :: "'s \<Rightarrow> queued_message list"
  save_inbound :: "lxmessage \<Rightarrow> 's \<Rightarrow> 's"
  save_failed :: "failed_delivery \<Rightarrow> 's \<Rightarrow> 's"

record in_memory_store =
  mem_outbound :: "queued_message list"
  mem_inbound :: "lxmessage list"
  mem_failed :: "failed_delivery list"

definition mem_new :: in_memory_store where
  "mem_new = \<lparr>mem_outbound = [], mem_inbound = [], mem_failed = []\<rparr>"

definition mem_save_outbound :: "queued_message \<Rightarrow> in_memory_store \<Rightarrow> in_memory_store" where
  "mem_save_outbound i s = s\<lparr>mem_outbound := mem_outbound s @ [i]\<rparr>"

definition mem_remove_outbound :: "nat \<Rightarrow> in_memory_store \<Rightarrow> in_memory_store" where
  "mem_remove_outbound i s = s\<lparr>mem_outbound := filter (\<lambda>m. q_id m \<noteq> i) (mem_outbound s)\<rparr>"

definition mem_load_outbound :: "in_memory_store \<Rightarrow> queued_message list" where
  "mem_load_outbound s = mem_outbound s"

definition mem_save_inbound :: "lxmessage \<Rightarrow> in_memory_store \<Rightarrow> in_memory_store" where
  "mem_save_inbound m s = s\<lparr>mem_inbound := mem_inbound s @ [m]\<rparr>"

definition mem_save_failed :: "failed_delivery \<Rightarrow> in_memory_store \<Rightarrow> in_memory_store" where
  "mem_save_failed f s = s\<lparr>mem_failed := mem_failed s @ [f]\<rparr>"

definition mem_ops :: "in_memory_store message_store_ops" where
  "mem_ops = \<lparr>save_outbound = mem_save_outbound, remove_outbound = mem_remove_outbound,
     load_outbound = mem_load_outbound, save_inbound = mem_save_inbound, save_failed = mem_save_failed\<rparr>"

subsection \<open>The router\<close>

definition STATE_OUTBOUND :: byte where "STATE_OUTBOUND = 1"
definition STATE_SENDING :: byte where "STATE_SENDING = 2"
definition STATE_SENT :: byte where "STATE_SENT = 4"
definition STATE_DELIVERED :: byte where "STATE_DELIVERED = 8"
definition STATE_FAILED :: byte where "STATE_FAILED = 0xff"
definition DELIVERED_CACHE_MAX :: nat where "DELIVERED_CACHE_MAX = 2048"

record queued_delivery =
  qd_id :: nat
  qd_delivery :: delivery_output
  qd_message :: lxmessage

record inflight_delivery =
  in_id :: nat
  in_message :: lxmessage
  in_sent_at_ms :: nat
  in_timeout_ms :: nat

record retry_policy =
  max_attempts :: "32 word"
  base_delay_ms :: nat
  max_delay_ms :: nat

definition retry_default :: retry_policy where
  "retry_default = \<lparr>max_attempts = 3, base_delay_ms = 500, max_delay_ms = 5000\<rparr>"

record 's rns_router =
  outbound :: "queued_message list"
  failed :: "failed_delivery list"
  inbound :: "received list"
  next_id :: nat
  delivery :: rns_outbound
  retry :: retry_policy
  store :: 's
  inflight :: "(nat, inflight_delivery) hmap"
  delivered_cache :: delivered_cache

definition router_with :: "rns_outbound \<Rightarrow> retry_policy \<Rightarrow> 's \<Rightarrow> 's rns_router" where
  "router_with out pol st = \<lparr>outbound = [], failed = [], inbound = [], next_id = 1, delivery = out, retry = pol,
     store = st, inflight = [], delivered_cache = dc_new DELIVERED_CACHE_MAX\<rparr>"

definition router_new :: "rns_outbound \<Rightarrow> in_memory_store rns_router" where
  "router_new out = router_with out retry_default mem_new"

definition with_retry :: "rns_outbound \<Rightarrow> retry_policy \<Rightarrow> in_memory_store rns_router" where
  "with_retry out pol = router_with out pol mem_new"

definition enqueue :: "'s message_store_ops \<Rightarrow> lxmessage \<Rightarrow> delivery_mode \<Rightarrow> 's rns_router \<Rightarrow> nat \<times> 's rns_router" where
  "enqueue ops m mode r =
     (let item = \<lparr>q_id = next_id r, q_message = m\<lparr>m_state := STATE_OUTBOUND\<rparr>, q_mode = mode, q_attempts = 0,
                  q_next_attempt_at_ms = 0\<rparr> in
      (next_id r, r\<lparr>next_id := (next_id r + 1) mod 2 ^ 64, store := save_outbound ops item (store r),
                    outbound := outbound r @ [item]\<rparr>))"

text \<open>\<open>restore_outbound\<close>: the stored items in the order of their ids; when none is due at once, all
  times are moved back by the smallest.\<close>

definition min_next :: "queued_message list \<Rightarrow> nat option" where
  "min_next items =
     (if list_ex (\<lambda>i. q_next_attempt_at_ms i = 0) items then None
      else (case filter (\<lambda>t. t > 0) (map q_next_attempt_at_ms items) of [] \<Rightarrow> None | ts \<Rightarrow> Some (Min (set ts))))"

definition rebase :: "nat option \<Rightarrow> queued_message \<Rightarrow> queued_message" where
  "rebase base i = (case base of None \<Rightarrow> i
     | Some b \<Rightarrow> if q_next_attempt_at_ms i > 0 \<and> q_next_attempt_at_ms i \<ge> b
                 then i\<lparr>q_next_attempt_at_ms := sat_sub (q_next_attempt_at_ms i) b\<rparr> else i)"

fun restore_items :: "queued_message list \<Rightarrow> 's rns_router \<Rightarrow> 's rns_router" where
  "restore_items [] r = r"
| "restore_items (i # is) r =
     restore_items is (r\<lparr>next_id := max (next_id r) (sat_add64 (q_id i) 1), outbound := outbound r @ [i]\<rparr>)"

definition restore_outbound :: "'s message_store_ops \<Rightarrow> 's rns_router \<Rightarrow> 's rns_router" where
  "restore_outbound ops r =
     (let items = sort_key q_id (load_outbound ops (store r)) in
      restore_items (map (rebase (min_next items)) items) r)"

definition with_store :: "'s message_store_ops \<Rightarrow> rns_outbound \<Rightarrow> 's \<Rightarrow> 's rns_router" where
  "with_store ops out st = restore_outbound ops (router_with out retry_default st)"

definition pending_len :: "'s rns_router \<Rightarrow> nat" where "pending_len r = length (outbound r)"
definition inflight_len :: "'s rns_router \<Rightarrow> nat" where "inflight_len r = length (inflight r)"
definition failed_len :: "'s rns_router \<Rightarrow> nat" where "failed_len r = length (failed r)"

definition pop_failed :: "'s rns_router \<Rightarrow> failed_delivery option \<times> 's rns_router" where
  "pop_failed r = (case failed r of [] \<Rightarrow> (None, r) | f # fs \<Rightarrow> (Some f, r\<lparr>failed := fs\<rparr>))"

definition mark_inflight :: "queued_delivery \<Rightarrow> nat \<Rightarrow> nat \<Rightarrow> 's rns_router \<Rightarrow> 's rns_router" where
  "mark_inflight d sent timeout r =
     r\<lparr>inflight := hm_insert (qd_id d)
        \<lparr>in_id = qd_id d, in_message = (qd_message d)\<lparr>m_state := STATE_SENT\<rparr>, in_sent_at_ms = sent, in_timeout_ms = timeout\<rparr>
        (inflight r)\<rparr>"

definition router_mark_delivered :: "nat \<Rightarrow> 's rns_router \<Rightarrow> lxmessage option \<times> 's rns_router" where
  "router_mark_delivered i r =
     (case map_of (inflight r) i of
        None \<Rightarrow> (None, r)
      | Some d \<Rightarrow> (Some ((in_message d)\<lparr>m_state := STATE_DELIVERED\<rparr>), r\<lparr>inflight := hm_remove i (inflight r)\<rparr>))"

definition router_mark_failed ::
  "'s message_store_ops \<Rightarrow> nat \<Rightarrow> failure \<Rightarrow> 32 word \<Rightarrow> 's rns_router \<Rightarrow> failed_delivery option \<times> 's rns_router" where
  "router_mark_failed ops i err att r =
     (case map_of (inflight r) i of
        None \<Rightarrow> (None, r)
      | Some d \<Rightarrow>
         (let f = \<lparr>fd_id = i, fd_error = err, fd_message = (in_message d)\<lparr>m_state := STATE_FAILED\<rparr>, fd_attempts = att\<rparr> in
          (Some f, r\<lparr>inflight := hm_remove i (inflight r), store := save_failed ops f (store r), failed := failed r @ [f]\<rparr>)))"

fun fail_all :: "'s message_store_ops \<Rightarrow> nat list \<Rightarrow> 's rns_router \<Rightarrow> failed_delivery list \<times> 's rns_router" where
  "fail_all ops [] r = ([], r)"
| "fail_all ops (i # is) r =
     (case router_mark_failed ops i (ByText ''delivery timeout'') 0 r of
        (None, r1) \<Rightarrow> fail_all ops is r1
      | (Some f, r1) \<Rightarrow> (let (fs, r2) = fail_all ops is r1 in (f # fs, r2)))"

definition router_poll_timeouts :: "'s message_store_ops \<Rightarrow> nat \<Rightarrow> 's rns_router \<Rightarrow> failed_delivery list \<times> 's rns_router" where
  "router_poll_timeouts ops now r =
     fail_all ops (map fst (filter (\<lambda>(_, d). sat_sub now (in_sent_at_ms d) \<ge> in_timeout_ms d) (inflight r))) r"

definition pop_inbound :: "'s rns_router \<Rightarrow> received option \<times> 's rns_router" where
  "pop_inbound r = (case inbound r of [] \<Rightarrow> (None, r) | x # xs \<Rightarrow> (Some x, r\<lparr>inbound := xs\<rparr>))"

definition receive_packet_with_source ::
  "env \<Rightarrow> 's message_store_ops \<Rightarrow> packet \<Rightarrow> delivery_mode \<Rightarrow> bytes option \<Rightarrow> 's rns_router
    \<Rightarrow> (rns_error + unit) \<times> 's rns_router" where
  "receive_packet_with_source E ops p mode src r =
     (case decode_packet_with_source E p mode src of
        Inl e \<Rightarrow> (Inl e, r)
      | Inr rcv \<Rightarrow>
         (case rcv of
            RMessage m \<Rightarrow>
              (case message_id m of
                 Some mid \<Rightarrow>
                   (if seen_before mid (delivered_cache r) then (Inr (), r)
                    else (Inr (), r\<lparr>delivered_cache := snd (mark_delivered mid (delivered_cache r)),
                                    store := save_inbound ops m (store r), inbound := inbound r @ [rcv]\<rparr>))
               | None \<Rightarrow> (Inr (), r\<lparr>store := save_inbound ops m (store r), inbound := inbound r @ [rcv]\<rparr>))
          | _ \<Rightarrow> (Inr (), r\<lparr>inbound := inbound r @ [rcv]\<rparr>)))"

definition receive_packet ::
  "env \<Rightarrow> 's message_store_ops \<Rightarrow> packet \<Rightarrow> delivery_mode \<Rightarrow> 's rns_router \<Rightarrow> (rns_error + unit) \<times> 's rns_router" where
  "receive_packet E ops p mode r = receive_packet_with_source E ops p mode None r"

definition receive_resource_payload :: "bytes \<Rightarrow> bytes option \<Rightarrow> 's rns_router \<Rightarrow> 's rns_router" where
  "receive_resource_payload payload src r = r\<lparr>inbound := inbound r @ [RPropagationResource payload src]\<rparr>"

definition retry_delay_ms :: "retry_policy \<Rightarrow> 32 word \<Rightarrow> nat" where
  "retry_delay_ms pol attempt =
     (let pow = min (sat_sub (unat attempt) 1) 20; delay = sat_mul64 (base_delay_ms pol) (2 ^ pow) in
      min delay (max_delay_ms pol))"

text \<open>A successful delivery of the head of the queue, and a delivery given up.\<close>

definition sent_ok :: "'s message_store_ops \<Rightarrow> queued_message \<Rightarrow> lxmessage \<Rightarrow> delivery_output \<Rightarrow> queued_message list
    \<Rightarrow> 's rns_router \<Rightarrow> queued_delivery \<times> 's rns_router" where
  "sent_ok ops item m out rest r =
     (\<lparr>qd_id = q_id item, qd_delivery = out, qd_message = m\<lparr>m_state := STATE_SENT\<rparr>\<rparr>,
      r\<lparr>outbound := rest, store := remove_outbound ops (q_id item) (store r)\<rparr>)"

definition give_up :: "'s message_store_ops \<Rightarrow> queued_message \<Rightarrow> rns_error \<Rightarrow> queued_message list \<Rightarrow> 's rns_router \<Rightarrow> 's rns_router" where
  "give_up ops item err rest r =
     (let f = \<lparr>fd_id = q_id item, fd_error = ByError err, fd_message = (q_message item)\<lparr>m_state := STATE_FAILED\<rparr>,
               fd_attempts = q_attempts item\<rparr> in
      r\<lparr>outbound := rest, store := save_failed ops f (remove_outbound ops (q_id item) (store r)), failed := failed r @ [f]\<rparr>)"

definition is_policy_violation :: "rns_error \<Rightarrow> bool" where
  "is_policy_violation e = (case e of CryptoPolicyViolation _ _ _ \<Rightarrow> True | _ \<Rightarrow> False)"

definition next_delivery ::
  "env \<Rightarrow> 's message_store_ops \<Rightarrow> nat \<Rightarrow> 's rns_router \<Rightarrow> (rns_error + queued_delivery) option \<times> 's rns_router" where
  "next_delivery E ops now r =
     (case outbound r of
        [] \<Rightarrow> (None, r)
      | item # rest \<Rightarrow>
         if now < q_next_attempt_at_ms item then (None, r)
         else (case deliver E (delivery r) ((q_message item)\<lparr>m_state := STATE_SENDING\<rparr>) (q_mode item) of
            (Inr out, m) \<Rightarrow> (let (d, r1) = sent_ok ops item m out rest r in (Some (Inr d), r1))
          | (Inl err, m) \<Rightarrow> (Some (Inl err), r\<lparr>outbound := rest\<rparr>)))"

definition next_delivery_with_retry ::
  "env \<Rightarrow> 's message_store_ops \<Rightarrow> nat \<Rightarrow> 's rns_router \<Rightarrow> (rns_error + queued_delivery) option \<times> 's rns_router" where
  "next_delivery_with_retry E ops now r =
     (case outbound r of
        [] \<Rightarrow> (None, r)
      | item0 # rest \<Rightarrow>
         if now < q_next_attempt_at_ms item0 then (None, r)
         else (let att = q_attempts item0 + 1 in
          (case deliver E (delivery r) ((q_message item0)\<lparr>m_state := STATE_SENDING\<rparr>) (q_mode item0) of
            (Inr out, m) \<Rightarrow> (let (d, r1) = sent_ok ops item0 m out rest r in (Some (Inr d), r1))
          | (Inl err, m) \<Rightarrow>
             (let item = item0\<lparr>q_attempts := att, q_message := m\<rparr> in
              if is_policy_violation err then (Some (Inl err), give_up ops item err rest r)
              else if att < max_attempts (retry r) then
                (let item' = item\<lparr>q_next_attempt_at_ms := sat_add64 now (retry_delay_ms (retry r) att)\<rparr> in
                 (Some (Inl err), r\<lparr>outbound := rest @ [item'], store := save_outbound ops item' (store r)\<rparr>))
              else (Some (Inl err), give_up ops item err rest r)))))"

subsection \<open>What the queue needs of its store\<close>

definition queue_ids :: "'s rns_router \<Rightarrow> nat list" where
  "queue_ids r = map q_id (outbound r)"

definition failed_ids :: "'s rns_router \<Rightarrow> nat list" where
  "failed_ids r = map fd_id (failed r)"

lemmas router_ops = enqueue_def pop_failed_def mark_inflight_def router_mark_delivered_def router_mark_failed_def
  pop_inbound_def receive_packet_with_source_def receive_packet_def receive_resource_payload_def sent_ok_def give_up_def

text \<open>One step of the router. \<open>next_delivery\<close> (without retry) is not one of them: it forgets a message
  whose delivery fails.\<close>

inductive router_step :: "env \<Rightarrow> 's message_store_ops \<Rightarrow> 's rns_router \<Rightarrow> 's rns_router \<Rightarrow> bool"
  for E ops where
  Enqueue: "next_id r < u64_max \<Longrightarrow> router_step E ops r (snd (enqueue ops m mode r))"
| Deliver: "router_step E ops r (snd (next_delivery_with_retry E ops now r))"
| Inflight: "router_step E ops r (mark_inflight d sent timeout r)"
| Delivered: "router_step E ops r (snd (router_mark_delivered i r))"
| Failed: "router_step E ops r (snd (router_mark_failed ops i err att r))"
| Poll: "router_step E ops r (snd (router_poll_timeouts ops now r))"
| Receive: "router_step E ops r (snd (receive_packet_with_source E ops p mode src r))"
| Resource: "router_step E ops r (receive_resource_payload payload src r)"
| PopFailed: "router_step E ops r (snd (pop_failed r))"
| PopInbound: "router_step E ops r (snd (pop_inbound r))"

text \<open>The outcomes of an attempt to deliver the head of the queue.\<close>

lemma next_delivery_with_retry_cases:
  obtains (Idle) "next_delivery_with_retry E ops now r = (None, r)"
      "outbound r = [] \<or> now < q_next_attempt_at_ms (hd (outbound r))"
  | (Sent) item rest m out where "outbound r = item # rest" "q_next_attempt_at_ms item \<le> now"
      "deliver E (delivery r) ((q_message item)\<lparr>m_state := STATE_SENDING\<rparr>) (q_mode item) = (Inr out, m)"
      "next_delivery_with_retry E ops now r = apfst (Some o Inr) (sent_ok ops item m out rest r)"
  | (Retry) item rest item' err where "outbound r = item # rest" "q_next_attempt_at_ms item \<le> now"
      "q_id item' = q_id item" "q_mode item' = q_mode item"
      "q_attempts item' = q_attempts item + 1" "q_attempts item' < max_attempts (retry r)"
      "q_next_attempt_at_ms item' = sat_add64 now (retry_delay_ms (retry r) (q_attempts item'))"
      "next_delivery_with_retry E ops now r =
         (Some (Inl err), r\<lparr>outbound := rest @ [item'], store := save_outbound ops item' (store r)\<rparr>)"
  | (GiveUp) item rest item' err where "outbound r = item # rest" "q_next_attempt_at_ms item \<le> now"
      "q_id item' = q_id item" "q_attempts item' = q_attempts item + 1"
      "is_policy_violation err \<or> \<not> q_attempts item' < max_attempts (retry r)"
      "next_delivery_with_retry E ops now r = (Some (Inl err), give_up ops item' err rest r)"
proof (cases "outbound r")
  case Nil
  then show ?thesis using Idle by (simp add: next_delivery_with_retry_def)
next
  case (Cons item rest)
  obtain res m where d: "deliver E (delivery r) ((q_message item)\<lparr>m_state := STATE_SENDING\<rparr>) (q_mode item) = (res, m)"
    by fastforce
  show ?thesis
  proof (cases "now < q_next_attempt_at_ms item")
    case True
    then show ?thesis using Idle Cons by (simp add: next_delivery_with_retry_def)
  next
    case due: False
    show ?thesis
    proof (cases res)
      case (Inr out)
      then show ?thesis using Sent[OF Cons _ d[unfolded Inr]] due d Cons
        by (simp add: next_delivery_with_retry_def sent_ok_def)
    next
      case (Inl err)
      let ?i = "item\<lparr>q_attempts := q_attempts item + 1, q_message := m\<rparr>"
      show ?thesis
      proof (cases "is_policy_violation err \<or> \<not> q_attempts item + 1 < max_attempts (retry r)")
        case True
        then show ?thesis using GiveUp[OF Cons, of ?i err] due d Cons Inl
          by (auto simp: next_delivery_with_retry_def Let_def)
      next
        case False
        then show ?thesis
          using Retry[OF Cons, of "?i\<lparr>q_next_attempt_at_ms := sat_add64 now (retry_delay_ms (retry r) (q_attempts item + 1))\<rparr>" err]
            due d Cons Inl
          by (auto simp: next_delivery_with_retry_def Let_def)
      qed
    qed
  qed
qed

lemma router_mark_failed_frame:
  "router_mark_failed ops i err att r = (f, r1) \<Longrightarrow>
    outbound r1 = outbound r \<and> next_id r1 = next_id r \<and> retry r1 = retry r \<and> delivery r1 = delivery r
    \<and> (store r1 = store r \<or> (\<exists>f. store r1 = save_failed ops f (store r)))"
  by (auto simp: router_mark_failed_def Let_def split: option.splits)

locale message_store =
  fixes ops :: "'s message_store_ops"
    and stored :: "'s \<Rightarrow> nat set"
  assumes stored_save: "stored (save_outbound ops i s) = insert (q_id i) (stored s)"
    and stored_remove: "stored (remove_outbound ops n s) = stored s - {n}"
    and stored_load: "q_id ` set (load_outbound ops s) = stored s"
    and stored_inbound: "stored (save_inbound ops m s) = stored s"
    and stored_failed: "stored (save_failed ops f s) = stored s"
begin

text \<open>The queue and the store name the same messages; ids are never used twice.\<close>

definition in_step :: "'s rns_router \<Rightarrow> bool" where
  "in_step r \<longleftrightarrow> stored (store r) = set (queue_ids r) \<and> distinct (queue_ids r)
     \<and> (\<forall>i \<in> set (queue_ids r). i < next_id r)"

lemma in_step_frame:
  "in_step r \<Longrightarrow> outbound r' = outbound r \<Longrightarrow> next_id r' = next_id r \<Longrightarrow> stored (store r') = stored (store r)
    \<Longrightarrow> in_step r'"
  by (simp add: in_step_def queue_ids_def)

lemma in_step_new: "stored s = {} \<Longrightarrow> in_step (router_with out pol s)"
  by (simp add: in_step_def queue_ids_def router_with_def)

lemma in_step_enqueue: "in_step r \<Longrightarrow> next_id r < u64_max \<Longrightarrow> in_step (snd (enqueue ops m mode r))"
  by (fastforce simp: in_step_def queue_ids_def enqueue_def stored_save u64_max_def Let_def)

lemma in_step_deliver: "in_step r \<Longrightarrow> in_step (snd (next_delivery_with_retry E ops now r))"
proof (cases rule: next_delivery_with_retry_cases[of E ops now r])
  case (Retry item rest item' err)
  then show "in_step r \<Longrightarrow> ?thesis" by (auto simp: in_step_def queue_ids_def stored_save)
qed (auto simp: in_step_def queue_ids_def stored_remove stored_failed sent_ok_def give_up_def Let_def)

lemma in_step_failed: "in_step r \<Longrightarrow> router_mark_failed ops i err att r = (f, r1) \<Longrightarrow> in_step r1"
  by (rule in_step_frame[of r]) (auto dest: router_mark_failed_frame simp: stored_failed)

lemma in_step_fail_all: "in_step r \<Longrightarrow> in_step (snd (fail_all ops is r))"
proof (induction "is" arbitrary: r)
  case (Cons i "is")
  obtain f r1 where m: "router_mark_failed ops i (ByText ''delivery timeout'') 0 r = (f, r1)" by fastforce
  with Cons in_step_failed have "in_step (snd (fail_all ops is r1))" by blast
  with m show ?case by (auto split: option.splits prod.splits)
qed simp

lemma in_step_router_step: "router_step E ops r r' \<Longrightarrow> in_step r \<Longrightarrow> in_step r'"
proof (induction rule: router_step.induct)
  case (Failed r i err att)
  then show ?case using in_step_failed[of r i err att] by (cases "router_mark_failed ops i err att r") auto
next
  case (Delivered r i)
  then show ?case by (auto simp: router_mark_delivered_def intro: in_step_frame split: option.splits)
next
  case (Receive r p mode src)
  then show ?case
    by (auto simp: receive_packet_with_source_def stored_inbound intro: in_step_frame
        split: sum.splits received.splits option.splits)
qed (auto intro: in_step_frame in_step_enqueue in_step_deliver in_step_fail_all simp: router_poll_timeouts_def
    mark_inflight_def receive_resource_payload_def pop_failed_def pop_inbound_def split: list.splits)

lemma reachable_in_step:
  "(router_step E ops)\<^sup>*\<^sup>* (router_with out pol s) r \<Longrightarrow> stored s = {} \<Longrightarrow> in_step r"
  by (induction rule: rtranclp_induct) (auto intro: in_step_new in_step_router_step)

end

lemma restore_items_outbound: "outbound (restore_items xs r) = outbound r @ xs"
  by (induction xs arbitrary: r) auto

lemma rebase_id [simp]: "q_id (rebase b i) = q_id i"
  by (simp add: rebase_def split: option.splits)

lemma restored_ids: "queue_ids (with_store ops out s) = map q_id (sort_key q_id (load_outbound ops s))"
  by (simp add: queue_ids_def with_store_def restore_outbound_def Let_def restore_items_outbound router_with_def o_def)

context message_store
begin

lemma restart_keeps_queue:
  "(router_step E ops)\<^sup>*\<^sup>* (router_with out pol s) r \<Longrightarrow> stored s = {} \<Longrightarrow>
    set (queue_ids (with_store ops out' (store r))) = set (queue_ids r)"
  using reachable_in_step[of E out pol s r] by (simp add: restored_ids stored_load in_step_def)

end

definition mem_stored :: "in_memory_store \<Rightarrow> nat set" where
  "mem_stored s = q_id ` set (mem_outbound s)"

interpretation mem: message_store mem_ops mem_stored
  by unfold_locales (auto simp: mem_stored_def mem_ops_def mem_save_outbound_def mem_remove_outbound_def
      mem_load_outbound_def mem_save_inbound_def mem_save_failed_def)


subsection \<open>Receiving\<close>

text \<open>Receiving one packet after the other.\<close>

definition receive_all ::
  "env \<Rightarrow> 's message_store_ops \<Rightarrow> (packet \<times> delivery_mode \<times> bytes option) list \<Rightarrow> 's rns_router \<Rightarrow> 's rns_router" where
  "receive_all E ops ps r = fold (\<lambda>(p, mode, src) r. snd (receive_packet_with_source E ops p mode src r)) ps r"

lemma feed_append: "snd (feed ins (xs @ ys) s) = snd (feed ins ys (snd (feed ins xs s)))"
  by (induction xs arbitrary: s) (auto simp: case_prod_beta Let_def)

lemma accepted_length: "length (accepted xs bs) \<le> length xs"
  by (simp add: accepted_def) (metis length_filter_le length_zip min.bounded_iff)

lemma receive_cache:
  "\<exists>ids. length ids \<le> 1 \<and> delivered_cache (snd (receive_packet_with_source E ops p mode src r))
      = snd (feed mark_delivered ids (delivered_cache r))"
proof (cases "delivered_cache (snd (receive_packet_with_source E ops p mode src r)) = delivered_cache r")
  case True
  then show ?thesis by (intro exI[of _ "[]"]) simp
next
  case False
  then obtain mid where "delivered_cache (snd (receive_packet_with_source E ops p mode src r))
      = snd (mark_delivered mid (delivered_cache r))"
    by (auto simp: receive_packet_with_source_def split: sum.splits received.splits option.splits if_splits)
  then show ?thesis by (intro exI[of _ "[mid]"]) (simp add: case_prod_beta)
qed

lemma receive_all_cache:
  "\<exists>ids. length ids \<le> length ps \<and> delivered_cache (receive_all E ops ps r)
      = snd (feed mark_delivered ids (delivered_cache r))"
proof (induction ps arbitrary: r)
  case Nil
  then show ?case by (simp add: receive_all_def)
next
  case (Cons e ps)
  obtain p mode src where e: "e = (p, mode, src)" by (metis prod.exhaust)
  let ?r = "snd (receive_packet_with_source E ops p mode src r)"
  from receive_cache[of E ops p mode src r] Cons[of ?r] obtain i js where
    "length i \<le> 1" "delivered_cache ?r = snd (feed mark_delivered i (delivered_cache r))" "length js \<le> length ps"
    "delivered_cache (receive_all E ops ps ?r) = snd (feed mark_delivered js (delivered_cache ?r))" by blast
  then show ?case by (intro exI[of _ "i @ js"]) (simp add: feed_append receive_all_def e)
qed

lemma mark_delivered_new: "\<not> seen_before x c \<Longrightarrow> \<exists>c'. mark_delivered x c = (True, c')"
  by (auto simp: mark_delivered_def seen_before_def split: prod.splits)

lemma cache_remembers:
  assumes inv: "dc_invar c" and new: "\<not> seen_before x c" and len: "length ids < max_entries c"
  shows "seen_before x (snd (feed mark_delivered ids (snd (mark_delivered x c))))"
proof -
  from mark_delivered_new[OF new] obtain c1 where c1: "mark_delivered x c = (True, c1)" by blast
  obtain bs c2 where f: "feed mark_delivered ids c1 = (bs, c2)" by fastforce
  have "length (accepted ids bs) < max_entries c" using len accepted_length[of ids bs] by simp
  from dc.remembers_new[OF inv c1 f this] have "seen_before x c2"
    by (auto simp: mark_delivered_def seen_before_def split: if_splits prod.splits)
  then show ?thesis by (simp add: c1 f)
qed

lemma msg_decode_id: "msg_decode c cr bs = Inr m \<Longrightarrow> \<exists>mid. message_id m = Some mid"
  by (auto simp: msg_decode_def Let_def split: if_splits sum.splits mval.splits)

lemma sample_received:
  obtains p m mid where "decode_packet_with_source sample_env p Direct None = Inr (RMessage m)" "message_id m = Some mid"
proof -
  obtain p m' where e: "deliver sample_env sample_outbound sample_message Direct = (Inr (OutPacket p), m')"
    "reads_back (e_codec sample_env) (MArr (payload_values m' (stamp m' \<noteq> None)))"
    by (rule sample_deliver)
  have d: "Direct \<in> {Opportunistic, Direct}" by simp
  from delivered_message_decodes[where vrf = "\<lambda>x s. s = ro_sign sample_outbound x" and src = None,
      OF e(1) sample_outbound_wf(1) d sample_outbound_wf(2) _ e(2)]
  obtain m where m: "decode_packet_with_source sample_env p Direct None = Inr (RMessage m)" by auto
  then obtain mid where "message_id m = Some mid"
    using msg_decode_id by (fastforce simp: decode_packet_with_source_def split: sum.splits)
  with m show thesis using that by blast
qed

subsection \<open>Timeouts\<close>

definition expired :: "nat \<Rightarrow> inflight_delivery \<Rightarrow> bool" where
  "expired now d \<longleftrightarrow> in_timeout_ms d \<le> sat_sub now (in_sent_at_ms d)"

definition timed_out :: "nat \<Rightarrow> inflight_delivery \<Rightarrow> failed_delivery" where
  "timed_out i d = \<lparr>fd_id = i, fd_error = ByText ''delivery timeout'', fd_message = (in_message d)\<lparr>m_state := STATE_FAILED\<rparr>,
     fd_attempts = 0\<rparr>"

lemma fail_all_frame:
  "outbound (snd (fail_all ops is r)) = outbound r \<and> failed (snd (fail_all ops is r)) = failed r @ fst (fail_all ops is r)"
proof (induction "is" arbitrary: r)
  case (Cons i "is")
  show ?case
  proof (cases "map_of (inflight r) i")
    case None
    then show ?thesis using Cons by (simp add: router_mark_failed_def)
  next
    case (Some d)
    then show ?thesis using Cons by (simp add: router_mark_failed_def Let_def case_prod_beta)
  qed
qed simp

lemma fail_all_known:
  assumes "distinct is" and "\<And>i. i \<in> set is \<Longrightarrow> map_of (inflight r) i \<noteq> None"
  shows "fst (fail_all ops is r) = map (\<lambda>i. timed_out i (the (map_of (inflight r) i))) is
    \<and> inflight (snd (fail_all ops is r)) = fold hm_remove is (inflight r)
    \<and> failed (snd (fail_all ops is r)) = failed r @ fst (fail_all ops is r)"
  using assms
proof (induction "is" arbitrary: r)
  case (Cons i "is")
  then obtain d where d: "map_of (inflight r) i = Some d" by fastforce
  let ?f = "timed_out i d"
  let ?r = "r\<lparr>inflight := hm_remove i (inflight r), store := save_failed ops ?f (store r), failed := failed r @ [?f]\<rparr>"
  have mf: "router_mark_failed ops i (ByText ''delivery timeout'') 0 r = (Some ?f, ?r)"
    by (simp add: router_mark_failed_def d timed_out_def Let_def)
  have same: "map_of (inflight ?r) j = map_of (inflight r) j" if "j \<in> set is" for j
    using that Cons.prems(1) by (auto simp: hmap_simps)
  have IH: "fst (fail_all ops is ?r) = map (\<lambda>i. timed_out i (the (map_of (inflight ?r) i))) is
    \<and> inflight (snd (fail_all ops is ?r)) = fold hm_remove is (inflight ?r)
    \<and> failed (snd (fail_all ops is ?r)) = failed ?r @ fst (fail_all ops is ?r)"
    by (rule Cons.IH) (use Cons.prems same in auto)
  have "map (\<lambda>i. timed_out i (the (map_of (inflight ?r) i))) is = map (\<lambda>i. timed_out i (the (map_of (inflight r) i))) is"
    using same by (intro map_cong) auto
  with IH show ?case by (simp add: mf d case_prod_beta Let_def)
qed simp


subsection \<open>Properties\<close>

lemma retry_delay_mono: "a \<le> b \<Longrightarrow> retry_delay_ms pol a \<le> retry_delay_ms pol b"
proof -
  assume "a \<le> b"
  then have "min (unat a - 1) 20 \<le> min (unat b - 1) 20" by (intro min.mono diff_le_mono) (simp_all add: word_le_nat_alt)
  then have "(2 :: nat) ^ min (unat a - 1) 20 \<le> 2 ^ min (unat b - 1) 20" by (rule power_increasing) simp
  then have "base_delay_ms pol * 2 ^ min (unat a - 1) 20 \<le> base_delay_ms pol * 2 ^ min (unat b - 1) 20" by simp
  then show ?thesis unfolding retry_delay_ms_def sat_mul64_def sat_sub_def Let_def by (intro min.mono) auto
qed

text \<open>Restart: in every state a router reaches from an empty in-memory store by queueing,
  delivering with retries, tracking, timing out and receiving, the queued messages have different ids,
  all below the next one to be given, and a router started on the same store has exactly these
  messages in its queue, in the order of their ids.\<close>

theorem queue_survives_restart:
  assumes "(router_step E mem_ops)\<^sup>*\<^sup>* (router_with out pol mem_new) r"
  shows "distinct (queue_ids r) \<and> (\<forall>i \<in> set (queue_ids r). i < next_id r)
    \<and> set (queue_ids (with_store mem_ops out' (store r))) = set (queue_ids r)
    \<and> sorted (queue_ids (with_store mem_ops out' (store r)))"
proof -
  have empty: "mem_stored mem_new = {}" by (simp add: mem_stored_def mem_new_def)
  from mem.reachable_in_step[OF assms empty] mem.restart_keeps_queue[OF assms empty, of out']
  show ?thesis by (simp add: mem.in_step_def restored_ids)
qed

lemma two_enqueued:
  "(router_step E mem_ops)\<^sup>*\<^sup>* (router_with out pol mem_new)
     (snd (enqueue mem_ops m2 mode2 (snd (enqueue mem_ops m1 mode1 (router_with out pol mem_new)))))"
proof -
  let ?r0 = "router_with out pol mem_new"
  have "router_step E mem_ops ?r0 (snd (enqueue mem_ops m1 mode1 ?r0))"
    by (rule router_step.Enqueue) (simp add: router_with_def u64_max_def)
  moreover have "router_step E mem_ops (snd (enqueue mem_ops m1 mode1 ?r0))
      (snd (enqueue mem_ops m2 mode2 (snd (enqueue mem_ops m1 mode1 ?r0))))"
    by (rule router_step.Enqueue) (simp add: router_with_def enqueue_def Let_def u64_max_def)
  ultimately show ?thesis by (meson rtranclp.rtrancl_into_rtrancl r_into_rtranclp)
qed

theorem queue_survives_restart_witness:
  "let r = snd (enqueue mem_ops sample_message Direct
         (snd (enqueue mem_ops sample_message Opportunistic (router_with sample_outbound retry_default mem_new)))) in
   queue_ids r = [1, 2] \<and> distinct (queue_ids r) \<and> set (queue_ids (with_store mem_ops sample_outbound (store r))) = {1, 2}"
  using queue_survives_restart[OF two_enqueued[of sample_env sample_outbound retry_default sample_message Direct sample_message Opportunistic]]
  by (auto simp: Let_def queue_ids_def enqueue_def router_with_def)

text \<open>Backoff: the delay before a retry never exceeds the policy's maximum, never decreases from
  one attempt to the next, and doubles from the base delay as long as neither the 64-bit product
  nor the exponent's cap of 20 is reached.\<close>

theorem retry_backoff:
  assumes "a \<le> b"
  shows "retry_delay_ms pol b \<le> max_delay_ms pol \<and> retry_delay_ms pol a \<le> retry_delay_ms pol b
    \<and> (0 < a \<and> a \<le> 21 \<and> base_delay_ms pol * 2 ^ (unat a - 1) \<le> u64_max
        \<longrightarrow> retry_delay_ms pol a = min (base_delay_ms pol * 2 ^ (unat a - 1)) (max_delay_ms pol))"
proof -
  have "retry_delay_ms pol b \<le> max_delay_ms pol" by (simp add: retry_delay_ms_def Let_def)
  moreover have "retry_delay_ms pol a = min (base_delay_ms pol * 2 ^ (unat a - 1)) (max_delay_ms pol)"
    if "a \<le> 21" "base_delay_ms pol * 2 ^ (unat a - 1) \<le> u64_max"
    using that by (simp add: retry_delay_ms_def sat_mul64_def sat_sub_def Let_def word_le_nat_alt)
  ultimately show ?thesis using retry_delay_mono[OF assms] by blast
qed

theorem retry_backoff_witness:
  "map (retry_delay_ms retry_default) [1, 2, 3, 4, 5] = [500, 1000, 2000, 4000, 5000]
    \<and> retry_delay_ms retry_default 5 \<le> max_delay_ms retry_default"
  using retry_backoff[of 5 5 retry_default]
  by (simp add: retry_delay_ms_def retry_default_def sat_mul64_def sat_sub_def u64_max_def Let_def)

text \<open>Timeouts: polling moves exactly the expired in-flight deliveries to the failed queue, each
  once and marked as failed, and leaves the others in flight.\<close>

theorem poll_fails_expired:
  assumes "hm_wf (inflight r)" and "router_poll_timeouts ops now r = (fs, r')"
  shows "fs = map (\<lambda>(i, d). timed_out i d) (filter (\<lambda>(i, d). expired now d) (inflight r)) \<and> failed r' = failed r @ fs
    \<and> (\<forall>i. map_of (inflight r') i
        = (case map_of (inflight r) i of Some d \<Rightarrow> if expired now d then None else Some d | None \<Rightarrow> None))"
proof -
  let ?ex = "filter (\<lambda>(i, d). expired now d) (inflight r)"
  let ?is = "map fst ?ex"
  have wf: "distinct (map fst (inflight r))" using assms(1) by (simp add: hm_wf_def)
  then have dist: "distinct ?is" by (rule distinct_map_filter)
  have look: "map_of (inflight r) i = Some d" if "(i, d) \<in> set ?ex" for i d
    using that assms(1) by (auto simp: hm_get_in)
  have poll: "fail_all ops ?is r = (fs, r')"
    using assms(2) by (simp add: router_poll_timeouts_def expired_def)
  have *: "fs = map (\<lambda>i. timed_out i (the (map_of (inflight r) i))) ?is"
      "inflight r' = fold hm_remove ?is (inflight r)" "failed r' = failed r @ fs"
    using fail_all_known[OF dist, of r ops] look poll by fastforce+
  have fs: "fs = map (\<lambda>(i, d). timed_out i d) ?ex"
    unfolding *(1) using look by (auto simp: o_def intro!: map_cong)
  have "i \<in> set ?is \<longleftrightarrow> (\<exists>d. map_of (inflight r) i = Some d \<and> expired now d)" for i
    using assms(1) by (force simp: hm_get_in)
  then have "map_of (inflight r') i
      = (case map_of (inflight r) i of Some d \<Rightarrow> if expired now d then None else Some d | None \<Rightarrow> None)" for i
    using hm.fold_remove[OF assms(1), of ?is] by (auto simp: *(2) split: option.splits)
  with fs *(3) show ?thesis by blast
qed

theorem poll_fails_expired_witness:
  "let r = mark_inflight \<lparr>qd_id = 7, qd_delivery = OutPaperUri [], qd_message = sample_message\<rparr> 100 50
        (mark_inflight \<lparr>qd_id = 8, qd_delivery = OutPaperUri [], qd_message = sample_message\<rparr> 100 500
          (router_with sample_outbound retry_default mem_new)) in
   map fd_id (fst (router_poll_timeouts mem_ops 150 r)) = [7]
   \<and> map_of (inflight (snd (router_poll_timeouts mem_ops 150 r))) 7 = None
   \<and> map_of (inflight (snd (router_poll_timeouts mem_ops 150 r))) 8 \<noteq> None"
proof -
  define r where "r = mark_inflight \<lparr>qd_id = 7, qd_delivery = OutPaperUri [], qd_message = sample_message\<rparr> 100 50
        (mark_inflight \<lparr>qd_id = 8, qd_delivery = OutPaperUri [], qd_message = sample_message\<rparr> 100 500
          (router_with sample_outbound retry_default mem_new))"
  let ?d = "\<lambda>i t. \<lparr>in_id = i, in_message = sample_message\<lparr>m_state := STATE_SENT\<rparr>, in_sent_at_ms = 100, in_timeout_ms = t\<rparr>"
  have infl: "inflight r = [(8, ?d 8 500), (7, ?d 7 50)]"
    by (simp add: r_def mark_inflight_def router_with_def hm_insert_def)
  then have wf: "hm_wf (inflight r)" by (simp add: hm_wf_def)
  obtain fs r' where p: "router_poll_timeouts mem_ops 150 r = (fs, r')" by fastforce
  from poll_fails_expired[OF wf p] show ?thesis
    unfolding r_def[symmetric] Let_def by (simp add: p infl expired_def timed_out_def sat_sub_def)
qed

text \<open>Duplicates: a message received once is ignored when a packet with the same message id comes
  again, as long as fewer packets than the cache holds ids (2048) were received in between: the
  router is left as it was, so the message is stored and handed to the application once.\<close>

theorem repeated_message_ignored:
  assumes "dc_invar (delivered_cache r)" and "decode_packet_with_source E p mode src = Inr (RMessage m)"
    and "message_id m = Some mid" and "\<not> seen_before mid (delivered_cache r)"
    and "length ps < max_entries (delivered_cache r)"
    and "decode_packet_with_source E q mode' src' = Inr (RMessage m')" and "message_id m' = Some mid"
    and "r1 = snd (receive_packet_with_source E ops p mode src r)" and "r2 = receive_all E ops ps r1"
  shows "inbound r1 = inbound r @ [RMessage m] \<and> store r1 = save_inbound ops m (store r)
    \<and> receive_packet_with_source E ops q mode' src' r2 = (Inr (), r2)"
proof -
  have r1: "r1 = r\<lparr>delivered_cache := snd (mark_delivered mid (delivered_cache r)),
      store := save_inbound ops m (store r), inbound := inbound r @ [RMessage m]\<rparr>"
    using assms(2,3,4,8) by (simp add: receive_packet_with_source_def)
  obtain ids where "length ids \<le> length ps" "delivered_cache r2 = snd (feed mark_delivered ids (delivered_cache r1))"
    using receive_all_cache[of ps E ops r1] assms(9) by blast
  then have "seen_before mid (delivered_cache r2)"
    using cache_remembers[OF assms(1,4), of ids] assms(5) by (simp add: r1)
  then show ?thesis using assms(6,7) by (simp add: r1 receive_packet_with_source_def)
qed

theorem repeated_message_ignored_witness:
  "\<exists>p m. let r1 = snd (receive_packet_with_source sample_env mem_ops p Direct None (router_with sample_outbound retry_default mem_new))
    in inbound r1 = [RMessage m] \<and> receive_packet_with_source sample_env mem_ops p Direct None r1 = (Inr (), r1)"
proof -
  obtain p m mid where p: "decode_packet_with_source sample_env p Direct None = Inr (RMessage m)" "message_id m = Some mid"
    by (rule sample_received)
  let ?r = "router_with sample_outbound retry_default mem_new"
  have r: "dc_invar (delivered_cache ?r)" "\<not> seen_before mid (delivered_cache ?r)"
      "length ([] :: (packet \<times> delivery_mode \<times> bytes option) list) < max_entries (delivered_cache ?r)" "inbound ?r = []"
    by (simp_all add: router_with_def dc_invar_def seen_before_def dc_new_def DELIVERED_CACHE_MAX_def)
  from repeated_message_ignored[OF r(1) p r(2,3) p refl refl, of mem_ops] r(4) show ?thesis
    by (auto simp: receive_all_def Let_def)
qed

end
