(* ===== verification/Requests.thy ===== *)
theory Requests
  imports Delivery
begin

section \<open>Requests in flight (router.rs RnsRequestManager, request.rs RequestTracker)\<close>

text \<open>
  Two components match responses with the requests sent before: the router's
  \<open>RnsRequestManager\<close> and the \<open>RequestTracker\<close> of the transport crate. The tracker hands out shared
  receipts (\<open>Arc<Mutex<RequestReceipt>>\<close>): they live in a heap of the model, a handle is an index, and
  the pending table maps request ids to handles. The interface \<open>request_ledger\<close> states what the two
  have in common; its client lemma says that a request is answered at most once. Callbacks only
  observe a receipt and are left out.
\<close>

subsection \<open>RnsRequestManager\<close>

record pending_request =
  pr_request_id :: bytes
  pr_path_hash :: bytes
  pr_sent_at_ms :: nat
  pr_timeout_ms :: nat

record rns_request_manager =
  rm_pending :: "(bytes, pending_request) hmap"
  rm_responses :: "(bytes, rns_response) hmap"

definition rm_new :: rns_request_manager where
  "rm_new = \<lparr>rm_pending = [], rm_responses = []\<rparr>"

text \<open>\<open>register_request\<close>: None is the panic of \<open>expect\<close> on a payload that cannot be encoded.\<close>

definition rm_register_request ::
  "env \<Rightarrow> bytes \<Rightarrow> bytes option \<Rightarrow> mval \<Rightarrow> nat \<Rightarrow> nat \<Rightarrow> rns_request_manager
    \<Rightarrow> ((rns_error + rns_request) \<times> rns_request_manager) option" where
  "rm_register_request E dest path data now timeout s =
     (let path_hash = (case path of Some p \<Rightarrow> request_path_hash (e_crypto E) p | None \<Rightarrow> replicate DESTINATION_LENGTH 0);
          req = \<lparr>req_id = replicate DESTINATION_LENGTH 0, req_at = ms_to_s now, req_path_hash = path_hash, req_data = data\<rparr> in
      (case encode_request_bytes E req of
         Inl e \<Rightarrow> None
       | Inr payload \<Rightarrow>
          (case request_id_for_destination (e_crypto E) dest payload of
             Inl e \<Rightarrow> Some (Inl e, s)
           | Inr rid \<Rightarrow>
              Some (Inr (req\<lparr>req_id := rid\<rparr>),
                s\<lparr>rm_pending := hm_insert rid
                    \<lparr>pr_request_id = rid, pr_path_hash = path_hash, pr_sent_at_ms = now, pr_timeout_ms = timeout\<rparr>
                    (rm_pending s)\<rparr>))))"

definition rm_record_response :: "rns_response \<Rightarrow> rns_request_manager \<Rightarrow> bool \<times> rns_request_manager" where
  "rm_record_response rsp s =
     (case map_of (rm_pending s) (rsp_id rsp) of
        Some _ \<Rightarrow> (True, s\<lparr>rm_pending := hm_remove (rsp_id rsp) (rm_pending s),
                           rm_responses := hm_insert (rsp_id rsp) rsp (rm_responses s)\<rparr>)
      | None \<Rightarrow> (False, s))"

definition rm_take_response :: "bytes \<Rightarrow> rns_request_manager \<Rightarrow> rns_response option \<times> rns_request_manager" where
  "rm_take_response i s = (map_of (rm_responses s) i, s\<lparr>rm_responses := hm_remove i (rm_responses s)\<rparr>)"

definition rm_is_pending :: "bytes \<Rightarrow> rns_request_manager \<Rightarrow> bool" where
  "rm_is_pending i s = hm_contains (rm_pending s) i"

definition rm_poll_timeouts :: "nat \<Rightarrow> rns_request_manager \<Rightarrow> bytes list \<times> rns_request_manager" where
  "rm_poll_timeouts now s =
     (let timed = map fst (filter (\<lambda>(_, p). sat_sub now (pr_sent_at_ms p) \<ge> pr_timeout_ms p) (rm_pending s)) in
      (timed, s\<lparr>rm_pending := fold hm_remove timed (rm_pending s)\<rparr>))"

subsection \<open>RequestTracker\<close>

datatype request_status = RFailed | RSent | RDelivered | RReceiving | RReady

record request_receipt =
  rr_request_id :: bytes
  rr_status :: request_status
  rr_response :: "bytes option"
  rr_progress :: "32 word"
  rr_sent_at :: nat
  rr_concluded_at :: "nat option"
  rr_timeout :: nat

record request_tracker =
  rt_receipts :: "request_receipt list"
  rt_pending :: "(bytes, nat) hmap"

definition rt_new :: request_tracker where
  "rt_new = \<lparr>rt_receipts = [], rt_pending = []\<rparr>"

definition f32_one :: "32 word" where "f32_one = 0x3f800000"

definition with_receipt :: "nat \<Rightarrow> (request_receipt \<Rightarrow> request_receipt) \<Rightarrow> request_tracker \<Rightarrow> request_tracker" where
  "with_receipt h f t = t\<lparr>rt_receipts := (rt_receipts t)[h := f (rt_receipts t ! h)]\<rparr>"

definition rt_register_request :: "bytes \<Rightarrow> nat \<Rightarrow> nat \<Rightarrow> request_tracker \<Rightarrow> nat \<times> request_tracker" where
  "rt_register_request rid timeout now t =
     (let h = length (rt_receipts t) in
      (h, t\<lparr>rt_receipts := rt_receipts t @ [\<lparr>rr_request_id = rid, rr_status = RSent, rr_response = None,
               rr_progress = 0, rr_sent_at = now, rr_concluded_at = None, rr_timeout = timeout\<rparr>],
            rt_pending := hm_insert rid h (rt_pending t)\<rparr>))"

definition rt_mark_delivered :: "bytes \<Rightarrow> request_tracker \<Rightarrow> request_tracker" where
  "rt_mark_delivered rid t =
     (case map_of (rt_pending t) rid of
        Some h \<Rightarrow> with_receipt h (\<lambda>r. if rr_status r = RSent then r\<lparr>rr_status := RDelivered\<rparr> else r) t
      | None \<Rightarrow> t)"

definition rt_mark_receiving :: "bytes \<Rightarrow> 32 word \<Rightarrow> request_tracker \<Rightarrow> request_tracker" where
  "rt_mark_receiving rid prog t =
     (case map_of (rt_pending t) rid of
        Some h \<Rightarrow> with_receipt h (\<lambda>r. if rr_status r \<noteq> RFailed then r\<lparr>rr_status := RReceiving, rr_progress := prog\<rparr> else r) t
      | None \<Rightarrow> t)"

definition rt_record_response :: "nat \<Rightarrow> bytes \<Rightarrow> bytes \<Rightarrow> request_tracker \<Rightarrow> bool \<times> request_tracker" where
  "rt_record_response now rid rsp t =
     (case map_of (rt_pending t) rid of
        None \<Rightarrow> (False, t)
      | Some h \<Rightarrow>
         (let t1 = t\<lparr>rt_pending := hm_remove rid (rt_pending t)\<rparr> in
          if rr_status (rt_receipts t ! h) = RFailed then (False, t1)
          else (True, with_receipt h (\<lambda>r. r\<lparr>rr_response := Some rsp, rr_progress := f32_one, rr_status := RReady,
                                             rr_concluded_at := Some now\<rparr>) t1)))"

definition rt_mark_failed :: "nat \<Rightarrow> bytes \<Rightarrow> request_tracker \<Rightarrow> request_tracker" where
  "rt_mark_failed now rid t =
     (case map_of (rt_pending t) rid of
        None \<Rightarrow> t
      | Some h \<Rightarrow> with_receipt h (\<lambda>r. r\<lparr>rr_status := RFailed, rr_concluded_at := Some now\<rparr>)
                    (t\<lparr>rt_pending := hm_remove rid (rt_pending t)\<rparr>))"

definition rt_overdue :: "nat \<Rightarrow> request_receipt \<Rightarrow> bool" where
  "rt_overdue now r \<longleftrightarrow> (rr_status r = RSent \<or> rr_status r = RDelivered \<or> rr_status r = RReceiving)
     \<and> sat_sub now (rr_sent_at r) \<ge> rr_timeout r"

definition rt_poll_timeouts :: "nat \<Rightarrow> nat \<Rightarrow> request_tracker \<Rightarrow> request_tracker" where
  "rt_poll_timeouts now clock t =
     fold (rt_mark_failed clock) (map fst (filter (\<lambda>(_, h). rt_overdue now (rt_receipts t ! h)) (rt_pending t))) t"

subsection \<open>What both promise\<close>

datatype ('i, 'r) ledger_event = Answer 'i 'r | Tick nat

text \<open>A run of answers and polls; the result lists the ids whose answer was taken.\<close>

fun ledger_run ::
  "('i \<Rightarrow> 'r \<Rightarrow> 's \<Rightarrow> bool \<times> 's) \<Rightarrow> (nat \<Rightarrow> 's \<Rightarrow> 's) \<Rightarrow> ('i, 'r) ledger_event list \<Rightarrow> 's \<Rightarrow> 'i list \<times> 's" where
  "ledger_run respond poll [] s = ([], s)"
| "ledger_run respond poll (Answer i x # es) s =
     (let (b, s1) = respond i x s; (ids, s2) = ledger_run respond poll es s1 in (if b then i # ids else ids, s2))"
| "ledger_run respond poll (Tick now # es) s = ledger_run respond poll es (poll now s)"

locale request_ledger =
  fixes invar :: "'s \<Rightarrow> bool"
    and waiting :: "'s \<Rightarrow> 'i set"
    and respond :: "'i \<Rightarrow> 'r \<Rightarrow> 's \<Rightarrow> bool \<times> 's"
    and poll :: "nat \<Rightarrow> 's \<Rightarrow> 's"
    and due :: "nat \<Rightarrow> 's \<Rightarrow> 'i set"
  assumes respond_answer: "invar s \<Longrightarrow> fst (respond i x s) \<longleftrightarrow> i \<in> waiting s"
    and respond_waiting: "invar s \<Longrightarrow> waiting (snd (respond i x s)) = waiting s - {i}"
    and respond_invar: "invar s \<Longrightarrow> invar (snd (respond i x s))"
    and poll_waiting: "invar s \<Longrightarrow> waiting (poll now s) = waiting s - due now s"
    and poll_invar: "invar s \<Longrightarrow> invar (poll now s)"
begin

lemma run_answers_once:
  "invar s \<Longrightarrow> ledger_run respond poll es s = (ids, s') \<Longrightarrow>
    invar s' \<and> distinct ids \<and> set ids \<subseteq> waiting s \<and> waiting s' \<subseteq> waiting s - set ids"
proof (induction es arbitrary: s ids)
  case (Cons e es)
  show ?case
  proof (cases e)
    case (Answer i x)
    obtain b s1 where r: "respond i x s = (b, s1)" by fastforce
    obtain js s2 where rest: "ledger_run respond poll es s1 = (js, s2)" by fastforce
    have s1: "invar s1" "waiting s1 = waiting s - {i}" "b \<longleftrightarrow> i \<in> waiting s"
      using respond_invar[OF Cons.prems(1), of i x] respond_waiting[OF Cons.prems(1), of i x]
        respond_answer[OF Cons.prems(1), of i x] r by auto
    from Cons.prems(2) r rest Answer have "s' = s2" "ids = (if b then i # js else js)" by auto
    with Cons.IH[OF s1(1)] rest s1 show ?thesis by auto
  next
    case (Tick now)
    with Cons.prems have "ledger_run respond poll es (poll now s) = (ids, s')" by simp
    from Cons.IH[OF poll_invar[OF Cons.prems(1)] this] show ?thesis using poll_waiting[OF Cons.prems(1)] by auto
  qed
qed auto

end

subsection \<open>The two ledgers\<close>

definition rm_invar :: "rns_request_manager \<Rightarrow> bool" where
  "rm_invar s \<longleftrightarrow> hm_wf (rm_pending s)"

definition rm_waiting :: "rns_request_manager \<Rightarrow> bytes set" where
  "rm_waiting s = dom (map_of (rm_pending s))"

definition rm_due :: "nat \<Rightarrow> rns_request_manager \<Rightarrow> bytes set" where
  "rm_due now s = {i. \<exists>p. map_of (rm_pending s) i = Some p \<and> pr_timeout_ms p \<le> sat_sub now (pr_sent_at_ms p)}"

lemma rm_timed_out:
  "rm_invar s \<Longrightarrow> set (fst (rm_poll_timeouts now s)) = rm_due now s"
  by (force simp: rm_poll_timeouts_def rm_due_def rm_invar_def hm_get_in Let_def)

interpretation rm: request_ledger rm_invar rm_waiting "\<lambda>i x. rm_record_response \<lparr>rsp_id = i, rsp_data = x\<rparr>"
  "\<lambda>now s. snd (rm_poll_timeouts now s)" rm_due
proof
  fix s i x now
  assume inv: "rm_invar s"
  then show "fst (rm_record_response \<lparr>rsp_id = i, rsp_data = x\<rparr> s) \<longleftrightarrow> i \<in> rm_waiting s"
    and "rm_waiting (snd (rm_record_response \<lparr>rsp_id = i, rsp_data = x\<rparr> s)) = rm_waiting s - {i}"
    and "rm_invar (snd (rm_record_response \<lparr>rsp_id = i, rsp_data = x\<rparr> s))"
    by (auto simp: rm_record_response_def rm_waiting_def rm_invar_def hmap_simps split: option.splits if_splits)
  let ?ks = "fst (rm_poll_timeouts now s)"
  have p: "rm_pending (snd (rm_poll_timeouts now s)) = fold hm_remove ?ks (rm_pending s)"
    by (simp add: rm_poll_timeouts_def Let_def)
  from inv hm.fold_remove[of "rm_pending s" ?ks]
  have *: "hm_wf (fold hm_remove ?ks (rm_pending s))"
    "\<And>k. map_of (fold hm_remove ?ks (rm_pending s)) k = (if k \<in> set ?ks then None else map_of (rm_pending s) k)"
    by (auto simp: rm_invar_def)
  show "rm_invar (snd (rm_poll_timeouts now s))" by (simp add: rm_invar_def p *)
  show "rm_waiting (snd (rm_poll_timeouts now s)) = rm_waiting s - rm_due now s"
    using rm_timed_out[OF inv, of now] by (auto simp: rm_waiting_def p * split: if_splits)
qed

text \<open>The tracker: pending ids point to different receipts, none of them settled.\<close>

definition settled :: "request_receipt \<Rightarrow> bool" where
  "settled r \<longleftrightarrow> rr_status r \<in> {RFailed, RReady}"

definition rt_invar :: "request_tracker \<Rightarrow> bool" where
  "rt_invar t \<longleftrightarrow> hm_wf (rt_pending t) \<and> distinct (map snd (rt_pending t))
     \<and> (\<forall>(i, h) \<in> set (rt_pending t). h < length (rt_receipts t) \<and> \<not> settled (rt_receipts t ! h)
         \<and> rr_request_id (rt_receipts t ! h) = i)"

definition rt_keeps :: "request_tracker \<Rightarrow> request_tracker \<Rightarrow> bool" where
  "rt_keeps t t' \<longleftrightarrow> length (rt_receipts t) \<le> length (rt_receipts t')
     \<and> (\<forall>h < length (rt_receipts t). settled (rt_receipts t ! h) \<longrightarrow> rt_receipts t' ! h = rt_receipts t ! h)"

lemma rt_keeps_refl [simp]: "rt_keeps t t"
  by (simp add: rt_keeps_def)

lemma rt_keeps_trans: "rt_keeps t u \<Longrightarrow> rt_keeps u v \<Longrightarrow> rt_keeps t v"
  by (auto simp: rt_keeps_def)

lemma rt_pendingD:
  assumes "rt_invar t" "map_of (rt_pending t) i = Some h"
  shows "h < length (rt_receipts t)" "\<not> settled (rt_receipts t ! h)" "rr_request_id (rt_receipts t ! h) = i"
    "\<And>j k. (j, k) \<in> set (rt_pending t) \<Longrightarrow> k = h \<longleftrightarrow> j = i"
proof -
  have ih: "(i, h) \<in> set (rt_pending t)" using assms(2) by (rule map_of_SomeD)
  with assms(1) show "h < length (rt_receipts t)" "\<not> settled (rt_receipts t ! h)" "rr_request_id (rt_receipts t ! h) = i"
    by (auto simp: rt_invar_def)
  fix j k assume jk: "(j, k) \<in> set (rt_pending t)"
  have "inj_on snd (set (rt_pending t))" "inj_on fst (set (rt_pending t))"
    using assms(1) by (auto simp: rt_invar_def hm_wf_def distinct_map)
  with ih jk show "k = h \<longleftrightarrow> j = i" by (metis fst_conv snd_conv inj_onD)
qed

lemma rt_update_live:
  assumes inv: "rt_invar t" and h: "map_of (rt_pending t) i = Some h"
    and f: "\<And>r. \<not> settled r \<Longrightarrow> \<not> settled (f r) \<and> rr_request_id (f r) = rr_request_id r"
  shows "rt_invar (with_receipt h f t) \<and> rt_keeps t (with_receipt h f t)"
  using inv rt_pendingD[OF inv h] f
  by (auto simp: rt_invar_def rt_keeps_def with_receipt_def nth_list_update split: if_splits)

lemma distinct_snd_remove: "distinct (map snd m) \<Longrightarrow> distinct (map snd (hm_remove k m))"
  by (simp add: hm_remove_def AList.delete_eq distinct_map_filter)

lemma rt_update_settle:
  assumes inv: "rt_invar t" and h: "map_of (rt_pending t) i = Some h"
  shows "rt_invar (with_receipt h f (t\<lparr>rt_pending := hm_remove i (rt_pending t)\<rparr>))
    \<and> rt_keeps t (with_receipt h f (t\<lparr>rt_pending := hm_remove i (rt_pending t)\<rparr>))"
proof -
  have "hm_wf (hm_remove i (rt_pending t))" "distinct (map snd (hm_remove i (rt_pending t)))"
    using inv by (auto simp: rt_invar_def hmap_simps distinct_snd_remove)
  with inv rt_pendingD[OF inv h] show ?thesis
    by (auto simp: rt_invar_def rt_keeps_def with_receipt_def set_hm_remove nth_list_update)
qed

lemma with_receipt_pending [simp]: "rt_pending (with_receipt h f t) = rt_pending t"
  by (simp add: with_receipt_def)

lemma rt_mark_failed_ok: "rt_invar t \<Longrightarrow> rt_invar (rt_mark_failed now i t) \<and> rt_keeps t (rt_mark_failed now i t)"
  by (auto simp: rt_mark_failed_def rt_update_settle split: option.split)

lemma rt_mark_failed_pending: "rt_pending (rt_mark_failed now i t) = hm_remove i (rt_pending t)"
proof (cases "map_of (rt_pending t) i")
  case None
  then have "i \<notin> fst ` set (rt_pending t)" by (simp add: map_of_eq_None_iff)
  with None show ?thesis by (simp add: rt_mark_failed_def hm_remove_def)
qed (simp add: rt_mark_failed_def with_receipt_def)

lemma rt_fail_many:
  "rt_invar t \<Longrightarrow> rt_invar (fold (rt_mark_failed now) is t) \<and> rt_keeps t (fold (rt_mark_failed now) is t)
    \<and> rt_pending (fold (rt_mark_failed now) is t) = fold hm_remove is (rt_pending t)"
proof (induction "is" arbitrary: t)
  case (Cons i "is")
  from rt_mark_failed_ok[OF Cons.prems, of now i] have ok: "rt_invar (rt_mark_failed now i t)"
    "rt_keeps t (rt_mark_failed now i t)" by auto
  from Cons.IH[OF ok(1)] ok(2) show ?case by (auto simp: rt_mark_failed_pending dest: rt_keeps_trans)
qed simp

lemma rt_record_response_ok:
  assumes "rt_invar t"
  shows "rt_invar (snd (rt_record_response now i x t)) \<and> rt_keeps t (snd (rt_record_response now i x t))
    \<and> rt_pending (snd (rt_record_response now i x t)) = hm_remove i (rt_pending t)
    \<and> fst (rt_record_response now i x t) = (i \<in> dom (map_of (rt_pending t)))"
proof (cases "map_of (rt_pending t) i")
  case None
  then have "i \<notin> fst ` set (rt_pending t)" by (simp add: map_of_eq_None_iff)
  with None assms show ?thesis by (simp add: rt_record_response_def hm_remove_def dom_def)
next
  case (Some h)
  then have "rr_status (rt_receipts t ! h) \<noteq> RFailed" using rt_pendingD(2)[OF assms Some] by (auto simp: settled_def)
  with rt_update_settle[OF assms Some] Some show ?thesis
    by (simp add: rt_record_response_def Let_def dom_def)
qed

definition rt_due :: "nat \<Rightarrow> request_tracker \<Rightarrow> bytes set" where
  "rt_due now t = {i. \<exists>h. map_of (rt_pending t) i = Some h \<and> rt_overdue now (rt_receipts t ! h)}"

interpretation rt: request_ledger rt_invar "\<lambda>t. dom (map_of (rt_pending t))" "\<lambda>i (now, x). rt_record_response now i x"
  "\<lambda>now. rt_poll_timeouts now now" rt_due
proof
  fix t :: request_tracker and i :: bytes and x :: "nat \<times> bytes" and now
  assume inv: "rt_invar t"
  obtain c b where x: "x = (c, b)" by fastforce
  show "fst ((case x of (now, x) \<Rightarrow> rt_record_response now i x) t) \<longleftrightarrow> i \<in> dom (map_of (rt_pending t))"
    and "rt_invar (snd ((case x of (now, x) \<Rightarrow> rt_record_response now i x) t))"
    using rt_record_response_ok[OF inv, of c i b] by (simp_all add: x)
  show "dom (map_of (rt_pending (snd ((case x of (now, x) \<Rightarrow> rt_record_response now i x) t)))) = dom (map_of (rt_pending t)) - {i}"
    using rt_record_response_ok[OF inv, of c i b] inv by (auto simp: x rt_invar_def hmap_simps split: if_splits)
  let ?is = "map fst (filter (\<lambda>(_, h). rt_overdue now (rt_receipts t ! h)) (rt_pending t))"
  have wf: "hm_wf (rt_pending t)" using inv by (simp add: rt_invar_def)
  have due: "set ?is = rt_due now t" using wf by (force simp: rt_due_def hm_get_in)
  note many = rt_fail_many[OF inv, of now ?is]
  then show "rt_invar (rt_poll_timeouts now now t)" by (simp add: rt_poll_timeouts_def)
  have "map_of (rt_pending (rt_poll_timeouts now now t)) k = (if k \<in> rt_due now t then None else map_of (rt_pending t) k)" for k
    using many hm.fold_remove[OF wf, of ?is] unfolding rt_poll_timeouts_def due[symmetric] by simp
  then show "dom (map_of (rt_pending (rt_poll_timeouts now now t))) = dom (map_of (rt_pending t)) - rt_due now t"
    by (auto split: if_splits)
qed


subsection \<open>Properties\<close>

inductive rt_step :: "request_tracker \<Rightarrow> request_tracker \<Rightarrow> bool" where
  Register: "rt_step t (snd (rt_register_request rid timeout now t))"
| MarkDelivered: "rt_step t (rt_mark_delivered rid t)"
| MarkReceiving: "rt_step t (rt_mark_receiving rid prog t)"
| Respond: "rt_step t (snd (rt_record_response now rid rsp t))"
| MarkFailed: "rt_step t (rt_mark_failed now rid t)"
| PollTimeouts: "rt_step t (rt_poll_timeouts now clock t)"

lemma rt_register_ok:
  assumes "rt_invar t"
  shows "rt_invar (snd (rt_register_request rid timeout now t)) \<and> rt_keeps t (snd (rt_register_request rid timeout now t))"
proof -
  let ?h = "length (rt_receipts t)"
  have old: "k < ?h \<and> \<not> settled (rt_receipts t ! k) \<and> rr_request_id (rt_receipts t ! k) = j"
    if "(j, k) \<in> set (rt_pending t)" for j k
    using that assms by (auto simp: rt_invar_def)
  have wf: "hm_wf (rt_pending t)" "distinct (map snd (rt_pending t))" using assms by (auto simp: rt_invar_def)
  let ?m = "hm_insert rid ?h (rt_pending t)"
  have wf': "hm_wf ?m" using wf(1) by (simp add: hmap_simps)
  note mem = set_hm_insert[OF wf(1), of _ _ rid ?h]
  have "inj_on snd (set ?m)"
  proof (rule inj_onI)
    fix x y assume "x \<in> set ?m" "y \<in> set ?m" "snd x = snd y"
    then obtain j j' k where xy: "x = (j, k)" "y = (j', k)" "(j, k) \<in> set ?m" "(j', k) \<in> set ?m"
      by (metis prod.collapse)
    show "x = y"
    proof (cases "j = rid \<or> j' = rid")
      case True
      then have "k = ?h" using xy(3,4) by (auto simp: mem)
      then show ?thesis using xy old[of j k] old[of j' k] by (auto simp: mem split: if_splits)
    next
      case False
      moreover have "inj_on snd (set (rt_pending t))" using wf(2) by (simp add: distinct_map)
      ultimately show ?thesis using xy unfolding mem by (simp only: if_False de_Morgan_disj) (metis inj_onD snd_conv)
    qed
  qed
  moreover have "distinct ?m" using wf' by (auto simp: hm_wf_def distinct_map)
  ultimately have "distinct (map snd ?m)" by (simp add: distinct_map)
  with wf' mem old show ?thesis
    by (auto simp: rt_register_request_def Let_def rt_invar_def rt_keeps_def nth_append settled_def split: if_splits)
qed

lemma rt_step_ok: "rt_step t t' \<Longrightarrow> rt_invar t \<Longrightarrow> rt_invar t' \<and> rt_keeps t t'"
proof (induction rule: rt_step.induct)
  case (MarkDelivered t rid)
  then show ?case
    unfolding rt_mark_delivered_def
    by (cases "map_of (rt_pending t) rid") (simp, simp, rule rt_update_live, auto simp: settled_def)
next
  case (MarkReceiving t rid prog)
  then show ?case
    unfolding rt_mark_receiving_def
    by (cases "map_of (rt_pending t) rid") (simp, simp, rule rt_update_live, auto simp: settled_def)
next
  case (PollTimeouts t now clock)
  then show ?case using rt_fail_many[OF PollTimeouts.prems] by (simp add: rt_poll_timeouts_def)
qed (use rt_register_ok rt_record_response_ok rt_mark_failed_ok in auto)

lemma rt_steps_ok: "rt_step\<^sup>*\<^sup>* t t' \<Longrightarrow> rt_invar t \<Longrightarrow> rt_invar t' \<and> rt_keeps t t'"
  by (induction rule: rtranclp_induct) (auto dest: rt_step_ok rt_keeps_trans)

text \<open>A request of the router is answered at most once: over any sequence of responses and polls for
  timeouts the ids whose response is taken are different, and all of them were pending before.\<close>

theorem responses_taken_once:
  assumes "rm_invar s" and "ledger_run (\<lambda>i x. rm_record_response \<lparr>rsp_id = i, rsp_data = x\<rparr>) (\<lambda>now s. snd (rm_poll_timeouts now s)) es s = (ids, s')"
  shows "distinct ids \<and> (\<forall>i \<in> set ids. rm_is_pending i s \<and> \<not> rm_is_pending i s')"
  using rm.run_answers_once[OF assms] by (auto simp: rm_is_pending_def rm_waiting_def hmap_simps dom_map_of_conv_image_fst)

theorem responses_taken_once_witness:
  "let p = \<lparr>pr_request_id = [7], pr_path_hash = [], pr_sent_at_ms = 0, pr_timeout_ms = 10\<rparr>;
       s = \<lparr>rm_pending = [([7], p), ([8], p)], rm_responses = []\<rparr>;
       es = [Answer [7] MNil, Answer [7] MNil, Tick 10, Answer [8] MNil];
       result = ledger_run (\<lambda>i x. rm_record_response \<lparr>rsp_id = i, rsp_data = x\<rparr>) (\<lambda>now s. snd (rm_poll_timeouts now s)) es s in
   fst result = [[7]] \<and> \<not> rm_is_pending [7] (snd result)"
proof -
  let ?p = "\<lparr>pr_request_id = [7], pr_path_hash = [], pr_sent_at_ms = 0, pr_timeout_ms = 10\<rparr>"
  let ?s = "\<lparr>rm_pending = [([7], ?p), ([8], ?p)], rm_responses = []\<rparr>"
  let ?es = "[Answer [7] MNil, Answer [7] MNil, Tick 10, Answer [8] MNil]"
  have inv: "rm_invar ?s" by (simp add: rm_invar_def hm_wf_def)
  let ?run = "ledger_run (\<lambda>i x. rm_record_response \<lparr>rsp_id = i, rsp_data = x\<rparr>) (\<lambda>now s. snd (rm_poll_timeouts now s))"
  have ids: "fst (?run ?es ?s) = [[7]]"
    by (simp add: rm_record_response_def rm_poll_timeouts_def hm_remove_def sat_sub_def Let_def)
  obtain s' where "?run ?es ?s = ([[7]], s')" using ids by (metis prod.collapse)
  from responses_taken_once[OF inv this] this show ?thesis by (simp add: Let_def)
qed

text \<open>A receipt of the transport's request tracker settles once: whatever is done with the tracker
  afterwards, a receipt that is ready keeps its response and a failed one stays failed, also when its
  request id is registered again, and no receipt disappears.\<close>

theorem receipt_settles_once:
  assumes "rt_step\<^sup>*\<^sup>* rt_new t" and "rt_step\<^sup>*\<^sup>* t t'" and "h < length (rt_receipts t)"
    and "settled (rt_receipts t ! h)"
  shows "h < length (rt_receipts t') \<and> rt_receipts t' ! h = rt_receipts t ! h"
proof -
  have "rt_invar rt_new" by (simp add: rt_invar_def rt_new_def hm_wf_def)
  with rt_steps_ok assms(1,2) have "rt_keeps t t'" by blast
  with assms(3,4) show ?thesis by (auto simp: rt_keeps_def)
qed

theorem receipt_settles_once_witness:
  "let t = rt_mark_failed 9 [7] (snd (rt_register_request [7] 5 0 rt_new));
       t' = snd (rt_record_response 12 [7] [1] (snd (rt_register_request [7] 5 10 t))) in
   rt_receipts t' ! 0 = rt_receipts t ! 0 \<and> map rr_status (rt_receipts t') = [RFailed, RReady]"
proof -
  let ?t = "rt_mark_failed 9 [7] (snd (rt_register_request [7] 5 0 rt_new))"
  let ?t' = "snd (rt_record_response 12 [7] [1] (snd (rt_register_request [7] 5 10 ?t)))"
  have a: "rt_step\<^sup>*\<^sup>* rt_new ?t"
    by (meson rt_step.Register rt_step.MarkFailed rtranclp.rtrancl_into_rtrancl r_into_rtranclp)
  have b: "rt_step\<^sup>*\<^sup>* ?t ?t'"
    by (meson rt_step.Register rt_step.Respond rtranclp.rtrancl_into_rtrancl r_into_rtranclp)
  have c: "0 < length (rt_receipts ?t)" "settled (rt_receipts ?t ! 0)"
    by (simp_all add: rt_register_request_def rt_mark_failed_def rt_new_def with_receipt_def hm_insert_def Let_def settled_def)
  have "map rr_status (rt_receipts ?t') = [RFailed, RReady]"
    by (simp add: rt_register_request_def rt_mark_failed_def rt_record_response_def rt_new_def with_receipt_def
        hm_insert_def hm_remove_def Let_def)
  with receipt_settles_once[OF a b c] show ?thesis unfolding Let_def by blast
qed

text \<open>C32. A response finds its request: the destination recovers from the request's bytes the request
  as it was registered, with its id; the response it encodes for that id decodes at the requester,
  is accepted there once, and is what \<open>take_response\<close> returns.\<close>

theorem response_reaches_requester:
  assumes "rm_register_request E dest path data now timeout s = Some (Inr req, s1)"
    and "encode_request_bytes E req = Inr b" and "\<And>x. length (cr_sha256 (e_crypto E) x) = 32"
    and "reads_back (e_codec E) (MArr [MF64 (req_at req), MBin (req_path_hash req), req_data req])"
    and "encode_response_bytes E \<lparr>rsp_id = req_id req, rsp_data = d\<rparr> = Inr rb"
    and "reads_back (e_codec E) (MArr [MBin (req_id req), d])"
  shows "decode_request_bytes_for_destination E dest b = Inr req
    \<and> (\<exists>rsp s2. decode_response_bytes E rb = Inr rsp \<and> rm_record_response rsp s1 = (True, s2)
        \<and> fst (rm_take_response (req_id req) s2) = Some \<lparr>rsp_id = req_id req, rsp_data = d\<rparr>
        \<and> rm_record_response rsp s2 = (False, s2))"
proof -
  let ?rsp = "\<lparr>rsp_id = req_id req, rsp_data = d\<rparr>"
  let ?ph = "case path of Some p \<Rightarrow> request_path_hash (e_crypto E) p | None \<Rightarrow> replicate DESTINATION_LENGTH 0"
  from assms(1) obtain b' p where r: "req = \<lparr>req_id = request_id_from_packet_parts (e_crypto E) dest Request Single Data b',
        req_at = ms_to_s now, req_path_hash = ?ph, req_data = data\<rparr>"
      "encode_request_bytes E \<lparr>req_id = replicate DESTINATION_LENGTH 0, req_at = ms_to_s now, req_path_hash = ?ph, req_data = data\<rparr> = Inr b'"
      "s1 = s\<lparr>rm_pending := hm_insert (req_id req) p (rm_pending s)\<rparr>"
    by (auto simp: rm_register_request_def request_id_for_destination_def Let_def split: sum.splits)
  have b: "b' = b" using r(1,2) assms(2) by (simp add: encode_request_bytes_def)
  have len: "length (req_path_hash req) = 16" "length (req_id req) = 16"
    using assms(3) by (simp_all add: r(1) request_path_hash_def truncate_sha256_bytes_def request_id_from_packet_parts_def
        DESTINATION_LENGTH_def split: option.split)
  have id: "req_id req = request_id_from_packet_parts (e_crypto E) dest Request Single Data b" using r(1) b by simp
  have req: "decode_request_bytes_for_destination E dest b = Inr req"
    using decode_encode_request[OF assms(2) len(1) assms(4)] id
    by (simp add: decode_request_bytes_for_destination_def request_id_for_destination_def)
  have rsp: "decode_response_bytes E rb = Inr ?rsp"
    using assms(5,6) len(2) by (auto simp: encode_response_bytes_def decode_response_bytes_def reads_back_def map_sum_def
        value_defs DESTINATION_LENGTH_def split: sum.splits)
  define s2 where "s2 = s1\<lparr>rm_pending := hm_remove (req_id req) (rm_pending s1),
      rm_responses := hm_insert (req_id req) ?rsp (rm_responses s1)\<rparr>"
  have "rm_record_response ?rsp s1 = (True, s2)"
    by (simp add: rm_record_response_def s2_def r(3) hmap_simps)
  moreover have "rm_record_response ?rsp s2 = (False, s2)" "fst (rm_take_response (req_id req) s2) = Some ?rsp"
    by (simp_all add: rm_record_response_def rm_take_response_def s2_def hmap_simps)
  ultimately show ?thesis using req rsp by blast
qed

theorem response_reaches_requester_witness:
  "\<exists>req s1 b rb rsp s2. rm_register_request sample_env (replicate 16 5) None MNil 1500 10 rm_new = Some (Inr req, s1)
    \<and> encode_request_bytes sample_env req = Inr b \<and> decode_request_bytes_for_destination sample_env (replicate 16 5) b = Inr req
    \<and> encode_response_bytes sample_env \<lparr>rsp_id = req_id req, rsp_data = MBool True\<rparr> = Inr rb
    \<and> decode_response_bytes sample_env rb = Inr rsp \<and> rm_record_response rsp s1 = (True, s2)"
proof -
  obtain req s1 where r: "rm_register_request sample_env (replicate 16 5) None MNil 1500 10 rm_new = Some (Inr req, s1)"
    by (simp add: rm_register_request_def request_id_for_destination_def encode_request_bytes_def sample_env_def ref_codec_def Let_def)
  then have d: "req_data req = MNil" "length (req_path_hash req) = 16" "length (req_id req) = 16"
    by (auto simp: rm_register_request_def request_id_for_destination_def request_id_from_packet_parts_def sample_env_def
        DESTINATION_LENGTH_def Let_def split: sum.splits)
  have rb: "reads_back (e_codec sample_env) (MArr [MF64 (req_at req), MBin (req_path_hash req), req_data req])"
    by (simp add: d sample_env_def ref_codec_reads_back)
  have rb': "reads_back (e_codec sample_env) (MArr [MBin (req_id req), MBool True])"
    by (simp add: d sample_env_def ref_codec_reads_back)
  obtain b where b: "encode_request_bytes sample_env req = Inr b"
    by (simp add: d encode_request_bytes_def sample_env_def ref_codec_def)
  obtain c where c: "encode_response_bytes sample_env \<lparr>rsp_id = req_id req, rsp_data = MBool True\<rparr> = Inr c"
    by (simp add: encode_response_bytes_def sample_env_def ref_codec_def)
  have sha: "\<And>x. length (cr_sha256 (e_crypto sample_env) x) = 32" by (simp add: sample_env_def zero_crypto_def)
  from response_reaches_requester[OF r b sha rb c rb'] r b c show ?thesis by blast
qed

end
