(* ===== verification/Prop_Store.thy ===== *)
theory Prop_Store
  imports Stamps Packets
begin

section \<open>The propagation store (storage.rs PropagationStore)\<close>

text \<open>
  A propagation node keeps messages for others: \<open>PropagationStore\<close> maps transient ids to entries, to
  the value of their stamp and to a file name, and records for every entry which peers have handled
  it and which have not. Inner hash sets are sets.
\<close>

record propagation_entry =
  pe_transient_id :: bytes
  pe_lxm_data :: bytes
  pe_timestamp :: f64
  pe_destination_hash :: "bytes option"
  pe_filepath :: "bytes option"
  pe_msg_size :: "nat option"

record node_stats =
  client_propagation_messages_received :: nat
  client_propagation_messages_served :: nat
  unpeered_propagation_incoming :: nat
  unpeered_propagation_rx_bytes :: nat

record propagation_store =
  ps_entries :: "(bytes, propagation_entry) hmap"
  ps_stamp_values :: "(bytes, nat) hmap"
  ps_filenames :: "(bytes, string) hmap"
  handled_peers :: "(bytes, bytes set) hmap"
  unhandled_peers :: "(bytes, bytes set) hmap"

definition ps_new :: propagation_store where
  "ps_new = \<lparr>ps_entries = [], ps_stamp_values = [], ps_filenames = [], handled_peers = [], unhandled_peers = []\<rparr>"

definition propagation_entry_filename :: "bytes \<Rightarrow> f64 \<Rightarrow> nat \<Rightarrow> string" where
  "propagation_entry_filename tid ts val = to_hex_string tid @ ''_'' @ f64_display ts @ ''_'' @ show_nat val"

definition insert_with_stamp_value_and_filename ::
  "propagation_entry \<Rightarrow> nat \<Rightarrow> string \<Rightarrow> propagation_store \<Rightarrow> propagation_store" where
  "insert_with_stamp_value_and_filename e v f s =
     s\<lparr>ps_stamp_values := hm_insert (pe_transient_id e) v (ps_stamp_values s),
       ps_filenames := hm_insert (pe_transient_id e) f (ps_filenames s),
       ps_entries := hm_insert (pe_transient_id e) e (ps_entries s)\<rparr>"

definition insert_with_stamp_value :: "propagation_entry \<Rightarrow> nat \<Rightarrow> propagation_store \<Rightarrow> propagation_store" where
  "insert_with_stamp_value e v s =
     (let f = propagation_entry_filename (pe_transient_id e) (pe_timestamp e) v in
      s\<lparr>ps_stamp_values := hm_insert (pe_transient_id e) v (ps_stamp_values s),
        ps_filenames := hm_insert (pe_transient_id e) f (ps_filenames s),
        ps_entries := hm_insert (pe_transient_id e) e (ps_entries s)\<rparr>)"

definition ps_insert :: "codec \<Rightarrow> crypto \<Rightarrow> propagation_entry \<Rightarrow> propagation_store \<Rightarrow> propagation_store" where
  "ps_insert c cr e s =
     (let v = (case validate_pn_stamp c cr (pe_lxm_data e) 0 of Some (_, _, value, _) \<Rightarrow> value | None \<Rightarrow> 0);
          f = propagation_entry_filename (pe_transient_id e) (pe_timestamp e) v in
      s\<lparr>ps_stamp_values := hm_insert (pe_transient_id e) v (ps_stamp_values s),
        ps_filenames := hm_insert (pe_transient_id e) f (ps_filenames s),
        ps_entries := hm_insert (pe_transient_id e) e (ps_entries s)\<rparr>)"

definition ps_has :: "bytes \<Rightarrow> propagation_store \<Rightarrow> bool" where
  "ps_has tid s = hm_contains (ps_entries s) tid"

definition ps_get :: "bytes \<Rightarrow> propagation_store \<Rightarrow> propagation_entry option" where
  "ps_get tid s = map_of (ps_entries s) tid"

definition ps_remove :: "bytes \<Rightarrow> propagation_store \<Rightarrow> propagation_entry option \<times> propagation_store" where
  "ps_remove tid s =
     (map_of (ps_entries s) tid,
      s\<lparr>ps_stamp_values := hm_remove tid (ps_stamp_values s), ps_filenames := hm_remove tid (ps_filenames s),
        ps_entries := hm_remove tid (ps_entries s)\<rparr>)"

definition ps_list_ids :: "propagation_store \<Rightarrow> bytes list" where
  "ps_list_ids s = map fst (ps_entries s)"

definition ps_stamp_value :: "bytes \<Rightarrow> propagation_store \<Rightarrow> nat option" where
  "ps_stamp_value tid s = map_of (ps_stamp_values s) tid"

definition ps_filename :: "bytes \<Rightarrow> propagation_store \<Rightarrow> string option" where
  "ps_filename tid s = map_of (ps_filenames s) tid"

definition total_size_bytes :: "propagation_store \<Rightarrow> nat" where
  "total_size_bytes s = sum_list (map (\<lambda>(_, e). length (pe_lxm_data e)) (ps_entries s))"

definition remove_everywhere :: "bytes \<Rightarrow> propagation_store \<Rightarrow> propagation_store" where
  "remove_everywhere tid s =
     s\<lparr>ps_stamp_values := hm_remove tid (ps_stamp_values s), ps_filenames := hm_remove tid (ps_filenames s),
       handled_peers := hm_remove tid (handled_peers s), unhandled_peers := hm_remove tid (unhandled_peers s),
       ps_entries := hm_remove tid (ps_entries s)\<rparr>"

definition remove_older_than :: "nat \<Rightarrow> nat \<Rightarrow> propagation_store \<Rightarrow> nat \<times> propagation_store" where
  "remove_older_than now max_age s =
     (let cutoff = sat_sub now max_age;
          ids = map fst (filter (\<lambda>(_, e). s_to_ms (pe_timestamp e) \<le> cutoff) (ps_entries s)) in
      (length ids, fold remove_everywhere ids s))"

text \<open>Peer marks: \<open>entry(..).or_insert_with(HashSet::new).insert(peer)\<close> and removal with the empty set dropped.\<close>

definition mark_add :: "bytes \<Rightarrow> bytes \<Rightarrow> (bytes, bytes set) hmap \<Rightarrow> bool \<times> (bytes, bytes set) hmap" where
  "mark_add tid p m =
     (let ps = (case map_of m tid of Some ps \<Rightarrow> ps | None \<Rightarrow> {}) in (p \<notin> ps, hm_insert tid (insert p ps) m))"

definition mark_remove :: "bytes \<Rightarrow> bytes \<Rightarrow> (bytes, bytes set) hmap \<Rightarrow> (bytes, bytes set) hmap" where
  "mark_remove tid p m =
     (case map_of m tid of
        None \<Rightarrow> m
      | Some ps \<Rightarrow> (if ps - {p} = {} then hm_remove tid m else hm_insert tid (ps - {p}) m))"

definition add_handled_peer :: "bytes \<Rightarrow> bytes \<Rightarrow> propagation_store \<Rightarrow> bool \<times> propagation_store" where
  "add_handled_peer tid p s =
     (if hm_contains (ps_entries s) tid
      then (let (new, m) = mark_add tid p (handled_peers s) in (new, s\<lparr>handled_peers := m\<rparr>)) else (False, s))"

definition remove_handled_peer :: "bytes \<Rightarrow> bytes \<Rightarrow> propagation_store \<Rightarrow> propagation_store" where
  "remove_handled_peer tid p s =
     (if hm_contains (ps_entries s) tid then s\<lparr>handled_peers := mark_remove tid p (handled_peers s)\<rparr> else s)"

definition is_peer_handled :: "bytes \<Rightarrow> bytes \<Rightarrow> propagation_store \<Rightarrow> bool" where
  "is_peer_handled tid p s = (case map_of (handled_peers s) tid of Some ps \<Rightarrow> p \<in> ps | None \<Rightarrow> False)"

definition add_unhandled_peer :: "bytes \<Rightarrow> bytes \<Rightarrow> propagation_store \<Rightarrow> bool \<times> propagation_store" where
  "add_unhandled_peer tid p s =
     (if hm_contains (ps_entries s) tid
      then (let (new, m) = mark_add tid p (unhandled_peers s) in (new, s\<lparr>unhandled_peers := m\<rparr>)) else (False, s))"

definition remove_unhandled_peer :: "bytes \<Rightarrow> bytes \<Rightarrow> propagation_store \<Rightarrow> propagation_store" where
  "remove_unhandled_peer tid p s =
     (if hm_contains (ps_entries s) tid then s\<lparr>unhandled_peers := mark_remove tid p (unhandled_peers s)\<rparr> else s)"

definition is_peer_unhandled :: "bytes \<Rightarrow> bytes \<Rightarrow> propagation_store \<Rightarrow> bool" where
  "is_peer_unhandled tid p s = (case map_of (unhandled_peers s) tid of Some ps \<Rightarrow> p \<in> ps | None \<Rightarrow> False)"

definition handled_messages_for_peer :: "bytes \<Rightarrow> propagation_store \<Rightarrow> bytes list" where
  "handled_messages_for_peer p s = map fst (filter (\<lambda>(_, ps). p \<in> ps) (handled_peers s))"

definition unhandled_messages_for_peer :: "bytes \<Rightarrow> propagation_store \<Rightarrow> bytes list" where
  "unhandled_messages_for_peer p s = map fst (filter (\<lambda>(_, ps). p \<in> ps) (unhandled_peers s))"

subsection \<open>Invariant\<close>

text \<open>Entries, stamp values and file names have the same keys, every entry is stored under its own id,
  and no peer set is empty.\<close>

definition ps_invar :: "propagation_store \<Rightarrow> bool" where
  "ps_invar s \<longleftrightarrow> hm_wf (ps_entries s) \<and> hm_wf (ps_stamp_values s) \<and> hm_wf (ps_filenames s) \<and> hm_wf (handled_peers s)
     \<and> hm_wf (unhandled_peers s) \<and> dom (map_of (ps_stamp_values s)) = dom (map_of (ps_entries s))
     \<and> dom (map_of (ps_filenames s)) = dom (map_of (ps_entries s))
     \<and> (\<forall>(tid, e) \<in> set (ps_entries s). pe_transient_id e = tid)
     \<and> {} \<notin> snd ` set (handled_peers s) \<and> {} \<notin> snd ` set (unhandled_peers s)"

inductive ps_step :: "propagation_store \<Rightarrow> propagation_store \<Rightarrow> bool" where
  Insert: "ps_step s (ps_insert c cr e s)"
| InsertValue: "ps_step s (insert_with_stamp_value e v s)"
| InsertFile: "ps_step s (insert_with_stamp_value_and_filename e v f s)"
| Remove: "ps_step s (snd (ps_remove tid s))"
| RemoveOlder: "ps_step s (snd (remove_older_than now age s))"
| AddHandled: "ps_step s (snd (add_handled_peer tid p s))"
| RemoveHandled: "ps_step s (remove_handled_peer tid p s)"
| AddUnhandled: "ps_step s (snd (add_unhandled_peer tid p s))"
| RemoveUnhandled: "ps_step s (remove_unhandled_peer tid p s)"

lemma mark_add_marked:
  "(case map_of (snd (mark_add t p m)) t' of Some ps \<Rightarrow> q \<in> ps | None \<Rightarrow> False)
     \<longleftrightarrow> (case map_of m t' of Some ps \<Rightarrow> q \<in> ps | None \<Rightarrow> False) \<or> (t' = t \<and> q = p)"
  by (auto simp: mark_add_def Let_def hmap_simps split: option.splits)

lemma mark_remove_marked:
  "hm_wf m \<Longrightarrow> (case map_of (mark_remove t p m) t' of Some ps \<Rightarrow> q \<in> ps | None \<Rightarrow> False)
     \<longleftrightarrow> (case map_of m t' of Some ps \<Rightarrow> q \<in> ps | None \<Rightarrow> False) \<and> \<not> (t' = t \<and> q = p)"
  by (auto simp: mark_remove_def hmap_simps split: option.splits if_splits)

lemma hm_insert_values: "hm_wf m \<Longrightarrow> v' \<in> snd ` set (hm_insert k v m) \<Longrightarrow> v' = v \<or> v' \<in> snd ` set m"
  by (auto simp: set_hm_insert split: if_splits)

lemma hm_remove_values: "v' \<in> snd ` set (hm_remove k m) \<Longrightarrow> v' \<in> snd ` set m"
  by (auto simp: set_hm_remove)

lemma mark_add_ok: "hm_wf m \<Longrightarrow> {} \<notin> snd ` set m \<Longrightarrow> hm_wf (snd (mark_add t p m)) \<and> {} \<notin> snd ` set (snd (mark_add t p m))"
  by (auto simp: mark_add_def Let_def hm_wf_insert simp del: image_iff dest!: hm_insert_values)

lemma mark_remove_ok: "hm_wf m \<Longrightarrow> {} \<notin> snd ` set m \<Longrightarrow> hm_wf (mark_remove t p m) \<and> {} \<notin> snd ` set (mark_remove t p m)"
  by (auto simp: mark_remove_def hmap_simps dest!: hm_insert_values hm_remove_values split: option.splits)

lemma marked_messages:
  "hm_wf m \<Longrightarrow> set (map fst (filter (\<lambda>(_, ps). p \<in> ps) m)) = {t. case map_of m t of Some ps \<Rightarrow> p \<in> ps | None \<Rightarrow> False}"
  by (force simp: hm_get_in[symmetric] split: option.splits)

subsection \<open>Marks: the interface that peers use\<close>

text \<open>A set of marks that pairs stored messages with peers; only stored messages can be marked or
  unmarked.\<close>

locale peer_marks =
  fixes invar :: "'s \<Rightarrow> bool"
    and has :: "'t \<Rightarrow> 's \<Rightarrow> bool"
    and marked :: "'t \<Rightarrow> 'p \<Rightarrow> 's \<Rightarrow> bool"
    and add :: "'t \<Rightarrow> 'p \<Rightarrow> 's \<Rightarrow> bool \<times> 's"
    and unmark :: "'t \<Rightarrow> 'p \<Rightarrow> 's \<Rightarrow> 's"
    and messages :: "'p \<Rightarrow> 's \<Rightarrow> 't list"
  assumes add_marked: "invar s \<Longrightarrow> marked t q (snd (add t' p s)) \<longleftrightarrow> marked t q s \<or> (t = t' \<and> q = p \<and> has t' s)"
    and add_new: "invar s \<Longrightarrow> fst (add t p s) \<longleftrightarrow> has t s \<and> \<not> marked t p s"
    and unmark_marked: "invar s \<Longrightarrow> marked t q (unmark t' p s) \<longleftrightarrow> marked t q s \<and> \<not> (t = t' \<and> q = p \<and> has t' s)"
    and add_invar: "invar s \<Longrightarrow> invar (snd (add t p s))"
    and unmark_invar: "invar s \<Longrightarrow> invar (unmark t p s)"
    and has_add: "has t (snd (add t' p s)) = has t s"
    and has_unmark: "has t (unmark t' p s) = has t s"
    and messages_marked: "invar s \<Longrightarrow> set (messages p s) = {t. marked t p s}"
begin

lemma add_all:
  "invar s \<Longrightarrow> invar (fold (\<lambda>t s. snd (add t p s)) ts s)
    \<and> (\<forall>t. has t (fold (\<lambda>t s. snd (add t p s)) ts s) = has t s)
    \<and> (\<forall>t q. marked t q (fold (\<lambda>t s. snd (add t p s)) ts s) \<longleftrightarrow> marked t q s \<or> (t \<in> set ts \<and> q = p \<and> has t s))"
proof (induction ts arbitrary: s)
  case (Cons a ts)
  from Cons.IH[OF add_invar[OF Cons.prems]] show ?case
    by (auto simp: add_marked[OF Cons.prems] has_add)
qed simp

lemma unmark_all:
  "invar s \<Longrightarrow> invar (fold (\<lambda>t s. unmark t p s) ts s)
    \<and> (\<forall>t. has t (fold (\<lambda>t s. unmark t p s) ts s) = has t s)
    \<and> (\<forall>t q. marked t q (fold (\<lambda>t s. unmark t p s) ts s) \<longleftrightarrow> marked t q s \<and> \<not> (t \<in> set ts \<and> q = p \<and> has t s))"
proof (induction ts arbitrary: s)
  case (Cons a ts)
  from Cons.IH[OF unmark_invar[OF Cons.prems]] show ?case
    by (auto simp: unmark_marked[OF Cons.prems] has_unmark)
qed simp

end

lemma add_handled_eq: "snd (add_handled_peer t p s) =
    (if ps_has t s then s\<lparr>handled_peers := snd (mark_add t p (handled_peers s))\<rparr> else s)"
  by (simp add: add_handled_peer_def ps_has_def case_prod_beta)

lemma add_unhandled_eq: "snd (add_unhandled_peer t p s) =
    (if ps_has t s then s\<lparr>unhandled_peers := snd (mark_add t p (unhandled_peers s))\<rparr> else s)"
  by (simp add: add_unhandled_peer_def ps_has_def case_prod_beta)

lemma ps_invar_handled:
  "ps_invar s \<Longrightarrow> hm_wf m \<Longrightarrow> {} \<notin> snd ` set m \<Longrightarrow> ps_invar (s\<lparr>handled_peers := m\<rparr>) \<and> ps_invar (s\<lparr>unhandled_peers := m\<rparr>)"
  by (simp add: ps_invar_def)

lemma ps_invar_wf: "ps_invar s \<Longrightarrow> hm_wf (handled_peers s) \<and> {} \<notin> snd ` set (handled_peers s)
    \<and> hm_wf (unhandled_peers s) \<and> {} \<notin> snd ` set (unhandled_peers s)"
  by (simp add: ps_invar_def)

interpretation handled: peer_marks ps_invar ps_has is_peer_handled add_handled_peer remove_handled_peer handled_messages_for_peer
proof
  fix s :: propagation_store and t q t' p
  assume inv: "ps_invar s"
  note wf = ps_invar_wf[OF inv]
  show "is_peer_handled t q (snd (add_handled_peer t' p s)) \<longleftrightarrow> is_peer_handled t q s \<or> (t = t' \<and> q = p \<and> ps_has t' s)"
    using mark_add_marked[where m = "handled_peers s" and t = t' and p = p and t' = t and q = q] by (auto simp: is_peer_handled_def add_handled_eq)
  show "fst (add_handled_peer t p s) \<longleftrightarrow> ps_has t s \<and> \<not> is_peer_handled t p s"
    by (auto simp: add_handled_peer_def is_peer_handled_def ps_has_def mark_add_def Let_def split: option.splits)
  show "is_peer_handled t q (remove_handled_peer t' p s) \<longleftrightarrow> is_peer_handled t q s \<and> \<not> (t = t' \<and> q = p \<and> ps_has t' s)"
    using mark_remove_marked[where m = "handled_peers s" and t = t' and p = p and t' = t and q = q] wf by (auto simp: is_peer_handled_def remove_handled_peer_def ps_has_def)
  show "ps_invar (snd (add_handled_peer t p s))" "ps_invar (remove_handled_peer t p s)"
    using inv wf mark_add_ok mark_remove_ok ps_invar_handled by (auto simp: add_handled_eq remove_handled_peer_def)
  show "set (handled_messages_for_peer p s) = {t. is_peer_handled t p s}"
    using marked_messages[where m = "handled_peers s" and p = p] wf by (simp add: handled_messages_for_peer_def is_peer_handled_def)
qed (auto simp: add_handled_eq remove_handled_peer_def ps_has_def)

interpretation unhandled: peer_marks ps_invar ps_has is_peer_unhandled add_unhandled_peer remove_unhandled_peer unhandled_messages_for_peer
proof
  fix s :: propagation_store and t q t' p
  assume inv: "ps_invar s"
  note wf = ps_invar_wf[OF inv]
  show "is_peer_unhandled t q (snd (add_unhandled_peer t' p s)) \<longleftrightarrow> is_peer_unhandled t q s \<or> (t = t' \<and> q = p \<and> ps_has t' s)"
    using mark_add_marked[where m = "unhandled_peers s" and t = t' and p = p and t' = t and q = q] by (auto simp: is_peer_unhandled_def add_unhandled_eq)
  show "fst (add_unhandled_peer t p s) \<longleftrightarrow> ps_has t s \<and> \<not> is_peer_unhandled t p s"
    by (auto simp: add_unhandled_peer_def is_peer_unhandled_def ps_has_def mark_add_def Let_def split: option.splits)
  show "is_peer_unhandled t q (remove_unhandled_peer t' p s) \<longleftrightarrow> is_peer_unhandled t q s \<and> \<not> (t = t' \<and> q = p \<and> ps_has t' s)"
    using mark_remove_marked[where m = "unhandled_peers s" and t = t' and p = p and t' = t and q = q] wf by (auto simp: is_peer_unhandled_def remove_unhandled_peer_def ps_has_def)
  show "ps_invar (snd (add_unhandled_peer t p s))" "ps_invar (remove_unhandled_peer t p s)"
    using inv wf mark_add_ok mark_remove_ok ps_invar_handled by (auto simp: add_unhandled_eq remove_unhandled_peer_def)
  show "set (unhandled_messages_for_peer p s) = {t. is_peer_unhandled t p s}"
    using marked_messages[where m = "unhandled_peers s" and p = p] wf by (simp add: unhandled_messages_for_peer_def is_peer_unhandled_def)
qed (auto simp: add_unhandled_eq remove_unhandled_peer_def ps_has_def)

lemma marks_independent:
  "is_peer_unhandled t q (snd (add_handled_peer t' p s)) = is_peer_unhandled t q s"
  "is_peer_unhandled t q (remove_handled_peer t' p s) = is_peer_unhandled t q s"
  "is_peer_handled t q (snd (add_unhandled_peer t' p s)) = is_peer_handled t q s"
  "is_peer_handled t q (remove_unhandled_peer t' p s) = is_peer_handled t q s"
  by (simp_all add: add_handled_eq add_unhandled_eq remove_handled_peer_def remove_unhandled_peer_def
      is_peer_handled_def is_peer_unhandled_def)


subsection \<open>Every operation keeps the invariant\<close>

lemma insert_file_invar: "ps_invar s \<Longrightarrow> ps_invar (insert_with_stamp_value_and_filename e v f s)"
  unfolding ps_invar_def insert_with_stamp_value_and_filename_def
  by (auto simp: hm_wf_insert dom_hm_insert set_hm_insert split: if_splits)

lemma insert_variants:
  "insert_with_stamp_value e v s =
    insert_with_stamp_value_and_filename e v (propagation_entry_filename (pe_transient_id e) (pe_timestamp e) v) s"
  "\<exists>v f. ps_insert c cr e s = insert_with_stamp_value_and_filename e v f s"
  by (auto simp: insert_with_stamp_value_def ps_insert_def insert_with_stamp_value_and_filename_def Let_def)

lemma remove_invar: "ps_invar s \<Longrightarrow> ps_invar (snd (ps_remove tid s)) \<and> ps_invar (remove_everywhere tid s)"
proof -
  assume inv: "ps_invar s"
  have "{} \<notin> snd ` set (hm_remove tid (handled_peers s))" "{} \<notin> snd ` set (hm_remove tid (unhandled_peers s))"
    using ps_invar_wf[OF inv] hm_remove_values[of "{}" tid "handled_peers s"] hm_remove_values[of "{}" tid "unhandled_peers s"]
    by blast+
  moreover have "\<forall>(t, e) \<in> set (hm_remove tid (ps_entries s)). pe_transient_id e = t"
    using inv by (auto simp: ps_invar_def set_hm_remove)
  ultimately show ?thesis using inv
    by (simp add: ps_invar_def ps_remove_def remove_everywhere_def hm_wf_remove dom_hm_remove)
qed

lemma remove_all_invar: "ps_invar s \<Longrightarrow> ps_invar (fold remove_everywhere ids s)"
  by (induction ids arbitrary: s) (auto simp: remove_invar)

lemma ps_step_invar: "ps_step s s' \<Longrightarrow> ps_invar s \<Longrightarrow> ps_invar s'"
proof (induction rule: ps_step.induct)
  case (Insert s c cr e)
  then show ?case using insert_variants(2)[of c cr e s] insert_file_invar by auto
qed (auto simp: insert_file_invar insert_variants(1) remove_invar remove_older_than_def Let_def remove_all_invar
    handled.add_invar handled.unmark_invar unhandled.add_invar unhandled.unmark_invar)

lemma ps_reachable_invar: "ps_step\<^sup>*\<^sup>* ps_new s \<Longrightarrow> ps_invar s"
  by (induction rule: rtranclp_induct) (auto simp: ps_step_invar, simp add: ps_invar_def ps_new_def hm_wf_def)

lemma remove_all_eq:
  "fold remove_everywhere ids s =
    s\<lparr>ps_stamp_values := fold hm_remove ids (ps_stamp_values s), ps_filenames := fold hm_remove ids (ps_filenames s),
      handled_peers := fold hm_remove ids (handled_peers s), unhandled_peers := fold hm_remove ids (unhandled_peers s),
      ps_entries := fold hm_remove ids (ps_entries s)\<rparr>"
  by (induction ids arbitrary: s) (simp_all add: remove_everywhere_def)

subsection \<open>Properties\<close>

text \<open>In every state that the operations of the propagation store reach from an empty one, an id
  has a stamp value and a file name exactly when a message is stored for it, and the message is
  stored under its own id.\<close>

theorem propagation_store_consistent:
  assumes "ps_step\<^sup>*\<^sup>* ps_new s"
  shows "(ps_stamp_value tid s \<noteq> None) = ps_has tid s \<and> (ps_filename tid s \<noteq> None) = ps_has tid s
    \<and> (case ps_get tid s of Some e \<Rightarrow> ps_has tid s \<and> pe_transient_id e = tid | None \<Rightarrow> \<not> ps_has tid s)"
proof -
  have inv: "ps_invar s" by (rule ps_reachable_invar[OF assms])
  have "ps_has tid s \<longleftrightarrow> tid \<in> dom (map_of (ps_entries s))"
    by (simp add: ps_has_def hmap_simps dom_map_of_conv_image_fst)
  moreover have "pe_transient_id e = tid" if "map_of (ps_entries s) tid = Some e" for e
    using map_of_SomeD[OF that] inv by (auto simp: ps_invar_def)
  moreover have "dom (map_of (ps_stamp_values s)) = dom (map_of (ps_entries s))" "dom (map_of (ps_filenames s)) = dom (map_of (ps_entries s))"
    using inv by (simp_all add: ps_invar_def)
  ultimately show ?thesis
    unfolding ps_stamp_value_def ps_filename_def ps_get_def domIff[symmetric] by (simp add: domIff split: option.split)
qed

definition sample_entry :: propagation_entry where
  "sample_entry = \<lparr>pe_transient_id = [7], pe_lxm_data = [1, 2], pe_timestamp = u64_to_f64 5, pe_destination_hash = None,
     pe_filepath = None, pe_msg_size = None\<rparr>"

theorem propagation_store_consistent_witness:
  "let s = insert_with_stamp_value sample_entry 3 ps_new in
   ps_stamp_value [7] s = Some 3 \<and> ps_has [7] s \<and> (ps_filename [7] s \<noteq> None) = ps_has [7] s"
proof -
  have "ps_step\<^sup>*\<^sup>* ps_new (insert_with_stamp_value sample_entry 3 ps_new)"
    by (rule r_into_rtranclp) (rule ps_step.InsertValue)
  from propagation_store_consistent[OF this, of "[7]"] show ?thesis
    by (simp add: Let_def insert_with_stamp_value_def sample_entry_def ps_new_def ps_stamp_value_def ps_has_def hmap_simps)
qed

text \<open>Expiry: \<open>remove_older_than\<close> removes exactly the messages whose time in milliseconds is not
  after the cutoff, with their stamp values and the marks of all peers, reports how many they are,
  and leaves every other message, value and mark as it was.\<close>

theorem expiry_removes_old:
  assumes "ps_invar s" and "remove_older_than now age s = (n, s')"
  shows "n = length (filter (\<lambda>(_, e). s_to_ms (pe_timestamp e) \<le> now - age) (ps_entries s))
    \<and> (case ps_get tid s of
         Some e \<Rightarrow> (if s_to_ms (pe_timestamp e) \<le> now - age
            then ps_get tid s' = None \<and> ps_stamp_value tid s' = None \<and> \<not> is_peer_handled tid p s' \<and> \<not> is_peer_unhandled tid p s'
            else ps_get tid s' = Some e \<and> ps_stamp_value tid s' = ps_stamp_value tid s
              \<and> is_peer_handled tid p s' = is_peer_handled tid p s \<and> is_peer_unhandled tid p s' = is_peer_unhandled tid p s)
       | None \<Rightarrow> ps_get tid s' = None)"
proof -
  let ?ids = "map fst (filter (\<lambda>(_, e). s_to_ms (pe_timestamp e) \<le> now - age) (ps_entries s))"
  have s': "s' = fold remove_everywhere ?ids s" and n: "n = length ?ids"
    using assms(2) by (auto simp: remove_older_than_def Let_def sat_sub_def)
  have wf: "hm_wf (ps_entries s)" "hm_wf (ps_stamp_values s)" "hm_wf (handled_peers s)" "hm_wf (unhandled_peers s)"
    using assms(1) by (auto simp: ps_invar_def)
  have mem: "tid \<in> set ?ids \<longleftrightarrow> (\<exists>e. ps_get tid s = Some e \<and> s_to_ms (pe_timestamp e) \<le> now - age)"
    using wf(1) by (force simp: ps_get_def hm_get_in)
  have look: "map_of (fold hm_remove ?ids m) tid = (if tid \<in> set ?ids then None else map_of m tid)" if "hm_wf m" for m :: "(bytes, 'v) hmap"
    using hm.fold_remove[OF that] by blast
  have "ps_get tid s' = (if tid \<in> set ?ids then None else ps_get tid s)"
    "ps_stamp_value tid s' = (if tid \<in> set ?ids then None else ps_stamp_value tid s)"
    "is_peer_handled tid p s' \<longleftrightarrow> tid \<notin> set ?ids \<and> is_peer_handled tid p s"
    "is_peer_unhandled tid p s' \<longleftrightarrow> tid \<notin> set ?ids \<and> is_peer_unhandled tid p s"
    using look[OF wf(1)] look[OF wf(2)] look[OF wf(3)] look[OF wf(4)]
    by (simp_all add: s' remove_all_eq ps_get_def ps_stamp_value_def is_peer_handled_def is_peer_unhandled_def)
  then show ?thesis using n mem by (auto split: option.splits)
qed

theorem expiry_removes_old_witness:
  "let s = insert_with_stamp_value sample_entry 3 ps_new in
   fst (remove_older_than 8000 3000 s) = 1 \<and> ps_get [7] (snd (remove_older_than 8000 3000 s)) = None
   \<and> ps_get [7] (snd (remove_older_than 7000 3000 s)) = Some sample_entry"
proof -
  let ?s = "insert_with_stamp_value sample_entry 3 ps_new"
  have inv: "ps_invar ?s"
    by (rule ps_reachable_invar) (rule r_into_rtranclp, rule ps_step.InsertValue)
  have e: "ps_entries ?s = [([7], sample_entry)]" "ps_get [7] ?s = Some sample_entry"
    by (simp_all add: insert_with_stamp_value_def sample_entry_def ps_new_def hm_insert_def ps_get_def Let_def)
  have t: "s_to_ms (pe_timestamp sample_entry) = 5000" by (simp add: sample_entry_def s_to_ms_def f64_eval Let_def)
  obtain n s1 where r1: "remove_older_than 8000 3000 ?s = (n, s1)" by fastforce
  obtain n' s2 where r2: "remove_older_than 7000 3000 ?s = (n', s2)" by fastforce
  from expiry_removes_old[OF inv r1, of "[7]"] expiry_removes_old[OF inv r2, of "[7]"] e t r1 r2 show ?thesis
    by (simp add: Let_def)
qed

text \<open>\<open>remove\<close> forgets the entry but not the marks of the peers: when the message is stored again, a peer
  that had handled it before still counts as having handled it.\<close>

lemma removed_entry_keeps_marks:
  "is_peer_handled tid p (insert_with_stamp_value e v (snd (ps_remove tid s))) = is_peer_handled tid p s"
  "is_peer_unhandled tid p (insert_with_stamp_value e v (snd (ps_remove tid s))) = is_peer_unhandled tid p s"
  by (simp_all add: insert_with_stamp_value_def ps_remove_def is_peer_handled_def is_peer_unhandled_def Let_def)


end
