(* ===== verification/Peers.thy ===== *)
theory Peers
  imports Prop_Store Delivery
begin

section \<open>Propagation peers (lxmf-rs/src/rns/peer.rs)\<close>

text \<open>
  A propagation node synchronises with its peers. \<open>Peer\<close> keeps the state of one of them: a state machine
  with a linear backoff after failures, statistics, limits, and two queues of transient ids that
  \<open>process_queues\<close> moves into the marks of the propagation store. \<open>PeerTable\<close> picks the next peer to
  synchronise with. The wire formats are in theory \<open>Peer_Wire\<close>.
\<close>

subsection \<open>Synchronisation sessions\<close>

datatype peer_sync_request =
    Offer bytes "bytes list"
  | MessageGetList
  | MessageGet "bytes list" "bytes list" "f64 option"
  | MessageAck "bytes list"

datatype peer_sync_response = PError byte | PBool bool | IdList "bytes list" | Payload "bytes list"

datatype peer_sync_state = SIdle | SOffering | SAwaitingPayload | SCompleted | SFailed

definition DEFAULT_SYNC_STRATEGY :: byte where "DEFAULT_SYNC_STRATEGY = 2"
definition PEER_BACKOFF_STEP_MS :: nat where "PEER_BACKOFF_STEP_MS = 12 * 60 * 1000"
definition PEER_BACKOFF_MAX_MS :: nat where "PEER_BACKOFF_MAX_MS = 14 * 24 * 60 * 60 * 1000"

record peer_sync_session =
  ss_state :: peer_sync_state
  ss_available :: "bytes list"
  ss_last_offer :: "bytes list"

definition session_new :: peer_sync_session where
  "session_new = \<lparr>ss_state = SIdle, ss_available = [], ss_last_offer = []\<rparr>"

definition session_offer :: "bytes \<Rightarrow> bytes list \<Rightarrow> peer_sync_session \<Rightarrow> peer_sync_request \<times> peer_sync_session" where
  "session_offer k av s = (Offer k av, s\<lparr>ss_state := SOffering, ss_available := av, ss_last_offer := av\<rparr>)"

definition session_on_offer_response :: "peer_sync_response \<Rightarrow> peer_sync_session \<Rightarrow> peer_sync_state \<times> peer_sync_session" where
  "session_on_offer_response r s =
     (let st = (case r of PBool True \<Rightarrow> SAwaitingPayload | IdList _ \<Rightarrow> SAwaitingPayload
                | PBool False \<Rightarrow> SCompleted | Payload _ \<Rightarrow> SCompleted | PError _ \<Rightarrow> SFailed) in
      (st, s\<lparr>ss_state := st\<rparr>))"

subsection \<open>Peers\<close>

datatype peer_state = PIdle | OfferSent | AwaitingPayload | Backoff

record peer =
  peer_id :: bytes
  peer_state :: peer_state
  last_sync_ms :: nat
  last_attempt_ms :: nat
  next_sync_ms :: nat
  backoff_ms :: nat
  failures :: nat
  last_heard_ms :: nat
  peer_rx_bytes :: nat
  peer_tx_bytes :: nat
  messages_offered :: nat
  messages_outgoing :: nat
  messages_incoming :: nat
  messages_unhandled :: nat
  peering_key :: "bytes option"
  peering_key_value :: "nat option"
  sync_transfer_rate :: f64
  handled_messages_queue :: "bytes list"
  unhandled_messages_queue :: "bytes list"
  sync_strategy :: byte
  peering_cost :: "nat option"
  peer_metadata :: "(bytes, bytes) hmap option"
  peering_timebase :: nat
  link_establishment_rate :: f64
  propagation_transfer_limit :: "f64 option"
  propagation_sync_limit :: "nat option"
  propagation_stamp_cost :: "nat option"
  propagation_stamp_cost_flexibility :: "nat option"
  currently_transferring_messages :: "bytes list option"
  current_sync_transfer_started :: "nat option"

definition peer_new :: "bytes \<Rightarrow> nat \<Rightarrow> peer" where
  "peer_new i now =
     \<lparr>peer_id = i, peer_state = PIdle, last_sync_ms = 0, last_attempt_ms = 0, next_sync_ms = now, backoff_ms = 0,
      failures = 0, last_heard_ms = 0, peer_rx_bytes = 0, peer_tx_bytes = 0, messages_offered = 0, messages_outgoing = 0,
      messages_incoming = 0, messages_unhandled = 0, peering_key = None, peering_key_value = None, sync_transfer_rate = 0,
      handled_messages_queue = [], unhandled_messages_queue = [], sync_strategy = DEFAULT_SYNC_STRATEGY,
      peering_cost = None, peer_metadata = None, peering_timebase = 0, link_establishment_rate = 0,
      propagation_transfer_limit = None, propagation_sync_limit = None, propagation_stamp_cost = None,
      propagation_stamp_cost_flexibility = None, currently_transferring_messages = None,
      current_sync_transfer_started = None\<rparr>"

definition is_alive :: "peer \<Rightarrow> bool" where
  "is_alive p \<longleftrightarrow> peer_state p \<noteq> Backoff"

definition set_alive :: "bool \<Rightarrow> peer \<Rightarrow> peer" where
  "set_alive alive p =
     (if \<not> alive \<and> peer_state p = PIdle then p\<lparr>peer_state := Backoff\<rparr>
      else if alive \<and> peer_state p = Backoff then p\<lparr>peer_state := PIdle\<rparr> else p)"

definition unhandled_messages_count :: "peer \<Rightarrow> nat" where
  "unhandled_messages_count p = length (unhandled_messages_queue p)"

definition queue_unhandled_message :: "bytes \<Rightarrow> peer \<Rightarrow> peer" where
  "queue_unhandled_message tid p = p\<lparr>unhandled_messages_queue := unhandled_messages_queue p @ [tid]\<rparr>"

definition queue_handled_message :: "bytes \<Rightarrow> peer \<Rightarrow> peer" where
  "queue_handled_message tid p = p\<lparr>handled_messages_queue := handled_messages_queue p @ [tid]\<rparr>"

definition queued_items :: "peer \<Rightarrow> bool" where
  "queued_items p \<longleftrightarrow> handled_messages_queue p \<noteq> [] \<or> unhandled_messages_queue p \<noteq> []"

text \<open>The two loops of \<open>process_queues\<close>; the sets of marked messages are read once before them.\<close>

fun process_handled :: "bytes set \<Rightarrow> bytes set \<Rightarrow> bytes \<Rightarrow> bytes list \<Rightarrow> propagation_store \<Rightarrow> propagation_store" where
  "process_handled H U i [] s = s"
| "process_handled H U i (t # ts) s =
     (let s1 = (if t \<notin> H then snd (add_handled_peer t i s) else s);
          s2 = (if t \<in> U then remove_unhandled_peer t i s1 else s1) in process_handled H U i ts s2)"

fun process_unhandled :: "bytes set \<Rightarrow> bytes set \<Rightarrow> bytes \<Rightarrow> bytes list \<Rightarrow> propagation_store \<Rightarrow> propagation_store" where
  "process_unhandled H U i [] s = s"
| "process_unhandled H U i (t # ts) s =
     process_unhandled H U i ts (if t \<notin> H \<and> t \<notin> U then snd (add_unhandled_peer t i s) else s)"

definition process_queues :: "peer \<Rightarrow> propagation_store \<Rightarrow> peer \<times> propagation_store" where
  "process_queues p s =
     (let H = set (handled_messages_for_peer (peer_id p) s); U = set (unhandled_messages_for_peer (peer_id p) s);
          s1 = process_handled H U (peer_id p) (handled_messages_queue p) s;
          s2 = process_unhandled H U (peer_id p) (unhandled_messages_queue p) s1 in
      (p\<lparr>handled_messages_queue := [], unhandled_messages_queue := []\<rparr>, s2))"

definition handled_messages :: "peer \<Rightarrow> propagation_store \<Rightarrow> bytes list" where
  "handled_messages p s = handled_messages_for_peer (peer_id p) s"

definition unhandled_messages :: "peer \<Rightarrow> propagation_store \<Rightarrow> bytes list" where
  "unhandled_messages p s = unhandled_messages_for_peer (peer_id p) s"

definition peering_key_ready :: "peer \<Rightarrow> bool" where
  "peering_key_ready p =
     (case peering_cost p of
        None \<Rightarrow> False
      | Some cost \<Rightarrow> (case peering_key_value p of Some v \<Rightarrow> v \<ge> cost | None \<Rightarrow> False))"

definition acceptance_rate :: "peer \<Rightarrow> f64" where
  "acceptance_rate p =
     (if messages_offered p > 0 then f64_div (u64_to_f64 (messages_outgoing p)) (u64_to_f64 (messages_offered p)) else 0)"

definition should_sync :: "nat \<Rightarrow> peer \<Rightarrow> bool" where
  "should_sync now p \<longleftrightarrow> (peer_state p = PIdle \<or> peer_state p = Backoff) \<and> now \<ge> next_sync_ms p"

definition on_offer_sent :: "nat \<Rightarrow> peer \<Rightarrow> peer" where
  "on_offer_sent now p = p\<lparr>peer_state := OfferSent, last_attempt_ms := now\<rparr>"

definition on_sync_complete :: "nat \<Rightarrow> peer \<Rightarrow> peer" where
  "on_sync_complete now p =
     p\<lparr>last_sync_ms := now, last_attempt_ms := now, failures := 0, backoff_ms := 0, next_sync_ms := now, peer_state := PIdle\<rparr>"

definition on_failure :: "nat \<Rightarrow> peer \<Rightarrow> peer" where
  "on_failure now p =
     (let nxt = (if backoff_ms p = 0 then PEER_BACKOFF_STEP_MS else sat_add64 (backoff_ms p) PEER_BACKOFF_STEP_MS);
          b = min nxt PEER_BACKOFF_MAX_MS in
      p\<lparr>failures := sat_add32 (failures p) 1, backoff_ms := b, next_sync_ms := sat_add64 now b, peer_state := Backoff\<rparr>)"

definition on_offer_response :: "peer_sync_response \<Rightarrow> nat \<Rightarrow> peer \<Rightarrow> peer" where
  "on_offer_response r now p =
     (case r of
        PBool True \<Rightarrow> p\<lparr>peer_state := AwaitingPayload\<rparr>
      | IdList _ \<Rightarrow> p\<lparr>peer_state := AwaitingPayload\<rparr>
      | PBool False \<Rightarrow> (on_sync_complete now p)\<lparr>peer_state := PIdle\<rparr>
      | Payload _ \<Rightarrow> (on_sync_complete now p)\<lparr>peer_state := PIdle\<rparr>
      | PError _ \<Rightarrow> (on_failure now p)\<lparr>peer_state := Backoff\<rparr>)"

definition mark_heard :: "nat \<Rightarrow> peer \<Rightarrow> peer" where
  "mark_heard now p = p\<lparr>last_heard_ms := now\<rparr>"

definition on_payload_complete :: "nat \<Rightarrow> peer \<Rightarrow> peer" where
  "on_payload_complete now p = on_sync_complete now p"

definition on_timeout :: "nat \<Rightarrow> peer \<Rightarrow> peer" where
  "on_timeout now p = on_failure now p"

definition throttle :: "nat \<Rightarrow> nat \<Rightarrow> peer \<Rightarrow> peer" where
  "throttle now t p =
     p\<lparr>failures := sat_add32 (failures p) 1, backoff_ms := t, next_sync_ms := sat_add64 now t, peer_state := Backoff\<rparr>"

subsection \<open>The peer table\<close>

type_synonym peer_table = "(bytes, peer) hmap"

definition upsert :: "bytes \<Rightarrow> nat \<Rightarrow> peer_table \<Rightarrow> peer \<times> peer_table" where
  "upsert i now t = (case map_of t i of Some p \<Rightarrow> (p, t) | None \<Rightarrow> (peer_new i now, hm_insert i (peer_new i now) t))"

text \<open>\<open>min_by_key\<close>: the first element with the smallest key.\<close>

fun min_by_key :: "('a \<Rightarrow> nat) \<Rightarrow> 'a list \<Rightarrow> 'a option" where
  "min_by_key f [] = None"
| "min_by_key f (x # xs) =
     (case min_by_key f xs of None \<Rightarrow> Some x | Some y \<Rightarrow> if f x \<le> f y then Some x else Some y)"

definition next_ready :: "nat \<Rightarrow> peer_table \<Rightarrow> bytes option" where
  "next_ready now t = map_option peer_id (min_by_key next_sync_ms (filter (should_sync now) (map snd t)))"

text \<open>Every peer is stored under its own id.\<close>

definition table_wf :: "peer_table \<Rightarrow> bool" where
  "table_wf t \<longleftrightarrow> hm_wf t \<and> (\<forall>(i, p) \<in> set t. peer_id p = i)"

subsection \<open>Lemmas\<close>

lemma upsert_wf: "table_wf t \<Longrightarrow> table_wf (snd (upsert i now t)) \<and> peer_id (fst (upsert i now t)) = i
    \<and> map_of (snd (upsert i now t)) i = Some (fst (upsert i now t))"
  by (auto simp: table_wf_def upsert_def hm_wf_insert set_hm_insert map_of_hm_insert peer_new_def
      split: option.splits if_splits dest: map_of_SomeD)

lemma min_by_key_None: "min_by_key f xs = None \<longleftrightarrow> xs = []"
  by (cases xs) (auto split: option.splits)

lemma min_by_key_Some:
  "min_by_key f xs = Some x \<Longrightarrow> x \<in> set xs \<and> (\<forall>y \<in> set xs. f x \<le> f y)"
proof (induction xs arbitrary: x)
  case (Cons a xs)
  then show ?case
    by (cases "min_by_key f xs") (auto simp: min_by_key_None split: if_splits intro: order_trans)
qed simp

lemma on_failure_backoff:
  "backoff_ms p \<le> PEER_BACKOFF_MAX_MS \<Longrightarrow>
    backoff_ms (on_failure now p) = min (backoff_ms p + PEER_BACKOFF_STEP_MS) PEER_BACKOFF_MAX_MS"
  by (simp add: on_failure_def Let_def sat_add64_def PEER_BACKOFF_MAX_MS_def PEER_BACKOFF_STEP_MS_def u64_max_def)

lemma failures_back_off:
  assumes "backoff_ms p \<le> PEER_BACKOFF_MAX_MS" and "failures p \<le> u32_max"
  shows "backoff_ms (fold on_timeout ts p) = min (backoff_ms p + length ts * PEER_BACKOFF_STEP_MS) PEER_BACKOFF_MAX_MS
    \<and> failures (fold on_timeout ts p) = min (failures p + length ts) u32_max"
  using assms
proof (induction ts arbitrary: p)
  case (Cons t ts)
  have b: "backoff_ms (on_timeout t p) = min (backoff_ms p + PEER_BACKOFF_STEP_MS) PEER_BACKOFF_MAX_MS"
    using on_failure_backoff[OF Cons.prems(1)] by (simp add: on_timeout_def)
  have f: "failures (on_timeout t p) = min (failures p + 1) u32_max"
    by (simp add: on_timeout_def on_failure_def Let_def sat_add32_def)
  show ?case using Cons.IH[of "on_timeout t p"] b f by (simp add: algebra_simps) linarith
qed simp

lemma failure_schedules: "ts \<noteq> [] \<Longrightarrow> peer_state (fold on_timeout ts p) = Backoff
    \<and> next_sync_ms (fold on_timeout ts p) = sat_add64 (last ts) (backoff_ms (fold on_timeout ts p))"
  by (induction ts arbitrary: p) (auto simp: on_timeout_def on_failure_def Let_def)

lemma process_handled_marks:
  assumes "ps_invar s"
  shows "ps_invar (process_handled H U i ts s)
    \<and> (\<forall>t. ps_has t (process_handled H U i ts s) = ps_has t s)
    \<and> (\<forall>t q. is_peer_handled t q (process_handled H U i ts s)
          \<longleftrightarrow> is_peer_handled t q s \<or> (q = i \<and> t \<in> set ts \<and> t \<notin> H \<and> ps_has t s))
    \<and> (\<forall>t q. is_peer_unhandled t q (process_handled H U i ts s)
          \<longleftrightarrow> is_peer_unhandled t q s \<and> \<not> (q = i \<and> t \<in> set ts \<and> t \<in> U \<and> ps_has t s))"
  using assms
proof (induction ts arbitrary: s)
  case (Cons a ts)
  let ?s1 = "if a \<notin> H then snd (add_handled_peer a i s) else s"
  let ?s2 = "if a \<in> U then remove_unhandled_peer a i ?s1 else ?s1"
  have s1: "ps_invar ?s1" using Cons.prems by (simp add: handled.add_invar)
  have s2: "ps_invar ?s2" using s1 unhandled.unmark_invar by simp
  have has: "ps_has t ?s2 = ps_has t s" for t by (simp add: handled.has_add unhandled.has_unmark)
  have h: "is_peer_handled t q ?s2 \<longleftrightarrow> is_peer_handled t q s \<or> (a \<notin> H \<and> t = a \<and> q = i \<and> ps_has a s)" for t q
    using Cons.prems by (simp add: marks_independent handled.add_marked)
  have u: "is_peer_unhandled t q ?s2 \<longleftrightarrow> is_peer_unhandled t q s \<and> \<not> (a \<in> U \<and> t = a \<and> q = i \<and> ps_has a s)" for t q
    using s1 Cons.prems by (simp add: marks_independent unhandled.unmark_marked handled.has_add)
  show ?case unfolding process_handled.simps Let_def using Cons.IH[OF s2] by (auto simp: has h u)
qed simp

lemma process_unhandled_marks:
  assumes "ps_invar s"
  shows "ps_invar (process_unhandled H U i ts s)
    \<and> (\<forall>t. ps_has t (process_unhandled H U i ts s) = ps_has t s)
    \<and> (\<forall>t q. is_peer_handled t q (process_unhandled H U i ts s) = is_peer_handled t q s)
    \<and> (\<forall>t q. is_peer_unhandled t q (process_unhandled H U i ts s)
          \<longleftrightarrow> is_peer_unhandled t q s \<or> (q = i \<and> t \<in> set ts \<and> t \<notin> H \<and> t \<notin> U \<and> ps_has t s))"
  using assms
proof (induction ts arbitrary: s)
  case (Cons a ts)
  let ?s1 = "if a \<notin> H \<and> a \<notin> U then snd (add_unhandled_peer a i s) else s"
  have s1: "ps_invar ?s1" using Cons.prems by (simp add: unhandled.add_invar)
  have "ps_has t ?s1 = ps_has t s" "is_peer_handled t q ?s1 = is_peer_handled t q s"
    "is_peer_unhandled t q ?s1 \<longleftrightarrow> is_peer_unhandled t q s \<or> (a \<notin> H \<and> a \<notin> U \<and> t = a \<and> q = i \<and> ps_has a s)" for t q
    using Cons.prems by (simp_all add: marks_independent unhandled.add_marked unhandled.has_add)
  with Cons.IH[OF s1] show ?case unfolding process_unhandled.simps by auto
qed simp

subsection \<open>Properties\<close>

text \<open>Backoff of a peer: after \<open>n\<close> failures in a row, starting from a peer that is not backing off,
  the backoff is \<open>n\<close> times twelve minutes, at most fourteen days, the failure counter has grown by \<open>n\<close>
  (saturating), and the peer is due again exactly from the last failure plus the backoff on; a
  completed synchronisation makes it due at once and clears both.\<close>

theorem peer_backoff_linear:
  assumes "backoff_ms p = 0" and "failures p \<le> u32_max" and "ts \<noteq> []"
  shows "let q = fold on_timeout ts p; b = min (length ts * (12 * 60 * 1000)) (14 * 24 * 60 * 60 * 1000) in
    backoff_ms q = b \<and> failures q = min (failures p + length ts) u32_max
    \<and> should_sync now q = (sat_add64 (last ts) b \<le> now)
    \<and> should_sync now (on_payload_complete now q) \<and> backoff_ms (on_payload_complete now q) = 0
    \<and> failures (on_payload_complete now q) = 0"
proof -
  have "backoff_ms p \<le> PEER_BACKOFF_MAX_MS" using assms(1) by simp
  note * = failures_back_off[OF this assms(2), of ts] failure_schedules[OF assms(3), of p]
  then show ?thesis using assms(1)
    by (simp add: Let_def should_sync_def on_payload_complete_def on_sync_complete_def
        PEER_BACKOFF_STEP_MS_def PEER_BACKOFF_MAX_MS_def)
qed

theorem peer_backoff_linear_witness:
  "let q = fold on_timeout [1000, 2000, 3000] (peer_new [7] 0) in
   backoff_ms q = 2160000 \<and> failures q = 3 \<and> \<not> should_sync 2162999 q \<and> should_sync 2163000 q"
proof -
  have p: "backoff_ms (peer_new [7] 0) = 0" "failures (peer_new [7] 0) \<le> u32_max" "[1000, 2000, 3000 :: nat] \<noteq> []"
    by (simp_all add: peer_new_def)
  from peer_backoff_linear[OF p, of 2162999] peer_backoff_linear[OF p, of 2163000] show ?thesis
    by (simp add: Let_def peer_new_def sat_add64_def u64_max_def u32_max_def)
qed

text \<open>\<open>process_queues\<close> empties both queues of the peer and changes only the marks of this peer on
  stored messages: the messages of the handled queue become handled and lose the unhandled mark they
  had before; those of the unhandled queue become unhandled unless the peer had a mark on them when
  the call began. The marks of other peers are untouched.\<close>

theorem process_queues_marks:
  assumes "ps_invar s" and "process_queues p s = (p', s')"
  shows "\<not> queued_items p' \<and> ps_invar s' \<and> ps_has t s' = ps_has t s
    \<and> is_peer_handled t q s' = (is_peer_handled t q s \<or> (q = peer_id p \<and> t \<in> set (handled_messages_queue p) \<and> ps_has t s))
    \<and> is_peer_unhandled t q s' =
        ((is_peer_unhandled t q s \<and> \<not> (q = peer_id p \<and> t \<in> set (handled_messages_queue p) \<and> ps_has t s))
         \<or> (q = peer_id p \<and> t \<in> set (unhandled_messages_queue p) \<and> ps_has t s
            \<and> \<not> is_peer_handled t q s \<and> \<not> is_peer_unhandled t q s))"
proof -
  let ?H = "set (handled_messages_for_peer (peer_id p) s)" and ?U = "set (unhandled_messages_for_peer (peer_id p) s)"
  have H: "?H = {t. is_peer_handled t (peer_id p) s}" and U: "?U = {t. is_peer_unhandled t (peer_id p) s}"
    using handled.messages_marked[OF assms(1)] unhandled.messages_marked[OF assms(1)] by simp_all
  let ?s1 = "process_handled ?H ?U (peer_id p) (handled_messages_queue p) s"
  have p': "p' = p\<lparr>handled_messages_queue := [], unhandled_messages_queue := []\<rparr>"
    and s': "s' = process_unhandled ?H ?U (peer_id p) (unhandled_messages_queue p) ?s1"
    using assms(2) by (simp_all add: process_queues_def Let_def)
  note one = process_handled_marks[OF assms(1), of ?H ?U "peer_id p" "handled_messages_queue p"]
  note two = process_unhandled_marks[of ?s1 ?H ?U "peer_id p" "unhandled_messages_queue p"]
  show ?thesis using one two unfolding s' H U by (auto simp: p' queued_items_def)
qed

theorem process_queues_marks_witness:
  "let s = insert_with_stamp_value sample_entry 3 ps_new;
       p = queue_handled_message [7] (queue_unhandled_message [9] (peer_new [1] 0));
       (p', s') = process_queues p s in
   \<not> queued_items p' \<and> is_peer_handled [7] [1] s' \<and> \<not> is_peer_unhandled [9] [1] s'"
proof -
  let ?s = "insert_with_stamp_value sample_entry 3 ps_new"
  let ?p = "queue_handled_message [7] (queue_unhandled_message [9] (peer_new [1] 0))"
  have inv: "ps_invar ?s"
    by (rule ps_reachable_invar) (rule r_into_rtranclp, rule ps_step.InsertValue)
  have has: "ps_has [7] ?s" "\<not> ps_has [9] ?s" "\<not> is_peer_unhandled [9] [1] ?s"
    by (simp_all add: insert_with_stamp_value_def sample_entry_def ps_new_def ps_has_def hm_insert_def is_peer_unhandled_def
        hm_contains_iff Let_def)
  have q: "handled_messages_queue ?p = [[7]]" "unhandled_messages_queue ?p = [[9]]" "peer_id ?p = [1]"
    by (simp_all add: queue_handled_message_def queue_unhandled_message_def peer_new_def)
  obtain p' s' where r: "process_queues ?p ?s = (p', s')" by fastforce
  from process_queues_marks[OF inv r, of "[7]" "[1]"] process_queues_marks[OF inv r, of "[9]" "[1]"] has q
  show ?thesis by (simp add: r Let_def)
qed

text \<open>The peer table proposes a peer exactly when one is due, and then one that is due and that no
  other due peer precedes.\<close>

theorem next_ready_earliest:
  assumes "table_wf t"
  shows "case next_ready now t of
      None \<Rightarrow> (\<forall>i p. map_of t i = Some p \<longrightarrow> \<not> should_sync now p)
    | Some i \<Rightarrow> (\<exists>p. map_of t i = Some p \<and> should_sync now p
        \<and> (\<forall>j q. map_of t j = Some q \<and> should_sync now q \<longrightarrow> next_sync_ms p \<le> next_sync_ms q))"
proof (cases "min_by_key next_sync_ms (filter (should_sync now) (map snd t))")
  case None
  then have "filter (should_sync now) (map snd t) = []" by (simp add: min_by_key_None)
  then have "\<not> should_sync now p" if "map_of t i = Some p" for i p
    using map_of_SomeD[OF that] by (auto simp: filter_empty_conv)
  with None show ?thesis by (simp add: next_ready_def)
next
  case (Some p)
  note m = min_by_key_Some[OF Some]
  then obtain i where ip: "(i, p) \<in> set t" "should_sync now p" by auto
  then have i: "i = peer_id p" "map_of t i = Some p" using assms by (auto simp: table_wf_def hm_get_in)
  have "next_sync_ms p \<le> next_sync_ms q" if "map_of t j = Some q" "should_sync now q" for j q
    using m map_of_SomeD[OF that(1)] that(2) by force
  with Some ip i show ?thesis by (auto simp: next_ready_def)
qed

theorem next_ready_earliest_witness:
  "next_ready 100 (snd (upsert [2] 50 (snd (upsert [1] 70 [])))) = Some [2]"
proof -
  let ?t = "snd (upsert [2] 50 (snd (upsert [1] 70 [])))"
  have wf: "table_wf ?t"
    by (intro conjunct1[OF upsert_wf]) (simp add: table_wf_def hm_wf_def)
  have "next_ready 100 ?t \<noteq> None"
    by (simp add: upsert_def next_ready_def hm_insert_def peer_new_def should_sync_def)
  moreover have "map_of ?t i = Some p \<Longrightarrow> i = [1] \<and> next_sync_ms p = 70 \<or> i = [2]" for i p
    by (auto simp: upsert_def hm_insert_def peer_new_def split: if_splits)
  moreover have "map_of ?t [2] = Some (peer_new [2] 50)" "should_sync 100 (peer_new [2] 50)" "next_sync_ms (peer_new [2] 50) = 50"
    by (simp_all add: upsert_def hm_insert_def should_sync_def) (simp_all add: peer_new_def)
  ultimately show ?thesis using next_ready_earliest[OF wf, of 100] by (fastforce split: option.splits)
qed

end
