(* ===== verification/Runtime.thy ===== *)
theory Runtime
  imports Outbox Requests Peers
begin

section \<open>The periodic runtime (router.rs LxmfRuntime)\<close>

text \<open>
  \<open>LxmfRuntime::tick\<close> drives the router and the request manager: every call advances a counter that
  decides which jobs run, drains the outbound queue and times out deliveries and requests. The drain
  loop \<open>loop { match next_delivery_with_retry ... None => break }\<close> has no bound of its own; it ends because
  every failed attempt uses up one of the attempts of its message (\<open>drain_rank\<close>), and the model is a
  total function for that reason.
\<close>

definition JOB_OUTBOUND_INTERVAL :: nat where "JOB_OUTBOUND_INTERVAL = 1"
definition JOB_STAMPS_INTERVAL :: nat where "JOB_STAMPS_INTERVAL = 1"
definition JOB_LINKS_INTERVAL :: nat where "JOB_LINKS_INTERVAL = 1"
definition JOB_TRANSIENT_INTERVAL :: nat where "JOB_TRANSIENT_INTERVAL = 60"
definition JOB_STORE_INTERVAL :: nat where "JOB_STORE_INTERVAL = 120"
definition JOB_PEERSYNC_INTERVAL :: nat where "JOB_PEERSYNC_INTERVAL = 6"
definition JOB_PEERINGEST_INTERVAL :: nat where "JOB_PEERINGEST_INTERVAL = 6"
definition JOB_ROTATE_INTERVAL :: nat where "JOB_ROTATE_INTERVAL = 56 * JOB_PEERINGEST_INTERVAL"

lemmas job_intervals = JOB_OUTBOUND_INTERVAL_def JOB_STAMPS_INTERVAL_def JOB_LINKS_INTERVAL_def JOB_TRANSIENT_INTERVAL_def
  JOB_STORE_INTERVAL_def JOB_PEERSYNC_INTERVAL_def JOB_PEERINGEST_INTERVAL_def JOB_ROTATE_INTERVAL_def

record runtime_config =
  outbound_interval_ms :: nat
  inflight_interval_ms :: nat
  request_interval_ms :: nat
  pn_interval_ms :: nat
  store_interval_ms :: nat
  rc_name :: "bytes option"
  rc_autopeer :: "bool option"

definition runtime_config_default :: runtime_config where
  "runtime_config_default = \<lparr>outbound_interval_ms = 1000, inflight_interval_ms = 1000, request_interval_ms = 1000,
     pn_interval_ms = 5000, store_interval_ms = 8 * 60 * 1000, rc_name = None, rc_autopeer = None\<rparr>"

record runtime_tick =
  deliveries :: "queued_delivery list"
  delivery_errors :: "rns_error list"
  inflight_failures :: "failed_delivery list"
  request_timeouts :: "bytes list"
  peer_sync_requests :: "(bytes \<times> peer_sync_request) list"
  pn_ran :: bool
  outbound_ran :: bool
  stamps_ran :: bool
  links_ran :: bool
  transient_ran :: bool
  store_ran :: bool
  peeringest_ran :: bool
  rotate_ran :: bool
  peersync_ran :: bool

definition tick_default :: runtime_tick where
  "tick_default = \<lparr>deliveries = [], delivery_errors = [], inflight_failures = [], request_timeouts = [], peer_sync_requests = [],
     pn_ran = False, outbound_ran = False, stamps_ran = False, links_ran = False, transient_ran = False, store_ran = False,
     peeringest_ran = False, rotate_ran = False, peersync_ran = False\<rparr>"

record 's lxmf_runtime =
  rt_router :: "'s rns_router"
  rt_requests :: rns_request_manager
  rt_config :: runtime_config
  last_outbound_ms :: nat
  last_inflight_ms :: nat
  last_request_ms :: nat
  last_pn_ms :: nat
  last_store_ms :: nat
  processing_count :: nat

definition runtime_with_config :: "'s rns_router \<Rightarrow> runtime_config \<Rightarrow> 's lxmf_runtime" where
  "runtime_with_config r c = \<lparr>rt_router = r, rt_requests = rm_new, rt_config = c, last_outbound_ms = 0, last_inflight_ms = 0,
     last_request_ms = 0, last_pn_ms = 0, last_store_ms = 0, processing_count = 0\<rparr>"

definition runtime_new :: "'s rns_router \<Rightarrow> 's lxmf_runtime" where
  "runtime_new r = runtime_with_config r runtime_config_default"

subsection \<open>Draining the queue\<close>

text \<open>How many more attempts a queued message can use under a policy of \<open>p\<close> attempts; a counter at
  its largest value wraps to zero first.\<close>

definition attempts_left :: "32 word \<Rightarrow> 32 word \<Rightarrow> nat" where
  "attempts_left p a = (if a = -1 then unat p + 2 else if a < p then unat p + 1 - unat a else 1)"

definition drain_rank :: "'s rns_router \<Rightarrow> nat" where
  "drain_rank r = sum_list (map (\<lambda>i. attempts_left (max_attempts (retry r)) (q_attempts i)) (outbound r))"

lemma attempts_left_pos: "0 < attempts_left p a"
  by (auto simp: attempts_left_def word_less_nat_alt)

lemma attempts_left_step:
  assumes "a + 1 < p"
  shows "attempts_left p (a + 1) < attempts_left p a"
proof (cases "a = -1")
  case True
  then show ?thesis using assms by (auto simp: attempts_left_def)
next
  case False
  then have "1 + a \<noteq> 0" by (metis add.commute eq_neg_iff_add_eq_0)
  from unatSuc[OF this] have "unat (a + 1) = unat a + 1" by (simp add: add.commute)
  moreover have "a + 1 \<noteq> -1" using assms word_n1_ge[of p] by (metis leD)
  ultimately show ?thesis using assms False by (simp add: attempts_left_def word_less_nat_alt)
qed

lemma next_delivery_drains:
  "next_delivery_with_retry E ops now r = (Some res, r') \<Longrightarrow> drain_rank r' < drain_rank r"
proof (cases rule: next_delivery_with_retry_cases[of E ops now r])
  case (Retry item rest item' err)
  then show "next_delivery_with_retry E ops now r = (Some res, r') \<Longrightarrow> ?thesis"
    using attempts_left_step[of "q_attempts item" "max_attempts (retry r)"] by (auto simp: drain_rank_def)
qed (auto simp: drain_rank_def sent_ok_def give_up_def Let_def attempts_left_pos)

function drain ::
  "env \<Rightarrow> 's message_store_ops \<Rightarrow> nat \<Rightarrow> 's rns_router \<Rightarrow> queued_delivery list \<times> rns_error list \<times> 's rns_router" where
  "drain E ops now r =
     (case next_delivery_with_retry E ops now r of
        (None, r1) \<Rightarrow> ([], [], r1)
      | (Some (Inr d), r1) \<Rightarrow> (let (ds, es, r2) = drain E ops now r1 in (d # ds, es, r2))
      | (Some (Inl e), r1) \<Rightarrow> (let (ds, es, r2) = drain E ops now r1 in (ds, e # es, r2)))"
  by pat_completeness auto
termination
  by (relation "measure (\<lambda>(E, ops, now, r). drain_rank r)") (simp_all add: next_delivery_drains[OF sym])

declare drain.simps [simp del]

definition job_due :: "nat \<Rightarrow> nat \<Rightarrow> bool" where
  "job_due n interval \<longleftrightarrow> n mod interval = 0"

definition elapsed :: "nat \<Rightarrow> nat \<Rightarrow> nat \<Rightarrow> bool" where
  "elapsed now before interval \<longleftrightarrow> sat_sub now before \<ge> interval"

definition tick_outbound :: "env \<Rightarrow> 's message_store_ops \<Rightarrow> nat \<Rightarrow> 's lxmf_runtime \<Rightarrow> runtime_tick \<Rightarrow> runtime_tick \<times> 's lxmf_runtime" where
  "tick_outbound E ops now s t =
     (if job_due (processing_count s) JOB_OUTBOUND_INTERVAL then
        (if elapsed now (last_outbound_ms s) (outbound_interval_ms (rt_config s)) then
           (let (ds, es, r1) = drain E ops now (rt_router s) in
            (t\<lparr>outbound_ran := True, deliveries := ds, delivery_errors := es\<rparr>, s\<lparr>rt_router := r1, last_outbound_ms := now\<rparr>))
         else (t\<lparr>outbound_ran := True\<rparr>, s))
      else (t, s))"

definition tick_jobs :: "nat \<Rightarrow> 's lxmf_runtime \<Rightarrow> runtime_tick \<Rightarrow> runtime_tick \<times> 's lxmf_runtime" where
  "tick_jobs now s t =
     (let n = processing_count s;
          store_job = job_due n JOB_STORE_INTERVAL;
          sync_job = job_due n JOB_PEERSYNC_INTERVAL;
          pn = (sync_job \<and> elapsed now (last_pn_ms s) (pn_interval_ms (rt_config s))) in
      (t\<lparr>stamps_ran := job_due n JOB_STAMPS_INTERVAL, links_ran := job_due n JOB_LINKS_INTERVAL,
         transient_ran := job_due n JOB_TRANSIENT_INTERVAL, store_ran := store_job,
         peeringest_ran := job_due n JOB_PEERINGEST_INTERVAL, rotate_ran := job_due n JOB_ROTATE_INTERVAL,
         peersync_ran := sync_job, pn_ran := pn\<rparr>,
       s\<lparr>last_store_ms := (if store_job \<and> elapsed now (last_store_ms s) (store_interval_ms (rt_config s)) then now else last_store_ms s),
         last_pn_ms := (if pn then now else last_pn_ms s)\<rparr>))"

definition tick_timeouts :: "'s message_store_ops \<Rightarrow> nat \<Rightarrow> 's lxmf_runtime \<Rightarrow> runtime_tick \<Rightarrow> runtime_tick \<times> 's lxmf_runtime" where
  "tick_timeouts ops now s t =
     (let (t1, s1) =
            (if elapsed now (last_inflight_ms s) (inflight_interval_ms (rt_config s)) then
               (let (fs, r1) = router_poll_timeouts ops now (rt_router s) in
                (t\<lparr>inflight_failures := fs\<rparr>, s\<lparr>rt_router := r1, last_inflight_ms := now\<rparr>))
             else (t, s)) in
      if elapsed now (last_request_ms s1) (request_interval_ms (rt_config s1)) then
        (let (ids, q1) = rm_poll_timeouts now (rt_requests s1) in
         (t1\<lparr>request_timeouts := ids\<rparr>, s1\<lparr>rt_requests := q1, last_request_ms := now\<rparr>))
      else (t1, s1))"

definition tick :: "env \<Rightarrow> 's message_store_ops \<Rightarrow> nat \<Rightarrow> 's lxmf_runtime \<Rightarrow> runtime_tick \<times> 's lxmf_runtime" where
  "tick E ops now s0 =
     (let s = s0\<lparr>processing_count := (processing_count s0 + 1) mod 2 ^ 64\<rparr>;
          (t1, s1) = tick_outbound E ops now s tick_default;
          (t2, s2) = tick_jobs now s1 t1 in
      tick_timeouts ops now s2 t2)"

subsection \<open>What a drain achieves\<close>

lemma drain_settles:
  "drain E ops now r = (ds, es, r') \<Longrightarrow>
    mset (queue_ids r) + mset (failed_ids r) = mset (queue_ids r') + mset (failed_ids r') + mset (map qd_id ds)
    \<and> (outbound r' = [] \<or> now < q_next_attempt_at_ms (hd (outbound r')))"
proof (induction E ops now r arbitrary: ds es r' rule: drain.induct)
  case (1 E ops now r)
  show ?case
  proof (cases rule: next_delivery_with_retry_cases[of E ops now r])
    case Idle
    then show ?thesis using "1.prems" by (auto simp: drain.simps[of E ops now r])
  next
    case (Sent item rest m out)
    let ?d = "fst (sent_ok ops item m out rest r)" and ?r1 = "snd (sent_ok ops item m out rest r)"
    have n: "next_delivery_with_retry E ops now r = (Some (Inr ?d), ?r1)" using Sent(4) by (simp add: apfst_def map_prod_def case_prod_beta)
    obtain ds1 where d: "drain E ops now ?r1 = (ds1, es, r')" "ds = ?d # ds1"
      using "1.prems" n by (auto simp: drain.simps[of E ops now r] split: prod.splits)
    from "1.IH"(2)[OF n[symmetric] refl refl d(1)] d(2) Sent(1) show ?thesis
      by (auto simp: sent_ok_def queue_ids_def failed_ids_def)
  next
    case (Retry item rest item' err)
    let ?r1 = "r\<lparr>outbound := rest @ [item'], store := save_outbound ops item' (store r)\<rparr>"
    obtain es1 where d: "drain E ops now ?r1 = (ds, es1, r')"
      using "1.prems" Retry(8) by (auto simp: drain.simps[of E ops now r] split: prod.splits)
    from "1.IH"(1)[OF Retry(8)[symmetric] refl refl d] Retry(1,3) show ?thesis
      by (auto simp: queue_ids_def failed_ids_def)
  next
    case (GiveUp item rest item' err)
    obtain es1 where d: "drain E ops now (give_up ops item' err rest r) = (ds, es1, r')"
      using "1.prems" GiveUp(6) by (auto simp: drain.simps[of E ops now r] split: prod.splits)
    from "1.IH"(1)[OF GiveUp(6)[symmetric] refl refl d] GiveUp(1,3) show ?thesis
      by (auto simp: give_up_def Let_def queue_ids_def failed_ids_def)
  qed
qed

lemma drain_step_relation: "(router_step E ops)\<^sup>*\<^sup>* r (snd (snd (drain E ops now r)))"
proof (induction E ops now r rule: drain.induct)
  case (1 E ops now r)
  let ?r1 = "snd (next_delivery_with_retry E ops now r)"
  have first: "router_step E ops r ?r1" by (rule router_step.Deliver)
  show ?case
  proof (cases "fst (next_delivery_with_retry E ops now r)")
    case None
    then show ?thesis using first by (subst drain.simps) (auto simp: case_prod_beta split: option.split)
  next
    case (Some res)
    then have n: "(Some res, ?r1) = next_delivery_with_retry E ops now r" by (metis prod.collapse)
    have "(router_step E ops)\<^sup>*\<^sup>* ?r1 (snd (snd (drain E ops now ?r1)))"
      using "1.IH"(1)[OF n refl] "1.IH"(2)[OF n refl] by (cases res) auto
    moreover have "snd (snd (drain E ops now r)) = snd (snd (drain E ops now ?r1))"
      by (subst drain.simps) (auto simp: Some case_prod_beta Let_def split: sum.split)
    ultimately show ?thesis using first by (simp add: converse_rtranclp_into_rtranclp)
  qed
qed

text \<open>So the runtime only moves the router along its step relation, and what holds in every reachable
  state of the router holds after every tick.\<close>

lemma tick_router_steps: "tick E ops now s = (t, s') \<Longrightarrow> (router_step E ops)\<^sup>*\<^sup>* (rt_router s) (rt_router s')"
proof -
  assume t: "tick E ops now s = (t, s')"
  define s1 where "s1 = s\<lparr>processing_count := (processing_count s + 1) mod 2 ^ 64\<rparr>"
  obtain t1 s2 where o1: "tick_outbound E ops now s1 tick_default = (t1, s2)" by fastforce
  then have out: "(router_step E ops)\<^sup>*\<^sup>* (rt_router s) (rt_router s2)"
    using drain_step_relation[of E ops "rt_router s" now]
    by (auto simp: tick_outbound_def s1_def split: if_splits prod.splits)
  obtain t2 s3 where j1: "tick_jobs now s2 t1 = (t2, s3)" by fastforce
  then have j: "rt_router s3 = rt_router s2" by (auto simp: tick_jobs_def Let_def)
  have "tick_timeouts ops now s3 t2 = (t, s')" using t o1 j1 by (simp add: tick_def s1_def)
  then have "rt_router s' = rt_router s3 \<or> rt_router s' = snd (router_poll_timeouts ops now (rt_router s3))"
    by (auto simp: tick_timeouts_def Let_def case_prod_beta split: if_splits)
  then show ?thesis using out j router_step.Poll[of E ops "rt_router s3" now] by (auto intro: rtranclp.rtrancl_into_rtrancl)
qed

subsection \<open>Properties\<close>


text \<open>A message that can be delivered at once, and one whose retry is scheduled for later.\<close>

definition sample_router :: "in_memory_store rns_router" where
  "sample_router = snd (enqueue mem_ops sample_message Direct (router_with sample_outbound retry_default mem_new))"


text \<open>Job schedule: as long as the 64-bit counter does not wrap, the tick with number \<open>n\<close> runs the
  transient-id job exactly when 60 divides \<open>n\<close>, the store job when 120 does, peer synchronisation and
  peer ingest when 6 does and peer rotation when 336 does, so that every rotation tick is also a
  synchronisation tick; the outbound, stamp and link jobs run on every tick.\<close>

theorem tick_schedule:
  assumes "tick E ops now s = (t, s')" and "n = processing_count s + 1" and "n < 2 ^ 64"
  shows "processing_count s' = n \<and> outbound_ran t \<and> stamps_ran t \<and> links_ran t
    \<and> transient_ran t = (60 dvd n) \<and> store_ran t = (120 dvd n) \<and> peersync_ran t = (6 dvd n)
    \<and> peeringest_ran t = (6 dvd n) \<and> rotate_ran t = (336 dvd n) \<and> (rotate_ran t \<le> peersync_ran t) \<and> (pn_ran t \<le> peersync_ran t)"
proof -
  define s1 where "s1 = s\<lparr>processing_count := n\<rparr>"
  obtain t1 s2 where o1: "tick_outbound E ops now s1 tick_default = (t1, s2)" by fastforce
  then have o2: "outbound_ran t1" "processing_count s2 = n"
    by (auto simp: tick_outbound_def s1_def job_due_def JOB_OUTBOUND_INTERVAL_def split: if_splits prod.splits)
  obtain t2 s3 where j1: "tick_jobs now s2 t1 = (t2, s3)" by fastforce
  have "tick_timeouts ops now s3 t2 = (t, s')" using assms o1 j1 by (simp add: tick_def s1_def)
  then have "processing_count s' = processing_count s3 \<and> outbound_ran t = outbound_ran t2 \<and> stamps_ran t = stamps_ran t2
      \<and> links_ran t = links_ran t2 \<and> transient_ran t = transient_ran t2 \<and> store_ran t = store_ran t2
      \<and> peersync_ran t = peersync_ran t2 \<and> peeringest_ran t = peeringest_ran t2 \<and> rotate_ran t = rotate_ran t2
      \<and> pn_ran t = pn_ran t2"
    by (auto simp: tick_timeouts_def Let_def case_prod_beta split: if_splits)
  moreover have "outbound_ran t2" "stamps_ran t2" "links_ran t2" "transient_ran t2 = (60 dvd n)" "store_ran t2 = (120 dvd n)"
      "peeringest_ran t2 = (6 dvd n)" "rotate_ran t2 = (336 dvd n)" "peersync_ran t2 = (6 dvd n)"
      "pn_ran t2 \<longrightarrow> 6 dvd n" "processing_count s3 = n"
    using j1 o2 by (auto simp: tick_jobs_def Let_def job_due_def job_intervals dvd_eq_mod_eq_0)
  moreover have "(336 :: nat) dvd n \<Longrightarrow> 6 dvd n" by presburger
  ultimately show ?thesis by simp
qed

theorem tick_schedule_witness:
  "\<exists>t s'. tick sample_env mem_ops 0 ((runtime_new sample_router)\<lparr>processing_count := 335\<rparr>) = (t, s')
    \<and> rotate_ran t \<and> peersync_ran t \<and> \<not> transient_ran t \<and> processing_count s' = 336"
proof -
  obtain t s' where t: "tick sample_env mem_ops 0 ((runtime_new sample_router)\<lparr>processing_count := 335\<rparr>) = (t, s')" by fastforce
  from tick_schedule[OF t, of 336] t show ?thesis by simp
qed

end
