(* ===== verification/Peer_Wire.thy ===== *)
theory Peer_Wire
  imports Peers Msgpack_Ref
begin

section \<open>Wire and storage formats of peers (lxmf-rs/src/rns/peer.rs)\<close>

text \<open>
  The stored form of a \<open>Peer\<close> (\<open>to_bytes\<close>, \<open>from_bytes\<close>: a map with string keys) and the requests and
  responses of a synchronisation. The MessagePack codec is the one of the environment.
\<close>

subsection \<open>Stored peers\<close>

definition opt_entry :: "string \<Rightarrow> ('a \<Rightarrow> mval) \<Rightarrow> 'a option \<Rightarrow> (mval \<times> mval) list" where
  "opt_entry k f x = (case x of Some v \<Rightarrow> [(key k, f v)] | None \<Rightarrow> [])"

definition u64_value :: "nat \<Rightarrow> mval" where
  "u64_value n = MInt (u64_as_i64 n)"

definition u32_value :: "nat \<Rightarrow> mval" where
  "u32_value n = MInt (int n)"

definition metadata_value :: "(bytes, bytes) hmap \<Rightarrow> mval" where
  "metadata_value m = MMap (map (\<lambda>(k, v). (MStr k, MBin v)) m)"

definition peer_entries :: "peer \<Rightarrow> (mval \<times> mval) list" where
  "peer_entries p =
     [(key ''destination_hash'', MBin (peer_id p)), (key ''peering_timebase'', u64_value (peering_timebase p)),
      (key ''alive'', MBool (is_alive p)), (key ''last_heard'', u64_value (last_heard_ms p)),
      (key ''sync_strategy'', MInt (int (unat (sync_strategy p))))]
     @ opt_entry ''peering_key'' MBin (peering_key p)
     @ opt_entry ''peering_key_value'' u32_value (peering_key_value p)
     @ opt_entry ''peering_cost'' u32_value (peering_cost p)
     @ opt_entry ''metadata'' metadata_value (peer_metadata p)
     @ [(key ''link_establishment_rate'', MF64 (link_establishment_rate p)),
        (key ''sync_transfer_rate'', MF64 (sync_transfer_rate p))]
     @ opt_entry ''propagation_transfer_limit'' MF64 (propagation_transfer_limit p)
     @ opt_entry ''propagation_sync_limit'' u64_value (propagation_sync_limit p)
     @ opt_entry ''propagation_stamp_cost'' u32_value (propagation_stamp_cost p)
     @ opt_entry ''propagation_stamp_cost_flexibility'' u32_value (propagation_stamp_cost_flexibility p)
     @ [(key ''offered'', u64_value (messages_offered p)), (key ''outgoing'', u64_value (messages_outgoing p)),
        (key ''incoming'', u64_value (messages_incoming p)), (key ''rx_bytes'', u64_value (peer_rx_bytes p)),
        (key ''tx_bytes'', u64_value (peer_tx_bytes p)), (key ''last_sync_attempt'', u64_value (last_attempt_ms p)),
        (key ''handled_ids'', MArr []), (key ''unhandled_ids'', MArr [])]"

definition peer_to_bytes :: "codec \<Rightarrow> peer \<Rightarrow> rns_error + bytes" where
  "peer_to_bytes c p = map_sum Msgpack id (write_value c (MMap (peer_entries p)))"

text \<open>Reading: \<open>get_value\<close> is the first entry with a key; an integer field is changed when its value is an integer.\<close>

definition set_int :: "mval option \<Rightarrow> (int \<Rightarrow> peer \<Rightarrow> peer) \<Rightarrow> peer \<Rightarrow> peer" where
  "set_int v f p = (case v of None \<Rightarrow> p | Some x \<Rightarrow> (case as_i64 x of Some i \<Rightarrow> f i p | None \<Rightarrow> p))"

definition u64_or_zero :: "mval option \<Rightarrow> nat" where
  "u64_or_zero v = i64_as_u64 (case v of None \<Rightarrow> 0 | Some x \<Rightarrow> (case as_i64 x of Some i \<Rightarrow> i | None \<Rightarrow> 0))"

definition restore_base :: "(mval \<Rightarrow> mval option) \<Rightarrow> bytes \<Rightarrow> nat \<Rightarrow> peer" where
  "restore_base get i now =
     set_alive (case get (key ''alive'') of Some (MBool b) \<Rightarrow> b | _ \<Rightarrow> False)
       ((peer_new i now)\<lparr>peering_timebase := u64_or_zero (get (key ''peering_timebase'')),
                          last_heard_ms := u64_or_zero (get (key ''last_heard''))\<rparr>)"

definition restore_rates :: "(mval \<Rightarrow> mval option) \<Rightarrow> peer \<Rightarrow> peer" where
  "restore_rates get p =
     (let p1 = (case get (key ''sync_strategy'') of
                  None \<Rightarrow> p
                | Some v \<Rightarrow> (case as_i64 v of
                     Some i \<Rightarrow> p\<lparr>sync_strategy := word_of_int i\<rparr>
                   | None \<Rightarrow> p\<lparr>sync_strategy := DEFAULT_SYNC_STRATEGY\<rparr>));
          p2 = (case get (key ''link_establishment_rate'') of
                  None \<Rightarrow> p1
                | Some v \<Rightarrow> p1\<lparr>link_establishment_rate := (case value_to_f64 v of Some x \<Rightarrow> x | None \<Rightarrow> 0)\<rparr>) in
      (case get (key ''sync_transfer_rate'') of
         None \<Rightarrow> p2
       | Some v \<Rightarrow> p2\<lparr>sync_transfer_rate := (case value_to_f64 v of Some x \<Rightarrow> x | None \<Rightarrow> 0)\<rparr>))"

definition restore_limits :: "(mval \<Rightarrow> mval option) \<Rightarrow> peer \<Rightarrow> peer" where
  "restore_limits get p =
     (let p1 = (case get (key ''propagation_transfer_limit'') of
                  None \<Rightarrow> p | Some v \<Rightarrow> p\<lparr>propagation_transfer_limit := value_to_f64 v\<rparr>);
          fallback = map_option f64_as_u64 (propagation_transfer_limit p1);
          p2 = p1\<lparr>propagation_sync_limit :=
                  (case get (key ''propagation_sync_limit'') of
                     None \<Rightarrow> fallback
                   | Some v \<Rightarrow> (case as_i64 v of Some i \<Rightarrow> Some (i64_as_u64 i) | None \<Rightarrow> fallback))\<rparr>;
          p3 = set_int (get (key ''propagation_stamp_cost'')) (\<lambda>i p. p\<lparr>propagation_stamp_cost := Some (i64_as_u32 i)\<rparr>) p2 in
      set_int (get (key ''propagation_stamp_cost_flexibility''))
        (\<lambda>i p. p\<lparr>propagation_stamp_cost_flexibility := Some (i64_as_u32 i)\<rparr>) p3)"

fun restore_metadata :: "(mval \<times> mval) list \<Rightarrow> (bytes, bytes) hmap \<Rightarrow> (bytes, bytes) hmap" where
  "restore_metadata [] m = m"
| "restore_metadata ((k, v) # kvs) m =
     restore_metadata kvs
       (case (value_to_opt_string k, value_to_bytes v) of (Some s, Some b) \<Rightarrow> hm_insert s b m | _ \<Rightarrow> m)"

definition restore_key :: "(mval \<Rightarrow> mval option) \<Rightarrow> peer \<Rightarrow> peer" where
  "restore_key get p =
     (let p1 = set_int (get (key ''peering_cost'')) (\<lambda>i p. p\<lparr>peering_cost := Some (i64_as_u32 i)\<rparr>) p;
          p2 = (case get (key ''peering_key'') of None \<Rightarrow> p1 | Some v \<Rightarrow> p1\<lparr>peering_key := value_to_bytes v\<rparr>);
          p3 = set_int (get (key ''peering_key_value'')) (\<lambda>i p. p\<lparr>peering_key_value := Some (i64_as_u32 i)\<rparr>) p2 in
      (case get (key ''metadata'') of
         Some (MMap kvs) \<Rightarrow> p3\<lparr>peer_metadata := Some (restore_metadata kvs [])\<rparr>
       | _ \<Rightarrow> p3))"

definition restore_counts :: "(mval \<Rightarrow> mval option) \<Rightarrow> peer \<Rightarrow> peer" where
  "restore_counts get p =
     (let p1 = set_int (get (key ''offered'')) (\<lambda>i p. p\<lparr>messages_offered := i64_as_u64 i\<rparr>) p;
          p2 = set_int (get (key ''outgoing'')) (\<lambda>i p. p\<lparr>messages_outgoing := i64_as_u64 i\<rparr>) p1;
          p3 = set_int (get (key ''incoming'')) (\<lambda>i p. p\<lparr>messages_incoming := i64_as_u64 i\<rparr>) p2;
          p4 = set_int (get (key ''rx_bytes'')) (\<lambda>i p. p\<lparr>peer_rx_bytes := i64_as_u64 i\<rparr>) p3;
          p5 = set_int (get (key ''tx_bytes'')) (\<lambda>i p. p\<lparr>peer_tx_bytes := i64_as_u64 i\<rparr>) p4 in
      set_int (get (key ''last_sync_attempt'')) (\<lambda>i p. p\<lparr>last_attempt_ms := i64_as_u64 i\<rparr>) p5)"

definition peer_from_bytes :: "codec \<Rightarrow> bytes \<Rightarrow> nat \<Rightarrow> rns_error + peer" where
  "peer_from_bytes c bs now =
     (case read_value c bs of
        Inl e \<Rightarrow> Inl (Msgpack e)
      | Inr (MMap dict) \<Rightarrow>
         (case map_of dict (key ''destination_hash'') of
            None \<Rightarrow> Inl (Msgpack ''missing destination_hash'')
          | Some v \<Rightarrow>
             (case value_to_fixed_bytes DESTINATION_LENGTH v of
                None \<Rightarrow> Inl (Msgpack ''invalid destination_hash'')
              | Some i \<Rightarrow> Inr (restore_counts (map_of dict) (restore_key (map_of dict)
                          (restore_limits (map_of dict) (restore_rates (map_of dict) (restore_base (map_of dict) i now)))))))
      | Inr _ \<Rightarrow> Inl (Msgpack ''peer data must be a map''))"

subsection \<open>Synchronisation requests\<close>

definition ids_value :: "bytes list \<Rightarrow> mval" where
  "ids_value ids = MArr (map MBin ids)"

definition sync_request_value :: "peer_sync_request \<Rightarrow> mval" where
  "sync_request_value r =
     (case r of
        Offer k av \<Rightarrow> MArr [MBin k, ids_value av]
      | MessageGetList \<Rightarrow> MArr [MNil, MNil]
      | MessageGet wants haves lim \<Rightarrow>
          MArr ([ids_value wants, ids_value haves] @ (case lim of Some l \<Rightarrow> [MF64 l] | None \<Rightarrow> []))
      | MessageAck delivered \<Rightarrow> MArr [MNil, ids_value delivered])"

definition encode_peer_sync_request :: "codec \<Rightarrow> peer_sync_request \<Rightarrow> rns_error + bytes" where
  "encode_peer_sync_request c r = map_sum Msgpack id (write_value c (sync_request_value r))"

text \<open>The loops that collect binary values of a fixed length, with the error for a value of another form.\<close>

fun fixed_list :: "nat \<Rightarrow> string \<Rightarrow> mval list \<Rightarrow> rns_error + bytes list" where
  "fixed_list n msg [] = Inr []"
| "fixed_list n msg (v # vs) =
     (case value_to_fixed_bytes n v of
        None \<Rightarrow> Inl (Msgpack msg)
      | Some i \<Rightarrow> map_sum id ((#) i) (fixed_list n msg vs))"

definition opt_ids :: "string \<Rightarrow> mval \<Rightarrow> rns_error + bytes list option" where
  "opt_ids msg v =
     (case v of
        MNil \<Rightarrow> Inr None
      | MArr vals \<Rightarrow> map_sum id Some (fixed_list 32 ''invalid id'' vals)
      | _ \<Rightarrow> Inl (Msgpack msg))"

definition decode_offer :: "mval list \<Rightarrow> bytes \<Rightarrow> rns_error + peer_sync_request" where
  "decode_offer arr k =
     (if length arr < 2 then Inl (Msgpack ''missing list'')
      else (case arr ! 1 of
         MArr vals \<Rightarrow> map_sum id (Offer k) (fixed_list 32 ''invalid id'' vals)
       | _ \<Rightarrow> Inl (Msgpack ''list must be array'')))"

definition decode_get :: "mval list \<Rightarrow> rns_error + peer_sync_request" where
  "decode_get arr =
     (if length arr < 2 then Inl (Msgpack ''missing haves'')
      else (case opt_ids ''invalid wants'' (arr ! 0) of
         Inl e \<Rightarrow> Inl e
       | Inr wants \<Rightarrow>
          (case opt_ids ''invalid haves'' (arr ! 1) of
             Inl e \<Rightarrow> Inl e
           | Inr haves \<Rightarrow>
              (case (if length arr > 2
                     then (case value_to_f64 (arr ! 2) of Some l \<Rightarrow> Inr (Some l) | None \<Rightarrow> Inl (Msgpack ''invalid transfer limit''))
                     else Inr None) of
                 Inl e \<Rightarrow> Inl e
               | Inr lim \<Rightarrow>
                  (case (wants, haves) of
                     (None, None) \<Rightarrow> Inr MessageGetList
                   | (None, Some delivered) \<Rightarrow> Inr (MessageAck delivered)
                   | (Some ws, Some hs) \<Rightarrow> Inr (MessageGet ws hs lim)
                   | (Some ws, None) \<Rightarrow> Inr (MessageGet ws [] lim))))))"

definition decode_peer_sync_request :: "codec \<Rightarrow> bytes \<Rightarrow> rns_error + peer_sync_request" where
  "decode_peer_sync_request c bs =
     (case read_value c bs of
        Inl e \<Rightarrow> Inl (Msgpack e)
      | Inr (MArr arr) \<Rightarrow>
         (if arr = [] then Inl (Msgpack ''peer sync req missing op'')
          else (case arr ! 0 of MBin k \<Rightarrow> decode_offer arr k | _ \<Rightarrow> decode_get arr))
      | Inr _ \<Rightarrow> Inl (Msgpack ''peer sync req must be array''))"

subsection \<open>Synchronisation responses\<close>

definition sync_response_value :: "peer_sync_response \<Rightarrow> mval" where
  "sync_response_value r =
     (case r of PError code \<Rightarrow> MInt (int (unat code)) | PBool b \<Rightarrow> MBool b
      | IdList ids \<Rightarrow> ids_value ids | Payload items \<Rightarrow> ids_value items)"

definition encode_peer_sync_response :: "codec \<Rightarrow> peer_sync_response \<Rightarrow> rns_error + bytes" where
  "encode_peer_sync_response c r = map_sum Msgpack id (write_value c (sync_response_value r))"

fun all_bytes :: "mval list \<Rightarrow> rns_error + bytes list" where
  "all_bytes [] = Inr []"
| "all_bytes (v # vs) =
     (case value_to_bytes v of
        None \<Rightarrow> Inl (Msgpack ''payload must be binary'')
      | Some b \<Rightarrow> map_sum id ((#) b) (all_bytes vs))"

definition decode_peer_sync_response :: "codec \<Rightarrow> bytes \<Rightarrow> rns_error + peer_sync_response" where
  "decode_peer_sync_response c bs =
     (case read_value c bs of
        Inl e \<Rightarrow> Inl (Msgpack e)
      | Inr (MBool b) \<Rightarrow> Inr (PBool b)
      | Inr (MInt i) \<Rightarrow>
         (case as_i64 (MInt i) of
            None \<Rightarrow> Inl (Msgpack ''invalid error code'')
          | Some code \<Rightarrow> (if 0 \<le> code \<and> code \<le> 255 then Inr (PError (word_of_int code))
                          else Inl (Msgpack ''error code out of range'')))
      | Inr (MArr list) \<Rightarrow>
         (case all_bytes list of
            Inl e \<Rightarrow> Inl e
          | Inr binaries \<Rightarrow> Inr (if list_all (\<lambda>b. length b = 32) binaries then IdList binaries else Payload binaries))
      | Inr _ \<Rightarrow> Inl (Msgpack ''invalid peer sync response''))"

subsection \<open>Round trips\<close>

lemma fixed_list_bins [simp]: "\<forall>b \<in> set ids. length b = n \<Longrightarrow> fixed_list n msg (map MBin ids) = Inr ids"
  by (induction ids) (simp_all add: value_to_fixed_bytes_bin)

lemma all_bytes_bins [simp]: "all_bytes (map MBin ids) = Inr ids"
  by (induction ids) (simp_all add: value_to_bytes_def)

definition sync_request_wf :: "peer_sync_request \<Rightarrow> bool" where
  "sync_request_wf r =
     (case r of Offer k av \<Rightarrow> list_all (\<lambda>b. length b = 32) av | MessageGetList \<Rightarrow> True
      | MessageGet ws hs lim \<Rightarrow> list_all (\<lambda>b. length b = 32) (ws @ hs)
      | MessageAck ds \<Rightarrow> list_all (\<lambda>b. length b = 32) ds)"

text \<open>What a receiver sees of a response: a payload of 32-byte items, also an empty one, cannot be told
  from a list of ids.\<close>

definition seen_response :: "peer_sync_response \<Rightarrow> peer_sync_response" where
  "seen_response r = (case r of Payload items \<Rightarrow> if list_all (\<lambda>b. length b = 32) items then IdList items else r | _ \<Rightarrow> r)"

lemma uint_byte_bounds: "- (2 ^ 63) \<le> uint (w :: byte)" "uint w \<le> 255" "uint w < 2 ^ 63"
proof -
  have "uint w < 256" using unsigned_less[of w, where ?'a = int] by simp
  then show "uint w \<le> 255" "uint w < 2 ^ 63" by simp_all
  have "0 \<le> uint w" by simp
  then show "- (2 ^ 63) \<le> uint w" by (rule order_trans[rotated]) simp
qed

lemma as_i64_byte [simp]: "as_i64 (MInt (uint (w :: byte))) = Some (uint w)"
  using uint_byte_bounds[of w] by (simp add: as_i64_def)

lemma decode_sync_request:
  assumes "read_value c bs = Inr (sync_request_value r)" and "sync_request_wf r"
  shows "decode_peer_sync_request c bs = Inr r"
  using assms
  by (cases r) (auto simp: decode_peer_sync_request_def sync_request_value_def sync_request_wf_def decode_offer_def
      decode_get_def opt_ids_def ids_value_def value_to_f64_def list_all_iff split: option.splits)

lemma decode_sync_response:
  assumes "read_value c bs = Inr (sync_response_value r)" and "\<And>ids. r = IdList ids \<Longrightarrow> list_all (\<lambda>b. length b = 32) ids"
  shows "decode_peer_sync_response c bs = Inr (seen_response r)"
proof (cases r)
  case (PError x)
  with assms(1) uint_byte_bounds[of x] show ?thesis
    by (simp add: decode_peer_sync_response_def sync_response_value_def seen_response_def as_i64_byte)
qed (use assms in \<open>auto simp: decode_peer_sync_response_def sync_response_value_def ids_value_def seen_response_def split: if_splits\<close>)

lemma str_bytes_inj [simp]: "str_bytes s = str_bytes t \<longleftrightarrow> s = t"
proof -
  have "inj (\<lambda>c :: char. of_nat (of_char c) :: byte)"
  proof (rule injI)
    fix c d :: char
    assume "of_nat (of_char c) = (of_nat (of_char d) :: byte)"
    then have "unat (of_nat (of_char c) :: byte) = unat (of_nat (of_char d) :: byte)" by simp
    then have "(of_char c :: nat) = of_char d" by (simp add: unat_of_nat)
    then show "c = d" by simp
  qed
  then show ?thesis unfolding str_bytes_def by (simp add: inj_map_eq_map)
qed

lemma key_eq [simp]: "key s = key t \<longleftrightarrow> s = t"
  by (simp add: key_def)

lemma map_of_opt_entry [simp]:
  "map_of (opt_entry k f x) (key k') = (if k = k' then map_option f x else None)"
  by (simp add: opt_entry_def split: option.split)

lemma as_i64_values [simp]:
  "n \<le> u64_max \<Longrightarrow> as_i64 (u64_value n) = Some (u64_as_i64 n)"
  "n \<le> u32_max \<Longrightarrow> as_i64 (u32_value n) = Some (int n)"
  using u64_as_i64_range[of n] by (auto simp: as_i64_def u64_value_def u32_value_def u32_max_def)

lemma hm_insert_fresh: "k \<notin> fst ` set m \<Longrightarrow> hm_insert k v m = m @ [(k, v)]"
  unfolding hm_insert_def by (induction m) auto

lemma restore_metadata_value:
  "distinct (map fst (m @ kvs)) \<Longrightarrow> \<forall>k \<in> fst ` set kvs. utf8_valid k \<Longrightarrow>
    restore_metadata (map (\<lambda>(k, v). (MStr k, MBin v)) kvs) m = m @ kvs"
proof (induction kvs arbitrary: m)
  case (Cons e kvs)
  obtain k v where e: "e = (k, v)" by fastforce
  from Cons.prems have "hm_insert k v m = m @ [(k, v)]" by (intro hm_insert_fresh) (auto simp: e)
  moreover have "restore_metadata (map (\<lambda>(k, v). (MStr k, MBin v)) kvs) (m @ [(k, v)]) = (m @ [(k, v)]) @ kvs"
    by (rule Cons.IH) (use Cons.prems in \<open>auto simp: e\<close>)
  ultimately show ?case using Cons.prems(2) by (simp add: e value_defs)
qed simp

definition metadata_wf :: "(bytes, bytes) hmap \<Rightarrow> bool" where
  "metadata_wf m \<longleftrightarrow> hm_wf m \<and> list_all (\<lambda>(k, v). utf8_valid k) m"

lemma restore_metadata_all: "metadata_wf m \<Longrightarrow> restore_metadata (map (\<lambda>(k, v). (MStr k, MBin v)) m) [] = m"
  using restore_metadata_value[of "[]" m] by (force simp: metadata_wf_def hm_wf_def list_all_iff)

text \<open>The values that a \<open>u32\<close> or \<open>u64\<close> field of a peer can have.\<close>

definition peer_wf :: "peer \<Rightarrow> bool" where
  "peer_wf p \<longleftrightarrow> length (peer_id p) = DESTINATION_LENGTH
     \<and> list_all (\<lambda>n. n \<le> u64_max) [peering_timebase p, last_heard_ms p, messages_offered p, messages_outgoing p,
         messages_incoming p, peer_rx_bytes p, peer_tx_bytes p, last_attempt_ms p]
     \<and> pred_option (\<lambda>n. n \<le> u64_max) (propagation_sync_limit p)
     \<and> list_all (pred_option (\<lambda>n. n \<le> u32_max)) [peering_key_value p, peering_cost p, propagation_stamp_cost p,
         propagation_stamp_cost_flexibility p]
     \<and> pred_option metadata_wf (peer_metadata p)"

text \<open>What \<open>from_bytes\<close> recovers: the stored fields; the state is reduced to alive or not, the schedule
  and the queues start afresh, and a missing synchronisation limit is taken from the transfer limit.\<close>

definition stored_peer :: "peer \<Rightarrow> nat \<Rightarrow> peer" where
  "stored_peer p now =
     (peer_new (peer_id p) now)\<lparr>peer_state := (if is_alive p then PIdle else Backoff),
        last_attempt_ms := last_attempt_ms p, last_heard_ms := last_heard_ms p, peer_rx_bytes := peer_rx_bytes p,
        peer_tx_bytes := peer_tx_bytes p, messages_offered := messages_offered p, messages_outgoing := messages_outgoing p,
        messages_incoming := messages_incoming p, peering_key := peering_key p, peering_key_value := peering_key_value p,
        sync_transfer_rate := sync_transfer_rate p, sync_strategy := sync_strategy p, peering_cost := peering_cost p,
        peer_metadata := peer_metadata p, peering_timebase := peering_timebase p,
        link_establishment_rate := link_establishment_rate p, propagation_transfer_limit := propagation_transfer_limit p,
        propagation_sync_limit := (case propagation_sync_limit p of Some l \<Rightarrow> Some l
           | None \<Rightarrow> map_option f64_as_u64 (propagation_transfer_limit p)),
        propagation_stamp_cost := propagation_stamp_cost p,
        propagation_stamp_cost_flexibility := propagation_stamp_cost_flexibility p\<rparr>"

lemma u64_or_zero_value: "n \<le> u64_max \<Longrightarrow> u64_or_zero (Some (u64_value n)) = n"
  by (simp add: u64_or_zero_def width_simps)

lemma set_int_u64: "n \<le> u64_max \<Longrightarrow> set_int (Some (u64_value n)) f p = f (u64_as_i64 n) p"
  by (simp add: set_int_def)

lemma set_int_u32: "n \<le> u32_max \<Longrightarrow> set_int (Some (u32_value n)) f p = f (int n) p"
  by (simp add: set_int_def)

lemma set_int_None: "set_int None f p = p"
  by (simp add: set_int_def)

lemma peer_lookups:
  fixes p :: peer
  defines "get \<equiv> map_of (peer_entries p)"
  shows "get (key ''destination_hash'') = Some (MBin (peer_id p))"
    "get (key ''peering_timebase'') = Some (u64_value (peering_timebase p))"
    "get (key ''alive'') = Some (MBool (is_alive p))"
    "get (key ''last_heard'') = Some (u64_value (last_heard_ms p))"
    "get (key ''sync_strategy'') = Some (MInt (int (unat (sync_strategy p))))"
    "get (key ''peering_key'') = map_option MBin (peering_key p)"
    "get (key ''peering_key_value'') = map_option u32_value (peering_key_value p)"
    "get (key ''peering_cost'') = map_option u32_value (peering_cost p)"
    "get (key ''metadata'') = map_option metadata_value (peer_metadata p)"
    "get (key ''link_establishment_rate'') = Some (MF64 (link_establishment_rate p))"
    "get (key ''sync_transfer_rate'') = Some (MF64 (sync_transfer_rate p))"
    "get (key ''propagation_transfer_limit'') = map_option MF64 (propagation_transfer_limit p)"
    "get (key ''propagation_sync_limit'') = map_option u64_value (propagation_sync_limit p)"
    "get (key ''propagation_stamp_cost'') = map_option u32_value (propagation_stamp_cost p)"
    "get (key ''propagation_stamp_cost_flexibility'') = map_option u32_value (propagation_stamp_cost_flexibility p)"
    "get (key ''offered'') = Some (u64_value (messages_offered p))"
    "get (key ''outgoing'') = Some (u64_value (messages_outgoing p))"
    "get (key ''incoming'') = Some (u64_value (messages_incoming p))"
    "get (key ''rx_bytes'') = Some (u64_value (peer_rx_bytes p))"
    "get (key ''tx_bytes'') = Some (u64_value (peer_tx_bytes p))"
    "get (key ''last_sync_attempt'') = Some (u64_value (last_attempt_ms p))"
  unfolding get_def peer_entries_def by (simp_all add: map_add_def option.case_eq_if)

lemma restored_base:
  "peer_wf p \<Longrightarrow> restore_base (map_of (peer_entries p)) i now =
    (peer_new i now)\<lparr>peer_state := (if is_alive p then PIdle else Backoff),
       peering_timebase := peering_timebase p, last_heard_ms := last_heard_ms p\<rparr>"
  unfolding restore_base_def peer_lookups by (simp add: peer_wf_def u64_or_zero_value set_alive_def peer_new_def)

lemma restored_rates:
  "restore_rates (map_of (peer_entries p)) q = q\<lparr>sync_strategy := sync_strategy p,
     link_establishment_rate := link_establishment_rate p, sync_transfer_rate := sync_transfer_rate p\<rparr>"
  unfolding restore_rates_def peer_lookups Let_def by (simp add: value_to_f64_def)

lemma restored_limits:
  assumes "peer_wf p" and "propagation_transfer_limit q = None" "propagation_stamp_cost q = None"
    "propagation_stamp_cost_flexibility q = None"
  shows "restore_limits (map_of (peer_entries p)) q = q\<lparr>propagation_transfer_limit := propagation_transfer_limit p,
      propagation_sync_limit := (case propagation_sync_limit p of Some l \<Rightarrow> Some l
        | None \<Rightarrow> map_option f64_as_u64 (propagation_transfer_limit p)),
      propagation_stamp_cost := propagation_stamp_cost p,
      propagation_stamp_cost_flexibility := propagation_stamp_cost_flexibility p\<rparr>"
  using assms unfolding restore_limits_def peer_lookups Let_def peer_wf_def
  by (cases "propagation_transfer_limit p"; cases "propagation_sync_limit p"; cases "propagation_stamp_cost p";
      cases "propagation_stamp_cost_flexibility p")
    (simp_all add: set_int_u32 set_int_None value_to_f64_def width_simps)

lemma restored_key:
  assumes "peer_wf p" and "peering_cost q = None" "peering_key q = None" "peering_key_value q = None" "peer_metadata q = None"
  shows "restore_key (map_of (peer_entries p)) q = q\<lparr>peering_cost := peering_cost p, peering_key := peering_key p,
      peering_key_value := peering_key_value p, peer_metadata := peer_metadata p\<rparr>"
  using assms unfolding restore_key_def peer_lookups Let_def peer_wf_def
  by (cases "peering_cost p"; cases "peering_key p"; cases "peering_key_value p"; cases "peer_metadata p")
    (simp_all add: set_int_u32 set_int_None value_to_bytes_def metadata_value_def restore_metadata_all width_simps)

lemma restored_counts:
  "peer_wf p \<Longrightarrow> restore_counts (map_of (peer_entries p)) q = q\<lparr>messages_offered := messages_offered p,
     messages_outgoing := messages_outgoing p, messages_incoming := messages_incoming p, peer_rx_bytes := peer_rx_bytes p,
     peer_tx_bytes := peer_tx_bytes p, last_attempt_ms := last_attempt_ms p\<rparr>"
  unfolding restore_counts_def peer_lookups Let_def by (simp add: peer_wf_def set_int_u64 width_simps)


subsection \<open>Properties\<close>

text \<open>Stored peers: a peer written by \<open>to_bytes\<close> is read back by \<open>from_bytes\<close> with every stored field;
  64-bit counters survive the detour through signed integers.\<close>

theorem peer_storage_roundtrip:
  assumes "peer_wf p" and "peer_to_bytes c p = Inr b" and "reads_back c (MMap (peer_entries p))"
  shows "peer_from_bytes c b now = Inr (stored_peer p now)"
proof -
  have "read_value c b = Inr (MMap (peer_entries p))"
    using assms(2,3) by (auto simp: peer_to_bytes_def reads_back_def map_sum_def split: sum.splits)
  moreover have "value_to_fixed_bytes DESTINATION_LENGTH (MBin (peer_id p)) = Some (peer_id p)"
    using assms(1) by (simp add: peer_wf_def value_to_fixed_bytes_bin)
  ultimately show ?thesis using assms(1)
    by (simp add: peer_from_bytes_def peer_lookups restored_base restored_rates restored_limits restored_key
        restored_counts stored_peer_def peer_new_def)
qed

definition sample_peer :: peer where
  "sample_peer = on_failure 5 ((peer_new (replicate 16 1) 0)\<lparr>peering_cost := Some 18, messages_offered := u64_max,
     peer_metadata := Some [([65], [1])], propagation_transfer_limit := Some (u64_to_f64 256)\<rparr>)"

theorem peer_storage_roundtrip_witness:
  "\<exists>b. peer_to_bytes ref_codec sample_peer = Inr b \<and> peer_from_bytes ref_codec b 9 = Inr (stored_peer sample_peer 9)
    \<and> messages_offered (stored_peer sample_peer 9) = u64_max \<and> peer_state (stored_peer sample_peer 9) = Backoff"
proof -
  have wf: "peer_wf sample_peer"
    by (simp add: sample_peer_def peer_wf_def on_failure_def peer_new_def DESTINATION_LENGTH_def metadata_wf_def hm_wf_def
        u64_max_def u32_max_def Let_def)
  have rb: "reads_back ref_codec (MMap (peer_entries sample_peer))"
    by (rule ref_codec_reads_back)
      (simp add: peer_entries_def sample_peer_def opt_entry_def u64_value_def u32_value_def metadata_value_def key_def
        str_bytes_def on_failure_def peer_new_def u64_as_i64_def u64_max_def DEFAULT_SYNC_STRATEGY_def Let_def)
  obtain b where b: "peer_to_bytes ref_codec sample_peer = Inr b"
    by (simp add: peer_to_bytes_def ref_codec_def)
  from peer_storage_roundtrip[OF wf b rb, of 9] b show ?thesis
    by (simp add: stored_peer_def sample_peer_def on_failure_def peer_new_def is_alive_def Let_def)
qed

text \<open>Synchronisation messages: every request decodes to itself; every response decodes to itself
  except that a payload all of whose items have 32 bytes, in particular an empty one, is taken for a
  list of ids.\<close>

theorem peer_sync_roundtrip:
  assumes "encode_peer_sync_request c req = Inr b" and "sync_request_wf req" and "reads_back c (sync_request_value req)"
    and "encode_peer_sync_response c rsp = Inr b'" and "\<And>ids. rsp = IdList ids \<Longrightarrow> list_all (\<lambda>i. length i = 32) ids"
    and "reads_back c (sync_response_value rsp)"
  shows "decode_peer_sync_request c b = Inr req
    \<and> decode_peer_sync_response c b' = Inr (case rsp of
         Payload items \<Rightarrow> if list_all (\<lambda>i. length i = 32) items then IdList items else Payload items | _ \<Rightarrow> rsp)"
proof -
  have "read_value c b = Inr (sync_request_value req)" "read_value c b' = Inr (sync_response_value rsp)"
    using assms(1,3,4,6)
    by (auto simp: encode_peer_sync_request_def encode_peer_sync_response_def reads_back_def map_sum_def split: sum.splits)
  from decode_sync_request[OF this(1) assms(2)] decode_sync_response[OF this(2) assms(5)] show ?thesis
    by (simp add: seen_response_def split: peer_sync_response.split)
qed

theorem peer_sync_roundtrip_witness:
  "\<exists>b b'. encode_peer_sync_request ref_codec (MessageGet [replicate 32 1] [] (Some 5)) = Inr b
    \<and> decode_peer_sync_request ref_codec b = Inr (MessageGet [replicate 32 1] [] (Some 5))
    \<and> encode_peer_sync_response ref_codec (Payload []) = Inr b' \<and> decode_peer_sync_response ref_codec b' = Inr (IdList [])"
proof -
  let ?r = "MessageGet [replicate 32 1] [] (Some 5)"
  obtain b b' where b: "encode_peer_sync_request ref_codec ?r = Inr b" "encode_peer_sync_response ref_codec (Payload []) = Inr b'"
    by (simp add: encode_peer_sync_request_def encode_peer_sync_response_def ref_codec_def)
  have "sync_request_wf ?r" by (simp add: sync_request_wf_def)
  moreover have "reads_back ref_codec (sync_request_value ?r)" "reads_back ref_codec (sync_response_value (Payload []))"
    by (simp_all add: ref_codec_reads_back sync_request_value_def sync_response_value_def ids_value_def)
  ultimately show ?thesis using peer_sync_roundtrip[OF b(1) _ _ b(2)] b by auto
qed


end
