(* ===== verification/Pn_Directory.thy ===== *)
theory Pn_Directory
  imports Peer_Wire
begin

section \<open>The directory of propagation nodes (lxmf-rs/src/pn.rs, lxmf-rs/src/rns/pn.rs)\<close>

text \<open>
  \<open>PnDirectory\<close> keeps the announced propagation nodes with the name and stamp cost found in their
  announce data; \<open>PnDirService\<close> answers list, get and acknowledge requests and applies the answers of
  another node. Beside them the accessors for announce data and the wire format.
\<close>

subsection \<open>Announce data\<close>

definition PN_META_NAME :: nat where "PN_META_NAME = 1"

text \<open>Text that may be given as bytes or as a string.\<close>

definition text_value :: "mval \<Rightarrow> bytes option" where
  "text_value v = (case v of MBin b \<Rightarrow> as_str b | MStr s \<Rightarrow> as_str s | _ \<Rightarrow> None)"

definition is_int :: "mval \<Rightarrow> bool" where
  "is_int v = (case v of MInt _ \<Rightarrow> True | _ \<Rightarrow> False)"

definition is_msgpack_list :: "bytes \<Rightarrow> bool" where
  "is_msgpack_list d = (case d of [] \<Rightarrow> False | b # _ \<Rightarrow> (0x90 \<le> b \<and> b \<le> 0x9f) \<or> b = 0xdc)"

definition read_array :: "codec \<Rightarrow> bytes \<Rightarrow> mval list option" where
  "read_array c d = (case read_value c d of Inr (MArr arr) \<Rightarrow> Some arr | _ \<Rightarrow> None)"

definition display_name_from_app_data :: "codec \<Rightarrow> bytes \<Rightarrow> bytes option" where
  "display_name_from_app_data c d =
     (if d = [] then None
      else if is_msgpack_list d then
        (case read_array c d of
           None \<Rightarrow> None
         | Some arr \<Rightarrow> (case arr of [] \<Rightarrow> None | dn # _ \<Rightarrow> text_value dn))
      else as_str d)"

definition stamp_cost_from_app_data :: "codec \<Rightarrow> bytes \<Rightarrow> nat option" where
  "stamp_cost_from_app_data c d =
     (if d = [] then None
      else if is_msgpack_list d then
        (case read_array c d of
           None \<Rightarrow> None
         | Some arr \<Rightarrow> (if length arr < 2 then None else as_u64 (arr ! 1)))
      else None)"

definition pn_announce_data_is_valid :: "codec \<Rightarrow> bytes \<Rightarrow> bool" where
  "pn_announce_data_is_valid c d =
     (case read_array c d of
        None \<Rightarrow> False
      | Some data \<Rightarrow>
         7 \<le> length data \<and> is_int (data ! 1) \<and> (case data ! 2 of MBool _ \<Rightarrow> True | _ \<Rightarrow> False)
         \<and> is_int (data ! 3) \<and> is_int (data ! 4)
         \<and> (case data ! 5 of MArr costs \<Rightarrow> 3 \<le> length costs \<and> is_int (costs ! 0) \<and> is_int (costs ! 1) \<and> is_int (costs ! 2)
            | _ \<Rightarrow> False)
         \<and> (case data ! 6 of MMap _ \<Rightarrow> True | _ \<Rightarrow> False))"

fun meta_name :: "(mval \<times> mval) list \<Rightarrow> bytes option" where
  "meta_name [] = None"
| "meta_name ((k, v) # kvs) = (if as_u64 k = Some PN_META_NAME then text_value v else meta_name kvs)"

definition pn_name_from_app_data :: "codec \<Rightarrow> bytes \<Rightarrow> bytes option" where
  "pn_name_from_app_data c d =
     (if \<not> pn_announce_data_is_valid c d then None
      else (case read_array c d of
         None \<Rightarrow> None
       | Some data \<Rightarrow> (case data ! 6 of MMap kvs \<Rightarrow> meta_name kvs | _ \<Rightarrow> None)))"

definition pn_stamp_cost_from_app_data :: "codec \<Rightarrow> bytes \<Rightarrow> nat option" where
  "pn_stamp_cost_from_app_data c d =
     (case read_array c d of
        None \<Rightarrow> None
      | Some data \<Rightarrow>
         (if length data < 7 then None
          else (case data ! 5 of MArr (first # _) \<Rightarrow> as_u64 first | _ \<Rightarrow> None)))"

subsection \<open>The directory\<close>

record pn_entry =
  pn_destination :: bytes
  pn_app_data :: bytes
  pn_name :: "bytes option"
  pn_stamp_cost :: "nat option"
  last_seen_ms :: nat
  acked :: bool

type_synonym pn_directory = "(bytes, pn_entry) hmap"

text \<open>The result is False for \<open>PnDirectoryError::InvalidAnnounce\<close>.\<close>

definition upsert_announce :: "codec \<Rightarrow> bytes \<Rightarrow> bytes \<Rightarrow> nat \<Rightarrow> pn_directory \<Rightarrow> bool \<times> pn_directory" where
  "upsert_announce c dest d now dir =
     (if \<not> pn_announce_data_is_valid c d then (False, dir)
      else (let was = (case map_of dir dest of Some e \<Rightarrow> acked e | None \<Rightarrow> False) in
        (True, hm_insert dest \<lparr>pn_destination = dest, pn_app_data = d, pn_name = pn_name_from_app_data c d,
                 pn_stamp_cost = pn_stamp_cost_from_app_data c d, last_seen_ms = now, acked = was\<rparr> dir)))"

definition pn_list :: "pn_directory \<Rightarrow> pn_entry list" where
  "pn_list dir = sort_key last_seen_ms (map snd dir)"

definition dir_stamp_cost :: "bytes \<Rightarrow> pn_directory \<Rightarrow> nat option" where
  "dir_stamp_cost dest dir = (case map_of dir dest of Some e \<Rightarrow> pn_stamp_cost e | None \<Rightarrow> None)"

definition acknowledge :: "bytes \<Rightarrow> pn_directory \<Rightarrow> bool \<times> pn_directory" where
  "acknowledge dest dir =
     (case map_of dir dest of
        Some e \<Rightarrow> (True, hm_modify dest (\<lambda>e. e\<lparr>acked := True\<rparr>) dir)
      | None \<Rightarrow> (False, dir))"

definition pn_delete :: "bytes \<Rightarrow> pn_directory \<Rightarrow> pn_entry option \<times> pn_directory" where
  "pn_delete dest dir = (map_of dir dest, hm_remove dest dir)"

definition list_unacked :: "pn_directory \<Rightarrow> pn_entry list" where
  "list_unacked dir = sort_key last_seen_ms (filter (\<lambda>e. \<not> acked e) (map snd dir))"

subsection \<open>The service\<close>

record pn_entry_wire =
  w_destination :: bytes
  w_app_data :: bytes
  w_last_seen_ms :: nat
  w_acked :: bool

datatype pn_dir_request = PnList | PnGet bytes | PnAck "bytes list"
datatype pn_dir_response = PnListR "pn_entry_wire list" | PnGetR "pn_entry_wire option" | PnAckR "bytes list"
datatype pn_dir_packet = PnRequest pn_dir_request | PnResponse pn_dir_response

definition entry_wire :: "pn_entry \<Rightarrow> pn_entry_wire" where
  "entry_wire e = \<lparr>w_destination = pn_destination e, w_app_data = pn_app_data e, w_last_seen_ms = last_seen_ms e, w_acked = acked e\<rparr>"

fun acknowledge_all :: "bytes list \<Rightarrow> pn_directory \<Rightarrow> bytes list \<times> pn_directory" where
  "acknowledge_all [] dir = ([], dir)"
| "acknowledge_all (h # hs) dir =
     (let (ok, dir1) = acknowledge h dir; (out, dir2) = acknowledge_all hs dir1 in (if ok then h # out else out, dir2))"

definition pn_handle_request :: "pn_dir_request \<Rightarrow> pn_directory \<Rightarrow> pn_dir_response \<times> pn_directory" where
  "pn_handle_request req dir =
     (case req of
        PnList \<Rightarrow> (PnListR (map entry_wire (pn_list dir)), dir)
      | PnGet h \<Rightarrow> (PnGetR (map_option entry_wire (map_of dir h)), dir)
      | PnAck hs \<Rightarrow> (let (out, dir1) = acknowledge_all hs dir in (PnAckR out, dir1)))"

definition apply_entry :: "codec \<Rightarrow> nat \<Rightarrow> pn_entry_wire \<Rightarrow> pn_directory \<Rightarrow> pn_directory" where
  "apply_entry c now w dir =
     (let dir1 = snd (upsert_announce c (w_destination w) (w_app_data w) (max (w_last_seen_ms w) now) dir) in
      if w_acked w then snd (acknowledge (w_destination w) dir1) else dir1)"

definition pn_apply_response :: "codec \<Rightarrow> pn_dir_response \<Rightarrow> nat \<Rightarrow> pn_directory \<Rightarrow> pn_directory" where
  "pn_apply_response c rsp now dir =
     (case rsp of
        PnListR es \<Rightarrow> fold (apply_entry c now) es dir
      | PnGetR None \<Rightarrow> dir
      | PnGetR (Some e) \<Rightarrow> apply_entry c now e dir
      | PnAckR hs \<Rightarrow> snd (acknowledge_all hs dir))"

subsection \<open>Wire format\<close>

definition entry_to_value :: "pn_entry_wire \<Rightarrow> mval" where
  "entry_to_value e = MArr [MBin (w_destination e), MBin (w_app_data e), u64_value (w_last_seen_ms e), MBool (w_acked e)]"

definition entry_from_value :: "mval \<Rightarrow> rns_error + pn_entry_wire" where
  "entry_from_value v =
     (case v of
        MArr arr \<Rightarrow>
         (if length arr < 4 then Inl (Msgpack ''entry missing fields'')
          else (case value_to_fixed_bytes DESTINATION_LENGTH (arr ! 0) of
             None \<Rightarrow> Inl (Msgpack ''invalid entry hash'')
           | Some dest \<Rightarrow>
              (case value_to_bytes (arr ! 1) of
                 None \<Rightarrow> Inl (Msgpack ''invalid app data'')
               | Some d \<Rightarrow>
                  (case as_i64 (arr ! 2) of
                     None \<Rightarrow> Inl (Msgpack ''invalid last_seen'')
                   | Some raw \<Rightarrow>
                      (if raw < 0 then Inl (Msgpack ''negative last_seen'')
                       else (case arr ! 3 of
                          MBool a \<Rightarrow> Inr \<lparr>w_destination = dest, w_app_data = d, w_last_seen_ms = nat raw, w_acked = a\<rparr>
                        | _ \<Rightarrow> Inl (Msgpack ''invalid ack flag'')))))))
      | _ \<Rightarrow> Inl (Msgpack ''entry must be array''))"

fun entries_from_values :: "mval list \<Rightarrow> rns_error + pn_entry_wire list" where
  "entries_from_values [] = Inr []"
| "entries_from_values (v # vs) =
     (case entry_from_value v of Inl e \<Rightarrow> Inl e | Inr x \<Rightarrow> map_sum id ((#) x) (entries_from_values vs))"

definition pn_request_value :: "pn_dir_request \<Rightarrow> mval" where
  "pn_request_value r =
     (case r of PnList \<Rightarrow> MArr [MInt 1] | PnGet h \<Rightarrow> MArr [MInt 2, MBin h] | PnAck hs \<Rightarrow> MArr [MInt 3, MArr (map MBin hs)])"

definition encode_pn_dir_request :: "codec \<Rightarrow> pn_dir_request \<Rightarrow> rns_error + bytes" where
  "encode_pn_dir_request c r = map_sum Msgpack id (write_value c (pn_request_value r))"

definition ack_list :: "mval list \<Rightarrow> rns_error + bytes list" where
  "ack_list arr =
     (if length arr < 2 then Inl (Msgpack ''missing ack list'')
      else (case arr ! 1 of
         MArr vals \<Rightarrow> fixed_list DESTINATION_LENGTH ''invalid hash'' vals
       | _ \<Rightarrow> Inl (Msgpack ''ack list must be array'')))"

definition decode_pn_dir_request :: "codec \<Rightarrow> bytes \<Rightarrow> rns_error + pn_dir_request" where
  "decode_pn_dir_request c bs =
     (case read_value c bs of
        Inl e \<Rightarrow> Inl (Msgpack e)
      | Inr (MArr arr) \<Rightarrow>
         (if arr = [] then Inl (Msgpack ''pn dir request missing op'')
          else (case as_i64 (arr ! 0) of
             None \<Rightarrow> Inl (Msgpack ''pn dir op invalid'')
           | Some x \<Rightarrow>
              (if x = 1 then Inr PnList
               else if x = 2 then
                 (if length arr < 2 then Inl (Msgpack ''missing hash'')
                  else (case value_to_fixed_bytes DESTINATION_LENGTH (arr ! 1) of
                     None \<Rightarrow> Inl (Msgpack ''invalid hash'') | Some h \<Rightarrow> Inr (PnGet h)))
               else if x = 3 then map_sum id PnAck (ack_list arr)
               else Inl (Msgpack ''unknown pn dir op''))))
      | Inr _ \<Rightarrow> Inl (Msgpack ''pn dir request must be array''))"

definition pn_response_value :: "pn_dir_response \<Rightarrow> mval" where
  "pn_response_value r =
     (case r of
        PnListR es \<Rightarrow> MArr [MInt 1, MArr (map entry_to_value es)]
      | PnGetR e \<Rightarrow> MArr [MInt 2, (case e of Some x \<Rightarrow> entry_to_value x | None \<Rightarrow> MNil)]
      | PnAckR hs \<Rightarrow> MArr [MInt 3, MArr (map MBin hs)])"

definition encode_pn_dir_response :: "codec \<Rightarrow> pn_dir_response \<Rightarrow> rns_error + bytes" where
  "encode_pn_dir_response c r = map_sum Msgpack id (write_value c (pn_response_value r))"

definition decode_pn_dir_response :: "codec \<Rightarrow> bytes \<Rightarrow> rns_error + pn_dir_response" where
  "decode_pn_dir_response c bs =
     (case read_value c bs of
        Inl e \<Rightarrow> Inl (Msgpack e)
      | Inr (MArr arr) \<Rightarrow>
         (if arr = [] then Inl (Msgpack ''pn dir response missing op'')
          else (case as_i64 (arr ! 0) of
             None \<Rightarrow> Inl (Msgpack ''pn dir op invalid'')
           | Some x \<Rightarrow>
              (if x = 1 then
                 (if length arr < 2 then Inl (Msgpack ''missing list'')
                  else (case arr ! 1 of
                     MArr vals \<Rightarrow> map_sum id PnListR (entries_from_values vals)
                   | _ \<Rightarrow> Inl (Msgpack ''list must be array'')))
               else if x = 2 then
                 (if length arr < 2 then Inl (Msgpack ''missing entry'')
                  else if arr ! 1 = MNil then Inr (PnGetR None)
                  else map_sum id (\<lambda>e. PnGetR (Some e)) (entry_from_value (arr ! 1)))
               else if x = 3 then map_sum id PnAckR (ack_list arr)
               else Inl (Msgpack ''unknown pn dir op''))))
      | Inr _ \<Rightarrow> Inl (Msgpack ''pn dir response must be array''))"

definition decode_pn_dir_packet :: "codec \<Rightarrow> packet \<Rightarrow> rns_error + pn_dir_packet" where
  "decode_pn_dir_packet c p =
     (if p_context p = Request then map_sum id PnRequest (decode_pn_dir_request c (sb_as_slice (p_data p)))
      else if p_context p = Response then map_sum id PnResponse (decode_pn_dir_response c (sb_as_slice (p_data p)))
      else Inl (Msgpack ''unsupported pn dir packet context''))"

subsection \<open>Well-formed directories\<close>

definition entry_ok :: "codec \<Rightarrow> bytes \<times> pn_entry \<Rightarrow> bool" where
  "entry_ok c he = (case he of (h, e) \<Rightarrow>
     pn_destination e = h \<and> pn_announce_data_is_valid c (pn_app_data e)
     \<and> pn_name e = pn_name_from_app_data c (pn_app_data e) \<and> pn_stamp_cost e = pn_stamp_cost_from_app_data c (pn_app_data e))"

definition dir_wf :: "codec \<Rightarrow> pn_directory \<Rightarrow> bool" where
  "dir_wf c dir \<longleftrightarrow> hm_wf dir \<and> list_all (entry_ok c) dir"

lemma upsert_announce_wf: "dir_wf c dir \<Longrightarrow> dir_wf c (snd (upsert_announce c dest d now dir))"
  by (auto simp: dir_wf_def upsert_announce_def hm_wf_insert list_all_iff set_hm_insert entry_ok_def Let_def split: if_splits)

lemma set_hm_modify: "(h, e) \<in> set (hm_modify k f m) \<Longrightarrow> (h, e) \<in> set m \<or> (h = k \<and> (\<exists>e'. (h, e') \<in> set m \<and> e = f e'))"
  by (auto simp: hm_modify_def split: if_splits)

lemma acknowledge_wf: "dir_wf c dir \<Longrightarrow> dir_wf c (snd (acknowledge dest dir))"
  unfolding dir_wf_def acknowledge_def list_all_iff
  by (auto simp: hm_wf_modify entry_ok_def split: option.splits dest!: set_hm_modify)

lemma pn_delete_wf: "dir_wf c dir \<Longrightarrow> dir_wf c (snd (pn_delete dest dir))"
  by (auto simp: dir_wf_def pn_delete_def hm_wf_remove list_all_iff set_hm_remove)

lemma acknowledge_all_wf: "dir_wf c dir \<Longrightarrow> dir_wf c (snd (acknowledge_all hs dir))"
proof (induction hs arbitrary: dir)
  case (Cons h hs)
  then show ?case using acknowledge_wf[OF Cons.prems, of h] by (auto simp: case_prod_beta Let_def)
qed simp

lemma apply_entry_wf: "dir_wf c dir \<Longrightarrow> dir_wf c (apply_entry c now w dir)"
  by (simp add: apply_entry_def Let_def upsert_announce_wf acknowledge_wf)

lemma apply_entries_wf: "dir_wf c dir \<Longrightarrow> dir_wf c (fold (apply_entry c now) es dir)"
  by (induction es arbitrary: dir) (simp_all add: apply_entry_wf)

inductive pn_step :: "codec \<Rightarrow> pn_directory \<Rightarrow> pn_directory \<Rightarrow> bool" for c where
  Announce: "pn_step c dir (snd (upsert_announce c dest d now dir))"
| Acknowledge: "pn_step c dir (snd (acknowledge dest dir))"
| Delete: "pn_step c dir (snd (pn_delete dest dir))"
| Serve: "pn_step c dir (snd (pn_handle_request req dir))"
| Apply: "pn_step c dir (pn_apply_response c rsp now dir)"

lemma pn_step_wf: "pn_step c dir dir' \<Longrightarrow> dir_wf c dir \<Longrightarrow> dir_wf c dir'"
proof (induction rule: pn_step.induct)
  case (Apply dir rsp now)
  then show ?case
    by (auto simp: pn_apply_response_def apply_entries_wf apply_entry_wf acknowledge_all_wf
        split: pn_dir_response.split option.split)
qed (auto simp: upsert_announce_wf acknowledge_wf pn_delete_wf pn_handle_request_def acknowledge_all_wf case_prod_beta
    split: pn_dir_request.split)

lemma pn_reachable_wf: "(pn_step c)\<^sup>*\<^sup>* [] dir \<Longrightarrow> dir_wf c dir"
  by (induction rule: rtranclp_induct) (auto intro: pn_step_wf, simp add: dir_wf_def hm_wf_def)

subsection \<open>Merging\<close>

text \<open>What one received entry makes of the local one.\<close>

definition merged :: "codec \<Rightarrow> nat \<Rightarrow> pn_entry_wire \<Rightarrow> pn_entry option \<Rightarrow> pn_entry" where
  "merged c now w old =
     \<lparr>pn_destination = w_destination w, pn_app_data = w_app_data w, pn_name = pn_name_from_app_data c (w_app_data w),
      pn_stamp_cost = pn_stamp_cost_from_app_data c (w_app_data w), last_seen_ms = max (w_last_seen_ms w) now,
      acked = (w_acked w \<or> (case old of Some e \<Rightarrow> acked e | None \<Rightarrow> False))\<rparr>"

lemma apply_entry_lookup:
  "pn_announce_data_is_valid c (w_app_data w) \<Longrightarrow>
    map_of (apply_entry c now w dir) h =
      (if h = w_destination w then Some (merged c now w (map_of dir h)) else map_of dir h)"
  by (auto simp: apply_entry_def upsert_announce_def acknowledge_def merged_def map_of_hm_insert map_of_hm_modify Let_def
      split: option.split)

lemma apply_entries_lookup:
  "distinct (map w_destination es) \<Longrightarrow> \<forall>w \<in> set es. pn_announce_data_is_valid c (w_app_data w) \<Longrightarrow>
    map_of (fold (apply_entry c now) es dir) h =
      (case map_of (map (\<lambda>w. (w_destination w, w)) es) h of
         Some w \<Rightarrow> Some (merged c now w (map_of dir h)) | None \<Rightarrow> map_of dir h)"
proof (induction es arbitrary: dir)
  case (Cons w es)
  have IH: "map_of (fold (apply_entry c now) es (apply_entry c now w dir)) h =
      (case map_of (map (\<lambda>w. (w_destination w, w)) es) h of
         Some w' \<Rightarrow> Some (merged c now w' (map_of (apply_entry c now w dir) h)) | None \<Rightarrow> map_of (apply_entry c now w dir) h)"
    by (rule Cons.IH) (use Cons.prems in auto)
  have "map_of (map (\<lambda>w. (w_destination w, w)) es) (w_destination w) = None"
    using Cons.prems(1) by (auto simp: map_of_eq_None_iff)
  with IH Cons.prems show ?case by (auto simp: apply_entry_lookup split: option.splits)
qed simp

lemma option_same: "(\<And>x. a = Some x \<longleftrightarrow> b = Some x) \<Longrightarrow> a = b"
  by (cases a; cases b) auto

lemma list_lookup:
  assumes "dir_wf c dir"
  shows "map_of (map (\<lambda>w. (w_destination w, w)) (map entry_wire (pn_list dir))) h = map_option entry_wire (map_of dir h)"
    and "distinct (map w_destination (map entry_wire (pn_list dir)))"
proof -
  let ?ws = "map entry_wire (pn_list dir)"
  have dest: "pn_destination e = h" if "(h, e) \<in> set dir" for h e
    using that assms by (auto simp: dir_wf_def list_all_iff entry_ok_def)
  have "mset (map w_destination ?ws) = mset (map (\<lambda>he. pn_destination (snd he)) dir)"
    by (simp add: pn_list_def entry_wire_def o_def image_mset.comp multiset.map_comp)
  also have "map (\<lambda>he. pn_destination (snd he)) dir = map fst dir" using dest by (auto intro: map_cong)
  finally have m: "mset (map w_destination ?ws) = mset (map fst dir)" .
  have "distinct (map fst dir)" using assms by (simp add: dir_wf_def hm_wf_def)
  with m show d: "distinct (map w_destination ?ws)" by (metis mset_eq_imp_distinct_iff)
  let ?kv = "map (\<lambda>w. (w_destination w, w)) ?ws"
  have wf: "hm_wf ?kv" using d by (simp add: hm_wf_def o_def)
  have "set ?kv = (\<lambda>he. (pn_destination (snd he), entry_wire (snd he))) ` set dir"
    by (simp add: pn_list_def image_image) (simp add: entry_wire_def)
  also have "\<dots> = (\<lambda>(h, e). (h, entry_wire e)) ` set dir" by (rule image_cong) (auto simp: dest)
  finally have "(h, w) \<in> set ?kv \<longleftrightarrow> (\<exists>e. (h, e) \<in> set dir \<and> w = entry_wire e)" for w by force
  then have "map_of ?kv h = Some w \<longleftrightarrow> map_option entry_wire (map_of dir h) = Some w" for w
    using hm_get_in[OF wf] hm_get_in[of dir] assms by (auto simp: dir_wf_def)
  then show "map_of ?kv h = map_option entry_wire (map_of dir h)" by (rule option_same)
qed

subsection \<open>Wire round trips\<close>

definition wire_ok :: "pn_entry_wire \<Rightarrow> bool" where
  "wire_ok w \<longleftrightarrow> length (w_destination w) = DESTINATION_LENGTH \<and> w_last_seen_ms w < 2 ^ 63"

lemma entry_value_roundtrip: "wire_ok w \<Longrightarrow> entry_from_value (entry_to_value w) = Inr w"
  by (simp add: wire_ok_def entry_from_value_def entry_to_value_def value_to_fixed_bytes_bin value_to_bytes_def
      u64_value_def u64_as_i64_def as_i64_def)

lemma entries_value_roundtrip: "list_all wire_ok ws \<Longrightarrow> entries_from_values (map entry_to_value ws) = Inr ws"
  by (induction ws) (simp_all add: entry_value_roundtrip)

lemma entry_to_value_neq_nil [simp]: "entry_to_value w \<noteq> MNil"
  by (simp add: entry_to_value_def)

lemma decode_pn_response:
  assumes "read_value c bs = Inr (pn_response_value r)"
    and "case r of PnListR ws \<Rightarrow> list_all wire_ok ws | PnGetR (Some w) \<Rightarrow> wire_ok w | PnGetR None \<Rightarrow> True
         | PnAckR hs \<Rightarrow> list_all (\<lambda>h. length h = DESTINATION_LENGTH) hs"
  shows "decode_pn_dir_response c bs = Inr r"
  using assms
  by (cases r) (auto simp: decode_pn_dir_response_def pn_response_value_def as_i64_def entries_value_roundtrip
      entry_value_roundtrip ack_list_def list_all_iff split: option.splits)

lemma decode_pn_request:
  assumes "read_value c bs = Inr (pn_request_value r)"
    and "case r of PnList \<Rightarrow> True | PnGet h \<Rightarrow> length h = DESTINATION_LENGTH
         | PnAck hs \<Rightarrow> list_all (\<lambda>h. length h = DESTINATION_LENGTH) hs"
  shows "decode_pn_dir_request c bs = Inr r"
  using assms
  by (cases r) (auto simp: decode_pn_dir_request_def pn_request_value_def as_i64_def value_to_fixed_bytes_bin
      ack_list_def list_all_iff)


subsection \<open>Properties\<close>

text \<open>C33. Directory exchange: a node that asks a peer for its list decodes exactly the list the peer
  sent, and after applying it knows every node the peer knows: with the peer's announce data, name
  and cost, seen at the later of the peer's time and now, acknowledged when either side had
  acknowledged it; entries that the peer does not have stay as they were.\<close>

theorem directory_exchange:
  assumes "(pn_step c)\<^sup>*\<^sup>* [] theirs" and "(rsp, theirs') = pn_handle_request PnList theirs"
    and "list_all (\<lambda>(h, e). length h = DESTINATION_LENGTH \<and> last_seen_ms e < 2 ^ 63) theirs"
    and "encode_pn_dir_response c rsp = Inr b" and "reads_back c (pn_response_value rsp)"
  shows "decode_pn_dir_response c b = Inr rsp \<and> theirs' = theirs
    \<and> map_of (pn_apply_response c rsp now ours) h =
        (case map_of theirs h of
           None \<Rightarrow> map_of ours h
         | Some e \<Rightarrow> Some (e\<lparr>last_seen_ms := max (last_seen_ms e) now,
             acked := acked e \<or> (case map_of ours h of Some o' \<Rightarrow> acked o' | None \<Rightarrow> False)\<rparr>))"
proof -
  have wf: "dir_wf c theirs" by (rule pn_reachable_wf[OF assms(1)])
  let ?ws = "map entry_wire (pn_list theirs)"
  have rsp: "rsp = PnListR ?ws" "theirs' = theirs" using assms(2) by (simp_all add: pn_handle_request_def)
  have ok: "entry_ok c (h, e)" "length h = DESTINATION_LENGTH" "last_seen_ms e < 2 ^ 63" if "(h, e) \<in> set theirs" for h e
    using that wf assms(3) by (auto simp: dir_wf_def list_all_iff)
  then have all: "wire_ok w \<and> pn_announce_data_is_valid c (w_app_data w)" if "w \<in> set ?ws" for w
    using that by (fastforce simp: wire_ok_def entry_wire_def pn_list_def entry_ok_def)
  have "read_value c b = Inr (pn_response_value rsp)"
    using assms(4,5) by (auto simp: encode_pn_dir_response_def reads_back_def map_sum_def split: sum.splits)
  then have dec: "decode_pn_dir_response c b = Inr rsp"
    by (rule decode_pn_response) (use all in \<open>simp add: rsp list_all_iff\<close>)
  have "map_of (pn_apply_response c rsp now ours) h = (case map_option entry_wire (map_of theirs h) of
      Some w \<Rightarrow> Some (merged c now w (map_of ours h)) | None \<Rightarrow> map_of ours h)"
    unfolding list_lookup(1)[OF wf, symmetric] rsp pn_apply_response_def
    using apply_entries_lookup[OF list_lookup(2)[OF wf]] all by simp
  moreover have "merged c now (entry_wire e) old = e\<lparr>last_seen_ms := max (last_seen_ms e) now,
      acked := acked e \<or> (case old of Some o' \<Rightarrow> acked o' | None \<Rightarrow> False)\<rparr>" if "map_of theirs h = Some e" for e old
    using ok(1)[OF map_of_SomeD[OF that]] by (simp add: merged_def entry_wire_def entry_ok_def)
  ultimately show ?thesis using dec rsp(2) by (simp split: option.split)
qed

definition sample_announce :: mval where
  "sample_announce = MArr [MBool False, MInt 0, MBool True, MInt 256, MInt 10240, MArr [MInt 16, MInt 3, MInt 18], MMap []]"

lemma sample_announce_valid:
  "read_value ref_codec (mp_enc sample_announce) = Inr sample_announce"
  "pn_announce_data_is_valid ref_codec (mp_enc sample_announce)"
proof -
  have "reads_back ref_codec sample_announce" by (rule ref_codec_reads_back) (simp add: sample_announce_def)
  then show r: "read_value ref_codec (mp_enc sample_announce) = Inr sample_announce"
    by (simp add: reads_back_def ref_codec_def)
  show "pn_announce_data_is_valid ref_codec (mp_enc sample_announce)"
    by (simp add: pn_announce_data_is_valid_def read_array_def r) (simp add: sample_announce_def is_int_def)
qed

theorem directory_exchange_witness:
  "let theirs = snd (upsert_announce ref_codec (replicate 16 7) (mp_enc sample_announce) 50 []);
       rsp = fst (pn_handle_request PnList theirs) in
   \<exists>b. encode_pn_dir_response ref_codec rsp = Inr b \<and> decode_pn_dir_response ref_codec b = Inr rsp
     \<and> map_option last_seen_ms (map_of (pn_apply_response ref_codec rsp 90 []) (replicate 16 7)) = Some 90"
proof -
  let ?t = "snd (upsert_announce ref_codec (replicate 16 7) (mp_enc sample_announce) 50 [])"
  have t: "?t = [(replicate 16 7, \<lparr>pn_destination = replicate 16 7, pn_app_data = mp_enc sample_announce,
      pn_name = pn_name_from_app_data ref_codec (mp_enc sample_announce),
      pn_stamp_cost = pn_stamp_cost_from_app_data ref_codec (mp_enc sample_announce), last_seen_ms = 50, acked = False\<rparr>)]"
    by (simp add: upsert_announce_def sample_announce_valid hm_insert_def)
  let ?rsp = "fst (pn_handle_request PnList ?t)"
  have r: "(pn_step ref_codec)\<^sup>*\<^sup>* [] ?t" by (rule r_into_rtranclp) (rule pn_step.Announce)
  have h: "(?rsp, ?t) = pn_handle_request PnList ?t" by (simp add: pn_handle_request_def)
  have ok: "list_all (\<lambda>(h, e). length h = DESTINATION_LENGTH \<and> last_seen_ms e < 2 ^ 63) ?t"
    unfolding t by (simp add: DESTINATION_LENGTH_def)
  have val: "pn_response_value ?rsp = MArr [MInt 1, MArr [MArr [MBin (replicate 16 7), MBin (mp_enc sample_announce), MInt 50, MBool False]]]"
    unfolding t by (simp add: pn_handle_request_def pn_response_value_def pn_list_def entry_wire_def entry_to_value_def u64_value_def u64_as_i64_def)
  have len: "length (mp_enc sample_announce) < 2 ^ 32"
    by (simp add: sample_announce_def)
  have rb: "reads_back ref_codec (pn_response_value ?rsp)"
    unfolding val by (rule ref_codec_reads_back) (use len in simp)
  obtain b where b: "encode_pn_dir_response ref_codec ?rsp = Inr b"
    by (simp add: encode_pn_dir_response_def ref_codec_def)
  from directory_exchange[OF r h ok b rb, of 90 "[]" "replicate 16 7"] b show ?thesis
    unfolding Let_def by (intro exI[of _ b]) (simp add: t)
qed


end
