(* ===== verification/Tickets.thy ===== *)
theory Tickets
  imports Messages
begin

section \<open>Tickets (router.rs TicketStore and the ticket field of messages)\<close>

text \<open>
  A ticket replaces the proof of work of a stamp: a receiver hands out random tickets in a message
  field, the sender remembers them and hashes them into its stamps. \<open>TicketStore\<close> keeps the tickets
  received (outbound), those handed out (inbound) and the time of the last delivery per destination.
  Times are seconds as doubles. The random bytes of a fresh ticket are an argument.
\<close>

definition TICKET_EXPIRY :: nat where "TICKET_EXPIRY = 21 * 24 * 60 * 60"
definition TICKET_GRACE :: nat where "TICKET_GRACE = 5 * 24 * 60 * 60"
definition TICKET_RENEW :: nat where "TICKET_RENEW = 14 * 24 * 60 * 60"
definition TICKET_INTERVAL :: nat where "TICKET_INTERVAL = 1 * 24 * 60 * 60"
definition FIELD_TICKET :: nat where "FIELD_TICKET = 0x0c"

record ticket_entry =
  expires_at_s :: f64
  te_ticket :: bytes

record ticket_store =
  tk_outbound :: "(bytes, ticket_entry) hmap"
  tk_inbound :: "(bytes, (bytes, f64) hmap) hmap"
  last_deliveries :: "(bytes, f64) hmap"

record ticket_snapshot =
  sn_outbound :: "(bytes, f64 \<times> bytes) hmap"
  sn_inbound :: "(bytes, (bytes, f64) hmap) hmap"
  sn_last_deliveries :: "(bytes, f64) hmap"

definition ticket_store_default :: ticket_store where
  "ticket_store_default = \<lparr>tk_outbound = [], tk_inbound = [], last_deliveries = []\<rparr>"

definition now_s :: "nat \<Rightarrow> f64" where
  "now_s now_ms = ms_to_s now_ms"

definition generate_ticket ::
  "bytes \<Rightarrow> bytes \<Rightarrow> nat \<Rightarrow> nat \<Rightarrow> ticket_store \<Rightarrow> ticket_entry option \<times> ticket_store" where
  "generate_ticket fresh dest now expiry s =
     (let n = now_s now; given = (case map_of (tk_inbound s) dest of Some m \<Rightarrow> m | None \<Rightarrow> []) in
      if (case map_of (last_deliveries s) dest of
            Some l \<Rightarrow> f64_lt (f64_sub n l) (u64_to_f64 TICKET_INTERVAL) | None \<Rightarrow> False)
      then (None, s)
      else (case find (\<lambda>(_, e). f64_lt (u64_to_f64 TICKET_RENEW) (f64_sub e n)) given of
              Some (t, e) \<Rightarrow> (Some \<lparr>expires_at_s = e, te_ticket = t\<rparr>, s)
            | None \<Rightarrow>
               (let e = f64_add n (u64_to_f64 expiry) in
                (Some \<lparr>expires_at_s = e, te_ticket = fresh\<rparr>,
                 s\<lparr>tk_inbound := hm_insert dest (hm_insert fresh e given) (tk_inbound s)\<rparr>))))"

definition store_ticket :: "bytes \<Rightarrow> ticket_entry \<Rightarrow> ticket_store \<Rightarrow> ticket_store" where
  "store_ticket dest e s = s\<lparr>tk_outbound := hm_insert dest e (tk_outbound s)\<rparr>"

definition get_outbound_ticket :: "bytes \<Rightarrow> nat \<Rightarrow> ticket_store \<Rightarrow> bytes option" where
  "get_outbound_ticket dest now s =
     (case map_of (tk_outbound s) dest of
        None \<Rightarrow> None
      | Some e \<Rightarrow> if f64_lt (now_s now) (expires_at_s e) then Some (te_ticket e) else None)"

definition get_inbound_tickets :: "bytes \<Rightarrow> nat \<Rightarrow> ticket_store \<Rightarrow> bytes list option" where
  "get_inbound_tickets dest now s =
     (case map_of (tk_inbound s) dest of
        None \<Rightarrow> None
      | Some m \<Rightarrow> (let ts = map fst (filter (\<lambda>(_, e). f64_lt (now_s now) e) m) in
                    if ts = [] then None else Some ts))"

definition ticket_delivered :: "bytes \<Rightarrow> nat \<Rightarrow> ticket_store \<Rightarrow> ticket_store" where
  "ticket_delivered dest now s = s\<lparr>last_deliveries := hm_insert dest (now_s now) (last_deliveries s)\<rparr>"

definition clean_expired :: "nat \<Rightarrow> ticket_store \<Rightarrow> ticket_store" where
  "clean_expired now s =
     s\<lparr>tk_outbound := hm_retain (\<lambda>_ e. f64_lt (now_s now) (expires_at_s e)) (tk_outbound s),
       tk_inbound := map (\<lambda>(d, m). (d, hm_retain (\<lambda>_ e. f64_le (now_s now) (f64_add e (u64_to_f64 TICKET_GRACE))) m))
         (tk_inbound s)\<rparr>"

definition snapshot_tickets :: "ticket_store \<Rightarrow> ticket_snapshot" where
  "snapshot_tickets s =
     \<lparr>sn_outbound = fold (\<lambda>(d, e) m. hm_insert d (expires_at_s e, te_ticket e) m) (tk_outbound s) [],
      sn_inbound = tk_inbound s, sn_last_deliveries = last_deliveries s\<rparr>"

definition ticket_restore :: "ticket_snapshot \<Rightarrow> ticket_store \<Rightarrow> ticket_store" where
  "ticket_restore n s =
     s\<lparr>tk_outbound := fold (\<lambda>(d, e, t) m. hm_insert d \<lparr>expires_at_s = e, te_ticket = t\<rparr> m) (sn_outbound n) [],
       tk_inbound := sn_inbound n, last_deliveries := sn_last_deliveries n\<rparr>"

subsection \<open>The ticket field of a message\<close>

definition field_id :: "mval \<Rightarrow> nat option" where
  "field_id k = map_option i64_as_u64 (as_i64 k)"

definition insert_ticket_field :: "mval \<Rightarrow> f64 \<Rightarrow> bytes \<Rightarrow> mval" where
  "insert_ticket_field flds e t =
     MMap (filter (\<lambda>(k, _). field_id k \<noteq> Some FIELD_TICKET) (case flds of MMap m \<Rightarrow> m | _ \<Rightarrow> [])
           @ [(MInt (int FIELD_TICKET), MArr [MF64 e, MBin t])])"

definition ticket_of_value :: "mval \<Rightarrow> (f64 \<times> bytes) option" where
  "ticket_of_value v =
     (case v of
        MArr arr \<Rightarrow>
          (if length arr < 2 then None
           else (case value_to_f64 (arr ! 0) of
                   None \<Rightarrow> None
                 | Some e \<Rightarrow> (case arr ! 1 of MBin t \<Rightarrow> if length t \<noteq> TICKET_LENGTH then None else Some (e, t) | _ \<Rightarrow> None)))
      | _ \<Rightarrow> None)"

fun find_ticket :: "(mval \<times> mval) list \<Rightarrow> (f64 \<times> bytes) option" where
  "find_ticket [] = None"
| "find_ticket ((k, v) # es) =
     (case field_id k of
        None \<Rightarrow> None
      | Some i \<Rightarrow> if i \<noteq> FIELD_TICKET then find_ticket es else ticket_of_value v)"

definition extract_ticket_field :: "mval \<Rightarrow> (f64 \<times> bytes) option" where
  "extract_ticket_field flds = (case flds of MMap m \<Rightarrow> find_ticket m | _ \<Rightarrow> None)"

subsection \<open>Validation against the tickets handed out\<close>

fun try_tickets :: "codec \<Rightarrow> crypto \<Rightarrow> nat \<Rightarrow> bytes list \<Rightarrow> lxmessage \<Rightarrow> bool \<times> lxmessage" where
  "try_tickets c cr cost [] m = (False, m)"
| "try_tickets c cr cost (t # ts) m =
     (case validate_stamp c cr (Some cost) (Some t) m of
        (Inr True, m1) \<Rightarrow> (True, m1)
      | (_, m1) \<Rightarrow> try_tickets c cr cost ts m1)"

definition validate_stamp_with_tickets ::
  "codec \<Rightarrow> crypto \<Rightarrow> nat \<Rightarrow> bytes list option \<Rightarrow> lxmessage \<Rightarrow> bool \<times> lxmessage" where
  "validate_stamp_with_tickets c cr cost tickets m =
     (case try_tickets c cr cost (case tickets of Some ts \<Rightarrow> ts | None \<Rightarrow> []) m of
        (True, m1) \<Rightarrow> (True, m1)
      | (False, m1) \<Rightarrow>
         (case validate_stamp c cr (Some cost) None m1 of (Inr b, m2) \<Rightarrow> (b, m2) | (Inl _, m2) \<Rightarrow> (False, m2)))"

subsection \<open>Lemmas\<close>

lemma fold_inserts:
  "hm_wf (map g es @ m) \<Longrightarrow> fold (\<lambda>x m. hm_insert (fst (g x)) (snd (g x)) m) es m = m @ map g es"
proof (induction es arbitrary: m)
  case (Cons x es)
  have "fst (g x) \<notin> fst ` set m" using Cons.prems by (auto simp: hm_wf_def)
  then have "hm_insert (fst (g x)) (snd (g x)) m = m @ [g x]"
    by (induction m) (auto simp: hm_insert_def)
  moreover have "hm_wf (map g es @ m @ [g x])" using Cons.prems by (auto simp: hm_wf_def)
  ultimately show ?case using Cons.IH[of "m @ [g x]"] by simp
qed simp

lemma ticket_store_saved:
  assumes "hm_wf (tk_outbound s)"
  shows "ticket_restore (snapshot_tickets s) s0 = s"
proof -
  let ?g = "\<lambda>x :: bytes \<times> ticket_entry. (fst x, expires_at_s (snd x), te_ticket (snd x))"
  let ?h = "\<lambda>x :: bytes \<times> f64 \<times> bytes. (fst x, \<lparr>expires_at_s = fst (snd x), te_ticket = snd (snd x)\<rparr>)"
  have eta: "map (\<lambda>x. (fst x, \<lparr>expires_at_s = expires_at_s (snd x), te_ticket = te_ticket (snd x)\<rparr>)) (tk_outbound s) = tk_outbound s"
    by (rule map_idI) (simp add: prod_eq_iff)
  have keys: "map (fst \<circ> ?g) (tk_outbound s) = map fst (tk_outbound s)"
    "map (fst \<circ> ?h \<circ> ?g) (tk_outbound s) = map fst (tk_outbound s)" by simp_all
  have "fold (\<lambda>(d, e) m. hm_insert d (expires_at_s e, te_ticket e) m) (tk_outbound s) [] = map ?g (tk_outbound s)"
    using assms fold_inserts[of ?g "tk_outbound s" "[]"] keys by (simp add: hm_wf_def case_prod_unfold)
  moreover have "fold (\<lambda>(d, e, t) m. hm_insert d \<lparr>expires_at_s = e, te_ticket = t\<rparr> m) (map ?g (tk_outbound s)) [] = tk_outbound s"
    using assms fold_inserts[of ?h "map ?g (tk_outbound s)" "[]"] keys by (simp add: hm_wf_def case_prod_unfold comp_def eta)
  ultimately show ?thesis by (simp add: ticket_restore_def snapshot_tickets_def)
qed

lemma field_id_ticket [simp]: "field_id (MInt (int FIELD_TICKET)) = Some FIELD_TICKET"
  by (simp add: field_id_def as_i64_def FIELD_TICKET_def i64_as_u64_def)

lemma find_ticket_skips:
  "\<forall>(k, _) \<in> set es. field_id k \<noteq> None \<and> field_id k \<noteq> Some FIELD_TICKET \<Longrightarrow> find_ticket (es @ fs) = find_ticket fs"
  by (induction es) (auto split: option.splits)

lemma extract_inserted:
  assumes "\<forall>(k, _) \<in> set (case flds of MMap m \<Rightarrow> m | _ \<Rightarrow> []). field_id k \<noteq> None" and "length t = TICKET_LENGTH"
  shows "extract_ticket_field (insert_ticket_field flds e t) = Some (e, t)"
  using assms by (auto simp: extract_ticket_field_def insert_ticket_field_def find_ticket_skips ticket_of_value_def value_to_f64_def)

lemma generated_ticket_kept:
  assumes "generate_ticket fresh dest now expiry s = (Some e, s')"
  shows "\<exists>m. map_of (tk_inbound s') dest = Some m \<and> (te_ticket e, expires_at_s e) \<in> set m"
proof -
  have ins: "(k, v) \<in> set (hm_insert k v m)" for k :: bytes and v :: f64 and m
    using map_of_SomeD[of "hm_insert k v m" k v] by (simp add: map_of_hm_insert)
  let ?given = "case map_of (tk_inbound s) dest of Some m \<Rightarrow> m | None \<Rightarrow> []"
  consider (old) t x where "find (\<lambda>(_, e). f64_lt (u64_to_f64 TICKET_RENEW) (f64_sub e (now_s now))) ?given = Some (t, x)"
      "e = \<lparr>expires_at_s = x, te_ticket = t\<rparr>" "s' = s"
    | (new) "s' = s\<lparr>tk_inbound := hm_insert dest (hm_insert (te_ticket e) (expires_at_s e) ?given) (tk_inbound s)\<rparr>"
    using assms by (auto simp: generate_ticket_def Let_def split: if_splits option.splits)
  then show ?thesis
  proof cases
    case old
    from old(1) have "(t, x) \<in> set ?given" unfolding find_Some_iff by (metis nth_mem)
    with old(2,3) show ?thesis by (cases "map_of (tk_inbound s) dest") simp_all
  next
    case new
    then show ?thesis using ins by (simp add: map_of_hm_insert)
  qed
qed

lemma kept_ticket_offered:
  assumes "map_of (tk_inbound s) dest = Some m" and "(t, e) \<in> set m" and "f64_lt (now_s now) e"
  shows "\<exists>ts. get_inbound_tickets dest now s = Some ts \<and> t \<in> set ts"
proof -
  let ?ts = "map fst (filter (\<lambda>(_, e). f64_lt (now_s now) e) m)"
  have t: "t \<in> set ?ts" using assms(2,3) by force
  then have "?ts \<noteq> []" by (metis empty_iff list.set(1))
  then have "get_inbound_tickets dest now s = Some ?ts" by (simp only: get_inbound_tickets_def assms(1) option.case Let_def if_False)
  with t show ?thesis by blast
qed

text \<open>Validation changes only the check results of a message and its id.\<close>

lemma validate_stamp_same:
  assumes "validate_stamp c cr cost t m = (r, m1)"
  shows "stamp m1 = stamp m \<and> destination_hash m1 = destination_hash m \<and> source_hash m1 = source_hash m
    \<and> (\<forall>x. pack_payload c m1 x = pack_payload c m x) \<and> stamp_checked m1"
  using assms by (auto simp: validate_stamp_def Let_def pack_payload_def split: option.splits sum.splits if_splits)

lemma validate_stamp_cong:
  assumes "stamp m1 = stamp m" "destination_hash m1 = destination_hash m" "source_hash m1 = source_hash m"
    and "\<forall>x. pack_payload c m1 x = pack_payload c m x"
  shows "fst (validate_stamp c cr cost t m1) = fst (validate_stamp c cr cost t m)"
proof -
  have p: "pack_payload c (n\<lparr>stamp_checked := True\<rparr>) x = pack_payload c n x" for n x by (simp add: pack_payload_def)
  show ?thesis using assms by (simp add: validate_stamp_def Let_def p split: option.splits sum.splits)
qed

lemma try_tickets_valid:
  assumes "t \<in> set ts" and "fst (validate_stamp c cr (Some cost) (Some t) m) = Inr True"
  shows "fst (try_tickets c cr cost ts m)"
  using assms
proof (induction ts arbitrary: m)
  case (Cons u ts)
  obtain r m1 where v: "validate_stamp c cr (Some cost) (Some u) m = (r, m1)" by fastforce
  show ?case
  proof (cases "r = Inr True")
    case False
    with Cons.prems v have t: "t \<in> set ts" by auto
    have "fst (validate_stamp c cr (Some cost) (Some t) m1) = Inr True"
      using validate_stamp_cong[of m1 m c cr "Some cost" "Some t"] validate_stamp_same[OF v] Cons.prems(2) by simp
    from Cons.IH[OF t this] False v show ?thesis by (auto split: sum.splits bool.splits)
  qed (simp add: v)
qed simp

lemma validate_with_tickets_valid:
  assumes "t \<in> set ts" and "fst (validate_stamp c cr (Some cost) (Some t) m) = Inr True"
  shows "fst (validate_stamp_with_tickets c cr cost (Some ts) m)"
  using try_tickets_valid[OF assms] by (auto simp: validate_stamp_with_tickets_def split: prod.splits bool.splits)

lemma matching_ticket_validates:
  assumes "stamp m = Some s" and "pack_payload c m False = Inr p"
    and "ticket_matches cr (Some t) s (compute_message_id cr (destination_hash m) (source_hash m) p)"
  shows "fst (validate_stamp c cr cost (Some t) m) = Inr True"
proof -
  have "pack_payload c (m\<lparr>stamp_checked := True\<rparr>) False = Inr p" using assms(2) by (simp add: pack_payload_def)
  with assms show ?thesis by (simp add: validate_stamp_def Let_def)
qed

text \<open>A message whose sender has a ticket is decoded to one that the ticket validates.\<close>

lemma ticket_stamp_received:
  assumes enc: "encode_signed c cr rng sign m = (Inr bs, m')" and wf: "msg_wf m" and sgn: "\<And>x. length (sign x) = 64"
    and rb: "reads_back c (MArr (payload_values m' (stamp m' \<noteq> None)))" and sha: "\<And>x. length (cr_sha256 cr x) = 32"
    and m: "stamp m = None" "\<not> defer_stamp m" "outbound_ticket m = Some t" "length t = TICKET_LENGTH"
  obtains d where "msg_decode c cr bs = Inr d" "source_hash d = source_hash m" "destination_hash d = destination_hash m"
    "message_id d = message_id m'" "fst (validate_stamp c cr cost (Some t) d) = Inr True"
proof -
  from enc obtain p0 mid m2 where e: "pack_payload c m False = Inr p0"
    "mid = compute_message_id cr (destination_hash m) (source_hash m) p0"
    "m2 = (if defer_stamp m then m\<lparr>message_id := Some mid\<rparr> else snd (ensure_stamp c cr rng (m\<lparr>message_id := Some mid\<rparr>)))"
    "m' = m2\<lparr>signature := Some (sign (build_signed_part (destination_hash m) (source_hash m) p0 mid))\<rparr>"
    and f: "timestamp m' = timestamp m" "title m' = title m" "content m' = content m" "m_fields m' = m_fields m"
    "destination_hash m' = destination_hash m" "source_hash m' = source_hash m" "message_id m' = Some mid"
    by (rule encode_signedE)
  obtain sig where d: "msg_decode c cr bs = Inr (received_form m' sig mid)"
    using encode_signed_received[OF enc wf sgn rb] e(1,2) by (metis sum.inject(2))
  have s: "stamp m' = Some (truncated_hash cr (t @ mid))" using m e(3,4) by (simp add: ensure_stamp_def)
  have "length (truncated_hash cr (t @ mid)) = TICKET_LENGTH"
    using sha by (simp add: truncated_hash_def full_hash_def TICKET_LENGTH_def)
  then have tm: "ticket_matches cr (Some t) (truncated_hash cr (t @ mid)) mid" using m(4) by (simp add: ticket_matches_def)
  have p: "pack_payload c (received_form m' sig mid) False = Inr p0"
    using pack_payload_cong[of "received_form m' sig mid" m c] f e(1) by (simp add: received_form_def msg_new_def)
  have "fst (validate_stamp c cr cost (Some t) (received_form m' sig mid)) = Inr True"
    using p s tm e(2) f by (intro matching_ticket_validates) (simp_all add: received_form_def msg_new_def)
  with d that[of "received_form m' sig mid"] f show thesis by (simp add: received_form_def msg_new_def)
qed


end
