(* ===== verification/Links.thy ===== *)
theory Links
  imports Stamps
begin

section \<open>Link tracking (router.rs LinkTracker)\<close>

text \<open>
  The facade keeps the last activity of its direct links (by destination), of the incoming
  propagation links and of its own link to a propagation node, and the set of links that belong to
  validated peers. Link events of the transport refresh or close them; inactive ones are removed.
\<close>

definition LINK_MAX_INACTIVITY :: nat where "LINK_MAX_INACTIVITY = 10 * 60"
definition P_LINK_MAX_INACTIVITY :: nat where "P_LINK_MAX_INACTIVITY = 3 * 60"

record direct_link_info =
  dl_link_id :: bytes
  dl_last_activity_ms :: nat

record propagation_link_info =
  pl_link_id :: bytes
  pl_last_activity_ms :: nat
  is_closed :: bool

record link_tracker =
  direct_links :: "(bytes, direct_link_info) hmap"
  active_propagation_links :: "propagation_link_info list"
  outbound_propagation_link :: "propagation_link_info option"
  validated_peer_links :: "bytes set"

definition lt_new :: link_tracker where
  "lt_new = \<lparr>direct_links = [], active_propagation_links = [], outbound_propagation_link = None, validated_peer_links = {}\<rparr>"

definition add_direct_link :: "bytes \<Rightarrow> nat \<Rightarrow> link_tracker \<Rightarrow> link_tracker" where
  "add_direct_link i now t = t\<lparr>direct_links := hm_insert i \<lparr>dl_link_id = i, dl_last_activity_ms = now\<rparr> (direct_links t)\<rparr>"

definition add_propagation_link :: "bytes \<Rightarrow> nat \<Rightarrow> link_tracker \<Rightarrow> link_tracker" where
  "add_propagation_link i now t =
     t\<lparr>active_propagation_links :=
        active_propagation_links t @ [\<lparr>pl_link_id = i, pl_last_activity_ms = now, is_closed = False\<rparr>]\<rparr>"

definition set_outbound_propagation_link :: "bytes \<Rightarrow> nat \<Rightarrow> link_tracker \<Rightarrow> link_tracker" where
  "set_outbound_propagation_link i now t =
     t\<lparr>outbound_propagation_link := Some \<lparr>pl_link_id = i, pl_last_activity_ms = now, is_closed = False\<rparr>\<rparr>"

definition mark_outbound_propagation_link_closed :: "link_tracker \<Rightarrow> link_tracker" where
  "mark_outbound_propagation_link_closed t =
     t\<lparr>outbound_propagation_link := map_option (\<lambda>l. l\<lparr>is_closed := True\<rparr>) (outbound_propagation_link t)\<rparr>"

text \<open>The loop over the incoming links returns at the first one with the id.\<close>

fun touch_first :: "bytes \<Rightarrow> nat \<Rightarrow> propagation_link_info list \<Rightarrow> propagation_link_info list option" where
  "touch_first i now [] = None"
| "touch_first i now (l # ls) =
     (if pl_link_id l = i then Some (l\<lparr>pl_last_activity_ms := now\<rparr> # ls) else map_option ((#) l) (touch_first i now ls))"

definition update_link_activity :: "bytes \<Rightarrow> nat \<Rightarrow> link_tracker \<Rightarrow> link_tracker" where
  "update_link_activity i now t0 =
     (let t = t0\<lparr>direct_links := hm_modify i (\<lambda>l. l\<lparr>dl_last_activity_ms := now\<rparr>) (direct_links t0)\<rparr> in
      case touch_first i now (active_propagation_links t) of
        Some ls \<Rightarrow> t\<lparr>active_propagation_links := ls\<rparr>
      | None \<Rightarrow>
         (case outbound_propagation_link t of
            Some l \<Rightarrow> if pl_link_id l = i then t\<lparr>outbound_propagation_link := Some (l\<lparr>pl_last_activity_ms := now\<rparr>)\<rparr> else t
          | None \<Rightarrow> t))"

definition has_direct_link :: "bytes \<Rightarrow> link_tracker \<Rightarrow> bool" where
  "has_direct_link i t = hm_contains (direct_links t) i"

definition has_propagation_link :: "bytes \<Rightarrow> link_tracker \<Rightarrow> bool" where
  "has_propagation_link i t = list_ex (\<lambda>l. pl_link_id l = i) (active_propagation_links t)"

definition add_validated_peer_link :: "bytes \<Rightarrow> link_tracker \<Rightarrow> link_tracker" where
  "add_validated_peer_link i t = t\<lparr>validated_peer_links := insert i (validated_peer_links t)\<rparr>"

definition is_validated_peer_link :: "bytes \<Rightarrow> link_tracker \<Rightarrow> bool" where
  "is_validated_peer_link i t \<longleftrightarrow> i \<in> validated_peer_links t"

subsection \<open>Cleaning\<close>

text \<open>\<open>Vec::remove\<close>, and the three loops of \<open>clean_links\<close> over the tracker.\<close>

definition remove_at :: "nat \<Rightarrow> 'a list \<Rightarrow> 'a list" where
  "remove_at i xs = take i xs @ drop (Suc i) xs"

definition clean_direct_links :: "nat \<Rightarrow> link_tracker \<Rightarrow> link_tracker" where
  "clean_direct_links now t =
     (let closed = map fst (filter (\<lambda>(_, l). sat_sub now (dl_last_activity_ms l) > LINK_MAX_INACTIVITY * 1000) (direct_links t)) in
      t\<lparr>validated_peer_links := fold (\<lambda>i vs. vs - {i}) closed (validated_peer_links t),
        direct_links := fold hm_remove closed (direct_links t)\<rparr>)"

definition clean_propagation_links :: "nat \<Rightarrow> link_tracker \<Rightarrow> link_tracker" where
  "clean_propagation_links now t =
     (let inactive = map fst (filter (\<lambda>(_, l). sat_sub now (pl_last_activity_ms l) > P_LINK_MAX_INACTIVITY * 1000)
                       (enumerate 0 (active_propagation_links t))) in
      t\<lparr>active_propagation_links := fold remove_at (rev inactive) (active_propagation_links t)\<rparr>)"

subsection \<open>Link events\<close>

datatype link_event = LData | LActivated | LClosed

record link_event_data =
  le_id :: bytes
  le_address_hash :: bytes
  le_event :: link_event

definition close_link :: "bytes \<Rightarrow> link_tracker \<Rightarrow> link_tracker" where
  "close_link i t =
     t\<lparr>outbound_propagation_link :=
         map_option (\<lambda>l. if pl_link_id l = i then l\<lparr>is_closed := True\<rparr> else l) (outbound_propagation_link t),
       active_propagation_links :=
         map (\<lambda>l. if pl_link_id l = i then l\<lparr>is_closed := True\<rparr> else l) (active_propagation_links t)\<rparr>"

definition process_link_event :: "nat \<Rightarrow> link_event_data \<Rightarrow> link_tracker \<Rightarrow> link_tracker" where
  "process_link_event now e t =
     (if length (le_id e) \<noteq> DESTINATION_LENGTH then t
      else (let addr = (if length (le_address_hash e) = DESTINATION_LENGTH then Some (le_address_hash e) else None) in
        case le_event e of
          LData \<Rightarrow>
            (let t1 = update_link_activity (le_id e) now t in
             case addr of
               Some a \<Rightarrow> if a \<noteq> le_id e then update_link_activity a now t1 else t1
             | None \<Rightarrow> t1)
        | LActivated \<Rightarrow>
            (case addr of
               Some a \<Rightarrow> if \<not> has_direct_link a t then add_direct_link a now t else update_link_activity a now t
             | None \<Rightarrow> t)
        | LClosed \<Rightarrow> close_link (le_id e) t))"

definition process_link_events :: "link_event_data list \<Rightarrow> nat \<Rightarrow> link_tracker \<Rightarrow> link_tracker" where
  "process_link_events es now t = fold (process_link_event now) es t"

subsection \<open>Lemmas\<close>

lemma remove_marked:
  "fold remove_at (rev (map fst (filter (\<lambda>(_, x). P x) (enumerate 0 xs)))) (xs @ ys) = filter (\<lambda>x. \<not> P x) xs @ ys"
proof (induction xs arbitrary: ys rule: rev_induct)
  case (snoc x xs)
  show ?case
  proof (cases "P x")
    case True
    have "remove_at (length xs) (xs @ x # ys) = xs @ ys" by (simp add: remove_at_def)
    with True snoc.IH[of ys] show ?thesis by (simp add: enumerate_append_eq)
  next
    case False
    with snoc.IH[of "x # ys"] show ?thesis by (simp add: enumerate_append_eq)
  qed
qed simp

lemma clean_propagation_links_eq:
  "active_propagation_links (clean_propagation_links now t)
     = filter (\<lambda>l. sat_sub now (pl_last_activity_ms l) \<le> P_LINK_MAX_INACTIVITY * 1000) (active_propagation_links t)"
  using remove_marked[of "\<lambda>l. sat_sub now (pl_last_activity_ms l) > P_LINK_MAX_INACTIVITY * 1000" "active_propagation_links t" "[]"]
  by (simp add: clean_propagation_links_def Let_def not_less)

lemma fold_minus: "fold (\<lambda>i vs. vs - {i}) is V = V - set is"
  by (induction "is" arbitrary: V) auto

lemma clean_direct_links_lookup:
  assumes "hm_wf (direct_links t)"
  shows "map_of (direct_links (clean_direct_links now t)) i
      = (case map_of (direct_links t) i of
           Some l \<Rightarrow> if sat_sub now (dl_last_activity_ms l) > LINK_MAX_INACTIVITY * 1000 then None else Some l
         | None \<Rightarrow> None)"
    and "hm_wf (direct_links (clean_direct_links now t))"
proof -
  let ?P = "\<lambda>l. sat_sub now (dl_last_activity_ms l) > LINK_MAX_INACTIVITY * 1000"
  let ?c = "map fst (filter (\<lambda>(_, l). ?P l) (direct_links t))"
  note f = hm.fold_remove[OF assms, of ?c]
  have mem: "i \<in> set ?c \<longleftrightarrow> (\<exists>l. map_of (direct_links t) i = Some l \<and> ?P l)"
    using hm_get_in[OF assms] by force
  show "hm_wf (direct_links (clean_direct_links now t))" using f by (simp add: clean_direct_links_def Let_def)
  have "map_of (direct_links (clean_direct_links now t)) i = (if i \<in> set ?c then None else map_of (direct_links t) i)"
    using f by (simp add: clean_direct_links_def Let_def)
  then show "map_of (direct_links (clean_direct_links now t)) i
      = (case map_of (direct_links t) i of Some l \<Rightarrow> if ?P l then None else Some l | None \<Rightarrow> None)"
    unfolding mem by (cases "map_of (direct_links t) i") auto
qed

end
