(* ===== verification/Facade.thy ===== *)
theory Facade
  imports Tickets Links Runtime Peer_Wire Pn_Directory
begin

section \<open>The router facade (router.rs LxmfRouter): state, transfers, sending and receiving\<close>

text \<open>
  \<open>LxmfRouter\<close> ties the components together: the runtime with its queues, peers, the propagation store,
  tickets, stamp costs, links and the state of a download from a propagation node. This theory holds
  its state and every operation except peer synchronisation and the periodic job (theories
  \<open>Peer_Sync\<close> and \<open>Facade_Tick\<close>). Writing to the persistence root is file output and does not change the
  state; the local identity hash is a field because the delivery's identity is outside of the model.
  The stamp worker thread, its queue and its channel are part of the state; whether a \<open>try_lock\<close>
  succeeds is an argument.
\<close>

definition PR_IDLE :: byte where "PR_IDLE = 0x00"
definition PR_PATH_REQUESTED :: byte where "PR_PATH_REQUESTED = 0x01"
definition PR_LINK_ESTABLISHING :: byte where "PR_LINK_ESTABLISHING = 0x02"
definition PR_LINK_ESTABLISHED :: byte where "PR_LINK_ESTABLISHED = 0x03"
definition PR_REQUEST_SENT :: byte where "PR_REQUEST_SENT = 0x04"
definition PR_COMPLETE :: byte where "PR_COMPLETE = 0x07"
definition PR_NO_PATH :: byte where "PR_NO_PATH = 0xf0"
definition PR_LINK_FAILED :: byte where "PR_LINK_FAILED = 0xf1"
definition PR_TRANSFER_FAILED :: byte where "PR_TRANSFER_FAILED = 0xf2"
definition PR_ALL_MESSAGES :: nat where "PR_ALL_MESSAGES = 0"
definition PR_PATH_TIMEOUT :: nat where "PR_PATH_TIMEOUT = 10"
definition NODE_ANNOUNCE_DELAY :: nat where "NODE_ANNOUNCE_DELAY = 20"
definition MESSAGE_EXPIRY :: nat where "MESSAGE_EXPIRY = 30 * 24 * 60 * 60"
definition DEFAULT_PEERING_COST :: nat where "DEFAULT_PEERING_COST = 18"
definition DEFAULT_PROPAGATION_STAMP_COST :: nat where "DEFAULT_PROPAGATION_STAMP_COST = 16"
definition DEFAULT_PROPAGATION_STAMP_FLEX :: nat where "DEFAULT_PROPAGATION_STAMP_FLEX = 3"

lemmas pr_states = PR_IDLE_def PR_PATH_REQUESTED_def PR_LINK_ESTABLISHING_def PR_LINK_ESTABLISHED_def PR_REQUEST_SENT_def
  PR_COMPLETE_def PR_NO_PATH_def PR_LINK_FAILED_def PR_TRANSFER_FAILED_def

record deferred_outbound =
  do_message :: lxmessage
  do_mode :: delivery_mode

record peer_sync_pending =
  psp_peer_id :: bytes
  psp_request :: peer_sync_request

record peering_validation =
  pv_local_identity_hash :: bytes
  pv_target_cost :: nat

record propagation_validation =
  prv_stamp_cost :: nat
  prv_stamp_cost_flex :: nat

record 's lxmf_router =
  lr_runtime :: "'s lxmf_runtime"
  lr_identity_hash :: bytes
  lr_peers :: peer_table
  static_peers :: "bytes set"
  ignored_destinations :: "bytes set"
  allowed_identities :: "bytes set"
  auth_required :: bool
  lr_pn_directory :: pn_directory
  lr_prop_store :: propagation_store
  propagation_store_limit_bytes :: "nat option"
  propagation_prioritised :: "bytes set"
  lr_node_stats :: node_stats
  outbound_stamp_costs :: "(bytes, f64 \<times> nat) hmap"
  inbound_stamp_costs :: "(bytes, nat) hmap"
  lr_tickets :: ticket_store
  deferred_queue :: "deferred_outbound list"
  peer_sync_queue :: "(bytes \<times> peer_sync_request) list"
  peer_sync_pendings :: "(bytes, peer_sync_pending) hmap"
  peer_sync_responses :: "(bytes \<times> rns_response) list"
  peer_sync_outbound :: "(bytes \<times> rns_request) list"
  control_responses :: "(bytes \<times> rns_response) list"
  control_allowed :: "bytes set"
  propagation_node_enabled :: bool
  propagation_started_ms :: nat
  delivery_transfer_limit_kb :: f64
  propagation_transfer_limit_kb :: f64
  propagation_sync_limit_kb :: f64
  max_peering_cost :: nat
  max_peers :: "nat option"
  autopeer_maxdepth :: "nat option"
  from_static_only :: bool
  enforce_stamps :: bool
  local_deliveries :: "(bytes, f64) hmap"
  locally_processed :: "(bytes, f64) hmap"
  lr_peering_validation :: "peering_validation option"
  lr_propagation_validation :: "propagation_validation option"
  lr_links :: link_tracker
  propagation_transfer_state :: byte
  propagation_transfer_last_result :: "nat option"
  propagation_transfer_progress :: f64
  wants_download_from :: "bytes option"
  wants_download_to :: "bytes option"
  wants_download_timeout :: "nat option"
  prioritise_rotating_unreachable_peers :: bool
  peer_distribution_queue :: "(bytes \<times> bytes option) list"
  throttled_peers :: "(bytes, nat) hmap"
  deferred_shared :: "deferred_outbound list"
  stamp_processing_active :: bool
  processed_deferred :: "deferred_outbound list option"
  lr_name :: "bytes option"
  autopeer :: bool
  outbound_propagation_node :: "bytes option"
  propagation_transfer_max_messages :: "nat option"
  propagation_transfer_last_duplicates :: "nat option"
  pn_announce_queue :: "(bytes \<times> nat) list"
  pn_message_requests :: "(bytes \<times> bytes \<times> nat option) list"
  pn_path_requests :: "bytes list"

definition facade_init :: "'s lxmf_runtime \<Rightarrow> bytes \<Rightarrow> nat \<Rightarrow> deferred_outbound list option \<Rightarrow> bytes option \<Rightarrow> bool
    \<Rightarrow> 's lxmf_router" where
  "facade_init rt ident started chan nm ap =
     \<lparr>lr_runtime = rt, lr_identity_hash = ident, lr_peers = [], static_peers = {}, ignored_destinations = {},
      allowed_identities = {}, auth_required = False, lr_pn_directory = [], lr_prop_store = ps_new,
      propagation_store_limit_bytes = None, propagation_prioritised = {},
      lr_node_stats = \<lparr>client_propagation_messages_received = 0, client_propagation_messages_served = 0,
        unpeered_propagation_incoming = 0, unpeered_propagation_rx_bytes = 0\<rparr>,
      outbound_stamp_costs = [], inbound_stamp_costs = [], lr_tickets = ticket_store_default, deferred_queue = [],
      peer_sync_queue = [], peer_sync_pendings = [], peer_sync_responses = [], peer_sync_outbound = [],
      control_responses = [], control_allowed = {ident}, propagation_node_enabled = False, propagation_started_ms = started,
      delivery_transfer_limit_kb = u64_to_f64 1000, propagation_transfer_limit_kb = u64_to_f64 256,
      propagation_sync_limit_kb = f64_mul (u64_to_f64 256) (u64_to_f64 40), max_peering_cost = 26, max_peers = None,
      autopeer_maxdepth = None, from_static_only = False, enforce_stamps = True, local_deliveries = [],
      locally_processed = [],
      lr_peering_validation = Some \<lparr>pv_local_identity_hash = ident, pv_target_cost = DEFAULT_PEERING_COST\<rparr>,
      lr_propagation_validation = Some \<lparr>prv_stamp_cost = DEFAULT_PROPAGATION_STAMP_COST,
        prv_stamp_cost_flex = DEFAULT_PROPAGATION_STAMP_FLEX\<rparr>,
      lr_links = lt_new, propagation_transfer_state = PR_IDLE, propagation_transfer_last_result = None,
      propagation_transfer_progress = 0, wants_download_from = None, wants_download_to = None,
      wants_download_timeout = None, prioritise_rotating_unreachable_peers = False, peer_distribution_queue = [],
      throttled_peers = [], deferred_shared = [], stamp_processing_active = False, processed_deferred = chan,
      lr_name = nm, autopeer = ap, outbound_propagation_node = None, propagation_transfer_max_messages = None,
      propagation_transfer_last_duplicates = None, pn_announce_queue = [], pn_message_requests = [],
      pn_path_requests = []\<rparr>"

definition facade_new :: "bytes \<Rightarrow> nat \<Rightarrow> 's rns_router \<Rightarrow> 's lxmf_router" where
  "facade_new ident started r = facade_init (runtime_new r) ident started None None True"

definition facade_with_config :: "bytes \<Rightarrow> nat \<Rightarrow> 's rns_router \<Rightarrow> runtime_config \<Rightarrow> 's lxmf_router" where
  "facade_with_config ident started r c =
     facade_init (runtime_with_config r c) ident started (Some []) (rc_name c)
       (case rc_autopeer c of Some a \<Rightarrow> a | None \<Rightarrow> True)"

subsection \<open>Configuration\<close>

definition enable_propagation_node :: "bool \<Rightarrow> nat \<Rightarrow> 's lxmf_router \<Rightarrow> 's lxmf_router" where
  "enable_propagation_node enable now r =
     (let r1 = r\<lparr>propagation_node_enabled := enable\<rparr> in if enable then r1\<lparr>propagation_started_ms := now\<rparr> else r1)"

definition set_transfer_limits_kb :: "f64 \<Rightarrow> f64 \<Rightarrow> f64 \<Rightarrow> 's lxmf_router \<Rightarrow> 's lxmf_router" where
  "set_transfer_limits_kb d p s r =
     r\<lparr>delivery_transfer_limit_kb := f64_max d 0, propagation_transfer_limit_kb := f64_max p 0,
       propagation_sync_limit_kb := f64_max s 0\<rparr>"

definition set_message_storage_limit :: "nat option \<Rightarrow> nat option \<Rightarrow> nat option \<Rightarrow> 's lxmf_router \<Rightarrow> 's lxmf_router" where
  "set_message_storage_limit kb mb gb r =
     (let l1 = (case kb of Some k \<Rightarrow> sat_add64 0 (sat_mul64 k 1000) | None \<Rightarrow> 0);
          l2 = (case mb of Some m \<Rightarrow> sat_add64 l1 (sat_mul64 m (1000 * 1000)) | None \<Rightarrow> l1);
          l3 = (case gb of Some g \<Rightarrow> sat_add64 l2 (sat_mul64 g (1000 * 1000 * 1000)) | None \<Rightarrow> l2) in
      r\<lparr>propagation_store_limit_bytes := (if l3 = 0 then None else Some l3)\<rparr>)"

definition set_outbound_propagation_node :: "bytes option \<Rightarrow> 's lxmf_router \<Rightarrow> 's lxmf_router" where
  "set_outbound_propagation_node dest r0 =
     (if outbound_propagation_node r0 = dest then r0
      else (let r = r0\<lparr>outbound_propagation_node := dest\<rparr> in
        case outbound_propagation_link (lr_links r) of
          None \<Rightarrow> r
        | Some l \<Rightarrow>
           (case dest of
              Some h \<Rightarrow> if pl_link_id l \<noteq> h then r\<lparr>lr_links := (lr_links r)\<lparr>outbound_propagation_link := None\<rparr>\<rparr> else r
            | None \<Rightarrow> r\<lparr>lr_links := (lr_links r)\<lparr>outbound_propagation_link := None\<rparr>\<rparr>)))"

subsection \<open>Announcing the propagation node\<close>

definition announce_metadata :: "'s lxmf_router \<Rightarrow> (nat, bytes) hmap" where
  "announce_metadata r = (case lr_name r of Some n \<Rightarrow> [(PN_META_NAME, n)] | None \<Rightarrow> [])"

definition announce_value :: "'s lxmf_router \<Rightarrow> mval" where
  "announce_value r =
     (let pv = lr_propagation_validation r;
          cost = (case pv of Some v \<Rightarrow> prv_stamp_cost v | None \<Rightarrow> DEFAULT_PROPAGATION_STAMP_COST);
          flex = (case pv of Some v \<Rightarrow> prv_stamp_cost_flex v | None \<Rightarrow> DEFAULT_PROPAGATION_STAMP_FLEX);
          peering = (case lr_peering_validation r of Some v \<Rightarrow> pv_target_cost v | None \<Rightarrow> DEFAULT_PEERING_COST) in
      MArr [MBool False, MInt (int (propagation_started_ms r div 1000)),
            MBool (propagation_node_enabled r \<and> \<not> from_static_only r),
            MInt (int (f64_as_u64 (propagation_transfer_limit_kb r))), MInt (int (f64_as_u64 (propagation_sync_limit_kb r))),
            MArr [MInt (int cost), MInt (int flex), MInt (int peering)],
            MMap (map (\<lambda>(k, v). (MInt (int k), MBin v)) (announce_metadata r))])"

text \<open>None is the panic of \<open>unwrap\<close> on a value that cannot be written.\<close>

definition get_propagation_node_app_data :: "codec \<Rightarrow> 's lxmf_router \<Rightarrow> bytes option" where
  "get_propagation_node_app_data c r = (case write_value c (announce_value r) of Inr b \<Rightarrow> Some b | Inl _ \<Rightarrow> None)"

definition announce_propagation_node :: "codec \<Rightarrow> nat \<Rightarrow> 's lxmf_router \<Rightarrow> 's lxmf_router option" where
  "announce_propagation_node c now r =
     (case get_propagation_node_app_data c r of
        None \<Rightarrow> None
      | Some d \<Rightarrow> Some (r\<lparr>pn_announce_queue := pn_announce_queue r @ [(d, (now + NODE_ANNOUNCE_DELAY * 1000) mod 2 ^ 64)]\<rparr>))"

definition pop_pn_announce :: "nat \<Rightarrow> 's lxmf_router \<Rightarrow> bytes option \<times> 's lxmf_router" where
  "pop_pn_announce now r =
     (case pn_announce_queue r of
        (d, t) # q \<Rightarrow> if now \<ge> t then (Some d, r\<lparr>pn_announce_queue := q\<rparr>) else (None, r)
      | [] \<Rightarrow> (None, r))"

subsection \<open>Downloads from a propagation node\<close>

definition acknowledge_sync_completion :: "bool \<Rightarrow> byte option \<Rightarrow> 's lxmf_router \<Rightarrow> 's lxmf_router" where
  "acknowledge_sync_completion reset_state failure r =
     r\<lparr>propagation_transfer_last_result := None,
       propagation_transfer_state :=
         (if reset_state \<or> propagation_transfer_state r \<le> PR_COMPLETE
          then (case failure of Some f \<Rightarrow> f | None \<Rightarrow> PR_IDLE) else propagation_transfer_state r),
       propagation_transfer_progress := 0, wants_download_from := None, wants_download_to := None,
       wants_download_timeout := None\<rparr>"

definition cancel_propagation_node_requests :: "'s lxmf_router \<Rightarrow> 's lxmf_router" where
  "cancel_propagation_node_requests r =
     (let r1 = r\<lparr>lr_links := (lr_links r)\<lparr>outbound_propagation_link := None\<rparr>\<rparr> in
      (acknowledge_sync_completion True None r1)\<lparr>propagation_transfer_max_messages := None\<rparr>)"

definition establish_propagation_link :: "bytes \<Rightarrow> bytes \<Rightarrow> nat \<Rightarrow> 's lxmf_router \<Rightarrow> 's lxmf_router" where
  "establish_propagation_link ident node now r =
     (if map_of (lr_pn_directory r) node \<noteq> None
      then r\<lparr>wants_download_from := None, propagation_transfer_state := PR_LINK_ESTABLISHING,
             pn_message_requests := pn_message_requests r @ [(node, ident, propagation_transfer_max_messages r)]\<rparr>
      else r\<lparr>wants_download_from := Some node, wants_download_to := Some ident,
             wants_download_timeout := Some (now div 1000 + PR_PATH_TIMEOUT),
             propagation_transfer_state := PR_PATH_REQUESTED, pn_path_requests := pn_path_requests r @ [node]\<rparr>)"

definition request_messages_from_propagation_node :: "bytes \<Rightarrow> nat option \<Rightarrow> nat \<Rightarrow> 's lxmf_router \<Rightarrow> 's lxmf_router" where
  "request_messages_from_propagation_node ident max_messages now r0 =
     (let mx = (case max_messages of Some m \<Rightarrow> m | None \<Rightarrow> PR_ALL_MESSAGES);
          r = r0\<lparr>propagation_transfer_progress := 0, propagation_transfer_max_messages := Some mx\<rparr> in
      case outbound_propagation_node r of
        None \<Rightarrow> r
      | Some node \<Rightarrow>
         (case outbound_propagation_link (lr_links r) of
            Some l \<Rightarrow>
              (if \<not> is_closed l
               then r\<lparr>pn_message_requests := pn_message_requests r @ [(node, ident, Some mx)],
                      propagation_transfer_state := PR_REQUEST_SENT\<rparr>
               else establish_propagation_link ident node now r)
          | None \<Rightarrow> establish_propagation_link ident node now r))"

definition process_pn_message_requests :: "'s lxmf_router \<Rightarrow> (bytes \<times> bytes \<times> nat option) list \<times> 's lxmf_router" where
  "process_pn_message_requests r = (pn_message_requests r, r\<lparr>pn_message_requests := []\<rparr>)"

definition pop_pn_path_request :: "'s lxmf_router \<Rightarrow> bytes option \<times> 's lxmf_router" where
  "pop_pn_path_request r =
     (case pn_path_requests r of n # q \<Rightarrow> (Some n, r\<lparr>pn_path_requests := q\<rparr>) | [] \<Rightarrow> (None, r))"

definition on_pn_path_available :: "bytes \<Rightarrow> nat \<Rightarrow> 's lxmf_router \<Rightarrow> 's lxmf_router" where
  "on_pn_path_available node now r =
     (if wants_download_from r = Some node
      then (case wants_download_to r of
              Some ident \<Rightarrow> r\<lparr>wants_download_from := None, propagation_transfer_state := PR_LINK_ESTABLISHING,
                 pn_message_requests := pn_message_requests r @ [(node, ident, propagation_transfer_max_messages r)]\<rparr>
            | None \<Rightarrow> r)
      else r)"

definition get_outbound_propagation_cost :: "codec \<Rightarrow> 's lxmf_router \<Rightarrow> nat option \<times> 's lxmf_router" where
  "get_outbound_propagation_cost c r =
     (case outbound_propagation_node r of
        None \<Rightarrow> (None, r)
      | Some node \<Rightarrow>
         (case map_of (lr_pn_directory r) node of
            Some e \<Rightarrow> (map_option (\<lambda>v. v mod 2 ^ 32) (pn_stamp_cost_from_app_data c (pn_app_data e)), r)
          | None \<Rightarrow>
             (if node \<in> set (pn_path_requests r) then (None, r)
              else (None, r\<lparr>pn_path_requests := pn_path_requests r @ [node]\<rparr>))))"

definition poll_path_request_timeout :: "nat \<Rightarrow> 's lxmf_router \<Rightarrow> bool \<times> 's lxmf_router" where
  "poll_path_request_timeout now r =
     (case (wants_download_from r, wants_download_timeout r) of
        (Some from, Some timeout) \<Rightarrow>
          (if now div 1000 \<ge> timeout then (True, acknowledge_sync_completion False (Some PR_NO_PATH) r)
           else if map_of (lr_pn_directory r) from \<noteq> None \<and> wants_download_to r \<noteq> None
           then (False, on_pn_path_available from now r) else (False, r))
      | _ \<Rightarrow> (False, r))"

text \<open>\<open>clean_links\<close>: the tracker first, then the transfer that used a closed link.\<close>

definition clean_links :: "nat \<Rightarrow> 's lxmf_router \<Rightarrow> 's lxmf_router" where
  "clean_links now r0 =
     (let r = r0\<lparr>lr_links := clean_propagation_links now (clean_direct_links now (lr_links r0))\<rparr> in
      case outbound_propagation_link (lr_links r) of
        None \<Rightarrow> r
      | Some l \<Rightarrow>
         (if \<not> is_closed l then r
          else (let r1 = r\<lparr>lr_links := (lr_links r)\<lparr>outbound_propagation_link := None\<rparr>\<rparr>; st = propagation_transfer_state r in
            if st = PR_COMPLETE then acknowledge_sync_completion False None r1
            else if st < PR_LINK_ESTABLISHED then acknowledge_sync_completion False (Some PR_LINK_FAILED) r1
            else if st \<ge> PR_LINK_ESTABLISHED \<and> st < PR_COMPLETE
            then acknowledge_sync_completion False (Some PR_TRANSFER_FAILED) r1
            else acknowledge_sync_completion False None r1)))"

subsection \<open>Stamp costs, tickets and caches\<close>

definition set_outbound_stamp_cost :: "bytes \<Rightarrow> nat option \<Rightarrow> nat \<Rightarrow> 's lxmf_router \<Rightarrow> 's lxmf_router" where
  "set_outbound_stamp_cost dest cost now r =
     (case cost of
        Some c \<Rightarrow> if c > 0 then r\<lparr>outbound_stamp_costs := hm_insert dest (now_s now, c) (outbound_stamp_costs r)\<rparr>
                  else r\<lparr>outbound_stamp_costs := hm_remove dest (outbound_stamp_costs r)\<rparr>
      | None \<Rightarrow> r\<lparr>outbound_stamp_costs := hm_remove dest (outbound_stamp_costs r)\<rparr>)"

definition set_inbound_stamp_cost :: "bytes \<Rightarrow> nat option \<Rightarrow> 's lxmf_router \<Rightarrow> 's lxmf_router" where
  "set_inbound_stamp_cost dest cost r =
     (case cost of
        Some c \<Rightarrow> if c > 0 then r\<lparr>inbound_stamp_costs := hm_insert dest c (inbound_stamp_costs r)\<rparr>
                  else r\<lparr>inbound_stamp_costs := hm_remove dest (inbound_stamp_costs r)\<rparr>
      | None \<Rightarrow> r\<lparr>inbound_stamp_costs := hm_remove dest (inbound_stamp_costs r)\<rparr>)"

definition clean_outbound_stamp_costs :: "nat \<Rightarrow> 's lxmf_router \<Rightarrow> nat \<times> 's lxmf_router" where
  "clean_outbound_stamp_costs now r =
     (let kept = hm_retain (\<lambda>_ (upd, _). f64_le (now_s now) (f64_add upd (u64_to_f64 (45 * 24 * 60 * 60)))) (outbound_stamp_costs r) in
      (sat_sub (length (outbound_stamp_costs r)) (length kept), r\<lparr>outbound_stamp_costs := kept\<rparr>))"

definition get_outbound_stamp_cost :: "bytes \<Rightarrow> 's lxmf_router \<Rightarrow> nat option" where
  "get_outbound_stamp_cost dest r = map_option snd (map_of (outbound_stamp_costs r) dest)"

definition remember_ticket :: "bytes \<Rightarrow> f64 \<Rightarrow> bytes \<Rightarrow> 's lxmf_router \<Rightarrow> 's lxmf_router" where
  "remember_ticket dest e t r = r\<lparr>lr_tickets := store_ticket dest \<lparr>expires_at_s = e, te_ticket = t\<rparr> (lr_tickets r)\<rparr>"

definition facade_generate_ticket :: "bytes \<Rightarrow> bytes \<Rightarrow> nat \<Rightarrow> 's lxmf_router \<Rightarrow> (f64 \<times> bytes) option \<times> 's lxmf_router" where
  "facade_generate_ticket fresh dest now r =
     (let (e, ts) = generate_ticket fresh dest now TICKET_EXPIRY (lr_tickets r) in
      (map_option (\<lambda>e. (expires_at_s e, te_ticket e)) e, r\<lparr>lr_tickets := ts\<rparr>))"

definition mark_ticket_delivered :: "bytes \<Rightarrow> nat \<Rightarrow> 's lxmf_router \<Rightarrow> 's lxmf_router" where
  "mark_ticket_delivered dest now r = r\<lparr>lr_tickets := ticket_delivered dest now (lr_tickets r)\<rparr>"

definition clean_tickets :: "nat \<Rightarrow> 's lxmf_router \<Rightarrow> 's lxmf_router" where
  "clean_tickets now r = r\<lparr>lr_tickets := clean_expired now (lr_tickets r)\<rparr>"

definition mark_local_delivery :: "bytes \<Rightarrow> nat \<Rightarrow> 's lxmf_router \<Rightarrow> 's lxmf_router" where
  "mark_local_delivery tid now r = r\<lparr>local_deliveries := hm_insert tid (now_s now) (local_deliveries r)\<rparr>"

definition mark_locally_processed :: "bytes \<Rightarrow> nat \<Rightarrow> 's lxmf_router \<Rightarrow> 's lxmf_router" where
  "mark_locally_processed tid now r = r\<lparr>locally_processed := hm_insert tid (now_s now) (locally_processed r)\<rparr>"

definition clean_transient_cache :: "f64 \<Rightarrow> (bytes, f64) hmap \<Rightarrow> nat \<times> (bytes, f64) hmap" where
  "clean_transient_cache now cache =
     (let expiry = f64_mul (u64_to_f64 MESSAGE_EXPIRY) (u64_to_f64 6);
          kept = hm_retain (\<lambda>_ ts. f64_le now (f64_add ts expiry)) cache in
      (sat_sub (length cache) (length kept), kept))"

definition clean_transient_id_caches :: "nat \<Rightarrow> 's lxmf_router \<Rightarrow> nat \<times> 's lxmf_router" where
  "clean_transient_id_caches now r =
     (let (n1, d) = clean_transient_cache (now_s now) (local_deliveries r);
          (n2, p) = clean_transient_cache (now_s now) (locally_processed r) in
      (sat_add64 n1 n2, r\<lparr>local_deliveries := d, locally_processed := p\<rparr>))"

subsection \<open>Sending\<close>

definition facade_enqueue :: "'s message_store_ops \<Rightarrow> lxmessage \<Rightarrow> delivery_mode \<Rightarrow> 's lxmf_router \<Rightarrow> nat \<times> 's lxmf_router" where
  "facade_enqueue ops m mode r =
     (let (i, q) = enqueue ops m mode (rt_router (lr_runtime r)) in (i, r\<lparr>lr_runtime := (lr_runtime r)\<lparr>rt_router := q\<rparr>\<rparr>))"

text \<open>\<open>handle_outbound\<close>, up to the decision between the queue and the deferred queues.\<close>

definition prepare_outbound :: "bytes \<Rightarrow> lxmessage \<Rightarrow> nat \<Rightarrow> 's lxmf_router \<Rightarrow> lxmessage \<times> 's lxmf_router" where
  "prepare_outbound fresh m0 now r =
     (let m1 = (if stamp_cost m0 = None
                then (case get_outbound_stamp_cost (destination_hash m0) r of Some c \<Rightarrow> m0\<lparr>stamp_cost := Some c\<rparr> | None \<Rightarrow> m0)
                else m0);
          m2 = m1\<lparr>outbound_ticket := get_outbound_ticket (destination_hash m1) now (lr_tickets r)\<rparr>;
          m3 = (if outbound_ticket m2 \<noteq> None \<and> defer_stamp m2 then m2\<lparr>defer_stamp := False\<rparr> else m2);
          (m4, r1) = (if include_ticket m3
                      then (case generate_ticket fresh (destination_hash m3) now TICKET_EXPIRY (lr_tickets r) of
                              (Some e, ts) \<Rightarrow> (m3\<lparr>m_fields := insert_ticket_field (m_fields m3) (expires_at_s e) (te_ticket e)\<rparr>,
                                               r\<lparr>lr_tickets := ts\<rparr>)
                            | (None, ts) \<Rightarrow> (m3, r\<lparr>lr_tickets := ts\<rparr>))
                      else (m3, r)) in
      (if defer_stamp m4 \<and> stamp_cost m4 = None then m4\<lparr>defer_stamp := False\<rparr> else m4, r1))"

definition handle_outbound ::
  "'s message_store_ops \<Rightarrow> bool \<Rightarrow> bytes \<Rightarrow> lxmessage \<Rightarrow> delivery_mode \<Rightarrow> nat \<Rightarrow> 's lxmf_router \<Rightarrow> nat option \<times> 's lxmf_router" where
  "handle_outbound ops lock_free fresh m mode now r =
     (let (m1, r1) = prepare_outbound fresh m now r in
      if defer_stamp m1
      then (let item = \<lparr>do_message = m1, do_mode = mode\<rparr>; r2 = r1\<lparr>deferred_queue := deferred_queue r1 @ [item]\<rparr> in
            (None, if lock_free then r2\<lparr>deferred_shared := deferred_shared r2 @ [item]\<rparr> else r2))
      else apfst Some (facade_enqueue ops m1 mode r1))"

fun process_deferred_stamps :: "'s message_store_ops \<Rightarrow> nat \<Rightarrow> 's lxmf_router \<Rightarrow> nat \<times> 's lxmf_router" where
  "process_deferred_stamps ops 0 r = (0, r)"
| "process_deferred_stamps ops (Suc n) r =
     (case deferred_queue r of
        [] \<Rightarrow> (0, r)
      | item # q \<Rightarrow>
         (let r1 = snd (facade_enqueue ops ((do_message item)\<lparr>defer_stamp := False\<rparr>) (do_mode item) (r\<lparr>deferred_queue := q\<rparr>));
              (k, r2) = process_deferred_stamps ops n r1 in (k + 1, r2)))"

text \<open>The part of \<open>tick\<close> that receives processed messages (at most 100) and starts the worker, and the
  worker thread itself.\<close>

fun receive_processed :: "'s message_store_ops \<Rightarrow> nat \<Rightarrow> 's lxmf_router \<Rightarrow> 's lxmf_router" where
  "receive_processed ops 0 r = r"
| "receive_processed ops (Suc n) r =
     (case processed_deferred r of
        Some (item # ch) \<Rightarrow>
          (let r1 = snd (facade_enqueue ops (do_message item) (do_mode item) (r\<lparr>processed_deferred := Some ch\<rparr>)) in
           receive_processed ops n (r1\<lparr>deferred_queue := tl (deferred_queue r1)\<rparr>))
      | _ \<Rightarrow> r)"

definition start_stamp_worker :: "bool \<Rightarrow> 's lxmf_router \<Rightarrow> 's lxmf_router" where
  "start_stamp_worker lock_free r =
     (if \<not> stamp_processing_active r \<and> lock_free \<and> deferred_shared r \<noteq> []
      then r\<lparr>stamp_processing_active := True\<rparr> else r)"

definition tick_stamps :: "'s message_store_ops \<Rightarrow> bool \<Rightarrow> 's lxmf_router \<Rightarrow> 's lxmf_router" where
  "tick_stamps ops lock_free r =
     (let r1 = (if processed_deferred r = None then r\<lparr>processed_deferred := Some []\<rparr> else r) in
      start_stamp_worker lock_free (receive_processed ops 100 r1))"

definition stamp_worker :: "bool \<Rightarrow> 's lxmf_router \<Rightarrow> 's lxmf_router" where
  "stamp_worker lock_free r =
     (let r1 = (if lock_free
                then (case deferred_shared r of
                        item # q \<Rightarrow> r\<lparr>deferred_shared := q, processed_deferred := map_option (\<lambda>ch. ch @
                          [item\<lparr>do_message := (do_message item)\<lparr>defer_stamp := False\<rparr>\<rparr>]) (processed_deferred r)\<rparr>
                      | [] \<Rightarrow> r)
                else r) in
      r1\<lparr>stamp_processing_active := False\<rparr>)"


subsection \<open>Receiving\<close>

definition learn_ticket :: "nat \<Rightarrow> lxmessage \<Rightarrow> 's lxmf_router \<Rightarrow> 's lxmf_router" where
  "learn_ticket now m r =
     (case extract_ticket_field (m_fields m) of
        Some (e, t) \<Rightarrow> if f64_lt (now_s now) e then remember_ticket (source_hash m) e t r else r
      | None \<Rightarrow> r)"

definition process_inbound_message ::
  "env \<Rightarrow> lxmessage \<Rightarrow> nat \<Rightarrow> bool \<Rightarrow> bool \<Rightarrow> 's lxmf_router \<Rightarrow> lxmessage option \<times> 's lxmf_router" where
  "process_inbound_message E m now sig_ok no_enforcement r =
     (if source_hash m \<in> ignored_destinations r then (None, r)
      else if (case message_id m of Some i \<Rightarrow> hm_contains (local_deliveries r) i | None \<Rightarrow> False) then (None, r)
      else (let r1 = (if sig_ok then learn_ticket now m r else r);
                (ok, m1) = (case map_of (inbound_stamp_costs r1) (destination_hash m) of
                   Some cost \<Rightarrow>
                     (let (valid, m1) = validate_stamp_with_tickets (e_codec E) (e_crypto E) cost
                                          (get_inbound_tickets (source_hash m) now (lr_tickets r1)) m in
                      (\<not> (\<not> valid \<and> enforce_stamps r1 \<and> \<not> no_enforcement), m1))
                 | None \<Rightarrow> (True, m)) in
        if \<not> ok then (None, r1)
        else (Some m1, case message_id m1 of Some i \<Rightarrow> mark_local_delivery i now r1 | None \<Rightarrow> r1)))"

text \<open>The entry that is stored for propagated data: with validation, the stamp has to reach the cost and
  the id is that of the data without stamp.\<close>

definition validated_entry :: "env \<Rightarrow> propagation_validation option \<Rightarrow> propagation_entry \<Rightarrow> propagation_entry option" where
  "validated_entry E v e =
     (case v of
        None \<Rightarrow> Some e
      | Some cfg \<Rightarrow>
         (case validate_pn_stamp (e_codec E) (e_crypto E) (pe_lxm_data e) (sat_sub (prv_stamp_cost cfg) (prv_stamp_cost_flex cfg)) of
            Some (tid, plain, _, stmp) \<Rightarrow> Some (e\<lparr>pe_transient_id := tid, pe_lxm_data := plain @ stmp\<rparr>)
          | None \<Rightarrow> None))"

definition count_received :: "bool \<Rightarrow> bytes option \<Rightarrow> nat \<Rightarrow> 's lxmf_router \<Rightarrow> 's lxmf_router" where
  "count_received client src sz r =
     (let n = lr_node_stats r in
      if client then r\<lparr>lr_node_stats := n\<lparr>client_propagation_messages_received := sat_add64 (client_propagation_messages_received n) 1\<rparr>\<rparr>
      else (case src of
              Some s \<Rightarrow>
                (if hm_contains (lr_peers r) s then r
                 else r\<lparr>lr_node_stats := n\<lparr>unpeered_propagation_incoming := sat_add64 (unpeered_propagation_incoming n) 1,
                                             unpeered_propagation_rx_bytes := sat_add64 (unpeered_propagation_rx_bytes n) sz\<rparr>\<rparr>)
            | None \<Rightarrow> r))"

definition process_propagated ::
  "env \<Rightarrow> f64 \<Rightarrow> bytes \<Rightarrow> nat \<Rightarrow> bytes option \<Rightarrow> bool \<Rightarrow> 's lxmf_router \<Rightarrow> bytes option \<times> 's lxmf_router" where
  "process_propagated E ts lxm_data now src client r =
     (let e0 = \<lparr>pe_transient_id = full_hash (e_crypto E) lxm_data, pe_lxm_data = lxm_data, pe_timestamp = ts,
                pe_destination_hash = (if DESTINATION_LENGTH \<le> length lxm_data then Some (take DESTINATION_LENGTH lxm_data) else None),
                pe_filepath = None, pe_msg_size = Some (length lxm_data)\<rparr> in
      case validated_entry E (lr_propagation_validation r) e0 of
        None \<Rightarrow> (None, r)
      | Some e \<Rightarrow>
         (let tid = pe_transient_id e in
          if ps_has tid (lr_prop_store r) \<or> hm_contains (locally_processed r) tid then (None, r)
          else (let r1 = count_received client src (length (pe_lxm_data e)) r;
                    r2 = r1\<lparr>lr_prop_store := ps_insert (e_codec E) (e_crypto E) e (lr_prop_store r1)\<rparr> in
            (Some tid, mark_locally_processed tid now r2))))"

fun process_propagated_all ::
  "env \<Rightarrow> f64 \<Rightarrow> bytes list \<Rightarrow> nat \<Rightarrow> bytes option \<Rightarrow> bool \<Rightarrow> 's lxmf_router \<Rightarrow> bytes list \<times> 's lxmf_router" where
  "process_propagated_all E ts [] now src client r = ([], r)"
| "process_propagated_all E ts (m # ms) now src client r =
     (let (i, r1) = process_propagated E ts m now src client r;
          (ids, r2) = process_propagated_all E ts ms now src client r1 in
      (case i of Some i \<Rightarrow> i # ids | None \<Rightarrow> ids, r2))"

text \<open>Access to one peer of the table: \<open>upsert\<close> followed by a change of the peer.\<close>

definition with_peer :: "bytes \<Rightarrow> nat \<Rightarrow> (peer \<Rightarrow> peer) \<Rightarrow> 's lxmf_router \<Rightarrow> 's lxmf_router" where
  "with_peer i now f r = r\<lparr>lr_peers := hm_modify i f (snd (upsert i now (lr_peers r)))\<rparr>"

definition process_propagation_resource ::
  "env \<Rightarrow> bytes option \<Rightarrow> bytes option \<Rightarrow> bytes list \<Rightarrow> f64 option \<Rightarrow> nat \<Rightarrow> 's lxmf_router \<Rightarrow> bytes list \<times> 's lxmf_router" where
  "process_propagation_resource E remote pkey messages limit_kb now r =
     (if messages = [] then ([], r)
      else if auth_required r \<and> (case remote of Some h \<Rightarrow> h \<notin> allowed_identities r | None \<Rightarrow> True) then ([], r)
      else if length messages > 1 \<and> remote = None then ([], r)
      else if (case limit_kb of
                 Some kb \<Rightarrow> sum_list (map length messages) > f64_as_u64 (f64_mul kb f64_1000) | None \<Rightarrow> False) then ([], r)
      else (case (if length messages > 1 then (lr_peering_validation r, remote) else (None, None)) of
              (Some v, Some h) \<Rightarrow>
                (if (case pkey of
                       Some k \<Rightarrow> validate_peering_key (e_codec E) (e_crypto E) (pv_local_identity_hash v @ h) k (pv_target_cost v)
                     | None \<Rightarrow> False)
                 then process_propagated_all E (ms_to_s now) messages now remote (remote = None) r
                 else ([], with_peer h now (on_failure now) r))
            | _ \<Rightarrow> process_propagated_all E (ms_to_s now) messages now remote (remote = None) r))"

definition handle_propagation_resource_payload ::
  "env \<Rightarrow> bytes option \<Rightarrow> bytes option \<Rightarrow> f64 option \<Rightarrow> bytes \<Rightarrow> nat \<Rightarrow> 's lxmf_router \<Rightarrow> (rns_error + bytes list) \<times> 's lxmf_router" where
  "handle_propagation_resource_payload E remote pkey limit_kb payload now r =
     (case decode_propagation_resource_payload E payload of
        Inl e \<Rightarrow> (Inl e, r)
      | Inr messages \<Rightarrow> apfst Inr (process_propagation_resource E remote pkey messages limit_kb now r))"

subsection \<open>Cleaning the propagation store\<close>

definition entry_expired :: "nat \<Rightarrow> propagation_entry \<Rightarrow> bool" where
  "entry_expired now e =
     ((case f64_view (pe_timestamp e) of Finite _ _ _ \<Rightarrow> False | _ \<Rightarrow> True) \<or> f64_le (pe_timestamp e) 0
      \<or> f64_lt (f64_add (pe_timestamp e) (u64_to_f64 MESSAGE_EXPIRY)) (now_s now))"

definition f64_tenth :: f64 where "f64_tenth = with_sign False (f64_round 1 10)"

text \<open>The weight of an entry: its size, its age in units of four days (at least one) and a tenth for
  the destinations that have priority.\<close>

definition entry_weight :: "nat \<Rightarrow> bytes set \<Rightarrow> propagation_entry \<Rightarrow> f64" where
  "entry_weight now prio e =
     (let age_days = f64_div (f64_div (f64_div (f64_max (f64_sub (now_s now) (pe_timestamp e)) 0) (u64_to_f64 60)) (u64_to_f64 60))
                       (u64_to_f64 24);
          age_weight = f64_max (f64_div age_days (u64_to_f64 4)) (u64_to_f64 1);
          priority_weight = (if DESTINATION_LENGTH \<le> length (pe_lxm_data e) \<and> take DESTINATION_LENGTH (pe_lxm_data e) \<in> prio
                             then f64_tenth else u64_to_f64 1) in
      f64_mul (f64_mul priority_weight age_weight) (u64_to_f64 (length (pe_lxm_data e))))"

text \<open>\<open>sort_by\<close> is stable; the weights are not NaN because the timestamps that are left are finite.\<close>

definition weighted_entries :: "nat \<Rightarrow> bytes set \<Rightarrow> propagation_store \<Rightarrow> (f64 \<times> bytes \<times> nat) list" where
  "weighted_entries now prio s =
     sort_key (\<lambda>(w, _). - f64_key w)
       (map (\<lambda>(i, e). (entry_weight now prio e, i, length (pe_lxm_data e))) (ps_entries s))"

fun evict :: "nat \<Rightarrow> (f64 \<times> bytes \<times> nat) list \<Rightarrow> nat \<Rightarrow> propagation_store \<Rightarrow> bytes list \<times> propagation_store" where
  "evict needed [] cleaned s = ([], s)"
| "evict needed ((w, i, sz) # ws) cleaned s =
     (if cleaned \<ge> needed then ([], s)
      else (case ps_get i s of
              None \<Rightarrow> evict needed ws cleaned s
            | Some _ \<Rightarrow>
               (let (ids, s1) = evict needed ws (sat_add64 cleaned sz) (snd (ps_remove i s)) in (i # ids, s1))))"

definition clean_propagation_store :: "nat \<Rightarrow> 's lxmf_router \<Rightarrow> nat \<times> 's lxmf_router" where
  "clean_propagation_store now r =
     (let s = lr_prop_store r;
          expired = map fst (filter (\<lambda>(_, e). entry_expired now e) (ps_entries s));
          s1 = fold (\<lambda>i s. snd (ps_remove i s)) expired s;
          (evicted, s2) = (case propagation_store_limit_bytes r of
             Some limit \<Rightarrow>
               (if total_size_bytes s1 > limit
                then evict (total_size_bytes s1 - limit) (weighted_entries now (propagation_prioritised r) s1) 0 s1 else ([], s1))
           | None \<Rightarrow> ([], s1)) in
      (length expired + length evicted, r\<lparr>lr_prop_store := s2\<rparr>))"

definition cleanup_propagation :: "nat \<Rightarrow> nat \<Rightarrow> 's lxmf_router \<Rightarrow> nat \<times> 's lxmf_router" where
  "cleanup_propagation now max_age r =
     (let (n, s) = remove_older_than now max_age (lr_prop_store r) in (n, r\<lparr>lr_prop_store := s\<rparr>))"


end
