(* ===== verification/Storage_Codec.thy ===== *)
theory Storage_Codec
  imports Facade
begin

section \<open>What is written to disk (storage.rs value codecs)\<close>

text \<open>
  \<open>FileMessageStore\<close> writes queued messages, propagation entries, tickets, stamp costs, statistics and
  caches as MessagePack values; here are the values and the functions that read them back, and \<open>File_Store\<close> has the
  files. Maps from hashes to values share one reader, \<open>collect_map\<close>,
  and the interface \<open>map_codec\<close> states what makes it the inverse of writing.
\<close>

subsection \<open>Loops over the entries of a map\<close>

text \<open>A variable that every entry with its key overwrites, and one that only readable entries overwrite.\<close>

fun assign :: "string \<Rightarrow> (mval \<Rightarrow> 'a option) \<Rightarrow> (mval \<times> mval) list \<Rightarrow> 'a option \<Rightarrow> 'a option" where
  "assign k f [] acc = acc"
| "assign k f ((k', v) # es) acc = assign k f es (if k' = key k then f v else acc)"

fun assign_some :: "string \<Rightarrow> (mval \<Rightarrow> 'a option) \<Rightarrow> (mval \<times> mval) list \<Rightarrow> 'a option \<Rightarrow> 'a option" where
  "assign_some k f [] acc = acc"
| "assign_some k f ((k', v) # es) acc =
     assign_some k f es (if k' = key k then (case f v of Some x \<Rightarrow> Some x | None \<Rightarrow> acc) else acc)"

text \<open>Readers of maps keyed by hashes: entries with another key or an unreadable value are skipped.\<close>

definition collect_map :: "nat \<Rightarrow> (mval \<Rightarrow> 'v option) \<Rightarrow> mval \<Rightarrow> (bytes, 'v) hmap" where
  "collect_map n f v =
     (case v of
        MMap es \<Rightarrow> fold (\<lambda>(k, v) m. case value_to_fixed_bytes n k of
            None \<Rightarrow> m
          | Some i \<Rightarrow> (case f v of None \<Rightarrow> m | Some x \<Rightarrow> hm_insert i x m)) es []
      | _ \<Rightarrow> [])"

definition map_value :: "('v \<Rightarrow> mval) \<Rightarrow> (bytes, 'v) hmap \<Rightarrow> mval" where
  "map_value g m = MMap (map (\<lambda>(k, v). (MBin k, g v)) m)"

subsection \<open>Messages and queue items\<close>

definition option_bytes_to_value :: "bytes option \<Rightarrow> mval" where
  "option_bytes_to_value b = (case b of Some x \<Rightarrow> MBin x | None \<Rightarrow> MNil)"

definition option_u32_to_value :: "nat option \<Rightarrow> mval" where
  "option_u32_to_value n = (case n of Some x \<Rightarrow> MInt (int x) | None \<Rightarrow> MNil)"

definition option_u8_to_value :: "byte option \<Rightarrow> mval" where
  "option_u8_to_value n = (case n of Some x \<Rightarrow> MInt (int (unat x)) | None \<Rightarrow> MNil)"

definition option_bool_to_value :: "bool option \<Rightarrow> mval" where
  "option_bool_to_value b = (case b of Some x \<Rightarrow> MBool x | None \<Rightarrow> MNil)"

definition option_string_to_value :: "bytes option \<Rightarrow> mval" where
  "option_string_to_value s = (case s of Some x \<Rightarrow> MStr x | None \<Rightarrow> MNil)"

definition message_entries :: "lxmessage \<Rightarrow> (mval \<times> mval) list" where
  "message_entries m =
     [(key ''dest'', MBin (destination_hash m)), (key ''src'', MBin (source_hash m)), (key ''timestamp'', MF64 (timestamp m)),
      (key ''title'', MBin (title m)), (key ''content'', MBin (content m)), (key ''fields'', m_fields m),
      (key ''stamp'', option_bytes_to_value (stamp m)), (key ''stamp_cost'', option_u32_to_value (stamp_cost m)),
      (key ''stamp_value'', option_u32_to_value (m_stamp_value m)), (key ''stamp_valid'', MBool (m_stamp_valid m)),
      (key ''stamp_checked'', MBool (stamp_checked m)), (key ''outbound_ticket'', option_bytes_to_value (outbound_ticket m)),
      (key ''include_ticket'', MBool (include_ticket m)), (key ''defer_stamp'', MBool (defer_stamp m)),
      (key ''state'', MInt (int (unat (m_state m)))), (key ''method'', option_u8_to_value (m_method m)),
      (key ''representation'', MInt (int (unat (representation m)))),
      (key ''transport_encrypted'', option_bool_to_value (transport_encrypted m)),
      (key ''transport_encryption'', option_string_to_value (transport_encryption m)),
      (key ''signature'', option_bytes_to_value (signature m)), (key ''message_id'', option_bytes_to_value (message_id m))]"

definition encode_message_value :: "lxmessage \<Rightarrow> mval" where
  "encode_message_value m = MMap (message_entries m)"

definition opt_byte :: "mval \<Rightarrow> byte option" where
  "opt_byte v = map_option of_nat (value_to_opt_u8 v)"

definition or_else :: "'a option \<Rightarrow> 'a \<Rightarrow> 'a" where
  "or_else x d = (case x of Some y \<Rightarrow> y | None \<Rightarrow> d)"

definition message_of_entries :: "(mval \<times> mval) list \<Rightarrow> bytes \<Rightarrow> bytes \<Rightarrow> lxmessage" where
  "message_of_entries es dest src =
     (let m = msg_new dest src in
      m\<lparr>timestamp := or_else (assign ''timestamp'' value_to_f64 es None) 0,
        title := or_else (assign ''title'' value_to_bytes es None) [],
        content := or_else (assign ''content'' value_to_bytes es None) [],
        m_fields := or_else (assign ''fields'' Some es None) (MMap []),
        stamp := assign ''stamp'' value_to_opt_bytes es None,
        stamp_cost := assign ''stamp_cost'' value_to_opt_u32 es None,
        m_stamp_value := assign ''stamp_value'' value_to_opt_u32 es None,
        m_stamp_valid := or_else (assign ''stamp_valid'' value_to_opt_bool es None) False,
        stamp_checked := or_else (assign ''stamp_checked'' value_to_opt_bool es None) False,
        outbound_ticket := assign ''outbound_ticket'' value_to_opt_bytes es None,
        include_ticket := or_else (assign ''include_ticket'' value_to_opt_bool es None) False,
        defer_stamp := or_else (assign ''defer_stamp'' value_to_opt_bool es None) False,
        m_state := or_else (assign ''state'' opt_byte es None) (m_state m),
        m_method := assign ''method'' opt_byte es None,
        representation := or_else (assign ''representation'' opt_byte es None) (representation m),
        transport_encrypted := assign ''transport_encrypted'' value_to_opt_bool es None,
        transport_encryption := assign ''transport_encryption'' value_to_opt_string es None,
        signature := assign ''signature'' (value_to_fixed_bytes SIGNATURE_LENGTH) es None,
        message_id := assign ''message_id'' (value_to_fixed_bytes HASH_LENGTH) es None\<rparr>)"

definition decode_message_value :: "mval \<Rightarrow> rns_error + lxmessage" where
  "decode_message_value v =
     (case v of
        MMap es \<Rightarrow>
          (case assign ''dest'' (value_to_fixed_bytes DESTINATION_LENGTH) es None of
             None \<Rightarrow> Inl (Msgpack ''missing dest'')
           | Some dest \<Rightarrow>
              (case assign ''src'' (value_to_fixed_bytes DESTINATION_LENGTH) es None of
                 None \<Rightarrow> Inl (Msgpack ''missing src'')
               | Some src \<Rightarrow> Inr (message_of_entries es dest src)))
      | _ \<Rightarrow> Inl (Msgpack ''expected message map''))"

definition delivery_mode_to_i64 :: "delivery_mode \<Rightarrow> int" where
  "delivery_mode_to_i64 m = (case m of Opportunistic \<Rightarrow> 0 | Direct \<Rightarrow> 1 | Propagated \<Rightarrow> 2 | Paper \<Rightarrow> 3)"

definition delivery_mode_from_i64 :: "int \<Rightarrow> rns_error + delivery_mode" where
  "delivery_mode_from_i64 i =
     (if i = 0 then Inr Opportunistic else if i = 1 then Inr Direct else if i = 2 then Inr Propagated
      else if i = 3 then Inr Paper else Inl (Msgpack ''invalid delivery mode''))"

definition item_entries :: "queued_message \<Rightarrow> (mval \<times> mval) list" where
  "item_entries item =
     [(key ''id'', MInt (u64_as_i64 (q_id item))), (key ''mode'', MInt (delivery_mode_to_i64 (q_mode item))),
      (key ''attempts'', MInt (int (unat (q_attempts item)))),
      (key ''next_attempt_ms'', MInt (u64_as_i64 (q_next_attempt_at_ms item))),
      (key ''message'', encode_message_value (q_message item))]"

definition encode_outbound :: "codec \<Rightarrow> queued_message \<Rightarrow> rns_error + bytes" where
  "encode_outbound c item = map_sum Msgpack id (write_value c (MMap (item_entries item)))"

definition mode_value :: "mval \<Rightarrow> delivery_mode option" where
  "mode_value v = (case as_i64 v of Some i \<Rightarrow> (case delivery_mode_from_i64 i of Inr m \<Rightarrow> Some m | Inl _ \<Rightarrow> None) | None \<Rightarrow> None)"

definition bad_mode :: "mval \<times> mval \<Rightarrow> bool" where
  "bad_mode e = (case e of (k, v) \<Rightarrow> k = key ''mode'' \<and> as_i64 v \<noteq> None \<and> mode_value v = None)"

definition decode_outbound :: "codec \<Rightarrow> bytes \<Rightarrow> rns_error + queued_message" where
  "decode_outbound c bs =
     (case read_value c bs of
        Inl e \<Rightarrow> Inl (Msgpack e)
      | Inr (MMap es) \<Rightarrow>
         (if list_ex bad_mode es then Inl (Msgpack ''invalid delivery mode'')
          else (case assign_some ''id'' (\<lambda>v. map_option i64_as_u64 (as_i64 v)) es None of
             None \<Rightarrow> Inl (Msgpack ''missing id'')
           | Some i \<Rightarrow>
              (case assign_some ''mode'' mode_value es None of
                 None \<Rightarrow> Inl (Msgpack ''missing mode'')
               | Some mode \<Rightarrow>
                  (case assign_some ''attempts'' (\<lambda>v. map_option i64_as_u32 (as_i64 v)) es None of
                     None \<Rightarrow> Inl (Msgpack ''missing attempts'')
                   | Some att \<Rightarrow>
                      (case assign_some ''next_attempt_ms'' (\<lambda>v. map_option i64_as_u64 (as_i64 v)) es None of
                         None \<Rightarrow> Inl (Msgpack ''missing next_attempt_ms'')
                       | Some nxt \<Rightarrow>
                          (case assign_some ''message'' Some es None of
                             None \<Rightarrow> Inl (Msgpack ''missing message'')
                           | Some mv \<Rightarrow>
                              (case decode_message_value mv of
                                 Inl e \<Rightarrow> Inl e
                               | Inr m \<Rightarrow> Inr \<lparr>q_id = i, q_message = m, q_mode = mode, q_attempts = of_nat att,
                                               q_next_attempt_at_ms = nxt\<rparr>)))))))
      | Inr _ \<Rightarrow> Inl (Msgpack ''expected map''))"

subsection \<open>Propagation entries\<close>

definition propagation_entry_to_value :: "propagation_entry \<Rightarrow> mval" where
  "propagation_entry_to_value e =
     MArr [MBin (pe_transient_id e), MBin (pe_lxm_data e), MF64 (pe_timestamp e),
           option_bytes_to_value (pe_destination_hash e), option_string_to_value (pe_filepath e),
           (case pe_msg_size e of Some n \<Rightarrow> MInt (u64_as_i64 n) | None \<Rightarrow> MNil)]"

definition propagation_entry_to_bytes :: "codec \<Rightarrow> propagation_entry \<Rightarrow> rns_error + bytes" where
  "propagation_entry_to_bytes c e = map_sum Msgpack id (write_value c (propagation_entry_to_value e))"

definition propagation_entry_from_value :: "mval \<Rightarrow> rns_error + propagation_entry" where
  "propagation_entry_from_value v =
     (case v of
        MArr arr \<Rightarrow>
          (if length arr < 3 then Inl (Msgpack ''propagation entry missing fields'')
           else (case value_to_fixed_bytes 32 (arr ! 0) of
              None \<Rightarrow> Inl (Msgpack ''invalid transient id'')
            | Some tid \<Rightarrow>
               (case value_to_bytes (arr ! 1) of
                  None \<Rightarrow> Inl (Msgpack ''invalid lxm data'')
                | Some data \<Rightarrow>
                   (case value_to_f64 (arr ! 2) of
                      None \<Rightarrow> Inl (Msgpack ''invalid timestamp'')
                    | Some ts \<Rightarrow>
                       (let dest = (if length arr > 3 then value_to_fixed_bytes DESTINATION_LENGTH (arr ! 3) else None);
                            dest' = (if dest = None \<and> DESTINATION_LENGTH \<le> length data
                                     then Some (take DESTINATION_LENGTH data) else dest);
                            path = (if length arr > 4 then value_to_opt_string (arr ! 4) else None);
                            sz = (if length arr > 5 then value_to_opt_u64 (arr ! 5) else None) in
                        Inr \<lparr>pe_transient_id = tid, pe_lxm_data = data, pe_timestamp = ts, pe_destination_hash = dest',
                             pe_filepath = path,
                             pe_msg_size = Some (case sz of Some n \<Rightarrow> n | None \<Rightarrow> length data)\<rparr>)))))
      | _ \<Rightarrow> Inl (Msgpack ''propagation entry must be array''))"

definition propagation_entry_from_bytes :: "codec \<Rightarrow> bytes \<Rightarrow> rns_error + propagation_entry" where
  "propagation_entry_from_bytes c bs =
     (case read_value c bs of Inl e \<Rightarrow> Inl (Msgpack e) | Inr v \<Rightarrow> propagation_entry_from_value v)"

subsection \<open>Tickets, stamp costs, statistics and caches\<close>

definition value_to_f64_seconds :: "mval \<Rightarrow> f64 option" where
  "value_to_f64_seconds v =
     (case as_i64 v of
        Some i \<Rightarrow> if 0 \<le> i then Some (i64_to_f64 i) else None
      | None \<Rightarrow> (case value_to_f64 v of Some x \<Rightarrow> if f64_lt x 0 then None else Some x | None \<Rightarrow> None))"

definition ticket_pair_to_value :: "f64 \<times> bytes \<Rightarrow> mval" where
  "ticket_pair_to_value = (\<lambda>(e, t). MArr [MF64 e, MBin t])"

definition ticket_pair_from_value :: "mval \<Rightarrow> (f64 \<times> bytes) option" where
  "ticket_pair_from_value v =
     (case v of
        MArr arr \<Rightarrow>
          (if length arr < 2 then None
           else (case value_to_f64_seconds (arr ! 0) of
              None \<Rightarrow> None
            | Some e \<Rightarrow> (case arr ! 1 of MBin t \<Rightarrow> Some (e, t) | _ \<Rightarrow> None)))
      | _ \<Rightarrow> None)"

definition tickets_outbound_to_value :: "(bytes, f64 \<times> bytes) hmap \<Rightarrow> mval" where
  "tickets_outbound_to_value m = map_value ticket_pair_to_value m"

definition tickets_outbound_from_value :: "mval \<Rightarrow> (bytes, f64 \<times> bytes) hmap" where
  "tickets_outbound_from_value v = collect_map DESTINATION_LENGTH ticket_pair_from_value v"

text \<open>The tickets handed out to one destination; the keys are tickets of any length.\<close>

definition given_to_value :: "(bytes, f64) hmap \<Rightarrow> mval" where
  "given_to_value m = map_value (\<lambda>e. MArr [MF64 e]) m"

definition expiry_from_value :: "mval \<Rightarrow> f64 option" where
  "expiry_from_value v = (case v of MArr (x # _) \<Rightarrow> value_to_f64_seconds x | _ \<Rightarrow> value_to_f64_seconds v)"

definition given_from_value :: "mval \<Rightarrow> (bytes, f64) hmap option" where
  "given_from_value v =
     (case v of
        MMap es \<Rightarrow> Some (fold (\<lambda>(k, v) m. case k of
            MBin t \<Rightarrow> (case expiry_from_value v of Some e \<Rightarrow> hm_insert t e m | None \<Rightarrow> m) | _ \<Rightarrow> m) es [])
      | _ \<Rightarrow> None)"

definition tickets_inbound_to_value :: "(bytes, (bytes, f64) hmap) hmap \<Rightarrow> mval" where
  "tickets_inbound_to_value m = map_value given_to_value m"

definition tickets_inbound_from_value :: "mval \<Rightarrow> (bytes, (bytes, f64) hmap) hmap" where
  "tickets_inbound_from_value v = collect_map DESTINATION_LENGTH given_from_value v"

definition tickets_last_deliveries_to_value :: "(bytes, f64) hmap \<Rightarrow> mval" where
  "tickets_last_deliveries_to_value m = map_value MF64 m"

definition tickets_last_deliveries_from_value :: "mval \<Rightarrow> (bytes, f64) hmap" where
  "tickets_last_deliveries_from_value v = collect_map DESTINATION_LENGTH value_to_f64_seconds v"

definition save_available_tickets :: "codec \<Rightarrow> ticket_snapshot \<Rightarrow> bytes option" where
  "save_available_tickets c s =
     (case write_value c (MMap [(key ''outbound'', tickets_outbound_to_value (sn_outbound s)),
             (key ''inbound'', tickets_inbound_to_value (sn_inbound s)),
             (key ''last_deliveries'', tickets_last_deliveries_to_value (sn_last_deliveries s))]) of
        Inr b \<Rightarrow> Some b | Inl _ \<Rightarrow> None)"

definition load_available_tickets :: "codec \<Rightarrow> bytes \<Rightarrow> ticket_snapshot" where
  "load_available_tickets c bs =
     (case read_value c bs of
        Inr (MMap es) \<Rightarrow>
          \<lparr>sn_outbound = or_else (assign ''outbound'' (\<lambda>v. Some (tickets_outbound_from_value v)) es None) [],
           sn_inbound = or_else (assign ''inbound'' (\<lambda>v. Some (tickets_inbound_from_value v)) es None) [],
           sn_last_deliveries = or_else (assign ''last_deliveries'' (\<lambda>v. Some (tickets_last_deliveries_from_value v)) es None) []\<rparr>
      | _ \<Rightarrow> \<lparr>sn_outbound = [], sn_inbound = [], sn_last_deliveries = []\<rparr>)"

definition cost_to_value :: "f64 \<times> nat \<Rightarrow> mval" where
  "cost_to_value = (\<lambda>(u, n). MArr [MF64 u, MInt (int n)])"

definition cost_from_value :: "mval \<Rightarrow> (f64 \<times> nat) option" where
  "cost_from_value v =
     (case v of
        MArr arr \<Rightarrow>
          (if length arr < 2 then None
           else (case value_to_f64_seconds (arr ! 0) of
              None \<Rightarrow> None | Some u \<Rightarrow> map_option (Pair u) (value_to_opt_u32 (arr ! 1))))
      | _ \<Rightarrow> None)"

definition stamp_costs_to_value :: "(bytes, f64 \<times> nat) hmap \<Rightarrow> mval" where
  "stamp_costs_to_value m = map_value cost_to_value m"

definition stamp_costs_from_value :: "mval \<Rightarrow> (bytes, f64 \<times> nat) hmap" where
  "stamp_costs_from_value v = collect_map DESTINATION_LENGTH cost_from_value v"

definition transient_cache_to_value :: "(bytes, f64) hmap \<Rightarrow> mval" where
  "transient_cache_to_value m = map_value MF64 m"

definition cache_time :: "mval \<Rightarrow> f64 option" where
  "cache_time v =
     (let ts = (case v of MF64 x \<Rightarrow> x | MF32 x \<Rightarrow> f32_to_f64 x
                | MInt i \<Rightarrow> (case as_i64 v of Some i \<Rightarrow> i64_to_f64 i | None \<Rightarrow> 0) | _ \<Rightarrow> 0) in
      if f64_lt 0 ts then Some ts else None)"

definition transient_cache_from_value :: "mval \<Rightarrow> (bytes, f64) hmap" where
  "transient_cache_from_value v = collect_map 32 cache_time v"

definition node_stats_value :: "node_stats \<Rightarrow> mval" where
  "node_stats_value s =
     MMap [(key ''client_propagation_messages_received'', MInt (u64_as_i64 (client_propagation_messages_received s))),
           (key ''client_propagation_messages_served'', MInt (u64_as_i64 (client_propagation_messages_served s))),
           (key ''unpeered_propagation_incoming'', MInt (u64_as_i64 (unpeered_propagation_incoming s))),
           (key ''unpeered_propagation_rx_bytes'', MInt (u64_as_i64 (unpeered_propagation_rx_bytes s)))]"

definition load_node_stats :: "codec \<Rightarrow> bytes \<Rightarrow> node_stats" where
  "load_node_stats c bs =
     (let es = (case read_value c bs of Inr (MMap es) \<Rightarrow> es | _ \<Rightarrow> []) in
      \<lparr>client_propagation_messages_received = or_else (assign_some ''client_propagation_messages_received'' value_to_opt_u64 es None) 0,
       client_propagation_messages_served = or_else (assign_some ''client_propagation_messages_served'' value_to_opt_u64 es None) 0,
       unpeered_propagation_incoming = or_else (assign_some ''unpeered_propagation_incoming'' value_to_opt_u64 es None) 0,
       unpeered_propagation_rx_bytes = or_else (assign_some ''unpeered_propagation_rx_bytes'' value_to_opt_u64 es None) 0\<rparr>)"

subsection \<open>The interface of stored maps\<close>

text \<open>Values of a map that can be read back; the client lemma is the round trip of the whole map.\<close>

locale map_codec =
  fixes n :: nat and enc :: "'v \<Rightarrow> mval" and dec :: "mval \<Rightarrow> 'v option" and ok :: "'v \<Rightarrow> bool"
  assumes dec_enc: "ok v \<Longrightarrow> dec (enc v) = Some v"
begin

lemma fold_roundtrip:
  "hm_wf (m @ es) \<Longrightarrow> \<forall>(k, v) \<in> set es. length k = n \<and> ok v \<Longrightarrow>
    fold (\<lambda>(k, v) m. case value_to_fixed_bytes n k of
        None \<Rightarrow> m | Some i \<Rightarrow> (case dec v of None \<Rightarrow> m | Some x \<Rightarrow> hm_insert i x m))
      (map (\<lambda>(k, v). (MBin k, enc v)) es) m = m @ es"
proof (induction es arbitrary: m)
  case (Cons e es)
  obtain k v where e: "e = (k, v)" by fastforce
  have "k \<notin> fst ` set m" using Cons.prems(1) by (auto simp: hm_wf_def e)
  then have "hm_insert k v m = m @ [(k, v)]" by (induction m) (auto simp: hm_insert_def)
  with Cons.IH[of "m @ [(k, v)]"] Cons.prems show ?case by (simp add: e value_to_fixed_bytes_bin dec_enc)
qed simp

lemma map_roundtrip:
  "hm_wf m \<Longrightarrow> \<forall>(k, v) \<in> set m. length k = n \<and> ok v \<Longrightarrow> collect_map n dec (map_value enc m) = m"
  using fold_roundtrip[of "[]" m] by (simp add: collect_map_def map_value_def)

end

text \<open>Times that survive: any double that is not negative.\<close>

definition time_ok :: "f64 \<Rightarrow> bool" where
  "time_ok x \<longleftrightarrow> \<not> f64_lt x 0"

definition given_ok :: "(bytes, f64) hmap \<Rightarrow> bool" where
  "given_ok m \<longleftrightarrow> hm_wf m \<and> list_all (\<lambda>(_, e). time_ok e) m"

lemma seconds_value: "time_ok x \<Longrightarrow> value_to_f64_seconds (MF64 x) = Some x"
  by (simp add: value_to_f64_seconds_def as_i64_def value_to_f64_def time_ok_def)

interpretation held: map_codec DESTINATION_LENGTH ticket_pair_to_value ticket_pair_from_value "\<lambda>(e, t). time_ok e"
  by unfold_locales (auto simp: ticket_pair_to_value_def ticket_pair_from_value_def seconds_value)

interpretation deliveries: map_codec DESTINATION_LENGTH MF64 value_to_f64_seconds time_ok
  by unfold_locales (rule seconds_value)

interpretation costs: map_codec DESTINATION_LENGTH cost_to_value cost_from_value "\<lambda>(u, n). time_ok u \<and> n < 2 ^ 32"
  by unfold_locales (auto simp: cost_to_value_def cost_from_value_def seconds_value value_to_opt_u32_int)

interpretation cache: map_codec 32 MF64 cache_time "f64_lt 0"
  by unfold_locales (simp add: cache_time_def)

lemma given_roundtrip: "given_ok m \<Longrightarrow> given_from_value (given_to_value m) = Some m"
proof -
  have "hm_wf (a @ es) \<Longrightarrow> list_all (\<lambda>(_, e). time_ok e) es \<Longrightarrow>
      fold (\<lambda>(k, v) m. case k of MBin t \<Rightarrow> (case expiry_from_value v of Some e \<Rightarrow> hm_insert t e m | None \<Rightarrow> m) | _ \<Rightarrow> m)
        (map (\<lambda>(k, v). (MBin k, MArr [MF64 v])) es) a = a @ es" for a es
  proof (induction es arbitrary: a)
    case (Cons e es)
    obtain k v where e: "e = (k, v)" by fastforce
    have "k \<notin> fst ` set a" using Cons.prems(1) by (auto simp: hm_wf_def e)
    then have "hm_insert k v a = a @ [(k, v)]" by (induction a) (auto simp: hm_insert_def)
    with Cons.IH[of "a @ [(k, v)]"] Cons.prems show ?case by (simp add: e expiry_from_value_def seconds_value)
  qed simp
  from this[of "[]" m] show "given_ok m \<Longrightarrow> given_from_value (given_to_value m) = Some m"
    by (simp add: given_ok_def given_from_value_def given_to_value_def map_value_def)
qed

interpretation given: map_codec DESTINATION_LENGTH given_to_value given_from_value given_ok
  by unfold_locales (rule given_roundtrip)


subsection \<open>Round trips\<close>

text \<open>Byte strings of the fixed lengths, costs of 32 bits and a valid name of the encryption.\<close>

definition stored_wf :: "lxmessage \<Rightarrow> bool" where
  "stored_wf m \<longleftrightarrow> msg_wf m \<and> list_all (\<lambda>n. n < 2 ^ 32) (case stamp_cost m of Some n \<Rightarrow> [n] | None \<Rightarrow> [])
     \<and> list_all (\<lambda>n. n < 2 ^ 32) (case m_stamp_value m of Some n \<Rightarrow> [n] | None \<Rightarrow> [])
     \<and> (case transport_encryption m of Some s \<Rightarrow> utf8_valid s | None \<Rightarrow> True)
     \<and> (case signature m of Some s \<Rightarrow> length s = 64 | None \<Rightarrow> True)
     \<and> (case message_id m of Some s \<Rightarrow> length s = 32 | None \<Rightarrow> True)"

lemma read_option_bytes: "value_to_opt_bytes (option_bytes_to_value b) = b"
  by (cases b) (simp_all add: option_bytes_to_value_def value_to_opt_bytes_def value_to_bytes_def)

lemma read_option_fixed:
  "(case b of Some s \<Rightarrow> length s = n | None \<Rightarrow> True) \<Longrightarrow> value_to_fixed_bytes n (option_bytes_to_value b) = b"
  by (cases b) (simp_all add: option_bytes_to_value_def value_to_fixed_bytes_def value_to_bytes_def)

lemma read_option_u32:
  "list_all (\<lambda>n. n < 2 ^ 32) (case b of Some n \<Rightarrow> [n] | None \<Rightarrow> []) \<Longrightarrow> value_to_opt_u32 (option_u32_to_value b) = b"
  by (cases b) (simp_all add: option_u32_to_value_def value_to_opt_u32_int, simp add: value_to_opt_u32_def as_i64_def)

lemma read_byte: "opt_byte (MInt (uint (b :: byte))) = Some b"
  using uint_byte_bounds[of b] by (simp add: opt_byte_def value_to_opt_u8_def i64_as_u8_def)

lemma read_bool: "value_to_opt_bool (MBool b) = Some b"
  by (simp add: value_to_opt_bool_def)

lemma read_option_u8: "opt_byte (option_u8_to_value b) = b"
  by (cases b) (simp_all add: option_u8_to_value_def read_byte, simp add: opt_byte_def value_to_opt_u8_def as_i64_def)

lemma read_option_bool: "value_to_opt_bool (option_bool_to_value b) = b"
  by (cases b) (simp_all add: option_bool_to_value_def value_to_opt_bool_def)

lemma read_option_string:
  "(case b of Some s \<Rightarrow> utf8_valid s | None \<Rightarrow> True) \<Longrightarrow> value_to_opt_string (option_string_to_value b) = b"
  by (cases b) (simp_all add: option_string_to_value_def value_to_opt_string_def as_str_def)

lemmas read_options = read_bool read_option_bytes read_option_fixed read_option_u32 read_byte read_option_u8 read_option_bool read_option_string

lemma message_value_roundtrip:
  assumes "stored_wf m"
  shows "decode_message_value (encode_message_value m) = Inr m"
proof -
  have "message_of_entries (message_entries m) (destination_hash m) (source_hash m) = m"
    using assms unfolding stored_wf_def message_of_entries_def message_entries_def Let_def
    by (simp add: read_options or_else_def value_to_f64_def value_to_bytes_def
        SIGNATURE_LENGTH_def HASH_LENGTH_def msg_new_def)
  moreover have "assign ''dest'' (value_to_fixed_bytes DESTINATION_LENGTH) (message_entries m) None = Some (destination_hash m)"
    "assign ''src'' (value_to_fixed_bytes DESTINATION_LENGTH) (message_entries m) None = Some (source_hash m)"
    using assms by (simp_all add: message_entries_def stored_wf_def msg_wf_def value_to_fixed_bytes_bin DESTINATION_LENGTH_def)
  ultimately show ?thesis by (simp add: decode_message_value_def encode_message_value_def)
qed

lemma mode_roundtrip: "mode_value (MInt (delivery_mode_to_i64 m)) = Some m" "as_i64 (MInt (delivery_mode_to_i64 m)) \<noteq> None"
  by (cases m; simp add: mode_value_def delivery_mode_to_i64_def as_i64_def delivery_mode_from_i64_def)+

text \<open>A queued message that was written to disk is read back unchanged: the message with all of its
  fields, mode, attempts, and 64-bit ids and times although they are stored as signed integers.\<close>

theorem queue_item_roundtrip:
  assumes "reads_back c (MMap (item_entries item))" and "stored_wf (q_message item)" and "q_id item \<le> u64_max"
    and "q_next_attempt_at_ms item \<le> u64_max"
  shows "\<exists>bs. encode_outbound c item = Inr bs \<and> decode_outbound c bs = Inr item"
proof -
  from assms(1) obtain bs where bs: "write_value c (MMap (item_entries item)) = Inr bs" "read_value c bs = Inr (MMap (item_entries item))"
    by (rule reads_backE)
  have a: "as_i64 (MInt (u64_as_i64 (q_id item))) = Some (u64_as_i64 (q_id item))"
    "as_i64 (MInt (u64_as_i64 (q_next_attempt_at_ms item))) = Some (u64_as_i64 (q_next_attempt_at_ms item))"
    using u64_as_i64_range assms(3,4) by (simp_all add: as_i64_def)
  have w: "0 \<le> uint (q_attempts item)" "uint (q_attempts item) < 2 ^ 32"
    using unsigned_less[of "q_attempts item", where ?'a = int] by simp_all
  have b: "as_i64 (MInt (uint (q_attempts item))) = Some (uint (q_attempts item))"
    unfolding as_i64_def mval.case by (intro if_P conjI order_trans[OF _ w(1)] less_trans[OF w(2)]) simp_all
  have c: "i64_as_u32 (uint (q_attempts item)) = unat (q_attempts item)"
    unfolding i64_as_u32_def mod_pos_pos_trivial[OF w] unat_eq_nat_uint ..
  have "decode_outbound c bs = Inr item" using assms(3,4) mode_roundtrip[of "q_mode item"]
    by (simp add: decode_outbound_def bs(2) item_entries_def bad_mode_def a b c i64_as_u64_of_u64 message_value_roundtrip[OF assms(2)])
  with bs(1) show ?thesis by (simp add: encode_outbound_def)
qed

text \<open>Ticket stores whose snapshot reads back as it was written.\<close>

definition tickets_wf :: "ticket_store \<Rightarrow> bool" where
  "tickets_wf s \<longleftrightarrow> hm_wf (tk_outbound s) \<and> hm_wf (tk_inbound s) \<and> hm_wf (last_deliveries s)
     \<and> (\<forall>(d, e) \<in> set (tk_outbound s). length d = 16 \<and> time_ok (expires_at_s e))
     \<and> (\<forall>(d, m) \<in> set (tk_inbound s). length d = 16 \<and> given_ok m)
     \<and> (\<forall>(d, t) \<in> set (last_deliveries s). length d = 16 \<and> time_ok t)"

definition tickets_value :: "ticket_snapshot \<Rightarrow> mval" where
  "tickets_value s = MMap [(key ''outbound'', tickets_outbound_to_value (sn_outbound s)),
     (key ''inbound'', tickets_inbound_to_value (sn_inbound s)),
     (key ''last_deliveries'', tickets_last_deliveries_to_value (sn_last_deliveries s))]"

lemma snapshot_outbound:
  assumes "hm_wf (tk_outbound s)"
  shows "sn_outbound (snapshot_tickets s) = map (\<lambda>x. (fst x, expires_at_s (snd x), te_ticket (snd x))) (tk_outbound s)"
  using assms fold_inserts[of "\<lambda>x. (fst x, expires_at_s (snd x), te_ticket (snd x))" "tk_outbound s" "[]"]
  by (simp add: snapshot_tickets_def hm_wf_def case_prod_unfold comp_def)

lemma snapshot_loads:
  assumes "tickets_wf s" and "read_value c b = Inr (tickets_value (snapshot_tickets s))"
  shows "load_available_tickets c b = snapshot_tickets s"
proof -
  let ?n = "snapshot_tickets s"
  have wf: "hm_wf (tk_outbound s)" using assms(1) by (simp add: tickets_wf_def)
  have "hm_wf (sn_outbound ?n)" unfolding snapshot_outbound[OF wf] using wf by (simp add: hm_wf_def comp_def)
  moreover have "\<forall>(k, v) \<in> set (sn_outbound ?n). length k = DESTINATION_LENGTH \<and> (\<lambda>(e, t). time_ok e) v"
    unfolding snapshot_outbound[OF wf] using assms(1) by (auto simp: tickets_wf_def DESTINATION_LENGTH_def)
  ultimately have o: "tickets_outbound_from_value (tickets_outbound_to_value (sn_outbound ?n)) = sn_outbound ?n"
    unfolding tickets_outbound_from_value_def tickets_outbound_to_value_def by (rule held.map_roundtrip)
  have i: "tickets_inbound_from_value (tickets_inbound_to_value (sn_inbound ?n)) = sn_inbound ?n"
    unfolding tickets_inbound_from_value_def tickets_inbound_to_value_def
    using assms(1) by (intro given.map_roundtrip) (auto simp: tickets_wf_def snapshot_tickets_def DESTINATION_LENGTH_def)
  have d: "tickets_last_deliveries_from_value (tickets_last_deliveries_to_value (sn_last_deliveries ?n)) = sn_last_deliveries ?n"
    unfolding tickets_last_deliveries_from_value_def tickets_last_deliveries_to_value_def
    using assms(1) by (intro deliveries.map_roundtrip) (auto simp: tickets_wf_def snapshot_tickets_def DESTINATION_LENGTH_def)
  show ?thesis using assms(2) by (simp add: load_available_tickets_def tickets_value_def or_else_def o i d)
qed

text \<open>Entries of the propagation store: what is read back has the fields that were written, with the
  destination and the size filled in where they were missing.\<close>

definition read_entry :: "propagation_entry \<Rightarrow> propagation_entry" where
  "read_entry e = e\<lparr>
     pe_destination_hash := (if pe_destination_hash e = None \<and> DESTINATION_LENGTH \<le> length (pe_lxm_data e)
        then Some (take DESTINATION_LENGTH (pe_lxm_data e)) else pe_destination_hash e),
     pe_msg_size := Some (case pe_msg_size e of Some n \<Rightarrow> n | None \<Rightarrow> length (pe_lxm_data e))\<rparr>"

definition entry_wf :: "propagation_entry \<Rightarrow> bool" where
  "entry_wf e \<longleftrightarrow> length (pe_transient_id e) = 32
     \<and> (case pe_destination_hash e of Some d \<Rightarrow> length d = DESTINATION_LENGTH | None \<Rightarrow> True)
     \<and> (case pe_filepath e of Some s \<Rightarrow> utf8_valid s | None \<Rightarrow> True)
     \<and> (case pe_msg_size e of Some n \<Rightarrow> n < 2 ^ 63 | None \<Rightarrow> True)"

lemma propagation_value_roundtrip:
  assumes "entry_wf e"
  shows "propagation_entry_from_value (propagation_entry_to_value e) = Inr (read_entry e)"
proof -
  have "value_to_opt_u64 (case pe_msg_size e of Some n \<Rightarrow> MInt (u64_as_i64 n) | None \<Rightarrow> MNil) = pe_msg_size e"
    using assms by (cases "pe_msg_size e") (simp_all add: entry_wf_def u64_as_i64_small value_to_opt_u64_int, simp add: value_defs)
  then show ?thesis using assms
    by (simp add: propagation_entry_from_value_def propagation_entry_to_value_def entry_wf_def value_to_fixed_bytes_bin
        read_options value_to_f64_def read_entry_def Let_def eval_nat_numeral value_to_bytes_def)
qed

definition sample_item :: queued_message where
  "sample_item = \<lparr>q_id = 2 ^ 63 + 5, q_message = sample_message, q_mode = Propagated, q_attempts = 2, q_next_attempt_at_ms = 9\<rparr>"

theorem queue_item_roundtrip_witness:
  "\<exists>bs. encode_outbound ref_codec sample_item = Inr bs \<and> decode_outbound ref_codec bs = Inr sample_item"
proof (rule queue_item_roundtrip)
  note defs = sample_item_def sample_message_def with_strings_def msg_new_def
  show "stored_wf (q_message sample_item)" "q_id sample_item \<le> u64_max" "q_next_attempt_at_ms sample_item \<le> u64_max"
    by (simp_all add: stored_wf_def msg_wf_def u64_max_def defs)
  show "reads_back ref_codec (MMap (item_entries sample_item))"
    by (rule ref_codec_reads_back)
      (simp add: item_entries_def encode_message_value_def message_entries_def key_def str_bytes_def defs u64_as_i64_def
        delivery_mode_to_i64_def option_bytes_to_value_def option_u32_to_value_def option_u8_to_value_def option_bool_to_value_def
        option_string_to_value_def STATE_GENERATING_def REPR_UNKNOWN_def)
qed

definition sample_tickets :: ticket_store where
  "sample_tickets = \<lparr>tk_outbound = [(replicate 16 1, \<lparr>expires_at_s = 5, te_ticket = replicate 16 4\<rparr>)],
     tk_inbound = [(replicate 16 2, [(replicate 16 6, 7), (replicate 16 8, 9)])], last_deliveries = [(replicate 16 2, 3)]\<rparr>"

end
