(* ===== verification/Facade_Facts.thy ===== *)
theory Facade_Facts
  imports Facade
begin

section \<open>What the facade guarantees\<close>

text \<open>
  Properties of the operations of theory \<open>Facade\<close>: tickets between two routers, the size of the
  propagation store, deferred stamps, downloads and announcements.
\<close>

subsection \<open>Tickets between two routers\<close>

lemma learn_ticket_keeps:
  "inbound_stamp_costs (learn_ticket now m r) = inbound_stamp_costs r"
  "tk_inbound (lr_tickets (learn_ticket now m r)) = tk_inbound (lr_tickets r)"
  "enforce_stamps (learn_ticket now m r) = enforce_stamps r"
  by (simp_all add: learn_ticket_def remember_ticket_def store_ticket_def split: option.splits prod.splits)

lemma inbound_tickets_cong: "tk_inbound s = tk_inbound s' \<Longrightarrow> get_inbound_tickets d now s = get_inbound_tickets d now s'"
  by (simp add: get_inbound_tickets_def)

lemma accepted_message_ticket:
  assumes "process_inbound_message E m now True ne r = (Some m', r')"
    and "extract_ticket_field (m_fields m) = Some (e, t)" and "f64_lt (now_s now) e"
  shows "map_of (tk_outbound (lr_tickets r')) (source_hash m) = Some \<lparr>expires_at_s = e, te_ticket = t\<rparr>"
proof -
  have "map_of (tk_outbound (lr_tickets (learn_ticket now m r))) (source_hash m) = Some \<lparr>expires_at_s = e, te_ticket = t\<rparr>"
    using assms(2,3) by (simp add: learn_ticket_def remember_ticket_def store_ticket_def map_of_hm_insert)
  moreover have "lr_tickets r' = lr_tickets (learn_ticket now m r)"
    using assms(1) by (auto simp: process_inbound_message_def mark_local_delivery_def Let_def
        split: if_splits option.splits prod.splits)
  ultimately show ?thesis by simp
qed

lemma prepared_with_ticket:
  assumes "prepare_outbound fresh m now r = (m', r')"
    and "get_outbound_ticket (destination_hash m) now (lr_tickets r) = Some t"
  shows "outbound_ticket m' = Some t \<and> \<not> defer_stamp m' \<and> stamp m' = stamp m
    \<and> destination_hash m' = destination_hash m \<and> source_hash m' = source_hash m"
proof -
  have "destination_hash (if stamp_cost m = None then (case get_outbound_stamp_cost (destination_hash m) r of
      Some c \<Rightarrow> m\<lparr>stamp_cost := Some c\<rparr> | None \<Rightarrow> m) else m) = destination_hash m"
    by (simp split: option.splits)
  then show ?thesis using assms
    by (auto simp: prepare_outbound_def Let_def split: option.splits prod.splits if_splits)
qed

lemma valid_message_accepted:
  assumes "source_hash d \<notin> ignored_destinations r" and "message_id d = Some i" and "i \<notin> fst ` set (local_deliveries r)"
    and "\<And>cost m. fst (validate_stamp_with_tickets (e_codec E) (e_crypto E) cost
           (get_inbound_tickets (source_hash d) now (lr_tickets r)) d)"
  shows "\<exists>v. fst (process_inbound_message E d now sig_ok ne r) = Some v"
proof -
  let ?r = "if sig_ok then learn_ticket now d r else r"
  have c: "get_inbound_tickets (source_hash d) now (lr_tickets ?r) = get_inbound_tickets (source_hash d) now (lr_tickets r)"
    by (rule inbound_tickets_cong) (simp add: learn_ticket_keeps)
  have "\<not> hm_contains (local_deliveries r) i" using assms(3) by (simp add: hm_contains_iff)
  then show ?thesis using assms(1,2,4) unfolding process_inbound_message_def Let_def c
    by (auto split: option.splits prod.splits) (metis fst_conv)+
qed

text \<open>C12. A ticket pays for the messages of its holder: when router \<open>A\<close> hands a ticket to \<open>B\<close> in a field of
  a message, \<open>B\<close> accepts that message before the ticket expires, and \<open>B\<close> then sends a message to \<open>A\<close>, the
  message that arrives at \<open>A\<close> carries a stamp made from the ticket, and \<open>A\<close> accepts it for every stamp
  cost that it may require, unless \<open>A\<close> ignores \<open>B\<close> or has already delivered the message.\<close>

theorem ticket_exchange:
  assumes gen: "facade_generate_ticket fresh (source_hash n) now0 a = (Some (e, t), a1)" and len: "length t = TICKET_LENGTH"
    and inb: "process_inbound_message E (m\<lparr>m_fields := insert_ticket_field flds e t\<rparr>) now1 True ne b = (Some m', b1)"
    and keys: "\<forall>(k, _) \<in> set (case flds of MMap kvs \<Rightarrow> kvs | _ \<Rightarrow> []). field_id k \<noteq> None"
    and out: "prepare_outbound fresh' n now2 b1 = (n1, b2)" "destination_hash n = source_hash m" "stamp n = None" "msg_wf n"
    and enc: "encode_signed (e_codec E) (e_crypto E) (e_rng E) sign n1 = (Inr bs, n2)"
    and env: "\<And>x. length (sign x) = 64" "\<And>x. length (cr_sha256 (e_crypto E) x) = 32"
      "reads_back (e_codec E) (MArr (payload_values n2 (stamp n2 \<noteq> None)))"
    and times: "f64_lt (now_s now1) e" "f64_lt (now_s now2) e" "f64_lt (now_s now3) e"
    and fresh_id: "source_hash n \<notin> ignored_destinations a1" "the (message_id n2) \<notin> fst ` set (local_deliveries a1)"
  shows "\<exists>d v. msg_decode (e_codec E) (e_crypto E) bs = Inr d
    \<and> fst (process_inbound_message E d now3 sig_ok ne' (set_inbound_stamp_cost (destination_hash n) cost a1)) = Some v"
proof -
  let ?a = "set_inbound_stamp_cost (destination_hash n) cost a1"
  have same: "lr_tickets ?a = lr_tickets a1" "ignored_destinations ?a = ignored_destinations a1"
    "local_deliveries ?a = local_deliveries a1" by (simp_all add: set_inbound_stamp_cost_def split: option.splits)
  have "map_of (tk_outbound (lr_tickets b1)) (source_hash m) = Some \<lparr>expires_at_s = e, te_ticket = t\<rparr>"
    using accepted_message_ticket[OF inb] extract_inserted[OF keys len] times(1) by simp
  then have "get_outbound_ticket (destination_hash n) now2 (lr_tickets b1) = Some t"
    using times(2) out(2) by (simp add: get_outbound_ticket_def)
  from prepared_with_ticket[OF out(1) this] have p: "outbound_ticket n1 = Some t" "\<not> defer_stamp n1" "stamp n1 = None"
    "source_hash n1 = source_hash n" "msg_wf n1" using out(3,4) by (simp_all add: msg_wf_def)
  obtain d where d: "msg_decode (e_codec E) (e_crypto E) bs = Inr d" "source_hash d = source_hash n"
      "message_id d = message_id n2"
    and v: "\<And>c. fst (validate_stamp (e_codec E) (e_crypto E) c (Some t) d) = Inr True"
    using ticket_stamp_received[OF enc p(5) env(1,3,2) p(3,2,1) len] p(4) by (metis sum.inject(2))
  obtain ent where "generate_ticket fresh (source_hash n) now0 TICKET_EXPIRY (lr_tickets a) = (Some ent, lr_tickets a1)"
      "te_ticket ent = t" "expires_at_s ent = e"
    using gen by (auto simp: facade_generate_ticket_def split: prod.splits)
  then obtain ts where ts: "get_inbound_tickets (source_hash d) now3 (lr_tickets ?a) = Some ts" "t \<in> set ts"
    using generated_ticket_kept kept_ticket_offered times(3) d(2) same(1) by metis
  have "message_id n2 = Some (the (message_id n2))" using enc by (rule encode_signedE) simp
  then have "\<exists>w. fst (process_inbound_message E d now3 sig_ok ne' ?a) = Some w"
    using d fresh_id same v ts by (intro valid_message_accepted) (simp_all add: validate_with_tickets_valid)
  with d(1) show ?thesis by blast
qed

definition sample_facade :: "in_memory_store lxmf_router" where
  "sample_facade = facade_new (replicate 16 1) 0 (router_new sample_outbound)"

definition sample_expiry :: f64 where
  "sample_expiry = 0x413BAF8100000000"

definition sample_reply :: lxmessage where
  "sample_reply = with_strings (replicate 16 2) (replicate 16 1) 5 [72, 105] [33] (MMap [])"

text \<open>One second after the start, and a ticket that expires 21 days later.\<close>

lemmas f64_rounding = f64_round_def ratio_exp_def bit_len.simps round_half_even_def with_sign_def Let_def

lemma sample_views:
  "f64_view 0x408F400000000000 = Finite False 8796093022208000 (- 43)"
  "f64_view 0x413BAF8000000000 = Finite False (2 ^ 52 + 0xBAF8000000000) (- 32)"
  "f64_view 0x3FF0000000000000 = Finite False (2 ^ 52) (- 52)"
  "f64_view 0x413BAF8100000000 = Finite False (2 ^ 52 + 0xBAF8100000000) (- 32)"
  by (simp_all add: f64_view_def Let_def)

lemma sample_seconds: "f64_1000 = 0x408F400000000000" "u64_to_f64 TICKET_EXPIRY = 0x413BAF8000000000"
  by (simp_all add: f64_1000_def TICKET_EXPIRY_def u64_to_f64_def f64_rounding)

lemma sample_now: "now_s 1000 = 0x3FF0000000000000"
  by (simp add: now_s_def ms_to_s_def f64_div_def sample_seconds f64_1000_def[symmetric] sample_views f64_rounding)

lemma sample_expires: "f64_add (now_s 1000) (u64_to_f64 TICKET_EXPIRY) = sample_expiry"
  by (simp add: sample_now sample_seconds sample_expiry_def f64_add_def sample_views f64_scaled_def f64_rounding)

lemma sample_not_expired: "f64_lt (now_s 1000) sample_expiry"
  by (simp add: sample_now sample_expiry_def f64_lt_def is_nan_def sample_views f64_key_def Let_def)

lemma sample_ticket:
  "facade_generate_ticket (replicate 16 4) (replicate 16 2) 1000 sample_facade
    = (Some (sample_expiry, replicate 16 4),
       sample_facade\<lparr>lr_tickets := \<lparr>tk_outbound = [], tk_inbound = [(replicate 16 2, [(replicate 16 4, sample_expiry)])], last_deliveries = []\<rparr>\<rparr>)"
  by (simp add: facade_generate_ticket_def sample_facade_def facade_new_def facade_init_def generate_ticket_def
      ticket_store_default_def sample_expires hm_insert_def)

theorem ticket_exchange_witness:
  "\<exists>bs d v. msg_decode ref_codec zero_crypto bs = Inr d
    \<and> fst (process_inbound_message sample_env d 1000 True False (set_inbound_stamp_cost (replicate 16 1) (Some 20)
        (snd (facade_generate_ticket (replicate 16 4) (replicate 16 2) 1000 sample_facade)))) = Some v"
proof -
  let ?n = "with_strings (replicate 16 1) (replicate 16 2) 5 [72, 105] [33] (MMap [])"
  let ?m = "sample_reply\<lparr>m_fields := insert_ticket_field (MMap []) sample_expiry (replicate 16 4)\<rparr>"
  note defs = with_strings_def msg_new_def
  obtain b1 where inb: "process_inbound_message sample_env ?m 1000 True False sample_facade = (Some ?m, b1)"
      "b1 = remember_ticket (replicate 16 1) sample_expiry (replicate 16 4) sample_facade"
    using extract_inserted[of "MMap []" "replicate 16 4" sample_expiry] sample_not_expired
    by (simp add: process_inbound_message_def learn_ticket_def sample_facade_def facade_new_def facade_init_def
        sample_reply_def defs remember_ticket_def TICKET_LENGTH_def)
  obtain n1 where n1: "prepare_outbound [] ?n 1000 b1 = (n1, b1)" "n1 = ?n\<lparr>outbound_ticket := Some (replicate 16 4), defer_stamp := False\<rparr>"
    using sample_not_expired inb(2)
    by (simp add: prepare_outbound_def get_outbound_stamp_cost_def sample_facade_def facade_new_def facade_init_def
        remember_ticket_def store_ticket_def ticket_store_default_def hm_insert_def get_outbound_ticket_def defs)
  let ?n2 = "snd (encode_signed ref_codec zero_crypto (e_rng sample_env) zero_sign n1)"
  obtain bs where e: "encode_signed ref_codec zero_crypto (e_rng sample_env) zero_sign n1 = (Inr bs, ?n2)"
    unfolding n1(2) by (simp add: encode_signed_def encode_with_signature_def pack_payload_def pack_payload_values_def ref_codec_def
        defs Let_def ensure_stamp_def TICKET_LENGTH_def)
  have st: "stamp ?n2 = Some (replicate 16 0)"
    unfolding n1(2) by (simp add: encode_signed_def pack_payload_def pack_payload_values_def ref_codec_def zero_crypto_def
        defs Let_def ensure_stamp_def TICKET_LENGTH_def truncated_hash_def full_hash_def)
  from e obtain m2 where f: "timestamp ?n2 = timestamp n1" "title ?n2 = title n1" "content ?n2 = content n1" "m_fields ?n2 = m_fields n1"
    by (rule encode_signedE)
  have rb: "reads_back ref_codec (MArr (payload_values ?n2 (stamp ?n2 \<noteq> None)))"
    unfolding payload_values_def f st by (rule ref_codec_reads_back) (simp add: n1(2) defs)
  have env: "e_codec sample_env = ref_codec" "e_crypto sample_env = zero_crypto" by (simp_all add: sample_env_def)
  have len: "length (zero_sign x) = 64" "length (cr_sha256 zero_crypto x) = 32" for x
    by (simp_all add: zero_sign_def zero_crypto_def)
  have ids: "source_hash ?n = replicate 16 2" "destination_hash ?n = source_hash sample_reply" "stamp ?n = None" "msg_wf ?n"
    by (simp_all add: defs sample_reply_def msg_wf_def)
  let ?a1 = "snd (facade_generate_ticket (replicate 16 4) (replicate 16 2) 1000 sample_facade)"
  have gen: "facade_generate_ticket (replicate 16 4) (source_hash ?n) 1000 sample_facade = (Some (sample_expiry, replicate 16 4), ?a1)"
    unfolding ids sample_ticket by simp
  have fr: "source_hash ?n \<notin> ignored_destinations ?a1" "the (message_id ?n2) \<notin> fst ` set (local_deliveries ?a1)"
    unfolding sample_ticket by (simp_all add: sample_facade_def facade_new_def facade_init_def)
  have "\<exists>d v. msg_decode (e_codec sample_env) (e_crypto sample_env) bs = Inr d
    \<and> fst (process_inbound_message sample_env d 1000 True False (set_inbound_stamp_cost (destination_hash ?n) (Some 20) ?a1)) = Some v"
    by (rule ticket_exchange[OF gen _ inb(1) _ n1(1) ids(2-4) e[folded env] _ _ rb[folded env] _ _ _ fr(1) fr(2)[folded env]])
      (simp_all add: env len sample_not_expired TICKET_LENGTH_def)
  moreover have dest: "destination_hash ?n = replicate 16 1" by (simp add: defs)
  ultimately show ?thesis unfolding env dest by blast
qed


subsection \<open>The size of the propagation store\<close>

lemma ps_remove_entries [simp]: "ps_entries (snd (ps_remove i s)) = hm_remove i (ps_entries s)"
  by (simp add: ps_remove_def)

lemma fold_ps_remove_entries: "ps_entries (fold (\<lambda>i s. snd (ps_remove i s)) ids s) = filter (\<lambda>(k, _). k \<notin> set ids) (ps_entries s)"
proof (induction ids arbitrary: s)
  case (Cons i ids)
  have "filter (\<lambda>(k, _). k \<notin> set ids) (hm_remove i m) = filter (\<lambda>(k, _). k \<notin> set (i # ids)) m" for m :: "(bytes, propagation_entry) hmap"
    by (auto simp: hm_remove_def AList.delete_eq intro!: filter_cong)
  then show ?case using Cons.IH by simp
qed (simp add: case_prod_unfold)

lemma fold_ps_remove_invar: "ps_invar s \<Longrightarrow> ps_invar (fold (\<lambda>i s. snd (ps_remove i s)) ids s)"
  by (induction ids arbitrary: s) (simp_all add: ps_step_invar[OF ps_step.Remove])

lemma filter_out_keys:
  "hm_wf m \<Longrightarrow> filter (\<lambda>(k, _). k \<notin> set (map fst (filter P m))) m = filter (\<lambda>e. \<not> P e) m"
  by (rule filter_cong) (auto simp: hm_wf_def image_iff dest: eq_key_imp_eq_value)

lemma total_remove:
  assumes "hm_wf (ps_entries s)" and "map_of (ps_entries s) i = Some e"
  shows "total_size_bytes (snd (ps_remove i s)) + length (pe_lxm_data e) = total_size_bytes s"
proof -
  have "hm_wf m \<Longrightarrow> map_of m i = Some e \<Longrightarrow>
      sum_list (map (\<lambda>(_, e). length (pe_lxm_data e)) (hm_remove i m)) + length (pe_lxm_data e)
        = sum_list (map (\<lambda>(_, e). length (pe_lxm_data e)) m)" for m
  proof (induction m)
    case (Cons a m)
    show ?case
    proof (cases "fst a = i")
      case True
      with Cons.prems have "hm_remove i m = m" "snd a = e"
        by (cases a, auto simp: hm_wf_def hm_remove_def delete_id)+
      with True show ?thesis by (cases a) (simp add: hm_remove_def)
    next
      case False
      with Cons show ?thesis by (cases a) (simp add: hm_remove_def hm_wf_def)
    qed
  qed simp
  from this[OF assms] show ?thesis by (simp add: total_size_bytes_def)
qed

text \<open>Eviction removes a prefix of the list, no longer than needed.\<close>

lemma evict_prefix:
  assumes "\<forall>(w, i, sz) \<in> set ws. \<exists>e. map_of (ps_entries s) i = Some e \<and> sz = length (pe_lxm_data e)"
    and "distinct (map (fst \<circ> snd) ws)" and "hm_wf (ps_entries s)" and "cleaned + total_size_bytes s \<le> u64_max"
    and "needed \<le> cleaned + sum_list (map (snd \<circ> snd) ws)"
  shows "\<exists>k \<le> length ws. let ids = map (fst \<circ> snd) (take k ws); s' = fold (\<lambda>i s. snd (ps_remove i s)) ids s in
    evict needed ws cleaned s = (ids, s') \<and> total_size_bytes s' + needed \<le> total_size_bytes s + cleaned
    \<and> (0 < k \<longrightarrow> cleaned + sum_list (map (snd \<circ> snd) (take (k - 1) ws)) < needed)"
  using assms
proof (induction ws arbitrary: cleaned s)
  case Nil
  then show ?case by simp
next
  case (Cons x ws)
  obtain w i sz where x: "x = (w, i, sz)" by (metis prod_cases3)
  show ?case
  proof (cases "cleaned \<ge> needed")
    case True
    then show ?thesis by (intro exI[of _ 0]) (simp add: x)
  next
    case False
    from Cons.prems(1) obtain e where e: "map_of (ps_entries s) i = Some e" "sz = length (pe_lxm_data e)" by (auto simp: x)
    let ?s = "snd (ps_remove i s)"
    have t: "total_size_bytes ?s + sz = total_size_bytes s" using total_remove[OF Cons.prems(3) e(1)] e(2) by simp
    have sat: "sat_add64 cleaned sz = cleaned + sz" using Cons.prems(4) t by (simp add: sat_add64_def)
    have keep: "\<forall>(w, j, sz) \<in> set ws. \<exists>e. map_of (ps_entries ?s) j = Some e \<and> sz = length (pe_lxm_data e)"
    proof (rule ballI, clarify)
      fix w' j sz'
      assume j: "(w', j, sz') \<in> set ws"
      with Cons.prems(2) have "j \<noteq> i" by (force simp: x image_iff)
      with j Cons.prems(1) show "\<exists>e. map_of (ps_entries ?s) j = Some e \<and> sz' = length (pe_lxm_data e)"
        by (auto simp: map_of_hm_remove)
    qed
    have "\<exists>k \<le> length ws. let ids = map (fst \<circ> snd) (take k ws); s' = fold (\<lambda>i s. snd (ps_remove i s)) ids ?s in
      evict needed ws (cleaned + sz) ?s = (ids, s') \<and> total_size_bytes s' + needed \<le> total_size_bytes ?s + (cleaned + sz)
      \<and> (0 < k \<longrightarrow> (cleaned + sz) + sum_list (map (snd \<circ> snd) (take (k - 1) ws)) < needed)"
      using Cons.prems t keep by (intro Cons.IH) (simp_all add: x hm_wf_remove)
    then obtain k where k: "k \<le> length ws" "evict needed ws (cleaned + sz) ?s
        = (map (fst \<circ> snd) (take k ws), fold (\<lambda>i s. snd (ps_remove i s)) (map (fst \<circ> snd) (take k ws)) ?s)"
      "total_size_bytes (fold (\<lambda>i s. snd (ps_remove i s)) (map (fst \<circ> snd) (take k ws)) ?s) + needed
         \<le> total_size_bytes ?s + (cleaned + sz)"
      "0 < k \<longrightarrow> (cleaned + sz) + sum_list (map (snd \<circ> snd) (take (k - 1) ws)) < needed"
      by (auto simp: Let_def)
    have "evict needed (x # ws) cleaned s = (map (fst \<circ> snd) (take (Suc k) (x # ws)),
        fold (\<lambda>i s. snd (ps_remove i s)) (map (fst \<circ> snd) (take (Suc k) (x # ws))) s)"
      using False e(1) k(2) sat by (simp add: x ps_get_def)
    moreover have "cleaned + sum_list (map (snd \<circ> snd) (take k (x # ws))) < needed"
      using False k(4) by (cases k) (simp_all add: x)
    ultimately show ?thesis using k(1,3) t by (intro exI[of _ "Suc k"]) (simp add: Let_def x comp_def)
  qed
qed

lemma weighted_entries_set: "set (weighted_entries now prio s) = (\<lambda>(i, e). (entry_weight now prio e, i, length (pe_lxm_data e))) ` set (ps_entries s)"
  by (simp add: weighted_entries_def)

lemma weighted_entries_mset:
  "mset (weighted_entries now prio s) = mset (map (\<lambda>(i, e). (entry_weight now prio e, i, length (pe_lxm_data e))) (ps_entries s))"
  by (simp add: weighted_entries_def)

lemma weighted_entries_ids: "hm_wf (ps_entries s) \<Longrightarrow> distinct (map (fst \<circ> snd) (weighted_entries now prio s))"
proof -
  assume "hm_wf (ps_entries s)"
  have "mset (map (fst \<circ> snd) (weighted_entries now prio s))
      = mset (map (fst \<circ> snd) (map (\<lambda>(i, e). (entry_weight now prio e, i, length (pe_lxm_data e))) (ps_entries s)))"
    unfolding mset_map weighted_entries_mset ..
  also have "\<dots> = mset (map fst (ps_entries s))" by (simp add: comp_def case_prod_unfold)
  finally show ?thesis using \<open>hm_wf (ps_entries s)\<close> by (metis hm_wf_def mset_eq_imp_distinct_iff)
qed

lemma weighted_entries_total: "sum_list (map (snd \<circ> snd) (weighted_entries now prio s)) = total_size_bytes s"
proof -
  have "mset (map (snd \<circ> snd) (weighted_entries now prio s))
      = mset (map (snd \<circ> snd) (map (\<lambda>(i, e). (entry_weight now prio e, i, length (pe_lxm_data e))) (ps_entries s)))"
    unfolding mset_map weighted_entries_mset ..
  from arg_cong[OF this, of sum_mset] have "sum_list (map (snd \<circ> snd) (weighted_entries now prio s))
      = sum_list (map (snd \<circ> snd) (map (\<lambda>(i, e). (entry_weight now prio e, i, length (pe_lxm_data e))) (ps_entries s)))"
    by (simp only: sum_mset_sum_list)
  then show ?thesis by (simp add: total_size_bytes_def comp_def case_prod_unfold)
qed

text \<open>An entry of the rest of the sorted list is not heavier than one of the prefix.\<close>

lemma weighted_prefix:
  assumes "x \<in> set (take k (weighted_entries now prio s))" and "y \<in> set (drop k (weighted_entries now prio s))"
  shows "f64_key (fst y) \<le> f64_key (fst x)"
proof -
  let ?ws = "weighted_entries now prio s"
  have "sorted (map (\<lambda>(w, _). - f64_key w) ?ws)" by (simp add: weighted_entries_def)
  then have "sorted (map (\<lambda>(w, _). - f64_key w) (take k ?ws) @ map (\<lambda>(w, _). - f64_key w) (drop k ?ws))"
    by (metis append_take_drop_id map_append)
  then have "(\<lambda>(w, _). - f64_key w) x \<le> (\<lambda>(w, _). - f64_key w) y" using assms unfolding sorted_append by auto
  then show ?thesis by (simp add: case_prod_unfold)
qed

lemma length_without_keys:
  assumes "hm_wf m" and "distinct ids" and "set ids \<subseteq> fst ` set m"
  shows "length (filter (\<lambda>(k, _). k \<notin> set ids) m) + length ids = length m"
proof -
  let ?in = "filter (\<lambda>e. fst e \<in> set ids) m"
  have d: "distinct (map fst ?in)" using assms(1) by (simp add: hm_wf_def distinct_map_filter)
  have "set (map fst ?in) = set ids" using assms(3) by force
  then have "length ?in = length ids" using d assms(2) by (metis distinct_card length_map)
  moreover have "length (filter (\<lambda>e. fst e \<notin> set ids) m) + length ?in = length m"
    using sum_length_filter_compl[of "\<lambda>e. fst e \<in> set ids" m] by simp
  ultimately show ?thesis by (simp add: case_prod_unfold)
qed

abbreviation drop_entries :: "bytes list \<Rightarrow> propagation_store \<Rightarrow> propagation_store" where
  "drop_entries ids s \<equiv> fold (\<lambda>i s. snd (ps_remove i s)) ids s"

lemma cleaned_storeE:
  assumes inv: "ps_invar (lr_prop_store r)" and small: "total_size_bytes (lr_prop_store r) \<le> u64_max"
    and clean: "clean_propagation_store now r = (n, r')"
  obtains s1 k where "ps_invar s1"
    "ps_entries s1 = filter (\<lambda>(_, e). \<not> entry_expired now e) (ps_entries (lr_prop_store r))"
    "lr_prop_store r' = drop_entries (map (fst \<circ> snd) (take k (weighted_entries now (propagation_prioritised r) s1))) s1"
    "k \<le> length (ps_entries s1)" "n = length (ps_entries (lr_prop_store r)) - length (ps_entries s1) + k"
    "\<And>limit. propagation_store_limit_bytes r = Some limit \<Longrightarrow> total_size_bytes (lr_prop_store r') \<le> limit"
proof -
  let ?s = "lr_prop_store r" and ?P = "\<lambda>(_ :: bytes, e). entry_expired now e"
  define x where "x = map fst (filter ?P (ps_entries ?s))"
  define s1 where "s1 = drop_entries x ?s"
  let ?ws = "weighted_entries now (propagation_prioritised r) s1"
  have wf: "hm_wf (ps_entries ?s)" using inv by (simp add: ps_invar_def)
  have inv1: "ps_invar s1" unfolding s1_def by (rule fold_ps_remove_invar[OF inv])
  then have wf1: "hm_wf (ps_entries s1)" by (simp add: ps_invar_def)
  have e1: "ps_entries s1 = filter (\<lambda>(_, e). \<not> entry_expired now e) (ps_entries ?s)"
    using filter_out_keys[OF wf, of ?P] by (simp add: s1_def x_def fold_ps_remove_entries case_prod_unfold)
  have len: "length x = length (ps_entries ?s) - length (ps_entries s1)"
    unfolding e1 x_def using sum_length_filter_compl[of ?P "ps_entries ?s"] by (simp add: case_prod_unfold)
  have lws: "length ?ws = length (ps_entries s1)" by (simp add: weighted_entries_def)
  have "sum_list (map f (filter Q xs)) \<le> sum_list (map f xs)" for f :: "bytes \<times> propagation_entry \<Rightarrow> nat" and Q xs
    by (induction xs) auto
  then have tot: "total_size_bytes s1 \<le> u64_max"
    using small order_trans unfolding total_size_bytes_def e1 by blast
  show thesis
  proof (cases "\<exists>limit. propagation_store_limit_bytes r = Some limit \<and> total_size_bytes s1 > limit")
    case False
    then have "n = length x" "lr_prop_store r' = s1"
      using clean unfolding clean_propagation_store_def Let_def x_def[symmetric] s1_def[symmetric]
      by (auto split: option.splits if_splits)
    with False show thesis by (intro that[of s1 0] inv1 e1) (auto simp: len)
  next
    case True
    then obtain limit where l: "propagation_store_limit_bytes r = Some limit" "total_size_bytes s1 > limit" by blast
    have pre: "\<forall>(w, i, sz) \<in> set ?ws. \<exists>e. map_of (ps_entries s1) i = Some e \<and> sz = length (pe_lxm_data e)"
      using hm_get_in[OF wf1] by (auto simp: weighted_entries_set)
    from evict_prefix[OF pre weighted_entries_ids[OF wf1] wf1, of 0 "total_size_bytes s1 - limit"] tot
    obtain k where k: "k \<le> length ?ws"
      "evict (total_size_bytes s1 - limit) ?ws 0 s1
        = (map (fst \<circ> snd) (take k ?ws), drop_entries (map (fst \<circ> snd) (take k ?ws)) s1)"
      "total_size_bytes (drop_entries (map (fst \<circ> snd) (take k ?ws)) s1) + (total_size_bytes s1 - limit) \<le> total_size_bytes s1"
      by (auto simp: weighted_entries_total Let_def)
    have "n = length x + k" "lr_prop_store r' = drop_entries (map (fst \<circ> snd) (take k ?ws)) s1"
      using clean l k(1,2) unfolding clean_propagation_store_def Let_def x_def[symmetric] s1_def[symmetric] by auto
    with k l show thesis by (intro that[of s1 k] inv1 e1) (auto simp: len lws)
  qed
qed

lemma evicted_count:
  assumes "hm_wf (ps_entries s)" and "k \<le> length (ps_entries s)"
  shows "length (ps_entries (drop_entries (map (fst \<circ> snd) (take k (weighted_entries now pri s))) s)) + k = length (ps_entries s)"
proof -
  let ?ws = "weighted_entries now pri s"
  let ?ids = "map (fst \<circ> snd) (take k ?ws)"
  have "distinct ?ids" using weighted_entries_ids[OF assms(1)] by (simp add: take_map[symmetric] distinct_take)
  moreover have "set ?ids \<subseteq> fst ` set (ps_entries s)"
  proof
    fix j
    assume "j \<in> set ?ids"
    then obtain w z where "(w, j, z) \<in> set (take k ?ws)" by auto
    then have "(w, j, z) \<in> set ?ws" by (rule in_set_takeD)
    then show "j \<in> fst ` set (ps_entries s)" unfolding weighted_entries_set by force
  qed
  ultimately have "length (ps_entries (drop_entries ?ids s)) + length ?ids = length (ps_entries s)"
    unfolding fold_ps_remove_entries by (rule length_without_keys[OF assms(1)])
  moreover have "length ?ids = k" using assms(2) by (simp add: weighted_entries_def)
  ultimately show ?thesis by simp
qed

lemma evicted_heavier:
  assumes wf: "hm_wf (ps_entries s)" and r: "new = ps_entries (drop_entries (map (fst \<circ> snd) (take k (weighted_entries now pri s))) s)"
    and e: "(i, e) \<in> set new" and f: "(j, f) \<in> set (ps_entries s)" "(j, f) \<notin> set new"
  shows "f64_key (entry_weight now pri e) \<le> f64_key (entry_weight now pri f)"
proof -
  let ?ws = "weighted_entries now pri s"
  let ?ids = "map (fst \<circ> snd) (take k ?ws)"
  let ?t = "\<lambda>(i, e). (entry_weight now pri e, i :: bytes, length (pe_lxm_data e))"
  have new: "new = filter (\<lambda>(i, _). i \<notin> set ?ids) (ps_entries s)" unfolding r by (rule fold_ps_remove_entries)
  have "?t (i, e) \<in> set ?ws" "i \<notin> set ?ids" using e unfolding new weighted_entries_set by force+
  moreover have "set ?ws = set (take k ?ws) \<union> set (drop k ?ws)" by (metis append_take_drop_id set_append)
  moreover have "i \<in> set ?ids" if "?t (i, e) \<in> set (take k ?ws)" using imageI[OF that, of "fst \<circ> snd"] by simp
  ultimately have 1: "?t (i, e) \<in> set (drop k ?ws)" by blast
  have "j \<in> set ?ids" using f unfolding new by auto
  then obtain w z where w: "(w, j, z) \<in> set (take k ?ws)" by auto
  then obtain f' where f': "(j, f') \<in> set (ps_entries s)" "(w, j, z) = ?t (j, f')" using in_set_takeD[OF w] by (auto simp: weighted_entries_set)
  then have "f' = f" using f(1) wf by (auto simp: hm_wf_def dest: eq_key_imp_eq_value)
  with f' w have "?t (j, f) \<in> set (take k ?ws)" by simp
  from weighted_prefix[OF this 1] show ?thesis by simp
qed

text \<open>C16. Cleaning the propagation store keeps it within its limit: afterwards the entries fit into the
  configured number of bytes, none of them is expired, all of them were there before, the count
  returned is the number of entries removed, and no entry that was left weighs more (by size, age and
  priority) than an entry that was not expired and had to go.\<close>

theorem cleaned_store_fits:
  assumes "ps_invar (lr_prop_store r)" and "total_size_bytes (lr_prop_store r) \<le> u64_max"
    and "clean_propagation_store now r = (n, r')"
  shows "let old = ps_entries (lr_prop_store r); new = ps_entries (lr_prop_store r');
      weight = (\<lambda>e. f64_key (entry_weight now (propagation_prioritised r) e)) in
    ps_invar (lr_prop_store r')
    \<and> (\<forall>limit. propagation_store_limit_bytes r = Some limit \<longrightarrow> total_size_bytes (lr_prop_store r') \<le> limit)
    \<and> (\<forall>(i, e) \<in> set new. (i, e) \<in> set old \<and> \<not> entry_expired now e)
    \<and> n + length new = length old
    \<and> (\<forall>(i, e) \<in> set new. \<forall>(j, f) \<in> set old - set new. \<not> entry_expired now f \<longrightarrow> weight e \<le> weight f)"
proof -
  obtain s1 k where s1: "ps_invar s1" "ps_entries s1 = filter (\<lambda>(_, e). \<not> entry_expired now e) (ps_entries (lr_prop_store r))"
    and r': "lr_prop_store r' = drop_entries (map (fst \<circ> snd) (take k (weighted_entries now (propagation_prioritised r) s1))) s1"
    and k: "k \<le> length (ps_entries s1)" "n = length (ps_entries (lr_prop_store r)) - length (ps_entries s1) + k"
    and lim: "\<And>limit. propagation_store_limit_bytes r = Some limit \<Longrightarrow> total_size_bytes (lr_prop_store r') \<le> limit"
    by (rule cleaned_storeE[OF assms]) blast
  have wf: "hm_wf (ps_entries s1)" using s1(1) by (simp add: ps_invar_def)
  have new: "ps_entries (lr_prop_store r') = filter (\<lambda>(i, _). i \<notin> set (map (fst \<circ> snd) (take k (weighted_entries now (propagation_prioritised r) s1)))) (ps_entries s1)"
    unfolding r' by (rule fold_ps_remove_entries)
  have "length (ps_entries s1) \<le> length (ps_entries (lr_prop_store r))" unfolding s1(2) by simp
  with evicted_count[OF wf k(1), of now "propagation_prioritised r"] r' k(2)
  have n: "n + length (ps_entries (lr_prop_store r')) = length (ps_entries (lr_prop_store r))" by simp
  have heavy: "f64_key (entry_weight now (propagation_prioritised r) e) \<le> f64_key (entry_weight now (propagation_prioritised r) f)"
    if "(i, e) \<in> set (ps_entries (lr_prop_store r'))" and "(j, f) \<in> set (ps_entries s1)" "(j, f) \<notin> set (ps_entries (lr_prop_store r'))" for i e j f
    using evicted_heavier[OF wf refl] that unfolding r' by blast
  have inv': "ps_invar (lr_prop_store r')" unfolding r' by (rule fold_ps_remove_invar[OF s1(1)])
  have sub: "\<forall>(i, e) \<in> set (ps_entries (lr_prop_store r')). (i, e) \<in> set (ps_entries (lr_prop_store r)) \<and> \<not> entry_expired now e"
    unfolding new s1(2) by auto
  have "\<forall>(i, e) \<in> set (ps_entries (lr_prop_store r')). \<forall>(j, f) \<in> set (ps_entries (lr_prop_store r)) - set (ps_entries (lr_prop_store r')).
      \<not> entry_expired now f \<longrightarrow> f64_key (entry_weight now (propagation_prioritised r) e) \<le> f64_key (entry_weight now (propagation_prioritised r) f)"
    using heavy unfolding s1(2) by auto
  with inv' sub n lim show ?thesis by (simp add: Let_def)
qed


definition limited_facade :: "in_memory_store lxmf_router" where
  "limited_facade = sample_facade\<lparr>propagation_store_limit_bytes := Some 2,
     lr_prop_store := insert_with_stamp_value (sample_entry\<lparr>pe_transient_id := [8], pe_lxm_data := [3]\<rparr>) 0
       (insert_with_stamp_value sample_entry 0 ps_new)\<rparr>"

theorem cleaned_store_fits_witness:
  "total_size_bytes (lr_prop_store limited_facade) = 3
    \<and> total_size_bytes (lr_prop_store (snd (clean_propagation_store 1000 limited_facade))) \<le> 2"
proof -
  have t: "total_size_bytes (lr_prop_store limited_facade) = 3" "propagation_store_limit_bytes limited_facade = Some 2"
    by (simp_all add: limited_facade_def insert_with_stamp_value_def ps_new_def hm_insert_def sample_entry_def total_size_bytes_def)
  have "ps_invar ps_new" by (rule ps_reachable_invar) simp
  then have i: "ps_invar (lr_prop_store limited_facade)"
    by (simp add: limited_facade_def ps_step_invar[OF ps_step.InsertValue])
  have u: "total_size_bytes (lr_prop_store limited_facade) \<le> u64_max" by (simp add: t u64_max_def)
  from cleaned_store_fits[OF i u, of 1000 "fst (clean_propagation_store 1000 limited_facade)"
      "snd (clean_propagation_store 1000 limited_facade)"] t
  show ?thesis by (simp add: Let_def)
qed

subsection \<open>Deferred stamps\<close>

text \<open>
  The life of deferred messages: \<open>handle_outbound\<close> puts them into the local and the shared queue, a tick
  receives processed messages and starts the worker, the worker moves one message from the shared
  queue to the channel. The steps interleave; \<open>enq\<close> are the messages enqueued for delivery so far, \<open>sub\<close>
  the deferred ones submitted so far, in order. The shared queue is free when a message is handed in.
\<close>

definition undeferred :: "deferred_outbound \<Rightarrow> deferred_outbound" where
  "undeferred d = d\<lparr>do_message := (do_message d)\<lparr>defer_stamp := False\<rparr>\<rparr>"

type_synonym 's stamp_state = "deferred_outbound list \<times> deferred_outbound list \<times> 's lxmf_router"

definition channel_of :: "'s lxmf_router \<Rightarrow> deferred_outbound list" where
  "channel_of r = (case processed_deferred r of Some ch \<Rightarrow> ch | None \<Rightarrow> [])"

inductive stamp_step :: "'s message_store_ops \<Rightarrow> 's stamp_state \<Rightarrow> 's stamp_state \<Rightarrow> bool" for ops where
  Defer: "handle_outbound ops True fresh m mode now r = (None, r') \<Longrightarrow>
    stamp_step ops (sub, enq, r) (sub @ [\<lparr>do_message = fst (prepare_outbound fresh m now r), do_mode = mode\<rparr>], enq, r')"
| Direct: "handle_outbound ops lock fresh m mode now r = (Some i, r') \<Longrightarrow> stamp_step ops (sub, enq, r) (sub, enq, r')"
| Tick: "stamp_step ops (sub, enq, r) (sub, enq @ take 100 (channel_of r), tick_stamps ops lock r)"
| Worker: "stamp_processing_active r \<Longrightarrow> stamp_step ops (sub, enq, r) (sub, enq, stamp_worker lock r)"

inductive_cases stamp_stepE: "stamp_step ops s s'"

lemma facade_enqueue_keeps:
  "deferred_queue (snd (facade_enqueue ops m mode r)) = deferred_queue r"
  "deferred_shared (snd (facade_enqueue ops m mode r)) = deferred_shared r"
  "processed_deferred (snd (facade_enqueue ops m mode r)) = processed_deferred r"
  "stamp_processing_active (snd (facade_enqueue ops m mode r)) = stamp_processing_active r"
  by (simp_all add: facade_enqueue_def split: prod.splits)

lemma facade_enqueue_outbound:
  "outbound (rt_router (lr_runtime (snd (facade_enqueue ops m mode r))))
    = outbound (rt_router (lr_runtime r)) @ [\<lparr>q_id = next_id (rt_router (lr_runtime r)), q_message = m\<lparr>m_state := STATE_OUTBOUND\<rparr>,
        q_mode = mode, q_attempts = 0, q_next_attempt_at_ms = 0\<rparr>]"
  by (simp add: facade_enqueue_def enqueue_def Let_def)

lemma prepare_outbound_keeps:
  assumes "prepare_outbound fresh m now r = (m', r')"
  shows "deferred_queue r' = deferred_queue r" "deferred_shared r' = deferred_shared r"
    "processed_deferred r' = processed_deferred r" "stamp_processing_active r' = stamp_processing_active r"
  using assms by (auto simp: prepare_outbound_def Let_def split: prod.splits option.splits if_splits)

text \<open>What the receiving loop takes over: the first messages of the channel, each appended to the
  outbound queue, and as many messages dropped from the local queue.\<close>

lemma receive_processed_takes:
  assumes "processed_deferred r = Some ch"
  shows "processed_deferred (receive_processed ops n r) = Some (drop n ch)
    \<and> deferred_queue (receive_processed ops n r) = drop (length (take n ch)) (deferred_queue r)
    \<and> deferred_shared (receive_processed ops n r) = deferred_shared r
    \<and> stamp_processing_active (receive_processed ops n r) = stamp_processing_active r
    \<and> map (\<lambda>q. (q_message q, q_mode q)) (outbound (rt_router (lr_runtime (receive_processed ops n r))))
      = map (\<lambda>q. (q_message q, q_mode q)) (outbound (rt_router (lr_runtime r)))
        @ map (\<lambda>d. ((do_message d)\<lparr>m_state := STATE_OUTBOUND\<rparr>, do_mode d)) (take n ch)"
  using assms
proof (induction n arbitrary: r ch)
  case (Suc n)
  show ?case
  proof (cases ch)
    case (Cons d ds)
    let ?r1 = "snd (facade_enqueue ops (do_message d) (do_mode d) (r\<lparr>processed_deferred := Some ds\<rparr>))"
    let ?r2 = "?r1\<lparr>deferred_queue := tl (deferred_queue ?r1)\<rparr>"
    have "processed_deferred ?r2 = Some ds" by (simp add: facade_enqueue_keeps)
    from Suc.IH[OF this] Suc.prems Cons show ?thesis
      by (simp add: facade_enqueue_keeps facade_enqueue_outbound Let_def drop_Suc)
  qed (use Suc.prems in simp)
qed simp

text \<open>The invariant: submitted messages are enqueued, in the channel or in the shared queue, in this
  order; the local queue mirrors the last two.\<close>

definition stamp_invar :: "'s stamp_state \<Rightarrow> bool" where
  "stamp_invar = (\<lambda>(sub, enq, r). map undeferred sub = enq @ channel_of r @ map undeferred (deferred_shared r)
     \<and> map undeferred (deferred_queue r) = channel_of r @ map undeferred (deferred_shared r)
     \<and> (stamp_processing_active r \<longrightarrow> processed_deferred r \<noteq> None)
     \<and> (\<forall>d \<in> set (channel_of r). undeferred d = d))"


abbreviation queued_of :: "'s lxmf_router \<Rightarrow> (lxmessage \<times> delivery_mode) list" where
  "queued_of r \<equiv> map (\<lambda>q. (q_message q, q_mode q)) (outbound (rt_router (lr_runtime r)))"

definition to_queue :: "deferred_outbound \<Rightarrow> lxmessage \<times> delivery_mode" where
  "to_queue d = ((do_message d)\<lparr>m_state := STATE_OUTBOUND\<rparr>, do_mode d)"

lemma tick_stamps_takes:
  "processed_deferred (tick_stamps ops lock r) = Some (drop 100 (channel_of r))
    \<and> deferred_queue (tick_stamps ops lock r) = drop (length (take 100 (channel_of r))) (deferred_queue r)
    \<and> deferred_shared (tick_stamps ops lock r) = deferred_shared r
    \<and> stamp_processing_active (tick_stamps ops lock r) = (stamp_processing_active r \<or> (lock \<and> deferred_shared r \<noteq> []))
    \<and> queued_of (tick_stamps ops lock r) = queued_of r @ map to_queue (take 100 (channel_of r))"
proof -
  let ?r1 = "if processed_deferred r = None then r\<lparr>processed_deferred := Some []\<rparr> else r"
  have "processed_deferred ?r1 = Some (channel_of r)" by (simp add: channel_of_def split: option.splits)
  from receive_processed_takes[OF this, of ops 100] show ?thesis
    by (auto simp: tick_stamps_def start_stamp_worker_def to_queue_def[abs_def] Let_def split: if_splits)
qed

lemma undeferred_idem [simp]: "undeferred (undeferred d) = undeferred d"
  by (simp add: undeferred_def)

lemma stamp_worker_moves:
  assumes "processed_deferred r \<noteq> None"
  shows "channel_of (stamp_worker lock r) = channel_of r @ (if lock then map undeferred (take 1 (deferred_shared r)) else [])
    \<and> deferred_shared (stamp_worker lock r) = (if lock then drop 1 (deferred_shared r) else deferred_shared r)
    \<and> deferred_queue (stamp_worker lock r) = deferred_queue r \<and> \<not> stamp_processing_active (stamp_worker lock r)
    \<and> processed_deferred (stamp_worker lock r) \<noteq> None \<and> queued_of (stamp_worker lock r) = queued_of r"
  using assms by (auto simp: stamp_worker_def channel_of_def undeferred_def Let_def split: list.splits option.splits)

lemma stamp_step_invar: "stamp_step ops s s' \<Longrightarrow> stamp_invar s \<Longrightarrow> stamp_invar s'"
proof (induction rule: stamp_step.induct)
  case (Defer fresh m mode now r r' sub enq)
  obtain m1 r1 where p: "prepare_outbound fresh m now r = (m1, r1)" by fastforce
  note k = prepare_outbound_keeps[OF p]
  have "deferred_queue r' = deferred_queue r @ [\<lparr>do_message = m1, do_mode = mode\<rparr>]"
    "deferred_shared r' = deferred_shared r @ [\<lparr>do_message = m1, do_mode = mode\<rparr>]"
    "processed_deferred r' = processed_deferred r" "stamp_processing_active r' = stamp_processing_active r"
    using Defer.hyps p k by (auto simp: handle_outbound_def Let_def apfst_def map_prod_def split: if_splits prod.splits)
  with Defer.prems p show ?case by (simp add: stamp_invar_def channel_of_def)
next
  case (Direct lock fresh m mode now r i r' sub enq)
  obtain m1 r1 where p: "prepare_outbound fresh m now r = (m1, r1)" by fastforce
  have "r' = snd (facade_enqueue ops m1 mode r1)"
    using Direct.hyps p by (auto simp: handle_outbound_def Let_def apfst_def map_prod_def split: if_splits prod.splits)
  with Direct.prems prepare_outbound_keeps[OF p] show ?case by (simp add: stamp_invar_def channel_of_def facade_enqueue_keeps)
next
  case (Tick sub enq r lock)
  let ?ch = "channel_of r" and ?q = "map undeferred (deferred_shared r)"
  have mirror: "map undeferred (deferred_queue r) = ?ch @ ?q" using Tick.prems by (simp add: stamp_invar_def)
  have "map undeferred (drop (length (take 100 ?ch)) (deferred_queue r)) = drop 100 ?ch @ ?q"
    unfolding drop_map[symmetric] mirror by (simp add: min_def)
  then show ?case using Tick.prems tick_stamps_takes[of ops lock r]
    by (auto simp: stamp_invar_def channel_of_def[of "tick_stamps ops lock r"] dest: in_set_dropD)
next
  case (Worker r sub enq lock)
  then have p: "processed_deferred r \<noteq> None" by (simp add: stamp_invar_def)
  have "map undeferred (take 1 q) @ map undeferred (drop 1 q) = map undeferred q" for q
    by (metis append_take_drop_id map_append)
  with Worker.prems stamp_worker_moves[OF p, of lock] show ?case
    by (auto simp: stamp_invar_def dest: in_set_takeD)
qed

text \<open>A round: a tick followed by the worker it started.\<close>

lemma rounds_deliver:
  assumes "\<not> stamp_processing_active r" and "length (channel_of r) \<le> 100" and "length (deferred_shared r) = n"
  shows "let r' = tick_stamps ops True (((\<lambda>r. stamp_worker True (tick_stamps ops True r)) ^^ n) r) in
    deferred_shared r' = [] \<and> channel_of r' = []
    \<and> queued_of r' = queued_of r @ map to_queue (channel_of r @ map undeferred (deferred_shared r))"
  using assms
proof (induction n arbitrary: r)
  case 0
  then show ?case using tick_stamps_takes[of ops True r]
    by (simp add: Let_def channel_of_def[of "tick_stamps ops True r"])
next
  case (Suc n)
  let ?t = "tick_stamps ops True r"
  let ?w = "stamp_worker True ?t"
  obtain d q where q: "deferred_shared r = d # q" "length q = n" using Suc.prems(3) by (metis length_Suc_conv)
  have t: "processed_deferred ?t = Some []" "deferred_shared ?t = d # q"
      "queued_of ?t = queued_of r @ map to_queue (channel_of r)"
    using tick_stamps_takes[of ops True r] Suc.prems(2) q by simp_all
  have w: "channel_of ?w = [undeferred d]" "deferred_shared ?w = q" "\<not> stamp_processing_active ?w" "queued_of ?w = queued_of ?t"
    using stamp_worker_moves[of ?t True] t by (simp_all add: channel_of_def)
  from Suc.IH[of ?w] w q(2) t(3) q(1) show ?case
    by (simp add: funpow_swap1 Let_def del: funpow.simps(2)) (simp add: funpow_Suc_right del: funpow.simps(2))
qed


definition deferred_message :: lxmessage where
  "deferred_message = set_stamp_cost 8 sample_message"

lemma deferred_message_prepared: "prepare_outbound [] deferred_message 0 sample_facade = (deferred_message, sample_facade)"
  by (simp add: prepare_outbound_def deferred_message_def set_stamp_cost_def sample_message_def
      with_strings_def msg_new_def sample_facade_def facade_new_def facade_init_def get_outbound_ticket_def ticket_store_default_def)

lemma deferred_message_handled:
  "handle_outbound mem_ops True [] deferred_message Opportunistic 0 sample_facade
    = (None, sample_facade\<lparr>deferred_queue := [\<lparr>do_message = deferred_message, do_mode = Opportunistic\<rparr>],
        deferred_shared := [\<lparr>do_message = deferred_message, do_mode = Opportunistic\<rparr>]\<rparr>)"
proof -
  have "defer_stamp deferred_message" "deferred_queue sample_facade = []" "deferred_shared sample_facade = []"
    by (simp_all add: deferred_message_def set_stamp_cost_def sample_message_def with_strings_def msg_new_def
        sample_facade_def facade_new_def facade_init_def)
  then show ?thesis by (simp add: handle_outbound_def deferred_message_prepared Let_def)
qed



subsection \<open>Downloads from a propagation node\<close>

text \<open>The operations that touch the state of a download; the directory and the links change freely in
  between.\<close>

inductive transfer_step :: "'s lxmf_router \<Rightarrow> 's lxmf_router \<Rightarrow> bool" where
  Request: "transfer_step r (request_messages_from_propagation_node ident mx now r)"
| PathAvailable: "transfer_step r (on_pn_path_available node now r)"
| Poll: "transfer_step r (snd (poll_path_request_timeout now r))"
| CleanLinks: "transfer_step r (clean_links now r)"
| Cancel: "transfer_step r (cancel_propagation_node_requests r)"
| Acknowledge: "transfer_step r (acknowledge_sync_completion reset failure r)"
| SetNode: "transfer_step r (set_outbound_propagation_node node r)"
| PopPath: "transfer_step r (snd (pop_pn_path_request r))"
| TakeRequests: "transfer_step r (snd (process_pn_message_requests r))"
| Directory: "transfer_step r (r\<lparr>lr_pn_directory := d\<rparr>)"
| LinkEvents: "transfer_step r (r\<lparr>lr_links := process_link_events es now (lr_links r)\<rparr>)"
| OutboundLink: "transfer_step r (r\<lparr>lr_links := set_outbound_propagation_link i now (lr_links r)\<rparr>)"

definition transfer_invar :: "'s lxmf_router \<Rightarrow> bool" where
  "transfer_invar r \<longleftrightarrow> (wants_download_from r \<noteq> None \<longrightarrow> wants_download_to r \<noteq> None \<and> wants_download_timeout r \<noteq> None)"

lemmas transfer_defs = request_messages_from_propagation_node_def on_pn_path_available_def poll_path_request_timeout_def
  clean_links_def cancel_propagation_node_requests_def acknowledge_sync_completion_def set_outbound_propagation_node_def
  pop_pn_path_request_def process_pn_message_requests_def establish_propagation_link_def

lemma transfer_step_invar: "transfer_step r r' \<Longrightarrow> transfer_invar r \<Longrightarrow> transfer_invar r'"
  by (induction rule: transfer_step.induct)
    (auto simp: transfer_invar_def transfer_defs Let_def split: option.splits list.splits if_splits)



subsection \<open>Announcements\<close>

text \<open>What a propagation node announces is what others read from it: the app data is valid, and gives
  back the stamp cost that the node requires and its name.\<close>

theorem announce_is_understood:
  assumes "reads_back c (announce_value r)" and "lr_propagation_validation r = Some \<lparr>prv_stamp_cost = cost, prv_stamp_cost_flex = flex\<rparr>"
    and "cost < 2 ^ 32" and "case lr_name r of Some n \<Rightarrow> utf8_valid n | None \<Rightarrow> True"
  shows "\<exists>d. get_propagation_node_app_data c r = Some d \<and> pn_announce_data_is_valid c d
    \<and> pn_stamp_cost_from_app_data c d = Some cost \<and> pn_name_from_app_data c d = lr_name r"
proof -
  from assms(1) obtain d where d: "write_value c (announce_value r) = Inr d" "read_value c d = Inr (announce_value r)"
    by (auto elim: reads_backE)
  obtain arr where arr: "announce_value r = MArr arr" "length arr = 7" "is_int (arr ! 1)" "\<exists>b. arr ! 2 = MBool b"
    "is_int (arr ! 3)" "is_int (arr ! 4)" "\<exists>f p. arr ! 5 = MArr [MInt (int cost), MInt f, MInt p]"
    "arr ! 6 = MMap (map (\<lambda>(k, v). (MInt (int k), MBin v)) (announce_metadata r))"
    using assms(2) by (simp add: announce_value_def Let_def is_int_def)
  have ra: "read_array c d = Some arr" using d(2) arr(1) by (simp add: read_array_def)
  have valid: "pn_announce_data_is_valid c d"
    using arr(2-8) by (auto simp: pn_announce_data_is_valid_def ra is_int_def)
  moreover have "pn_stamp_cost_from_app_data c d = Some cost"
    using arr(2,7) assms(3) by (auto simp: pn_stamp_cost_from_app_data_def ra as_u64_def)
  moreover have "meta_name (map (\<lambda>(k, v). (MInt (int k), MBin v)) (announce_metadata r)) = lr_name r"
    using assms(4) by (auto simp: announce_metadata_def as_u64_def PN_META_NAME_def text_value_def as_str_def split: option.splits)
  then have "pn_name_from_app_data c d = lr_name r" by (simp add: pn_name_from_app_data_def valid ra arr(8))
  ultimately show ?thesis using d(1) by (auto simp: get_propagation_node_app_data_def)
qed

theorem announce_is_understood_witness:
  "\<exists>d. get_propagation_node_app_data ref_codec (sample_facade\<lparr>lr_name := Some [80, 78]\<rparr>) = Some d
    \<and> pn_stamp_cost_from_app_data ref_codec d = Some 16 \<and> pn_name_from_app_data ref_codec d = Some [80, 78]"
proof -
  let ?r = "sample_facade\<lparr>lr_name := Some [80, 78]\<rparr>"
  have range: "f64_as_u64 x \<le> u64_max" for x by (simp add: f64_as_u64_def split: f64_view.split)
  have v: "lr_propagation_validation ?r = Some \<lparr>prv_stamp_cost = 16, prv_stamp_cost_flex = 3\<rparr>" "(16 :: nat) < 2 ^ 32"
    "case lr_name ?r of Some n \<Rightarrow> utf8_valid n | None \<Rightarrow> True" "lr_name ?r = Some [80, 78]"
    by (simp_all add: sample_facade_def facade_new_def facade_init_def DEFAULT_PROPAGATION_STAMP_COST_def DEFAULT_PROPAGATION_STAMP_FLEX_def)
  have "int (f64_as_u64 x) < 2 ^ 64" for x using range[of x] by (simp add: u64_max_def)
  then have "mval_ok (announce_value ?r)" unfolding announce_value_def v Let_def
    by (simp add: announce_metadata_def PN_META_NAME_def sample_facade_def facade_new_def facade_init_def DEFAULT_PEERING_COST_def)
  then have "reads_back ref_codec (announce_value ?r)" by (rule ref_codec_reads_back)
  from announce_is_understood[OF this v(1-3)] show ?thesis unfolding v(4) by blast
qed


end
