(* ===== verification/Peer_Sync.thy ===== *)
theory Peer_Sync
  imports Storage_Codec Facade_Facts
begin

section \<open>Peer synchronisation (router.rs LxmfRouter)\<close>

text \<open>
  Two propagation nodes exchange messages in four steps: an offer of the ids on one side, a request
  for the missing ones, a payload with the entries, an acknowledgement. The handlers of both sides,
  the bookkeeping of requests and peers, and the selection and rotation of peers are modelled here.
  \<open>None\<close> stands for the panic of \<open>register_request\<close> on a payload that cannot be encoded.
\<close>

definition PEER_SYNC_TIMEOUT_MS :: nat where "PEER_SYNC_TIMEOUT_MS = 5 * 60 * 1000"
definition PEER_SYNC_PATH :: string where "PEER_SYNC_PATH = ''lxmf/peer/sync''"
definition CONTROL_STATS_PATH :: string where "CONTROL_STATS_PATH = ''/pn/get/stats''"
definition CONTROL_SYNC_PATH :: string where "CONTROL_SYNC_PATH = ''/pn/peer/sync''"
definition CONTROL_UNPEER_PATH :: string where "CONTROL_UNPEER_PATH = ''/pn/peer/unpeer''"
definition PEER_ERROR_INVALID_KEY :: byte where "PEER_ERROR_INVALID_KEY = 0xf3"
definition PROPAGATION_INVALID_STAMP_THROTTLE_MS :: nat where "PROPAGATION_INVALID_STAMP_THROTTLE_MS = 180000"
definition FASTEST_N_RANDOM_POOL :: nat where "FASTEST_N_RANDOM_POOL = 2"
definition MAX_UNREACHABLE :: nat where "MAX_UNREACHABLE = 14 * 24 * 60 * 60"
definition CONTROL_ERROR_NO_IDENTITY :: nat where "CONTROL_ERROR_NO_IDENTITY = 0xf0"
definition CONTROL_ERROR_NO_ACCESS :: nat where "CONTROL_ERROR_NO_ACCESS = 0xf1"
definition CONTROL_ERROR_INVALID_DATA :: nat where "CONTROL_ERROR_INVALID_DATA = 0xf4"
definition CONTROL_ERROR_NOT_FOUND :: nat where "CONTROL_ERROR_NOT_FOUND = 0xfd"

subsection \<open>The side that has messages\<close>

definition peer_sync_offer :: "bytes \<Rightarrow> bytes \<Rightarrow> nat \<Rightarrow> 's lxmf_router \<Rightarrow> peer_sync_request \<times> 's lxmf_router" where
  "peer_sync_offer pid pkey now r =
     (let available = ps_list_ids (lr_prop_store r) in
      (Offer pkey available,
       with_peer pid now (\<lambda>p. (on_offer_sent now p)\<lparr>messages_offered := sat_add64 (messages_offered p) (length available),
         peering_key := Some pkey\<rparr>) r))"

fun serve_messages :: "codec \<Rightarrow> nat option \<Rightarrow> propagation_store \<Rightarrow> bytes list \<Rightarrow> nat \<Rightarrow> bytes list \<times> nat" where
  "serve_messages c limit s [] sent = ([], sent)"
| "serve_messages c limit s (i # ids) sent =
     (case ps_get i s of
        None \<Rightarrow> serve_messages c limit s ids sent
      | Some e \<Rightarrow>
         (case propagation_entry_to_bytes c e of
            Inl _ \<Rightarrow> serve_messages c limit s ids sent
          | Inr b \<Rightarrow>
             (if (case limit of Some l \<Rightarrow> sat_add64 sent (length b) > l | None \<Rightarrow> False)
              then serve_messages c limit s ids sent
              else apfst ((#) b) (serve_messages c limit s ids (sat_add64 sent (length b))))))"

definition handle_peer_sync_message_get ::
  "env \<Rightarrow> bytes \<Rightarrow> peer_sync_request \<Rightarrow> nat \<Rightarrow> 's lxmf_router \<Rightarrow> peer_sync_response \<times> 's lxmf_router" where
  "handle_peer_sync_message_get E pid req now r =
     (case req of
        MessageGetList \<Rightarrow> (IdList (ps_list_ids (lr_prop_store r)), r)
      | MessageGet wants haves limit_kb \<Rightarrow>
         (let (items, sent) = serve_messages (e_codec E) (map_option (\<lambda>kb. f64_as_u64 (f64_mul kb f64_1000)) limit_kb)
                                 (lr_prop_store r) wants 0;
              n = lr_node_stats r in
          (Payload items,
           r\<lparr>lr_peers := hm_modify pid (\<lambda>p. p\<lparr>messages_outgoing := sat_add64 (messages_outgoing p) (length items),
                 peer_tx_bytes := sat_add64 (peer_tx_bytes p) sent\<rparr>) (lr_peers r),
             lr_node_stats := n\<lparr>client_propagation_messages_served :=
                 sat_add64 (client_propagation_messages_served n) (length items)\<rparr>\<rparr>))
      | _ \<Rightarrow> (PError 1, r))"

definition handle_peer_sync_ack ::
  "bytes \<Rightarrow> peer_sync_request \<Rightarrow> nat \<Rightarrow> 's lxmf_router \<Rightarrow> peer_sync_response \<times> 's lxmf_router" where
  "handle_peer_sync_ack pid req now r =
     (case req of
        MessageAck delivered \<Rightarrow>
          (PBool True, with_peer pid now (on_payload_complete now)
             (r\<lparr>lr_prop_store := fold (\<lambda>i s. snd (ps_remove i s)) delivered (lr_prop_store r)\<rparr>))
      | _ \<Rightarrow> (PError 1, r))"

subsection \<open>The side that wants messages\<close>

definition handle_peer_sync_offer ::
  "env \<Rightarrow> bytes \<Rightarrow> peer_sync_request \<Rightarrow> nat \<Rightarrow> 's lxmf_router \<Rightarrow> peer_sync_response \<times> 's lxmf_router" where
  "handle_peer_sync_offer E pid req now r =
     (case req of
        Offer pkey available \<Rightarrow>
          (let wants = filter (\<lambda>i. \<not> ps_has i (lr_prop_store r)) available in
           if (case lr_peering_validation r of
                 Some v \<Rightarrow> \<not> validate_peering_key (e_codec E) (e_crypto E) (pv_local_identity_hash v @ pid) pkey (pv_target_cost v)
               | None \<Rightarrow> False)
           then (PError PEER_ERROR_INVALID_KEY, with_peer pid now (on_failure now) r)
           else (if wants = [] then PBool False else IdList wants,
                 with_peer pid now (\<lambda>p. p\<lparr>last_attempt_ms := now,
                   peer_state := (if wants = [] then PIdle else AwaitingPayload)\<rparr>) r))
      | _ \<Rightarrow> (PError 1, r))"

definition peer_sync_message_get ::
  "bytes \<Rightarrow> peer_sync_response \<Rightarrow> f64 option \<Rightarrow> nat \<Rightarrow> 's lxmf_router \<Rightarrow> peer_sync_request option \<times> 's lxmf_router" where
  "peer_sync_message_get pid response limit_kb now r =
     (let wants = (case response of IdList ids \<Rightarrow> ids | PBool True \<Rightarrow> ps_list_ids (lr_prop_store r) | _ \<Rightarrow> []) in
      if wants = [] then (None, r)
      else (Some (MessageGet wants (ps_list_ids (lr_prop_store r)) limit_kb),
            with_peer pid now (\<lambda>p. p\<lparr>last_attempt_ms := now, peer_state := AwaitingPayload\<rparr>) r))"

text \<open>The loop over the items of a payload: the ids to acknowledge, the number of invalid stamps, the
  bytes received.\<close>

fun accept_items :: "env \<Rightarrow> nat \<Rightarrow> bytes list \<Rightarrow> bytes list \<times> nat \<times> nat \<times> 's lxmf_router
    \<Rightarrow> bytes list \<times> nat \<times> nat \<times> 's lxmf_router" where
  "accept_items E now [] acc = acc"
| "accept_items E now (item # items) (delivered, invalid, received, r) =
     (let received' = sat_add64 received (length item) in
      accept_items E now items
        (case propagation_entry_from_bytes (e_codec E) item of
           Inl _ \<Rightarrow> (delivered, invalid, received', r)
         | Inr e0 \<Rightarrow>
            (case validated_entry E (lr_propagation_validation r) e0 of
               None \<Rightarrow> (delivered, sat_add64 invalid 1, received', r)
             | Some e \<Rightarrow>
                (let tid = pe_transient_id e;
                     r1 = (if ps_has tid (lr_prop_store r) \<or> hm_contains (locally_processed r) tid then r
                           else mark_locally_processed tid now
                                  (r\<lparr>lr_prop_store := ps_insert (e_codec E) (e_crypto E) e (lr_prop_store r)\<rparr>)) in
                 (delivered @ [tid], invalid, received', r1)))))"

definition apply_peer_sync_payload ::
  "env \<Rightarrow> bytes \<Rightarrow> peer_sync_response \<Rightarrow> nat \<Rightarrow> 's lxmf_router \<Rightarrow> peer_sync_request option \<times> 's lxmf_router" where
  "apply_peer_sync_payload E pid response now r =
     (let (delivered, invalid, received, r1) =
            accept_items E now (case response of Payload items \<Rightarrow> items | _ \<Rightarrow> []) ([], 0, 0, r);
          r2 = with_peer pid now (\<lambda>p. let p1 = p\<lparr>messages_incoming := sat_add64 (messages_incoming p) (length delivered),
                   messages_unhandled := invalid, peer_rx_bytes := sat_add64 (peer_rx_bytes p) received\<rparr> in
                 if invalid > 0 then throttle now PROPAGATION_INVALID_STAMP_THROTTLE_MS p1
                 else on_payload_complete now p1) r1 in
      (if delivered = [] then None else Some (MessageAck delivered), r2))"

definition apply_peer_sync_response ::
  "bytes \<Rightarrow> peer_sync_response \<Rightarrow> nat \<Rightarrow> 's lxmf_router \<Rightarrow> 's lxmf_router" where
  "apply_peer_sync_response pid response now r = with_peer pid now (on_offer_response response now) r"

subsection \<open>Requests and responses\<close>

definition build_peer_sync_request ::
  "env \<Rightarrow> bytes \<Rightarrow> peer_sync_request \<Rightarrow> nat \<Rightarrow> 's lxmf_router \<Rightarrow> ((rns_error + rns_request) \<times> 's lxmf_router) option" where
  "build_peer_sync_request E pid req now r =
     (case encode_peer_sync_request (e_codec E) req of
        Inl e \<Rightarrow> Some (Inl e, r)
      | Inr bs \<Rightarrow>
         (case rm_register_request E pid (Some (str_bytes PEER_SYNC_PATH)) (MBin bs) now PEER_SYNC_TIMEOUT_MS
                 (rt_requests (lr_runtime r)) of
            None \<Rightarrow> None
          | Some (res, q) \<Rightarrow>
             (let r1 = r\<lparr>lr_runtime := (lr_runtime r)\<lparr>rt_requests := q\<rparr>\<rparr> in
              case res of
                Inl e \<Rightarrow> Some (Inl e, r1)
              | Inr rq \<Rightarrow> Some (Inr rq, r1\<lparr>peer_sync_pendings :=
                   hm_insert (req_id rq) \<lparr>psp_peer_id = pid, psp_request = req\<rparr> (peer_sync_pendings r1)\<rparr>))))"

fun dispatch_peer_sync_requests ::
  "env \<Rightarrow> (bytes \<times> peer_sync_request) list \<Rightarrow> nat \<Rightarrow> 's lxmf_router \<Rightarrow> ((rns_request \<times> bytes) list \<times> 's lxmf_router) option" where
  "dispatch_peer_sync_requests E [] now r = Some ([], r)"
| "dispatch_peer_sync_requests E ((pid, req) # reqs) now r =
     (case build_peer_sync_request E pid req now r of
        None \<Rightarrow> None
      | Some (res, r1) \<Rightarrow>
         (case dispatch_peer_sync_requests E reqs now r1 of
            None \<Rightarrow> None
          | Some (out, r2) \<Rightarrow> Some (case res of Inr rq \<Rightarrow> (rq, pid) # out | Inl _ \<Rightarrow> out, r2)))"

definition handle_peer_sync_request_bytes ::
  "env \<Rightarrow> bytes \<Rightarrow> bytes \<Rightarrow> nat \<Rightarrow> 's lxmf_router \<Rightarrow> (rns_error + bytes) \<times> 's lxmf_router" where
  "handle_peer_sync_request_bytes E pid payload now r0 =
     (let r = with_peer pid now (mark_heard now) r0 in
      case decode_peer_sync_request (e_codec E) payload of
        Inl e \<Rightarrow> (Inl e, r)
      | Inr req \<Rightarrow>
         (let (response, r1) =
            (case req of
               Offer _ _ \<Rightarrow>
                 (let (rsp, r1) = handle_peer_sync_offer E pid req now r in
                  (rsp, case peer_sync_message_get pid rsp None now r1 of
                          (Some g, r2) \<Rightarrow> r2\<lparr>peer_sync_queue := peer_sync_queue r2 @ [(pid, g)]\<rparr>
                        | (None, r2) \<Rightarrow> r2))
             | MessageGetList \<Rightarrow> handle_peer_sync_message_get E pid req now r
             | MessageGet _ _ _ \<Rightarrow> handle_peer_sync_message_get E pid req now r
             | MessageAck _ \<Rightarrow> handle_peer_sync_ack pid req now r) in
          (encode_peer_sync_response (e_codec E) response, r1)))"

definition handle_peer_sync_request ::
  "env \<Rightarrow> bytes \<Rightarrow> rns_request \<Rightarrow> nat \<Rightarrow> 's lxmf_router \<Rightarrow> (rns_error + rns_response) \<times> 's lxmf_router" where
  "handle_peer_sync_request E pid req now r =
     (case value_to_bytes (req_data req) of
        None \<Rightarrow> (Inl (Msgpack ''peer sync request data must be binary''), r)
      | Some payload \<Rightarrow>
         (case handle_peer_sync_request_bytes E pid payload now r of
            (Inl e, r1) \<Rightarrow> (Inl e, r1)
          | (Inr bs, r1) \<Rightarrow> (Inr \<lparr>rsp_id = req_id req, rsp_data = MBin bs\<rparr>, r1)))"

definition handle_peer_sync_response_bytes_with_peer ::
  "env \<Rightarrow> bytes \<Rightarrow> bytes \<Rightarrow> nat \<Rightarrow> 's lxmf_router \<Rightarrow> ((rns_error + (bytes \<times> rns_request) option) \<times> 's lxmf_router) option" where
  "handle_peer_sync_response_bytes_with_peer E rid payload now r0 =
     (case map_of (peer_sync_pendings r0) rid of
        None \<Rightarrow> Some (Inr None, r0)
      | Some pend \<Rightarrow>
         (let r = r0\<lparr>peer_sync_pendings := hm_remove rid (peer_sync_pendings r0)\<rparr>; pid = psp_peer_id pend in
          case decode_peer_sync_response (e_codec E) payload of
            Inl e \<Rightarrow> Some (Inl e, r)
          | Inr response \<Rightarrow>
             (case psp_request pend of
                Offer _ _ \<Rightarrow> Some (Inr None, apply_peer_sync_response pid response now r)
              | MessageAck _ \<Rightarrow>
                  Some (Inr None, with_peer pid now
                    (if response = PBool True then on_payload_complete now else on_failure now) r)
              | _ \<Rightarrow>
                  (case apply_peer_sync_payload E pid response now r of
                     (None, r1) \<Rightarrow> Some (Inr None, r1)
                   | (Some ack, r1) \<Rightarrow>
                      (case build_peer_sync_request E pid ack now r1 of
                         None \<Rightarrow> None
                       | Some (Inl e, r2) \<Rightarrow> Some (Inl e, r2)
                       | Some (Inr rq, r2) \<Rightarrow> Some (Inr (Some (pid, rq)), r2))))))"

definition handle_peer_sync_response_bytes ::
  "env \<Rightarrow> bytes \<Rightarrow> bytes \<Rightarrow> nat \<Rightarrow> 's lxmf_router \<Rightarrow> ((rns_error + rns_request option) \<times> 's lxmf_router) option" where
  "handle_peer_sync_response_bytes E rid payload now r =
     (let r1 = (case map_of (peer_sync_pendings r) rid of
                  Some pend \<Rightarrow> with_peer (psp_peer_id pend) now (mark_heard now) r | None \<Rightarrow> r) in
      map_option (apfst (map_sum id (map_option snd))) (handle_peer_sync_response_bytes_with_peer E rid payload now r1))"

definition handle_peer_sync_response ::
  "env \<Rightarrow> rns_response \<Rightarrow> nat \<Rightarrow> 's lxmf_router \<Rightarrow> ((rns_error + rns_request option) \<times> 's lxmf_router) option" where
  "handle_peer_sync_response E rsp now r =
     (case value_to_bytes (rsp_data rsp) of
        None \<Rightarrow> Some (Inl (Msgpack ''peer sync response data must be binary''), r)
      | Some payload \<Rightarrow> handle_peer_sync_response_bytes E (rsp_id rsp) payload now r)"

definition handle_request_timeouts :: "bytes list \<Rightarrow> nat \<Rightarrow> 's lxmf_router \<Rightarrow> 's lxmf_router" where
  "handle_request_timeouts ids now r =
     fold (\<lambda>i r. case map_of (peer_sync_pendings r) i of
         Some pend \<Rightarrow> with_peer (psp_peer_id pend) now (on_timeout now)
           (r\<lparr>peer_sync_pendings := hm_remove i (peer_sync_pendings r)\<rparr>)
       | None \<Rightarrow> r) ids r"

definition poll_peer_sync_timeouts :: "nat \<Rightarrow> 's lxmf_router \<Rightarrow> 's lxmf_router" where
  "poll_peer_sync_timeouts now r =
     r\<lparr>lr_peers := map (\<lambda>(i, p). (i, if (peer_state p = OfferSent \<or> peer_state p = AwaitingPayload)
           \<and> sat_sub now (last_attempt_ms p) \<ge> PEER_SYNC_TIMEOUT_MS then on_timeout now p else p)) (lr_peers r)\<rparr>"

subsection \<open>An exchange between two nodes\<close>

abbreviation stored_ids :: "'s lxmf_router \<Rightarrow> bytes set" where
  "stored_ids r \<equiv> dom (map_of (ps_entries (lr_prop_store r)))"

abbreviation processed_ids :: "'s lxmf_router \<Rightarrow> bytes set" where
  "processed_ids r \<equiv> dom (map_of (locally_processed r))"

text \<open>An entry that travels well: it can be written and read, and the receiver's validation accepts it
  under the id it is stored with.\<close>

definition travels :: "env \<Rightarrow> propagation_validation option \<Rightarrow> bytes \<Rightarrow> propagation_entry \<Rightarrow> bool" where
  "travels E v i e \<longleftrightarrow> entry_wf e \<and> reads_back (e_codec E) (propagation_entry_to_value e)
     \<and> (case validated_entry E v (read_entry e) of Some e' \<Rightarrow> pe_transient_id e' = i | None \<Rightarrow> False)"

lemma with_peer_keeps [simp]:
  "lr_prop_store (with_peer i now f r) = lr_prop_store r" "locally_processed (with_peer i now f r) = locally_processed r"
  "lr_propagation_validation (with_peer i now f r) = lr_propagation_validation r"
  "lr_peering_validation (with_peer i now f r) = lr_peering_validation r"
  by (simp_all add: with_peer_def)

lemma travels_bytes:
  assumes "travels E v i e"
  obtains b e' where "propagation_entry_to_bytes (e_codec E) e = Inr b"
    "propagation_entry_from_bytes (e_codec E) b = Inr (read_entry e)" "validated_entry E v (read_entry e) = Some e'" "pe_transient_id e' = i"
proof -
  from assms have "reads_back (e_codec E) (propagation_entry_to_value e)" and wf: "entry_wf e" by (simp_all add: travels_def)
  then obtain b where b: "write_value (e_codec E) (propagation_entry_to_value e) = Inr b"
    "read_value (e_codec E) b = Inr (propagation_entry_to_value e)" by (auto elim: reads_backE)
  with assms that show thesis
    by (auto simp: travels_def propagation_entry_to_bytes_def propagation_entry_from_bytes_def propagation_value_roundtrip split: option.splits)
qed

text \<open>The items served for stored ids, and what the other side does with them.\<close>

definition item_of :: "codec \<Rightarrow> propagation_store \<Rightarrow> bytes \<Rightarrow> bytes" where
  "item_of c s i = (case ps_get i s of Some e \<Rightarrow> (case propagation_entry_to_bytes c e of Inr b \<Rightarrow> b | Inl _ \<Rightarrow> []) | None \<Rightarrow> [])"

lemma serve_all:
  assumes "\<forall>i \<in> set ids. \<exists>e. ps_get i s = Some e \<and> travels E v i e"
  shows "fst (serve_messages (e_codec E) None s ids n) = map (item_of (e_codec E) s) ids"
  using assms
proof (induction ids arbitrary: n)
  case (Cons i ids)
  from Cons.prems obtain e where e: "ps_get i s = Some e" "travels E v i e" by auto
  from e(2) obtain b where b: "propagation_entry_to_bytes (e_codec E) e = Inr b" by (rule travels_bytes)
  from Cons show ?case by (simp add: e(1) b item_of_def)
qed simp

lemma ps_insert_ids: "dom (map_of (ps_entries (ps_insert c cr e s))) = insert (pe_transient_id e) (dom (map_of (ps_entries s)))"
  by (simp add: ps_insert_def Let_def dom_hm_insert)

lemma accept_all:
  assumes "\<forall>i \<in> set ids. \<exists>e. ps_get i s = Some e \<and> travels E (lr_propagation_validation r) i e"
  shows "\<exists>n' r'. accept_items E now (map (item_of (e_codec E) s) ids) (ds, bad, n, r) = (ds @ ids, bad, n', r')
    \<and> stored_ids r' = stored_ids r \<union> (set ids - processed_ids r)"
  using assms
proof (induction ids arbitrary: ds n r)
  case Nil
  then show ?case by simp
next
  case (Cons i ids)
  from Cons.prems obtain e where e: "ps_get i s = Some e" "travels E (lr_propagation_validation r) i e" by auto
  from e(2) obtain b e' where b: "propagation_entry_to_bytes (e_codec E) e = Inr b"
      "propagation_entry_from_bytes (e_codec E) b = Inr (read_entry e)"
      "validated_entry E (lr_propagation_validation r) (read_entry e) = Some e'" "pe_transient_id e' = i"
    by (rule travels_bytes)
  let ?seen = "ps_has i (lr_prop_store r) \<or> hm_contains (locally_processed r) i"
  let ?r1 = "if ?seen then r else mark_locally_processed i now
      (r\<lparr>lr_prop_store := ps_insert (e_codec E) (e_crypto E) e' (lr_prop_store r)\<rparr>)"
  have k: "lr_propagation_validation ?r1 = lr_propagation_validation r" by (simp add: mark_locally_processed_def)
  have seen: "?seen \<longleftrightarrow> i \<in> stored_ids r \<or> i \<in> processed_ids r" by (auto simp: ps_has_def hm_contains_def)
  have ids: "stored_ids ?r1 = stored_ids r \<union> ({i} - processed_ids r)"
    "set ids - processed_ids ?r1 \<subseteq> set ids - processed_ids r"
    "set ids - processed_ids r \<subseteq> (set ids - processed_ids ?r1) \<union> ({i} - processed_ids r)"
    using seen b(4) by (auto simp: mark_locally_processed_def ps_insert_ids dom_hm_insert split: if_splits)
  obtain n' r' where r': "accept_items E now (map (item_of (e_codec E) s) ids) (ds @ [i], bad, sat_add64 n (length b), ?r1)
      = ((ds @ [i]) @ ids, bad, n', r')" "stored_ids r' = stored_ids ?r1 \<union> (set ids - processed_ids ?r1)"
    using Cons.IH[of ?r1] Cons.prems k by (metis list.set_intros(2))
  have "accept_items E now (map (item_of (e_codec E) s) (i # ids)) (ds, bad, n, r) = (ds @ i # ids, bad, n', r')"
    using r'(1) b by (simp add: item_of_def e(1) Let_def)
  moreover have "stored_ids r' = stored_ids r \<union> (set (i # ids) - processed_ids r)" using r'(2) ids by auto
  ultimately show ?case by blast
qed

lemma drop_ids: "dom (map_of (ps_entries (fold (\<lambda>i s. snd (ps_remove i s)) ids s))) = dom (map_of (ps_entries s)) - set ids"
proof (induction ids arbitrary: s)
  case (Cons i ids)
  have "dom (map_of (ps_entries (snd (ps_remove i s)))) = dom (map_of (ps_entries s)) - {i}"
    by (auto simp: ps_remove_def map_of_hm_remove split: if_splits)
  with Cons.IH show ?case by auto
qed simp

text \<open>The answer to an offer of everything: the ids that are missing, or a refusal when there are none.\<close>

lemma offer_answered:
  assumes peering: "\<And>v. lr_peering_validation b = Some v \<Longrightarrow>
      validate_peering_key (e_codec E) (e_crypto E) (pv_local_identity_hash v @ pa) pkey (pv_target_cost v)"
    and offer: "peer_sync_offer pb pkey now a = (off, a1)" and answer: "handle_peer_sync_offer E pa off now b = (rsp, b1)"
    and wants: "wants = filter (\<lambda>i. \<not> ps_has i (lr_prop_store b)) (ps_list_ids (lr_prop_store a))"
  shows "lr_prop_store a1 = lr_prop_store a" and "set wants = stored_ids a - stored_ids b" and "rsp = (if wants = [] then PBool False else IdList wants)"
    and "lr_prop_store b1 = lr_prop_store b" and "locally_processed b1 = locally_processed b" and "lr_propagation_validation b1 = lr_propagation_validation b"
proof -
  have off: "off = Offer pkey (ps_list_ids (lr_prop_store a))" using offer by (auto simp: peer_sync_offer_def Let_def)
  show "lr_prop_store a1 = lr_prop_store a" using offer by (auto simp: peer_sync_offer_def Let_def)
  show "set wants = stored_ids a - stored_ids b"
    by (auto simp: wants ps_list_ids_def ps_has_def hm_contains_iff dom_map_of_conv_image_fst)
  have "\<not> (case lr_peering_validation b of
      Some v \<Rightarrow> \<not> validate_peering_key (e_codec E) (e_crypto E) (pv_local_identity_hash v @ pa) pkey (pv_target_cost v)
    | None \<Rightarrow> False)" using peering by (auto split: option.splits)
  with answer show "rsp = (if wants = [] then PBool False else IdList wants)" "lr_prop_store b1 = lr_prop_store b"
      "locally_processed b1 = locally_processed b" "lr_propagation_validation b1 = lr_propagation_validation b"
    by (auto simp: handle_peer_sync_offer_def off wants Let_def)
qed


definition offered_entry :: propagation_entry where
  "offered_entry = \<lparr>pe_transient_id = replicate 32 7, pe_lxm_data = [1, 2], pe_timestamp = 5, pe_destination_hash = None,
     pe_filepath = None, pe_msg_size = Some 2\<rparr>"

definition offering_facade :: "in_memory_store lxmf_router" where
  "offering_facade = sample_facade\<lparr>lr_prop_store := insert_with_stamp_value offered_entry 0 ps_new\<rparr>"

definition open_facade :: "in_memory_store lxmf_router" where
  "open_facade = sample_facade\<lparr>lr_peering_validation := None, lr_propagation_validation := None\<rparr>"



end
