(* ===== verification/Peer_Select.thy ===== *)
theory Peer_Select
  imports Peer_Sync
begin

section \<open>Choosing, rotating and feeding peers (router.rs LxmfRouter)\<close>

text \<open>
  Which peer is synchronised next, which peers are dropped, and how new messages are distributed to
  the queues of the peers. Random draws are arguments. The sorts of the sources use
  \<open>partial_cmp(..).unwrap_or(Equal)\<close>; the model orders the rates by \<open>f64_key\<close>, which agrees for rates that
  are numbers. Rust's sort is stable, as is \<open>sort_key\<close>.
\<close>

definition unpeer :: "bytes \<Rightarrow> 's lxmf_router \<Rightarrow> bool \<times> 's lxmf_router" where
  "unpeer pid r = (hm_contains (lr_peers r) pid, r\<lparr>lr_peers := hm_remove pid (lr_peers r)\<rparr>)"

definition request_peer_sync :: "bytes \<Rightarrow> nat \<Rightarrow> 's lxmf_router \<Rightarrow> bool \<times> 's lxmf_router" where
  "request_peer_sync pid now r =
     (hm_contains (lr_peers r) pid,
      r\<lparr>lr_peers := hm_modify pid (\<lambda>p. p\<lparr>next_sync_ms := now, peer_state := PIdle\<rparr>) (lr_peers r)\<rparr>)"

subsection \<open>Peering keys and scheduling\<close>

definition peering_id_for_peer :: "bytes \<Rightarrow> 's lxmf_router \<Rightarrow> bytes option" where
  "peering_id_for_peer pid r = map_option (\<lambda>v. pv_local_identity_hash v @ pid) (lr_peering_validation r)"

definition peering_key_for_peer :: "env \<Rightarrow> bytes \<Rightarrow> 's lxmf_router \<Rightarrow> bytes" where
  "peering_key_for_peer E pid r =
     (case lr_peering_validation r of
        None \<Rightarrow> []
      | Some v \<Rightarrow>
         (case peering_id_for_peer pid r of
            None \<Rightarrow> []
          | Some i \<Rightarrow>
             (case generate_peering_key (e_codec E) (e_crypto E) (e_rng E) i (if pv_target_cost v > 15 then 15 else pv_target_cost v) of
                Some k \<Rightarrow> k | None \<Rightarrow> [])))"

definition schedule_peer_sync :: "env \<Rightarrow> nat \<Rightarrow> 's lxmf_router \<Rightarrow> 's lxmf_router" where
  "schedule_peer_sync E now r =
     (case next_ready now (lr_peers r) of
        None \<Rightarrow> r
      | Some pid \<Rightarrow>
         (let pkey = (case map_of (lr_peers r) pid of
                  Some p \<Rightarrow> (case peering_key p of Some k \<Rightarrow> k | None \<Rightarrow> peering_key_for_peer E pid r)
                | None \<Rightarrow> peering_key_for_peer E pid r);
              (req, r1) = peer_sync_offer pid pkey now r in
          r1\<lparr>peer_sync_queue := peer_sync_queue r1 @ [(pid, req)]\<rparr>))"

text \<open>\<open>sync_peers\<close>: the categories, the pool and the choice by a random 64-bit number.\<close>

definition unreachable :: "nat \<Rightarrow> peer \<Rightarrow> bool" where
  "unreachable now p \<longleftrightarrow> now div 1000 > sat_add64 (last_heard_ms p div 1000) MAX_UNREACHABLE"

definition sync_candidate :: "nat \<Rightarrow> peer \<Rightarrow> bool" where
  "sync_candidate now p \<longleftrightarrow> \<not> unreachable now p \<and> peer_state p = PIdle \<and> unhandled_messages_count p > 0"

definition culled_peers :: "nat \<Rightarrow> 's lxmf_router \<Rightarrow> bytes list" where
  "culled_peers now r = map fst (filter (\<lambda>(i, p). unreachable now p \<and> i \<notin> static_peers r) (lr_peers r))"

definition sync_pool :: "nat \<Rightarrow> 's lxmf_router \<Rightarrow> bytes list" where
  "sync_pool now r =
     (let waiting = map (\<lambda>(i, p). (i, sync_transfer_rate p)) (filter (\<lambda>(_, p). sync_candidate now p \<and> is_alive p) (lr_peers r));
          unresponsive = map fst (filter (\<lambda>(_, p). sync_candidate now p \<and> \<not> is_alive p \<and> now div 1000 \<ge> next_sync_ms p div 1000)
                           (lr_peers r)) in
      if waiting \<noteq> []
      then (let sorted = sort_key (\<lambda>(_, rate). - f64_key rate) waiting;
                n = min FASTEST_N_RANDOM_POOL (length sorted) in
            map fst (take n sorted) @ take n (map fst (filter (\<lambda>(_, rate). f64_key rate = 0 \<and> \<not> is_nan rate) sorted)))
      else unresponsive)"

definition sync_peers :: "env \<Rightarrow> nat \<Rightarrow> nat \<Rightarrow> 's lxmf_router \<Rightarrow> 's lxmf_router" where
  "sync_peers E random now r =
     (let pool = sync_pool now r; culled = culled_peers now r;
          r1 = (if pool = [] then r
                else (let pid = pool ! (random mod length pool);
                          (req, r1) = peer_sync_offer pid (peering_key_for_peer E pid r) now r in
                      r1\<lparr>peer_sync_queue := peer_sync_queue r1 @ [(pid, req)]\<rparr>)) in
      fold (\<lambda>i r. snd (unpeer i r)) culled r1)"

definition clean_throttled_peers :: "nat \<Rightarrow> 's lxmf_router \<Rightarrow> 's lxmf_router" where
  "clean_throttled_peers now r =
     (let expired = map fst (filter (\<lambda>(_, t). now > t) (throttled_peers r)) in
      r\<lparr>throttled_peers := fold hm_remove expired (throttled_peers r)\<rparr>)"

definition add_throttled_peer :: "bytes \<Rightarrow> nat \<Rightarrow> 's lxmf_router \<Rightarrow> 's lxmf_router" where
  "add_throttled_peer pid t r = r\<lparr>throttled_peers := hm_insert pid t (throttled_peers r)\<rparr>"

definition is_peer_throttled :: "bytes \<Rightarrow> nat \<Rightarrow> 's lxmf_router \<Rightarrow> bool" where
  "is_peer_throttled pid now r = (case map_of (throttled_peers r) pid of Some t \<Rightarrow> now \<le> t | None \<Rightarrow> False)"

subsection \<open>Rotation\<close>

definition f64_floor :: "f64 \<Rightarrow> f64" where
  "f64_floor w = (case f64_view w of
       NaN \<Rightarrow> f64_nan
     | Infinite s \<Rightarrow> w
     | Finite s m e \<Rightarrow>
        if 0 \<le> e then w
        else (let k = nat (- e) in
              if \<not> s then with_sign False (f64_round (m div 2 ^ k) 1)
              else if m = 0 then w else with_sign True (f64_round ((m + 2 ^ k - 1) div 2 ^ k) 1)))"

definition f64_as_u32 :: "f64 \<Rightarrow> nat" where
  "f64_as_u32 w = min (f64_as_u64 w) u32_max"

definition rotation_headroom :: "nat \<Rightarrow> nat" where
  "rotation_headroom mx =
     f64_as_u32 (f64_max (u64_to_f64 1) (f64_floor (f64_div (f64_mul (u64_to_f64 mx) (u64_to_f64 10)) (u64_to_f64 100))))"

definition required_drops :: "nat \<Rightarrow> nat \<Rightarrow> nat" where
  "required_drops mx cnt = sat_sub cnt (sat_sub mx (rotation_headroom mx))"

text \<open>The peers that may be dropped, unresponsive ones first.\<close>

definition rotation_pool :: "'s lxmf_router \<Rightarrow> (bytes \<times> peer) list" where
  "rotation_pool r =
     (let synced = filter (\<lambda>(_, p). messages_unhandled p = 0) (lr_peers r);
          pool = (if synced \<noteq> [] then synced else lr_peers r);
          idle = filter (\<lambda>(i, p). i \<notin> static_peers r \<and> peer_state p = PIdle) pool;
          waiting = filter (\<lambda>(_, p). last_heard_ms p > 0 \<and> messages_offered p > 0) idle;
          unresponsive = filter (\<lambda>(_, p). \<not> last_heard_ms p > 0) idle in
      if unresponsive \<noteq> []
      then unresponsive @ (if prioritise_rotating_unreachable_peers r then [] else waiting)
      else waiting)"

definition rotation_rate :: "peer \<Rightarrow> f64" where
  "rotation_rate p =
     (if messages_offered p = 0 then 0 else f64_div (u64_to_f64 (messages_outgoing p)) (u64_to_f64 (messages_offered p)))"

definition low_rate :: "peer \<Rightarrow> bool" where
  "low_rate p \<longleftrightarrow> f64_lt (f64_mul (rotation_rate p) (u64_to_f64 100)) (f64_mul (with_sign False (f64_round 1 2)) (u64_to_f64 100))"

definition rotate_peers :: "nat \<Rightarrow> 's lxmf_router \<Rightarrow> 's lxmf_router" where
  "rotate_peers now r =
     (if \<not> propagation_node_enabled r then r
      else (case max_peers r of
        None \<Rightarrow> r
      | Some mx \<Rightarrow>
         (let cnt = length (lr_peers r) mod 2 ^ 32; drops = required_drops mx cnt;
              untested = filter (\<lambda>(_, p). last_attempt_ms p = 0) (lr_peers r); pool = rotation_pool r in
          if drops = 0 \<or> sat_sub cnt drops \<le> 1 then r
          else if length untested \<ge> rotation_headroom mx then r
          else if pool = [] then r
          else (let low = take (min drops (length pool mod 2 ^ 32)) (sort_key (\<lambda>(_, p). f64_key (rotation_rate p)) pool) in
                fold (\<lambda>(i, p) r. if low_rate p then snd (unpeer i r) else r) low r))))"

subsection \<open>Distribution\<close>

definition enqueue_peer_distribution :: "bytes \<Rightarrow> bytes option \<Rightarrow> 's lxmf_router \<Rightarrow> 's lxmf_router" where
  "enqueue_peer_distribution tid from r = r\<lparr>peer_distribution_queue := peer_distribution_queue r @ [(tid, from)]\<rparr>"

definition queue_for_peer :: "bytes \<Rightarrow> (bytes \<times> bytes option) list \<Rightarrow> peer \<Rightarrow> peer" where
  "queue_for_peer pid es p =
     fold (\<lambda>(tid, from) p. if (case from of Some f \<Rightarrow> f \<noteq> pid | None \<Rightarrow> True) then queue_unhandled_message tid p else p) es p"

definition flush_peer_distribution_queue :: "'s lxmf_router \<Rightarrow> 's lxmf_router" where
  "flush_peer_distribution_queue r =
     (if peer_distribution_queue r = [] then r
      else (let es = peer_distribution_queue r in
        fold (\<lambda>pid r. r\<lparr>lr_peers := hm_modify pid (queue_for_peer pid es) (lr_peers r)\<rparr>) (map fst (lr_peers r))
          (r\<lparr>peer_distribution_queue := []\<rparr>)))"

definition flush_peer :: "bytes \<Rightarrow> 's lxmf_router \<Rightarrow> 's lxmf_router" where
  "flush_peer pid r =
     (case map_of (lr_peers r) pid of
        Some p \<Rightarrow>
          (if queued_items p
           then (let (p1, s1) = process_queues p (lr_prop_store r) in
                 r\<lparr>lr_peers := hm_modify pid (\<lambda>_. p1) (lr_peers r), lr_prop_store := s1\<rparr>)
           else r)
      | None \<Rightarrow> r)"

definition flush_queues :: "'s lxmf_router \<Rightarrow> 's lxmf_router" where
  "flush_queues r =
     (if lr_peers r = [] then r
      else (let r1 = flush_peer_distribution_queue r in fold flush_peer (map fst (lr_peers r1)) r1))"

subsection \<open>Rotation is safe\<close>

lemma fold_unpeer:
  "lr_peers (fold (\<lambda>(i, p) r. if low_rate p then snd (unpeer i r) else r) ls r)
    = filter (\<lambda>(i, _). i \<notin> set (map fst (filter (\<lambda>(_, p). low_rate p) ls))) (lr_peers r)"
proof (induction ls arbitrary: r)
  case (Cons x ls)
  obtain i p where x: "x = (i, p)" by fastforce
  have "filter (\<lambda>(k, _). k \<notin> A) (hm_remove i m) = filter (\<lambda>(k, _). k \<notin> insert i A) m" for A and m :: peer_table
    by (auto simp: hm_remove_def AList.delete_eq intro!: filter_cong)
  with Cons.IH show ?case by (simp add: x unpeer_def)
qed (simp add: case_prod_unfold)

lemma rotation_pool_safe:
  "(i, p) \<in> set (rotation_pool r) \<Longrightarrow> (i, p) \<in> set (lr_peers r) \<and> i \<notin> static_peers r \<and> peer_state p = PIdle"
  by (auto simp: rotation_pool_def Let_def split: if_splits)

lemma filter_keys_length:
  assumes "hm_wf m"
  shows "length m \<le> length (filter (\<lambda>(k, _). k \<notin> set ids) m) + length ids"
proof -
  let ?in = "filter (\<lambda>e. fst e \<in> set ids) m"
  have "distinct (map fst ?in)" using assms by (simp add: hm_wf_def distinct_map_filter)
  from distinct_card[OF this] have "length ?in = card (fst ` set ?in)" by simp
  also have "card (fst ` set ?in) \<le> card (set ids)" by (rule card_mono) auto
  also have "\<dots> \<le> length ids" by (rule card_length)
  finally show ?thesis
    using sum_length_filter_compl[of "\<lambda>e. fst e \<in> set ids" m] by (simp add: case_prod_unfold)
qed


text \<open>A peer that waits for synchronisation is idle, so it is alive: the branch of \<open>sync_peers\<close> for
  unresponsive peers never finds one.\<close>

lemma sync_pool_alive: "i \<in> set (sync_pool now r) \<Longrightarrow> \<exists>p. (i, p) \<in> set (lr_peers r) \<and> sync_candidate now p \<and> is_alive p"
proof -
  have "peer_state p = PIdle \<Longrightarrow> is_alive p" for p by (simp add: is_alive_def)
  then show "i \<in> set (sync_pool now r) \<Longrightarrow> ?thesis"
    by (fastforce simp: sync_pool_def Let_def sync_candidate_def dest!: in_set_takeD split: if_splits)
qed

subsection \<open>Distribution reaches every peer\<close>

lemma queue_for_peer_queues:
  "unhandled_messages_queue (queue_for_peer pid es p) = unhandled_messages_queue p
     @ map fst (filter (\<lambda>(_, from). from \<noteq> Some pid) es)"
  "peer_id (queue_for_peer pid es p) = peer_id p" "handled_messages_queue (queue_for_peer pid es p) = handled_messages_queue p"
  by (induction es arbitrary: p) (auto simp: queue_for_peer_def queue_unhandled_message_def split: option.splits)


definition marked :: "bytes \<Rightarrow> bytes \<Rightarrow> propagation_store \<Rightarrow> bool" where
  "marked t i s \<longleftrightarrow> is_peer_handled t i s \<or> is_peer_unhandled t i s"

lemma process_queues_marked:
  assumes "ps_invar s" and "process_queues p s = (p', s')"
  shows "ps_invar s'" "\<And>t. ps_has t s' = ps_has t s" "\<And>t q. marked t q s \<Longrightarrow> marked t q s'"
    "\<And>t. t \<in> set (unhandled_messages_queue p) \<Longrightarrow> ps_has t s \<Longrightarrow> marked t (peer_id p) s'"
    "\<not> queued_items p'" "peer_id p' = peer_id p"
proof -
  let ?H = "set (handled_messages_for_peer (peer_id p) s)" and ?U = "set (unhandled_messages_for_peer (peer_id p) s)"
  let ?s1 = "process_handled ?H ?U (peer_id p) (handled_messages_queue p) s"
  have s': "s' = process_unhandled ?H ?U (peer_id p) (unhandled_messages_queue p) ?s1"
    and p': "p' = p\<lparr>handled_messages_queue := [], unhandled_messages_queue := []\<rparr>"
    using assms(2) by (auto simp: process_queues_def Let_def)
  note h = process_handled_marks[OF assms(1), of ?H ?U "peer_id p" "handled_messages_queue p"]
  have i1: "ps_invar ?s1" using h by blast
  note u = process_unhandled_marks[OF i1, of ?H ?U "peer_id p" "unhandled_messages_queue p"]
  have H: "t \<in> ?H \<longleftrightarrow> is_peer_handled t (peer_id p) s" and U: "t \<in> ?U \<longleftrightarrow> is_peer_unhandled t (peer_id p) s" for t
    using handled.messages_marked[OF assms(1)] unhandled.messages_marked[OF assms(1)] by auto
  show "ps_invar s'" "\<And>t. ps_has t s' = ps_has t s" using u h unfolding s' by blast+
  show "\<not> queued_items p'" "peer_id p' = peer_id p" by (simp_all add: p' queued_items_def)
  show mono: "marked t q s'" if "marked t q s" for t q using that u h unfolding s' marked_def by (metis H)
  show "marked t (peer_id p) s'" if "t \<in> set (unhandled_messages_queue p)" "ps_has t s" for t
  proof (cases "t \<in> ?H \<or> t \<in> ?U")
    case True
    then show ?thesis using mono H U by (auto simp: marked_def)
  next
    case False
    then show ?thesis using that u h unfolding s' marked_def by blast
  qed
qed

lemma flush_peer_effect:
  assumes wf: "table_wf (lr_peers r)" and inv: "ps_invar (lr_prop_store r)"
  shows "table_wf (lr_peers (flush_peer pid r))" "ps_invar (lr_prop_store (flush_peer pid r))"
    "\<And>t. ps_has t (lr_prop_store (flush_peer pid r)) = ps_has t (lr_prop_store r)"
    "\<And>t q. marked t q (lr_prop_store r) \<Longrightarrow> marked t q (lr_prop_store (flush_peer pid r))"
    "\<And>i. i \<noteq> pid \<Longrightarrow> map_of (lr_peers (flush_peer pid r)) i = map_of (lr_peers r) i"
    "\<And>p t. map_of (lr_peers r) pid = Some p \<Longrightarrow> t \<in> set (unhandled_messages_queue p) \<Longrightarrow> ps_has t (lr_prop_store r)
      \<Longrightarrow> marked t pid (lr_prop_store (flush_peer pid r))"
    "\<And>p. map_of (lr_peers (flush_peer pid r)) pid = Some p \<Longrightarrow> \<not> queued_items p"
    "peer_distribution_queue (flush_peer pid r) = peer_distribution_queue r"
proof -
  consider (skip) "flush_peer pid r = r" "\<And>p. map_of (lr_peers r) pid = Some p \<Longrightarrow> \<not> queued_items p"
    | (flush) p p1 s1 where "map_of (lr_peers r) pid = Some p" "process_queues p (lr_prop_store r) = (p1, s1)"
      "flush_peer pid r = r\<lparr>lr_peers := hm_modify pid (\<lambda>_. p1) (lr_peers r), lr_prop_store := s1\<rparr>"
  proof (cases "map_of (lr_peers r) pid")
    case None
    then show ?thesis by (intro that(1)) (simp_all add: flush_peer_def)
  next
    case (Some p)
    obtain p1 s1 where q: "process_queues p (lr_prop_store r) = (p1, s1)" by fastforce
    show ?thesis
    proof (cases "queued_items p")
      case True
      with Some q show ?thesis by (intro that(2)[of p p1 s1]) (simp_all add: flush_peer_def)
    next
      case False
      with Some show ?thesis by (intro that(1)) (simp_all add: flush_peer_def)
    qed
  qed
  then have "table_wf (lr_peers (flush_peer pid r)) \<and> ps_invar (lr_prop_store (flush_peer pid r))
    \<and> (\<forall>t. ps_has t (lr_prop_store (flush_peer pid r)) = ps_has t (lr_prop_store r))
    \<and> (\<forall>t q. marked t q (lr_prop_store r) \<longrightarrow> marked t q (lr_prop_store (flush_peer pid r)))
    \<and> (\<forall>i. i \<noteq> pid \<longrightarrow> map_of (lr_peers (flush_peer pid r)) i = map_of (lr_peers r) i)
    \<and> (\<forall>p t. map_of (lr_peers r) pid = Some p \<longrightarrow> t \<in> set (unhandled_messages_queue p) \<longrightarrow> ps_has t (lr_prop_store r)
        \<longrightarrow> marked t pid (lr_prop_store (flush_peer pid r)))
    \<and> (\<forall>p. map_of (lr_peers (flush_peer pid r)) pid = Some p \<longrightarrow> \<not> queued_items p)
    \<and> peer_distribution_queue (flush_peer pid r) = peer_distribution_queue r"
  proof cases
    case skip
    then show ?thesis using wf inv by (auto simp: queued_items_def)
  next
    case flush
    have pid: "peer_id p = pid" using wf flush(1) by (auto simp: table_wf_def dest: map_of_SomeD)
    note q = process_queues_marked[OF inv flush(2)]
    have "table_wf (hm_modify pid (\<lambda>_. p1) (lr_peers r))"
      using wf q(6) pid by (auto simp: table_wf_def hm_wf_modify) (auto simp: hm_modify_def split: if_splits)
    then show ?thesis using q pid flush by (auto simp: map_of_hm_modify)
  qed
  then show "table_wf (lr_peers (flush_peer pid r))" "ps_invar (lr_prop_store (flush_peer pid r))"
    "\<And>t. ps_has t (lr_prop_store (flush_peer pid r)) = ps_has t (lr_prop_store r)"
    "\<And>t q. marked t q (lr_prop_store r) \<Longrightarrow> marked t q (lr_prop_store (flush_peer pid r))"
    "\<And>i. i \<noteq> pid \<Longrightarrow> map_of (lr_peers (flush_peer pid r)) i = map_of (lr_peers r) i"
    "\<And>p t. map_of (lr_peers r) pid = Some p \<Longrightarrow> t \<in> set (unhandled_messages_queue p) \<Longrightarrow> ps_has t (lr_prop_store r)
      \<Longrightarrow> marked t pid (lr_prop_store (flush_peer pid r))"
    "\<And>p. map_of (lr_peers (flush_peer pid r)) pid = Some p \<Longrightarrow> \<not> queued_items p"
    "peer_distribution_queue (flush_peer pid r) = peer_distribution_queue r" by blast+
qed

lemma flush_peers_effect:
  assumes "table_wf (lr_peers r)" and "ps_invar (lr_prop_store r)"
  shows "(\<forall>t q. marked t q (lr_prop_store r) \<longrightarrow> marked t q (lr_prop_store (fold flush_peer ks r)))
    \<and> (\<forall>i p t. i \<in> set ks \<longrightarrow> map_of (lr_peers r) i = Some p \<longrightarrow> t \<in> set (unhandled_messages_queue p) \<longrightarrow> ps_has t (lr_prop_store r)
        \<longrightarrow> marked t i (lr_prop_store (fold flush_peer ks r)))
    \<and> (\<forall>i p. i \<in> set ks \<longrightarrow> map_of (lr_peers (fold flush_peer ks r)) i = Some p \<longrightarrow> \<not> queued_items p)
    \<and> (\<forall>i. i \<notin> set ks \<longrightarrow> map_of (lr_peers (fold flush_peer ks r)) i = map_of (lr_peers r) i)
    \<and> peer_distribution_queue (fold flush_peer ks r) = peer_distribution_queue r"
  using assms
proof (induction ks arbitrary: r)
  case (Cons k ks)
  note f = flush_peer_effect[OF Cons.prems, where pid = k]
  note IH = Cons.IH[OF f(1,2)]
  have 2: "marked t i (lr_prop_store (fold flush_peer ks (flush_peer k r)))"
    if "i \<in> set (k # ks)" "map_of (lr_peers r) i = Some p" "t \<in> set (unhandled_messages_queue p)" "ps_has t (lr_prop_store r)" for i p t
  proof (cases "i = k")
    case True
    then show ?thesis using that IH f(6) by blast
  next
    case False
    then have "map_of (lr_peers (flush_peer k r)) i = Some p" using that(2) f(5) by simp
    then show ?thesis using that False IH f(3) by auto
  qed
  have 3: "\<not> queued_items p" if "i \<in> set (k # ks)" "map_of (lr_peers (fold flush_peer ks (flush_peer k r))) i = Some p" for i p
  proof (cases "i \<in> set ks")
    case True
    then show ?thesis using that(2) IH by blast
  next
    case False
    with that(1) have "i = k" by simp
    with that(2) False show ?thesis using IH f(7) by metis
  qed
  have 4: "map_of (lr_peers (fold flush_peer ks (flush_peer k r))) i = map_of (lr_peers r) i" if "i \<notin> set (k # ks)" for i
    using that IH f(5) by simp
  have 1: "marked t q (lr_prop_store (fold flush_peer ks (flush_peer k r)))" if "marked t q (lr_prop_store r)" for t q
    using that IH f(4) by blast
  show ?case using 1 2 3 4 IH f(8) by simp
qed simp

lemma distribution_peers:
  assumes "table_wf (lr_peers r)"
  shows "table_wf (lr_peers (flush_peer_distribution_queue r))"
    "map_of (lr_peers r) i = Some p \<Longrightarrow> map_of (lr_peers (flush_peer_distribution_queue r)) i
       = Some (if peer_distribution_queue r = [] then p else queue_for_peer i (peer_distribution_queue r) p)"
    "lr_prop_store (flush_peer_distribution_queue r) = lr_prop_store r"
    "peer_distribution_queue (flush_peer_distribution_queue r) = []"
proof -
  let ?es = "peer_distribution_queue r"
  let ?f = "\<lambda>pid r. r\<lparr>lr_peers := hm_modify pid (queue_for_peer pid ?es) (lr_peers r)\<rparr>"
  have step: "distinct ks \<Longrightarrow> table_wf (lr_peers q) \<Longrightarrow> table_wf (lr_peers (fold ?f ks q))
      \<and> (\<forall>i. map_of (lr_peers (fold ?f ks q)) i = (if i \<in> set ks then map_option (queue_for_peer i ?es) (map_of (lr_peers q) i)
            else map_of (lr_peers q) i))
      \<and> lr_prop_store (fold ?f ks q) = lr_prop_store q \<and> peer_distribution_queue (fold ?f ks q) = peer_distribution_queue q"
    for ks and q :: "'a lxmf_router"
  proof (induction ks arbitrary: q)
    case (Cons k ks)
    have "table_wf (hm_modify k (queue_for_peer k ?es) (lr_peers q))"
      using Cons.prems(2) by (auto simp: table_wf_def hm_wf_modify) (auto simp: hm_modify_def queue_for_peer_queues split: if_splits)
    then show ?case using Cons.IH[of "?f k q"] Cons.prems(1) by (auto simp: map_of_hm_modify)
  qed simp
  have "distinct (map fst (lr_peers r))" using assms by (simp add: table_wf_def hm_wf_def)
  note s = step[OF this, of "r\<lparr>peer_distribution_queue := []\<rparr>"]
  show "table_wf (lr_peers (flush_peer_distribution_queue r))" "lr_prop_store (flush_peer_distribution_queue r) = lr_prop_store r"
    "peer_distribution_queue (flush_peer_distribution_queue r) = []"
    using s assms by (simp_all add: flush_peer_distribution_queue_def Let_def)
  show "map_of (lr_peers r) i = Some p \<Longrightarrow> map_of (lr_peers (flush_peer_distribution_queue r)) i
       = Some (if peer_distribution_queue r = [] then p else queue_for_peer i (peer_distribution_queue r) p)"
    using s assms by (auto simp: flush_peer_distribution_queue_def Let_def dest: map_of_SomeD intro: rev_image_eqI)
qed


definition spreading_facade :: "in_memory_store lxmf_router" where
  "spreading_facade = sample_facade\<lparr>
     lr_peers := [([1], peer_new [1] 0), ([2], peer_new [2] 0)],
     lr_prop_store := insert_with_stamp_value sample_entry 3 ps_new,
     peer_distribution_queue := [([7], Some [2])], static_peers := {[2]}, max_peers := Some 1\<rparr>"

lemma spreading_facade_wf: "table_wf (lr_peers spreading_facade)" "ps_invar (lr_prop_store spreading_facade)"
proof -
  have "ps_invar (insert_with_stamp_value sample_entry 3 ps_new)"
    by (rule ps_reachable_invar) (rule r_into_rtranclp, rule ps_step.InsertValue)
  then show "ps_invar (lr_prop_store spreading_facade)" by (simp add: spreading_facade_def)
  show "table_wf (lr_peers spreading_facade)" by (simp add: spreading_facade_def table_wf_def hm_wf_def peer_new_def)
qed



end
