(* ===== verification/Node.thy ===== *)
theory Node
  imports Peer_Select
begin

text \<open>
  The top of the router (\<open>LxmfRouter\<close> in \<open>rns/router.rs\<close>): the control requests that identities with
  permission send to a propagation node, the statistics it compiles, the loop over the inbound queue that
  dispatches everything received to the handlers of the other theories, and \<open>tick\<close>, which runs the jobs
  of the runtime and of the router. \<open>None\<close> stands for the panic of \<open>register_request\<close> as in \<open>Peer_Sync\<close>.
\<close>

subsection \<open>Statistics\<close>

text \<open>Rust divides \<open>i64\<close> towards zero.\<close>

definition i64_seconds :: "nat \<Rightarrow> int" where
  "i64_seconds ms = (let i = u64_as_i64 ms in if 0 \<le> i then i div 1000 else - (- i div 1000))"

definition opt_u32_value :: "nat option \<Rightarrow> mval" where
  "opt_u32_value n = (case n of Some x \<Rightarrow> MInt (int x) | None \<Rightarrow> MNil)"

definition reported_validation :: "'s lxmf_router \<Rightarrow> propagation_validation" where
  "reported_validation r = (case lr_propagation_validation r of
     Some v \<Rightarrow> v
   | None \<Rightarrow> \<lparr>prv_stamp_cost = DEFAULT_PROPAGATION_STAMP_COST, prv_stamp_cost_flex = DEFAULT_PROPAGATION_STAMP_FLEX\<rparr>)"

definition reported_peering_cost :: "'s lxmf_router \<Rightarrow> nat" where
  "reported_peering_cost r = (case lr_peering_validation r of Some v \<Rightarrow> pv_target_cost v | None \<Rightarrow> DEFAULT_PEERING_COST)"

definition peer_stats :: "'s lxmf_router \<Rightarrow> bytes \<Rightarrow> peer \<Rightarrow> mval" where
  "peer_stats r pid p =
     MMap [(key ''type'', MStr (str_bytes (if pid \<in> static_peers r then ''static'' else ''discovered''))),
           (key ''alive'', MBool (peer_state p \<noteq> Backoff)),
           (key ''last_heard'', MInt (i64_seconds (last_heard_ms p))),
           (key ''network_distance'', MInt (- 1)),
           (key ''rx_bytes'', MInt (u64_as_i64 (peer_rx_bytes p))),
           (key ''tx_bytes'', MInt (u64_as_i64 (peer_tx_bytes p))),
           (key ''messages'', MMap
             [(key ''offered'', MInt (u64_as_i64 (messages_offered p))),
              (key ''outgoing'', MInt (u64_as_i64 (messages_outgoing p))),
              (key ''incoming'', MInt (u64_as_i64 (messages_incoming p))),
              (key ''unhandled'', MInt (u64_as_i64 (messages_unhandled p)))]),
           (key ''acceptance_rate'', MF64 (if messages_offered p > 0
              then f64_div (u64_to_f64 (messages_incoming p)) (u64_to_f64 (messages_offered p)) else 0)),
           (key ''peering_key'', option_bytes_to_value (peering_key p)),
           (key ''peering_cost'', MInt (int (reported_peering_cost r))),
           (key ''target_stamp_cost'', MInt (int (prv_stamp_cost (reported_validation r)))),
           (key ''stamp_cost_flexibility'', MInt (int (prv_stamp_cost_flex (reported_validation r)))),
           (key ''transfer_limit'', MF64 (propagation_transfer_limit_kb r)),
           (key ''sync_limit'', MF64 (propagation_sync_limit_kb r)),
           (key ''name'', MNil),
           (key ''last_sync_attempt'', MInt (i64_seconds (last_attempt_ms p))),
           (key ''str'', MInt 0), (key ''ler'', MInt 0)]"

definition compile_stats :: "nat \<Rightarrow> 's lxmf_router \<Rightarrow> mval" where
  "compile_stats now r =
     (let s = lr_node_stats r; v = reported_validation r; statics = card (static_peers r); tot = length (lr_peers r) in
      MMap [(key ''identity_hash'', MBin (lr_identity_hash r)),
            (key ''destination_hash'', MBin (lr_identity_hash r)),
            (key ''uptime'', MF64 (f64_div (u64_to_f64 (sat_add64 (sat_sub now (propagation_started_ms r)) 1)) f64_1000)),
            (key ''delivery_limit'', MF64 (delivery_transfer_limit_kb r)),
            (key ''propagation_limit'', MF64 (propagation_transfer_limit_kb r)),
            (key ''sync_limit'', MF64 (propagation_sync_limit_kb r)),
            (key ''target_stamp_cost'', MInt (int (prv_stamp_cost v))),
            (key ''stamp_cost_flexibility'', MInt (int (prv_stamp_cost_flex v))),
            (key ''peering_cost'', MInt (int (reported_peering_cost r))),
            (key ''max_peering_cost'', MInt (int (max_peering_cost r))),
            (key ''autopeer_maxdepth'', opt_u32_value (autopeer_maxdepth r)),
            (key ''from_static_only'', MBool (from_static_only r)),
            (key ''messagestore'', MMap
              [(key ''count'', MInt (u64_as_i64 (length (ps_entries (lr_prop_store r))))),
               (key ''bytes'', MInt (u64_as_i64 (total_size_bytes (lr_prop_store r)))),
               (key ''limit'', MInt (u64_as_i64 (case propagation_store_limit_bytes r of Some l \<Rightarrow> l | None \<Rightarrow> 0)))]),
            (key ''clients'', MMap
              [(key ''client_propagation_messages_received'', MInt (u64_as_i64 (client_propagation_messages_received s))),
               (key ''client_propagation_messages_served'', MInt (u64_as_i64 (client_propagation_messages_served s)))]),
            (key ''unpeered_propagation_incoming'', MInt (u64_as_i64 (unpeered_propagation_incoming s))),
            (key ''unpeered_propagation_rx_bytes'', MInt (u64_as_i64 (unpeered_propagation_rx_bytes s))),
            (key ''static_peers'', MInt (u64_as_i64 statics)),
            (key ''discovered_peers'', MInt (u64_as_i64 (sat_sub tot statics))),
            (key ''total_peers'', MInt (u64_as_i64 tot)),
            (key ''max_peers'', opt_u32_value (max_peers r)),
            (key ''peers'', MMap (map (\<lambda>(i, p). (MBin i, peer_stats r i p)) (lr_peers r)))])"

subsection \<open>Control requests\<close>

definition control_error_response :: "bytes \<Rightarrow> nat \<Rightarrow> rns_response" where
  "control_error_response rid code = \<lparr>rsp_id = rid, rsp_data = MInt (int code)\<rparr>"

text \<open>The two requests that name a peer share their shape.\<close>

definition on_target :: "(bytes \<Rightarrow> 's lxmf_router \<Rightarrow> bool \<times> 's lxmf_router) \<Rightarrow> rns_request \<Rightarrow> 's lxmf_router
    \<Rightarrow> rns_response \<times> 's lxmf_router" where
  "on_target f req r =
     (case value_to_fixed_bytes DESTINATION_LENGTH (req_data req) of
        None \<Rightarrow> (control_error_response (req_id req) CONTROL_ERROR_INVALID_DATA, r)
      | Some target \<Rightarrow>
         (case f target r of
            (True, r1) \<Rightarrow> (\<lparr>rsp_id = req_id req, rsp_data = MBool True\<rparr>, r1)
          | (False, r1) \<Rightarrow> (control_error_response (req_id req) CONTROL_ERROR_NOT_FOUND, r1)))"

definition handle_control_request ::
  "env \<Rightarrow> bytes \<Rightarrow> rns_request \<Rightarrow> nat \<Rightarrow> 's lxmf_router \<Rightarrow> rns_response option \<times> 's lxmf_router" where
  "handle_control_request E pid req now r =
     (let path = (\<lambda>p. request_path_hash (e_crypto E) (str_bytes p)) in
      if pid \<notin> control_allowed r then (Some (control_error_response (req_id req) CONTROL_ERROR_NO_ACCESS), r)
      else if req_path_hash req = path CONTROL_STATS_PATH
        then (Some \<lparr>rsp_id = req_id req, rsp_data = compile_stats now r\<rparr>, r)
      else if req_path_hash req = path CONTROL_SYNC_PATH
        then apfst Some (on_target (\<lambda>t r. request_peer_sync t now r) req r)
      else if req_path_hash req = path CONTROL_UNPEER_PATH then apfst Some (on_target unpeer req r)
      else (None, r))"

subsection \<open>The inbound queue\<close>

definition answer_control :: "bytes \<Rightarrow> rns_response option \<times> 's lxmf_router \<Rightarrow> 's lxmf_router" where
  "answer_control pid = (\<lambda>(rsp, r). case rsp of Some x \<Rightarrow> r\<lparr>control_responses := control_responses r @ [(pid, x)]\<rparr> | None \<Rightarrow> r)"

definition process_received ::
  "env \<Rightarrow> received \<Rightarrow> nat \<Rightarrow> bool \<Rightarrow> 's lxmf_router \<Rightarrow> (lxmessage list \<times> 's lxmf_router) option" where
  "process_received E x now sig_ok r =
     (case x of
        RMessage m \<Rightarrow> Some (case process_inbound_message E m now sig_ok False r of
            (Some m', r1) \<Rightarrow> ([m'], r1) | (None, r1) \<Rightarrow> ([], r1))
      | RPropagated ts lxm_data _ src client \<Rightarrow> Some ([], snd (process_propagated E ts lxm_data now src client r))
      | RPropagationResource payload src \<Rightarrow>
          Some ([], snd (handle_propagation_resource_payload E src None None payload now r))
      | RRequest req src \<Rightarrow>
          Some ([], case src of
             None \<Rightarrow> r
           | Some pid \<Rightarrow>
              (if req_path_hash req = request_path_hash (e_crypto E) (str_bytes PEER_SYNC_PATH)
               then (case handle_peer_sync_request E pid req now r of
                       (Inr rsp, r1) \<Rightarrow> r1\<lparr>peer_sync_responses := peer_sync_responses r1 @ [(pid, rsp)]\<rparr>
                     | (Inl _, r1) \<Rightarrow> r1)
               else if propagation_node_enabled r then answer_control pid (handle_control_request E pid req now r)
               else r))
      | RControlRequest req src \<Rightarrow>
          Some ([], if propagation_node_enabled r
             then (case src of
                     Some pid \<Rightarrow> answer_control pid (handle_control_request E pid req now r)
                   | None \<Rightarrow> answer_control (replicate DESTINATION_LENGTH 0)
                       (Some (control_error_response (req_id req) CONTROL_ERROR_NO_IDENTITY), r))
             else r)
      | RResponse rsp _ \<Rightarrow>
          (case value_to_bytes (rsp_data rsp) of
             None \<Rightarrow> Some ([], r)
           | Some payload \<Rightarrow>
              (case handle_peer_sync_response_bytes_with_peer E (rsp_id rsp) payload now r of
                 None \<Rightarrow> None
               | Some (Inr (Some nxt), r1) \<Rightarrow> Some ([], r1\<lparr>peer_sync_outbound := peer_sync_outbound r1 @ [nxt]\<rparr>)
               | Some (_, r1) \<Rightarrow> Some ([], r1))))"

abbreviation facade_inbound :: "'s lxmf_router \<Rightarrow> received list" where
  "facade_inbound r \<equiv> inbound (rt_router (lr_runtime r))"

subsection \<open>The tick of the router\<close>

definition facade_tick ::
  "env \<Rightarrow> 's message_store_ops \<Rightarrow> bool \<Rightarrow> nat \<Rightarrow> 's lxmf_router \<Rightarrow> runtime_tick \<times> 's lxmf_router" where
  "facade_tick E ops lock_free now r0 =
     (let (t, rt) = tick E ops now (lr_runtime r0);
          r1 = r0\<lparr>lr_runtime := rt\<rparr>;
          r2 = (if links_ran t then clean_links now r1 else r1);
          r3 = (if pn_ran t
                then schedule_peer_sync E now (poll_peer_sync_timeouts now (snd (clean_transient_id_caches now r2))) else r2);
          r4 = (if store_ran t then snd (clean_propagation_store now r3) else r3);
          r5 = (if rotate_ran t then rotate_peers now r4 else r4);
          r6 = (if peeringest_ran t then flush_queues r5 else r5);
          r7 = (if stamps_ran t then tick_stamps ops lock_free r6 else r6);
          r8 = (if request_timeouts t \<noteq> [] then handle_request_timeouts (request_timeouts t) now r7 else r7) in
      (t\<lparr>peer_sync_requests := peer_sync_requests t @ peer_sync_queue r8\<rparr>, r8\<lparr>peer_sync_queue := []\<rparr>))"

subsection \<open>What the handlers leave alone\<close>

definition node_invar :: "'s lxmf_router \<Rightarrow> bool" where
  "node_invar r \<longleftrightarrow> table_wf (lr_peers r) \<and> ps_invar (lr_prop_store r) \<and> hm_wf (local_deliveries r)
    \<and> hm_wf (locally_processed r) \<and> hm_wf (peer_sync_pendings r)"

text \<open>A quiet change of the router keeps its peers, its permissions, the answers to control requests and
  the inbound queue, and it keeps the invariant.\<close>

definition quiet :: "'s lxmf_router \<Rightarrow> 's lxmf_router \<Rightarrow> bool" where
  "quiet r r' \<longleftrightarrow> dom (map_of (lr_peers r)) \<subseteq> dom (map_of (lr_peers r')) \<and> control_allowed r' = control_allowed r
    \<and> control_responses r' = control_responses r \<and> facade_inbound r' = facade_inbound r
    \<and> (node_invar r \<longrightarrow> node_invar r')"

lemma quiet_refl [simp]: "quiet r r"
  by (simp add: quiet_def)

lemma quiet_trans: "quiet r r1 \<Longrightarrow> quiet r1 r2 \<Longrightarrow> quiet r r2"
  by (auto simp: quiet_def)

lemma quiet_fold: "(\<And>x r. quiet r (f x r)) \<Longrightarrow> quiet r (fold f xs r)"
  by (induction xs arbitrary: r) (auto intro: quiet_trans)

lemma peer_ids [simp]:
  "peer_id (on_failure now p) = peer_id p" "peer_id (on_timeout now p) = peer_id p" "peer_id (mark_heard now p) = peer_id p"
  "peer_id (on_payload_complete now p) = peer_id p" "peer_id (on_sync_complete now p) = peer_id p"
  "peer_id (throttle now t p) = peer_id p" "peer_id (on_offer_sent now p) = peer_id p"
  "peer_id (on_offer_response rsp now p) = peer_id p"
  by (simp_all add: on_failure_def on_timeout_def mark_heard_def on_payload_complete_def on_sync_complete_def throttle_def
      on_offer_sent_def on_offer_response_def Let_def split: peer_sync_response.splits bool.splits)

lemma table_wf_modify: "(\<And>p. peer_id (f p) = peer_id p) \<Longrightarrow> table_wf t \<Longrightarrow> table_wf (hm_modify i f t)"
  by (auto simp: table_wf_def hm_wf_modify) (auto simp: hm_modify_def split: if_splits)

lemma modify_quiet:
  assumes "\<And>p. peer_id (f p) = peer_id p"
  shows "quiet r (r\<lparr>lr_peers := hm_modify i f (lr_peers r)\<rparr>)"
  using table_wf_modify[OF assms] by (auto simp: quiet_def node_invar_def map_of_hm_modify split: option.splits)

lemma with_peer_quiet:
  assumes "\<And>p. peer_id (f p) = peer_id p"
  shows "quiet r (with_peer i now f r)"
proof -
  let ?r1 = "r\<lparr>lr_peers := snd (upsert i now (lr_peers r))\<rparr>"
  have "dom (map_of (lr_peers r)) \<subseteq> dom (map_of (snd (upsert i now (lr_peers r))))"
    by (auto simp: upsert_def hmap_simps split: option.splits)
  then have "quiet r ?r1" using upsert_wf[of "lr_peers r" i now] by (auto simp: quiet_def node_invar_def)
  moreover have "with_peer i now f r = ?r1\<lparr>lr_peers := hm_modify i f (lr_peers ?r1)\<rparr>" by (simp add: with_peer_def)
  ultimately show ?thesis using quiet_trans[OF _ modify_quiet[OF assms, of ?r1 i]] by simp
qed

lemma inbound_message_quiet: "quiet r (snd (process_inbound_message E m now sig_ok ne r))"
proof -
  let ?r1 = "if sig_ok then learn_ticket now m r else r"
  have 1: "quiet r ?r1" by (auto simp: learn_ticket_def remember_ticket_def quiet_def node_invar_def split: option.splits)
  have "quiet r (mark_local_delivery i now ?r1)" for i
    by (rule quiet_trans[OF 1]) (auto simp: mark_local_delivery_def quiet_def node_invar_def hm_wf_insert)
  then have 2: "quiet r (case x of Some i \<Rightarrow> mark_local_delivery i now ?r1 | None \<Rightarrow> ?r1)" for x using 1 by (cases x) simp_all
  show ?thesis unfolding process_inbound_message_def Let_def case_prod_beta
    using 1 2[of "message_id (snd (case map_of (inbound_stamp_costs ?r1) (destination_hash m) of
        None \<Rightarrow> (True, m) | Some cost \<Rightarrow> (\<not> (\<not> fst (validate_stamp_with_tickets (e_codec E) (e_crypto E) cost
          (get_inbound_tickets (source_hash m) now (lr_tickets ?r1)) m) \<and> enforce_stamps ?r1 \<and> \<not> ne),
        snd (validate_stamp_with_tickets (e_codec E) (e_crypto E) cost
          (get_inbound_tickets (source_hash m) now (lr_tickets ?r1)) m))))"]
    by simp
qed

lemma ps_insert_invar: "ps_invar s \<Longrightarrow> ps_invar (ps_insert c cr e s)"
  by (rule ps_step_invar) (rule ps_step.Insert)

lemma propagated_quiet: "quiet r (snd (process_propagated E ts d now src client r))"
proof -
  have "quiet r (count_received client src n r)" for n
    by (auto simp: count_received_def quiet_def node_invar_def Let_def split: option.splits)
  moreover have "quiet r0 (mark_locally_processed t now (r0\<lparr>lr_prop_store := ps_insert c cr e (lr_prop_store r0)\<rparr>))"
    for t c cr e and r0 :: "'a lxmf_router"
    by (auto simp: quiet_def node_invar_def mark_locally_processed_def hm_wf_insert ps_insert_invar)
  ultimately have "quiet r (mark_locally_processed t now (count_received client src n r\<lparr>lr_prop_store :=
      ps_insert c cr e (lr_prop_store (count_received client src n r))\<rparr>))" for n t c cr e
    using quiet_trans by blast
  then show ?thesis unfolding process_propagated_def Let_def by (simp split: option.split)
qed

lemma propagated_all_quiet: "quiet r (snd (process_propagated_all E ts ms now src client r))"
proof (induction ms arbitrary: r)
  case (Cons m ms)
  show ?case using propagated_quiet[of r E ts m now src client] Cons.IH
    by (auto simp: Let_def split: prod.splits intro: quiet_trans) (metis quiet_trans snd_conv)
qed simp

lemma resource_quiet: "quiet r (snd (handle_propagation_resource_payload E src pkey limit payload now r))"
  by (auto simp: handle_propagation_resource_payload_def process_propagation_resource_def propagated_all_quiet with_peer_quiet
      split: sum.splits option.splits prod.splits)

lemmas quiet_simps = quiet_def node_invar_def

lemma queue_quiet [simp]:
  "quiet r (r'\<lparr>peer_sync_responses := x\<rparr>) = quiet r r'" "quiet r (r'\<lparr>peer_sync_queue := q\<rparr>) = quiet r r'"
  "quiet r (r'\<lparr>peer_sync_outbound := y\<rparr>) = quiet r r'"
  by (simp_all add: quiet_simps)

lemma offer_quiet: "quiet r (snd (handle_peer_sync_offer E pid req now r))"
  by (auto simp: handle_peer_sync_offer_def Let_def with_peer_quiet split: peer_sync_request.splits)

lemma message_get_quiet: "quiet r (snd (peer_sync_message_get pid rsp limit now r))"
  by (auto simp: peer_sync_message_get_def Let_def intro!: with_peer_quiet split: peer_sync_response.splits)

lemma serve_quiet: "quiet r (snd (handle_peer_sync_message_get E pid req now r))"
proof -
  have "quiet r (r\<lparr>lr_peers := hm_modify pid f (lr_peers r), lr_node_stats := n\<rparr>)" if "\<And>p. peer_id (f p) = peer_id p" for f n
    using modify_quiet[OF that, of r pid] by (simp add: quiet_simps)
  then show ?thesis by (auto simp: handle_peer_sync_message_get_def Let_def split: peer_sync_request.splits prod.splits)
qed

lemma ack_quiet: "quiet r (snd (handle_peer_sync_ack pid req now r))"
proof -
  have "quiet r (r\<lparr>lr_prop_store := fold (\<lambda>i s. snd (ps_remove i s)) ids (lr_prop_store r)\<rparr>)" for ids
    by (auto simp: quiet_simps intro: fold_ps_remove_invar)
  then show ?thesis
    by (auto simp: handle_peer_sync_ack_def split: peer_sync_request.splits intro!: quiet_trans[OF _ with_peer_quiet])
qed

lemma sync_request_quiet: "quiet r (snd (handle_peer_sync_request E pid req now r))"
proof -
  have "quiet r (snd (handle_peer_sync_request_bytes E pid payload now r))" for payload
  proof -
    let ?r = "with_peer pid now (mark_heard now) r"
    have 1: "quiet r ?r" by (rule with_peer_quiet) simp
    have 2: "quiet ?r (case peer_sync_message_get pid rsp None now r1 of
        (Some g, r2) \<Rightarrow> r2\<lparr>peer_sync_queue := peer_sync_queue r2 @ [(pid, g)]\<rparr> | (None, r2) \<Rightarrow> r2)"
      if "handle_peer_sync_offer E pid q now ?r = (rsp, r1)" for q rsp r1
      using quiet_trans[OF offer_quiet[of ?r E pid q now] message_get_quiet[of _ pid rsp None now]] that
      by (auto split: prod.splits option.splits)
    have 3: "quiet ?r r1" if "handle_peer_sync_message_get E pid q now ?r = (rsp, r1)" for q rsp r1
      using serve_quiet[of ?r E pid q now] that by simp
    have 4: "quiet ?r r1" if "handle_peer_sync_ack pid q now ?r = (rsp, r1)" for q rsp r1
      using ack_quiet[of ?r pid q now] that by simp
    show ?thesis
    proof (cases "decode_peer_sync_request (e_codec E) payload")
      case (Inl e)
      then show ?thesis using 1 by (simp add: handle_peer_sync_request_bytes_def Let_def)
    next
      case (Inr req)
      have "quiet ?r (snd (handle_peer_sync_request_bytes E pid payload now r))"
        using Inr 2 3 4 by (cases req) (auto simp: handle_peer_sync_request_bytes_def Let_def split: prod.split)
      with 1 show ?thesis by (rule quiet_trans)
    qed
  qed
  then have "quiet r r1" if "handle_peer_sync_request_bytes E pid payload now r = (x, r1)" for payload x r1
    using that by (metis snd_conv)
  then show ?thesis by (auto simp: handle_peer_sync_request_def split: option.split prod.split sum.split)
qed

lemma build_request_quiet: "build_peer_sync_request E pid req now r = Some (res, r') \<Longrightarrow> quiet r r'"
  by (auto simp: build_peer_sync_request_def quiet_simps hm_wf_insert Let_def split: sum.splits option.splits prod.splits)

lemma accept_items_quiet: "accept_items E now items (d, i, n, r) = (d', i', n', r') \<Longrightarrow> quiet r r'"
proof (induction items arbitrary: d i n r)
  case (Cons item items)
  let ?put = "\<lambda>e. mark_locally_processed (pe_transient_id e) now
    (r\<lparr>lr_prop_store := ps_insert (e_codec E) (e_crypto E) e (lr_prop_store r)\<rparr>)"
  have "quiet r (?put e)" for e
    by (auto simp: quiet_simps mark_locally_processed_def hm_wf_insert ps_insert_invar)
  then have put: "quiet (?put e) r' \<Longrightarrow> quiet r r'" for e using quiet_trans by blast
  show ?case using Cons.prems
    by (auto simp: Let_def split: sum.splits option.splits if_splits dest!: Cons.IH intro: put)
qed simp

lemma payload_quiet: "quiet r (snd (apply_peer_sync_payload E pid rsp now r))"
proof -
  obtain d i n r1 where a: "accept_items E now (case rsp of Payload items \<Rightarrow> items | _ \<Rightarrow> []) ([], 0, 0, r) = (d, i, n, r1)"
    by (metis prod_cases4)
  show ?thesis unfolding apply_peer_sync_payload_def a Let_def prod.case snd_conv
    by (rule quiet_trans[OF accept_items_quiet[OF a]], rule with_peer_quiet) simp
qed

lemma response_quiet:
  assumes "handle_peer_sync_response_bytes_with_peer E rid payload now r = Some (res, r')"
  shows "quiet r r'"
proof -
  let ?r1 = "r\<lparr>peer_sync_pendings := hm_remove rid (peer_sync_pendings r)\<rparr>"
  have 1: "quiet r ?r1" by (auto simp: quiet_simps hm_wf_remove)
  have 2: "quiet ?r1 (with_peer pid now (if b then on_payload_complete now else on_failure now) ?r1)" for b pid
    by (rule with_peer_quiet) simp
  have 3: "quiet ?r1 (apply_peer_sync_response pid rsp now ?r1)" for pid rsp
    unfolding apply_peer_sync_response_def by (rule with_peer_quiet) simp
  have 4: "quiet ?r1 r2" if "apply_peer_sync_payload E pid rsp now ?r1 = (x, r2)" for pid rsp x r2
    using payload_quiet[of ?r1 E pid rsp now] that by simp
  have 5: "quiet ?r1 r3" if "apply_peer_sync_payload E pid rsp now ?r1 = (x, r2)" "build_peer_sync_request E pid q now r2 = Some (y, r3)"
    for pid rsp x r2 q y r3 by (rule quiet_trans[OF 4[OF that(1)] build_request_quiet[OF that(2)]])
  have "r' = r \<or> quiet ?r1 r'"
    using assms 2 3 by (auto simp: handle_peer_sync_response_bytes_with_peer_def Let_def
        split: option.splits sum.splits peer_sync_request.splits prod.splits dest: 4 5)
  with quiet_trans[OF 1] show ?thesis by auto
qed

subsection \<open>Control without permission\<close>

definition unauthorised :: "bytes set \<Rightarrow> received \<Rightarrow> bool" where
  "unauthorised allowed x = (case x of
     RRequest _ (Some pid) \<Rightarrow> pid \<notin> allowed | RControlRequest _ (Some pid) \<Rightarrow> pid \<notin> allowed | _ \<Rightarrow> True)"

text \<open>The change that is allowed then: a quiet one, with refusals added to the answers.\<close>

definition refusal :: "bytes \<times> rns_response \<Rightarrow> bool" where
  "refusal = (\<lambda>(_, rsp). rsp_data rsp \<in> {MInt (int CONTROL_ERROR_NO_ACCESS), MInt (int CONTROL_ERROR_NO_IDENTITY)})"

definition refused :: "'s lxmf_router \<Rightarrow> 's lxmf_router \<Rightarrow> bool" where
  "refused r r' \<longleftrightarrow> quiet r (r'\<lparr>control_responses := control_responses r\<rparr>)
    \<and> (\<exists>es. control_responses r' = control_responses r @ es \<and> list_all refusal es)"

lemma refused_quiet: "quiet r r' \<Longrightarrow> refused r r'"
  by (auto simp: refused_def quiet_simps)

lemma refused_trans: "refused r r1 \<Longrightarrow> refused r1 r2 \<Longrightarrow> refused r r2"
  by (auto simp: refused_def quiet_simps)

lemma refused_answer: "refusal (pid, rsp) \<Longrightarrow> refused r (answer_control pid (Some rsp, r))"
  by (auto simp: refused_def quiet_simps answer_control_def)

lemma denied_quiet: "pid \<notin> control_allowed r \<Longrightarrow> refused r (answer_control pid (handle_control_request E pid req now r))"
  by (simp add: handle_control_request_def Let_def, rule refused_answer) (simp add: refusal_def control_error_response_def)

lemma sync_response_quiet: "handle_peer_sync_request E pid req now r = (x, r1) \<Longrightarrow> quiet r r1"
  using sync_request_quiet[of r E pid req now] by simp

lemma process_received_refused:
  assumes "unauthorised (control_allowed r) x" and p: "process_received E x now sig_ok r = Some (ms, r')"
  shows "refused r r'"
proof (cases x)
  case (RMessage m)
  with p show ?thesis using inbound_message_quiet[of r E m now sig_ok False]
    by (auto simp: process_received_def refused_quiet split: prod.splits option.splits)
next
  case (RPropagated ts d k src client)
  with p show ?thesis by (auto simp: process_received_def intro!: refused_quiet propagated_quiet)
next
  case (RPropagationResource payload src)
  with p show ?thesis by (auto simp: process_received_def intro!: refused_quiet resource_quiet)
next
  case (RRequest req src)
  with p assms(1) show ?thesis
    by (auto simp: process_received_def unauthorised_def denied_quiet refused_quiet split: option.splits prod.splits sum.splits if_splits
        dest!: sync_response_quiet)
next
  case (RResponse rsp src)
  with p show ?thesis
    by (auto simp: process_received_def refused_quiet split: option.splits prod.splits sum.splits dest!: response_quiet)
next
  case (RControlRequest req src)
  have "refusal (pid, control_error_response (req_id req) CONTROL_ERROR_NO_IDENTITY)" for pid
    by (simp add: refusal_def control_error_response_def)
  with RControlRequest p assms(1) show ?thesis
    by (auto simp: process_received_def unauthorised_def denied_quiet refused_quiet refused_answer split: option.splits if_splits)
qed

lemma refused_facts:
  assumes "refused r r'"
  shows "control_allowed r' = control_allowed r" "facade_inbound r' = facade_inbound r"
    "dom (map_of (lr_peers r)) \<subseteq> dom (map_of (lr_peers r'))" "node_invar r \<Longrightarrow> node_invar r'"
  using assms by (auto simp: refused_def quiet_simps)

subsection \<open>The loop over the inbound queue\<close>

lemma unpeer_target: "on_target unpeer req r = (rsp, r') \<Longrightarrow> facade_inbound r' = facade_inbound r \<and> (node_invar r \<longrightarrow> node_invar r')"
  by (auto simp: on_target_def unpeer_def node_invar_def table_wf_def hm_wf_remove set_hm_remove split: option.splits bool.splits prod.splits)

lemma sync_target:
  "on_target (\<lambda>t r. request_peer_sync t now r) req r = (rsp, r') \<Longrightarrow> facade_inbound r' = facade_inbound r \<and> (node_invar r \<longrightarrow> node_invar r')"
  by (auto simp: on_target_def request_peer_sync_def node_invar_def intro!: table_wf_modify split: option.splits bool.splits prod.splits)

lemma control_request_keeps:
  "facade_inbound (answer_control pid (handle_control_request E pid req now r)) = facade_inbound r
    \<and> (node_invar r \<longrightarrow> node_invar (answer_control pid (handle_control_request E pid req now r)))"
proof -
  obtain rsp r' where h: "handle_control_request E pid req now r = (rsp, r')" by fastforce
  have "facade_inbound r' = facade_inbound r \<and> (node_invar r \<longrightarrow> node_invar r')"
    using h by (auto simp: handle_control_request_def Let_def apfst_def map_prod_def split: if_splits prod.splits
        dest!: unpeer_target sync_target)
  then show ?thesis unfolding h by (auto simp: answer_control_def node_invar_def split: option.splits)
qed

lemma process_received_keeps:
  assumes p: "process_received E x now sig_ok r = Some (ms, r')"
  shows "facade_inbound r' = facade_inbound r \<and> (node_invar r \<longrightarrow> node_invar r')"
proof (cases "unauthorised (control_allowed r) x")
  case True
  from process_received_refused[OF this p] show ?thesis using refused_facts by blast
next
  case False
  then consider (Req) req pid where "x = RRequest req (Some pid)" | (Ctl) req pid where "x = RControlRequest req (Some pid)"
    by (auto simp: unauthorised_def split: received.splits option.splits)
  then show ?thesis
  proof cases
    case Req
    then show ?thesis using p control_request_keeps[of pid E req now r]
      by (auto simp: process_received_def quiet_simps split: if_splits prod.splits sum.splits dest!: sync_response_quiet)
  next
    case Ctl
    then show ?thesis using p control_request_keeps[of pid E req now r] by (auto simp: process_received_def split: if_splits)
  qed
qed

text \<open>\<open>process_inbound_queue\<close> pops and handles until the queue is empty. It ends because no handler puts
  anything into the queue.\<close>

function process_inbound_queue ::
  "env \<Rightarrow> nat \<Rightarrow> bool \<Rightarrow> 's lxmf_router \<Rightarrow> (lxmessage list \<times> 's lxmf_router) option" where
  "process_inbound_queue E now sig_ok r =
     (case pop_inbound (rt_router (lr_runtime r)) of
        (None, _) \<Rightarrow> Some ([], r)
      | (Some x, q) \<Rightarrow>
         (case process_received E x now sig_ok (r\<lparr>lr_runtime := (lr_runtime r)\<lparr>rt_router := q\<rparr>\<rparr>) of
            None \<Rightarrow> None
          | Some (ms, r1) \<Rightarrow>
             (case process_inbound_queue E now sig_ok r1 of None \<Rightarrow> None | Some (ms', r2) \<Rightarrow> Some (ms @ ms', r2))))"
  by pat_completeness auto
termination
proof (relation "measure (\<lambda>(_, _, _, r). length (facade_inbound r))", goal_cases)
  case (2 E now sig_ok r p q x xa r1)
  then show ?case by (auto simp: pop_inbound_def dest!: process_received_keeps split: list.splits)
qed simp

declare process_inbound_queue.simps [simp del]

lemma queue_empty: "facade_inbound r = [] \<Longrightarrow> process_inbound_queue E now sig_ok r = Some ([], r)"
  by (simp add: process_inbound_queue.simps[of E now sig_ok r] pop_inbound_def)

text \<open>The queue is empty, or its head is handled first.\<close>

lemma process_inbound_queue_cases:
  assumes "process_inbound_queue E now sig_ok r = Some (ms, r')"
  obtains (Empty) "facade_inbound r = []" "r' = r" "ms = []"
  | (Head) x xs ms1 r1 ms2 where "facade_inbound r = x # xs"
      "process_received E x now sig_ok (r\<lparr>lr_runtime := (lr_runtime r)\<lparr>rt_router := (rt_router (lr_runtime r))\<lparr>inbound := xs\<rparr>\<rparr>\<rparr>) = Some (ms1, r1)"
      "process_inbound_queue E now sig_ok r1 = Some (ms2, r')" "ms = ms1 @ ms2"
  using assms by (subst (asm) process_inbound_queue.simps) (auto simp: pop_inbound_def split: list.splits option.splits)

lemma queue_refused:
  "\<forall>x \<in> set (facade_inbound r). unauthorised (control_allowed r) x \<Longrightarrow> process_inbound_queue E now sig_ok r = Some (ms, r')
    \<Longrightarrow> facade_inbound r' = [] \<and> dom (map_of (lr_peers r)) \<subseteq> dom (map_of (lr_peers r')) \<and> control_allowed r' = control_allowed r
      \<and> (\<exists>es. control_responses r' = control_responses r @ es \<and> list_all refusal es)"
proof (induction "length (facade_inbound r)" arbitrary: r ms rule: less_induct)
  case less
  from less.prems(2) show ?case
  proof (cases rule: process_inbound_queue_cases)
    case Empty
    then show ?thesis by simp
  next
    case (Head x xs ms1 r1 ms2)
    let ?r0 = "r\<lparr>lr_runtime := (lr_runtime r)\<lparr>rt_router := (rt_router (lr_runtime r))\<lparr>inbound := xs\<rparr>\<rparr>\<rparr>"
    have f: "refused ?r0 r1" using process_received_refused[OF _ Head(2)] less.prems(1) Head(1) by simp
    have "length (facade_inbound r1) < length (facade_inbound r)" "\<forall>x \<in> set (facade_inbound r1). unauthorised (control_allowed r1) x"
      using refused_facts[OF f] less.prems(1) Head(1) by auto
    note rest = less.hyps[OF this Head(3)]
    have "dom (map_of (lr_peers r)) \<subseteq> dom (map_of (lr_peers r'))" using rest refused_facts(3)[OF f] by (simp add: order_trans)
    with rest f refused_facts(1)[OF f] show ?thesis by (auto simp: refused_def simp del: subset_iff)
  qed
qed

text \<open>C24. Control needs permission: when none of the senders of received requests is allowed to control the
  node, processing the inbound queue removes no peer and changes no permission, and every answer it adds
  to the control responses is a refusal.\<close>

theorem control_needs_permission:
  assumes "\<forall>x \<in> set (facade_inbound r). unauthorised (control_allowed r) x"
    and "process_inbound_queue E now sig_ok r = Some (ms, r')"
  shows "dom (map_of (lr_peers r)) \<subseteq> dom (map_of (lr_peers r')) \<and> control_allowed r' = control_allowed r
    \<and> facade_inbound r' = [] \<and> (\<exists>es. control_responses r' = control_responses r @ es \<and> list_all refusal es)"
  using queue_refused[OF assms] by blast

text \<open>A stranger asks the node to drop its only peer and is refused.\<close>

definition asked_facade :: "in_memory_store lxmf_router" where
  "asked_facade =
     (let r = sample_facade\<lparr>lr_peers := [([1], peer_new [1] 0)], propagation_node_enabled := True\<rparr> in
      r\<lparr>lr_runtime := (lr_runtime r)\<lparr>rt_router := (rt_router (lr_runtime r))\<lparr>inbound :=
        [RControlRequest \<lparr>req_id = [3], req_at = 0, req_path_hash = request_path_hash zero_crypto (str_bytes CONTROL_UNPEER_PATH),
          req_data = MBin [1]\<rparr> (Some [2])]\<rparr>\<rparr>\<rparr>)"

theorem control_needs_permission_witness:
  "\<exists>ms r'. process_inbound_queue sample_env 0 True asked_facade = Some (ms, r') \<and> [1] \<in> dom (map_of (lr_peers r'))"
proof -
  have a: "control_allowed asked_facade = {replicate 16 1}"
    by (simp add: asked_facade_def sample_facade_def facade_new_def facade_init_def Let_def)
  have i: "facade_inbound asked_facade = [RControlRequest \<lparr>req_id = [3], req_at = 0,
      req_path_hash = request_path_hash zero_crypto (str_bytes CONTROL_UNPEER_PATH), req_data = MBin [1]\<rparr> (Some [2])]"
    by (simp add: asked_facade_def Let_def)
  let ?r0 = "asked_facade\<lparr>lr_runtime := (lr_runtime asked_facade)\<lparr>rt_router := (rt_router (lr_runtime asked_facade))\<lparr>inbound := []\<rparr>\<rparr>\<rparr>"
  obtain r1 where r1: "process_received sample_env (hd (facade_inbound asked_facade)) 0 True ?r0 = Some ([], r1)"
    by (simp add: i process_received_def)
  then have "process_inbound_queue sample_env 0 True r1 = Some ([], r1)" using process_received_keeps[OF r1] by (simp add: queue_empty)
  then have "process_inbound_queue sample_env 0 True asked_facade = Some ([], r1)"
    using r1 i by (simp add: process_inbound_queue.simps[of _ _ _ asked_facade] pop_inbound_def)
  then obtain ms r' where p: "process_inbound_queue sample_env 0 True asked_facade = Some (ms, r')" by blast
  have u: "\<forall>x \<in> set (facade_inbound asked_facade). unauthorised (control_allowed asked_facade) x"
    unfolding i a by (simp add: unauthorised_def numeral_eq_Suc)
  have "[1] \<in> dom (map_of (lr_peers asked_facade))" by (simp add: asked_facade_def Let_def)
  with control_needs_permission[OF u p] p show ?thesis by blast
qed

subsection \<open>The invariant of the node\<close>

lemma queue_invar: "process_inbound_queue E now sig_ok r = Some (ms, r') \<Longrightarrow> node_invar r \<Longrightarrow> node_invar r'"
proof (induction "length (facade_inbound r)" arbitrary: r ms rule: less_induct)
  case less
  from less.prems(1) show ?case
  proof (cases rule: process_inbound_queue_cases)
    case Empty
    with less.prems(2) show ?thesis by simp
  next
    case (Head x xs ms1 r1 ms2)
    have "facade_inbound r1 = xs" "node_invar r1" using process_received_keeps[OF Head(2)] less.prems(2) by (simp_all add: node_invar_def)
    with less.hyps[of r1 ms2] Head(1,3) show ?thesis by simp
  qed
qed

lemma facade_enqueue_fields:
  "lr_peers (snd (facade_enqueue ops m mode r)) = lr_peers r" "lr_prop_store (snd (facade_enqueue ops m mode r)) = lr_prop_store r"
  "local_deliveries (snd (facade_enqueue ops m mode r)) = local_deliveries r"
  "locally_processed (snd (facade_enqueue ops m mode r)) = locally_processed r"
  "peer_sync_pendings (snd (facade_enqueue ops m mode r)) = peer_sync_pendings r"
  by (simp_all add: facade_enqueue_def Let_def split: prod.splits)

lemma receive_processed_invar: "node_invar r \<Longrightarrow> node_invar (receive_processed ops n r)"
  by (induction ops n r rule: receive_processed.induct)
    (auto simp: Let_def node_invar_def facade_enqueue_fields split: option.splits list.splits)

lemma tick_stamps_invar: "node_invar r \<Longrightarrow> node_invar (tick_stamps ops lock r)"
  using receive_processed_invar[of "if processed_deferred r = None then r\<lparr>processed_deferred := Some []\<rparr> else r" ops 100]
  by (auto simp: tick_stamps_def start_stamp_worker_def Let_def node_invar_def)

lemma clean_links_invar: "node_invar r \<Longrightarrow> node_invar (clean_links now r)"
  by (auto simp: clean_links_def acknowledge_sync_completion_def node_invar_def Let_def split: option.splits)

lemma poll_sync_invar: "node_invar r \<Longrightarrow> node_invar (poll_peer_sync_timeouts now r)"
  by (auto simp: poll_peer_sync_timeouts_def node_invar_def table_wf_def hm_wf_def comp_def case_prod_unfold)

lemma clean_caches_invar: "node_invar r \<Longrightarrow> node_invar (snd (clean_transient_id_caches now r))"
  by (auto simp: clean_transient_id_caches_def clean_transient_cache_def node_invar_def hm_wf_retain Let_def)

lemma schedule_invar: "node_invar r \<Longrightarrow> node_invar (schedule_peer_sync E now r)"
proof -
  have "quiet r (snd (peer_sync_offer pid k now r))" for pid k
    by (simp add: peer_sync_offer_def Let_def with_peer_quiet)
  then have "node_invar r \<Longrightarrow> node_invar (snd (peer_sync_offer pid k now r))" for pid k by (simp add: quiet_def)
  moreover have "node_invar (r1\<lparr>peer_sync_queue := q\<rparr>) = node_invar r1" for r1 :: "'a lxmf_router" and q by (simp add: node_invar_def)
  ultimately show "node_invar r \<Longrightarrow> ?thesis" by (auto simp: schedule_peer_sync_def Let_def case_prod_beta split: option.split)
qed

lemma evict_invar: "ps_invar s \<Longrightarrow> ps_invar (snd (evict n ws c s))"
  by (induction n ws c s rule: evict.induct) (auto simp: Let_def case_prod_beta remove_invar split: option.split)

lemma clean_store_invar: "node_invar r \<Longrightarrow> node_invar (snd (clean_propagation_store now r))"
  by (auto simp: clean_propagation_store_def Let_def case_prod_beta node_invar_def evict_invar fold_ps_remove_invar split: option.split)

lemma unpeer_invar: "node_invar r \<Longrightarrow> node_invar (snd (unpeer i r))"
  by (auto simp: unpeer_def node_invar_def table_wf_def hm_wf_remove set_hm_remove)

lemma fold_invar: "(\<And>x r. node_invar r \<Longrightarrow> node_invar (f x r)) \<Longrightarrow> node_invar r \<Longrightarrow> node_invar (fold f xs r)"
  by (induction xs arbitrary: r) simp_all

lemma rotate_invar: "node_invar r \<Longrightarrow> node_invar (rotate_peers now r)"
  by (auto simp: rotate_peers_def Let_def unpeer_invar intro!: fold_invar split: option.split prod.split)

lemma flush_peer_invar: "node_invar r \<Longrightarrow> node_invar (flush_peer i r)"
  using flush_peer_effect(1,2)[of r i]
  by (auto simp: node_invar_def flush_peer_def Let_def case_prod_beta split: option.splits if_splits)

lemma flush_queues_invar: "node_invar r \<Longrightarrow> node_invar (flush_queues r)"
proof -
  let ?f = "\<lambda>es pid r. r\<lparr>lr_peers := hm_modify pid (queue_for_peer pid es) (lr_peers r)\<rparr>"
  have "node_invar r \<Longrightarrow> node_invar (?f es pid r)" for es pid and r :: "'a lxmf_router"
    by (auto simp: node_invar_def queue_for_peer_queues intro!: table_wf_modify)
  then have "node_invar r \<Longrightarrow> node_invar (flush_peer_distribution_queue r)"
    by (auto simp: flush_peer_distribution_queue_def Let_def intro!: fold_invar) (simp add: node_invar_def)
  then show "node_invar r \<Longrightarrow> ?thesis" by (auto simp: flush_queues_def Let_def intro!: fold_invar flush_peer_invar)
qed

lemma request_timeouts_invar: "node_invar r \<Longrightarrow> node_invar (handle_request_timeouts ids now r)"
proof -
  have "quiet r (with_peer pid now (on_timeout now) r)" for pid and r :: "'a lxmf_router" by (rule with_peer_quiet) simp
  then have "node_invar r \<Longrightarrow> node_invar (with_peer pid now (on_timeout now) r)" for pid and r :: "'a lxmf_router" by (simp add: quiet_def)
  moreover have "node_invar r \<Longrightarrow> node_invar (r\<lparr>peer_sync_pendings := hm_remove i (peer_sync_pendings r)\<rparr>)" for i and r :: "'a lxmf_router"
    by (simp add: node_invar_def hm_wf_remove)
  ultimately show "node_invar r \<Longrightarrow> ?thesis" by (auto simp: handle_request_timeouts_def intro!: fold_invar split: option.split)
qed

lemma facade_tick_invar: "node_invar r \<Longrightarrow> node_invar (snd (facade_tick E ops lock now r))"
proof -
  assume inv: "node_invar r"
  have rt: "node_invar (r\<lparr>lr_runtime := rt\<rparr>)" for rt using inv by (simp add: node_invar_def)
  have q: "node_invar (r'\<lparr>peer_sync_queue := x\<rparr>) = node_invar r'" for r' :: "'a lxmf_router" and x by (simp add: node_invar_def)
  show ?thesis unfolding facade_tick_def Let_def case_prod_beta snd_conv q
    by (intro request_timeouts_invar tick_stamps_invar flush_queues_invar rotate_invar clean_store_invar schedule_invar
        poll_sync_invar clean_caches_invar clean_links_invar rt
        iffD2[OF if_split[of node_invar]] conjI impI)
qed

text \<open>What can happen to a node, in any order.\<close>

inductive node_step :: "env \<Rightarrow> 's message_store_ops \<Rightarrow> 's lxmf_router \<Rightarrow> 's lxmf_router \<Rightarrow> bool" for E ops where
  Inbound: "process_inbound_queue E now sig_ok r = Some (ms, r') \<Longrightarrow> node_step E ops r r'"
| Tick: "node_step E ops r (snd (facade_tick E ops lock_free now r))"
| Worker: "node_step E ops r (stamp_worker lock_free r)"
| Outbound: "node_step E ops r (snd (handle_outbound ops lock_free fresh m mode now r))"
| Deferred: "node_step E ops r (snd (process_deferred_stamps ops n r))"
| Receive: "node_step E ops r (r\<lparr>lr_runtime := (lr_runtime r)\<lparr>rt_router := (rt_router (lr_runtime r))\<lparr>inbound :=
    facade_inbound r @ [x]\<rparr>\<rparr>\<rparr>)"
| Dispatch: "dispatch_peer_sync_requests E reqs now r = Some (out, r') \<Longrightarrow> node_step E ops r r'"
| Response: "handle_peer_sync_response E rsp now r = Some (res, r') \<Longrightarrow> node_step E ops r r'"
| Sync: "node_step E ops r (sync_peers E random now r)"
| Distribute: "node_step E ops r (enqueue_peer_distribution tid from r)"
| Unpeer: "node_step E ops r (snd (unpeer pid r))"
| Ask: "node_step E ops r (snd (request_peer_sync pid now r))"
| Resource: "node_step E ops r (snd (handle_propagation_resource_payload E src pkey limit payload now r))"
| Cleanup: "node_step E ops r (snd (cleanup_propagation now age r))"

lemma prepare_outbound_fields:
  "lr_peers (snd (prepare_outbound fresh m now r)) = lr_peers r" "lr_prop_store (snd (prepare_outbound fresh m now r)) = lr_prop_store r"
  "local_deliveries (snd (prepare_outbound fresh m now r)) = local_deliveries r"
  "locally_processed (snd (prepare_outbound fresh m now r)) = locally_processed r"
  "peer_sync_pendings (snd (prepare_outbound fresh m now r)) = peer_sync_pendings r"
  by (auto simp: prepare_outbound_def Let_def split: prod.splits option.splits)

lemma outbound_invar: "node_invar r \<Longrightarrow> node_invar (snd (handle_outbound ops lock fresh m mode now r))"
  by (auto simp: handle_outbound_def Let_def case_prod_beta node_invar_def facade_enqueue_fields prepare_outbound_fields)

lemma deferred_invar: "node_invar r \<Longrightarrow> node_invar (snd (process_deferred_stamps ops n r))"
  by (induction ops n r rule: process_deferred_stamps.induct)
    (auto simp: Let_def case_prod_beta node_invar_def facade_enqueue_fields split: list.split)

lemma worker_invar: "node_invar r \<Longrightarrow> node_invar (stamp_worker lock r)"
  by (auto simp: stamp_worker_def Let_def node_invar_def split: list.split)

lemma dispatch_quiet: "dispatch_peer_sync_requests E reqs now r = Some (out, r') \<Longrightarrow> quiet r r'"
proof (induction E reqs now r arbitrary: out rule: dispatch_peer_sync_requests.induct)
  case (2 E pid req reqs now r)
  obtain res r1 where b: "build_peer_sync_request E pid req now r = Some (res, r1)" using "2.prems" by (auto split: option.splits)
  obtain out2 where d: "dispatch_peer_sync_requests E reqs now r1 = Some (out2, r')" using "2.prems" b by (auto split: option.splits)
  from quiet_trans[OF build_request_quiet[OF b] "2.IH"[OF b refl d]] show ?case .
qed simp

lemma quiet_invar: "quiet r r' \<Longrightarrow> node_invar r \<Longrightarrow> node_invar r'"
  by (simp add: quiet_def)

lemma peer_response_quiet:
  assumes "handle_peer_sync_response E rsp now r = Some (res, r')"
  shows "quiet r r'"
proof (cases "value_to_bytes (rsp_data rsp)")
  case None
  with assms show ?thesis by (simp add: handle_peer_sync_response_def)
next
  case (Some payload)
  let ?r1 = "case map_of (peer_sync_pendings r) (rsp_id rsp) of
    Some pend \<Rightarrow> with_peer (psp_peer_id pend) now (mark_heard now) r | None \<Rightarrow> r"
  have "quiet r (with_peer pid now (mark_heard now) r)" for pid by (rule with_peer_quiet) simp
  then have 1: "quiet r ?r1" by (simp split: option.split)
  obtain x where "handle_peer_sync_response_bytes_with_peer E (rsp_id rsp) payload now ?r1 = Some (x, r')"
    using assms Some by (auto simp: handle_peer_sync_response_def handle_peer_sync_response_bytes_def Let_def)
  from quiet_trans[OF 1 response_quiet[OF this]] show ?thesis .
qed

lemma sync_peers_invar: "node_invar r \<Longrightarrow> node_invar (sync_peers E random now r)"
proof -
  have "quiet r (snd (peer_sync_offer pid k now r))" for pid k by (simp add: peer_sync_offer_def Let_def with_peer_quiet)
  then have "node_invar r \<Longrightarrow> node_invar (snd (peer_sync_offer pid k now r))" for pid k by (simp add: quiet_def)
  moreover have "node_invar (r1\<lparr>peer_sync_queue := q\<rparr>) = node_invar r1" for r1 :: "'a lxmf_router" and q by (simp add: node_invar_def)
  ultimately show "node_invar r \<Longrightarrow> ?thesis"
    unfolding sync_peers_def Let_def case_prod_beta by (intro fold_invar unpeer_invar) simp_all
qed

lemma node_step_invar: "node_step E ops r r' \<Longrightarrow> node_invar r \<Longrightarrow> node_invar r'"
proof (induction rule: node_step.induct)
  case (Inbound now sig_ok r ms r')
  then show ?case using queue_invar by blast
next
  case (Dispatch reqs now r out r')
  then show ?case using dispatch_quiet quiet_invar by blast
next
  case (Response rsp now r res r')
  then show ?case using peer_response_quiet quiet_invar by blast
next
  case (Ask r pid now)
  then show ?case by (auto simp: request_peer_sync_def node_invar_def intro!: table_wf_modify)
next
  case (Resource r src pkey limit payload now)
  then show ?case using resource_quiet quiet_invar by blast
next
  case (Cleanup r now age)
  then show ?case using ps_step_invar[OF ps_step.RemoveOlder]
    by (auto simp: cleanup_propagation_def node_invar_def Let_def case_prod_beta)
next
  case (Receive r x)
  then show ?case by (simp add: node_invar_def)
next
  case (Distribute r tid "from")
  then show ?case by (simp add: node_invar_def enqueue_peer_distribution_def)
qed (simp_all add: facade_tick_invar worker_invar outbound_invar deferred_invar sync_peers_invar unpeer_invar)

text \<open>In every state a node can reach, peers are stored under their own ids without duplicates, the
  propagation store has stamp values and file names exactly for its messages, and the caches and the
  table of pending synchronisations have unique keys.\<close>

theorem node_reachable_invar:
  assumes "(node_step E ops)\<^sup>*\<^sup>* (facade_new ident started q) r"
  shows "table_wf (lr_peers r) \<and> ps_invar (lr_prop_store r) \<and> hm_wf (local_deliveries r) \<and> hm_wf (locally_processed r)
    \<and> hm_wf (peer_sync_pendings r)"
proof -
  have "ps_invar ps_new" by (rule ps_reachable_invar) simp
  then have "node_invar (facade_new ident started q)"
    by (simp add: node_invar_def facade_new_def facade_init_def table_wf_def hm_wf_Nil)
  with assms have "node_invar r" by (induction rule: rtranclp_induct) (auto dest: node_step_invar)
  then show ?thesis by (simp add: node_invar_def)
qed

theorem node_reachable_invar_witness:
  "table_wf (lr_peers (snd (facade_tick sample_env mem_ops True 1000 (enqueue_peer_distribution [7] None sample_facade))))"
proof -
  let ?r1 = "enqueue_peer_distribution [7] None sample_facade"
  have "node_step sample_env mem_ops sample_facade ?r1" by (rule node_step.Distribute)
  moreover have "node_step sample_env mem_ops ?r1 (snd (facade_tick sample_env mem_ops True 1000 ?r1))" by (rule node_step.Tick)
  ultimately have "(node_step sample_env mem_ops)\<^sup>*\<^sup>* sample_facade (snd (facade_tick sample_env mem_ops True 1000 ?r1))"
    by (meson converse_rtranclp_into_rtranclp r_into_rtranclp)
  then show ?thesis unfolding sample_facade_def using node_reachable_invar by blast
qed

subsection \<open>What a tick hands over\<close>

lemma tick_no_sync_requests: "peer_sync_requests (fst (tick E ops now s)) = []"
  by (simp add: tick_def tick_outbound_def tick_jobs_def tick_timeouts_def tick_default_def Let_def case_prod_beta)

lemma keep_sync_queue:
  "peer_sync_queue (clean_links now r) = peer_sync_queue r" "lr_prop_store (clean_links now r) = lr_prop_store r"
  "peer_sync_queue (snd (clean_transient_id_caches now r)) = peer_sync_queue r"
  "lr_prop_store (snd (clean_transient_id_caches now r)) = lr_prop_store r"
  "peer_sync_queue (poll_peer_sync_timeouts now r) = peer_sync_queue r"
  "lr_prop_store (poll_peer_sync_timeouts now r) = lr_prop_store r"
  "peer_sync_queue (snd (clean_propagation_store now r)) = peer_sync_queue r"
  "peer_sync_queue (tick_stamps ops lock r) = peer_sync_queue r"
proof -
  have e: "peer_sync_queue (snd (facade_enqueue ops m mode q)) = peer_sync_queue q"
    for ops and m :: lxmessage and mode and q :: "'a lxmf_router"
    by (simp add: facade_enqueue_def Let_def case_prod_beta)
  have "peer_sync_queue (receive_processed ops n q) = peer_sync_queue q" for n and q :: "'a lxmf_router"
    by (induction ops n q rule: receive_processed.induct) (auto simp: Let_def e split: option.splits list.splits)
  then show "peer_sync_queue (tick_stamps ops lock r) = peer_sync_queue r"
    by (simp add: tick_stamps_def start_stamp_worker_def Let_def)
qed (simp_all add: clean_links_def acknowledge_sync_completion_def clean_transient_id_caches_def poll_peer_sync_timeouts_def
    clean_propagation_store_def Let_def case_prod_beta split: option.split)

lemma fold_sync_queue: "(\<And>x r. peer_sync_queue (f x r) = peer_sync_queue r) \<Longrightarrow> peer_sync_queue (fold f xs r) = peer_sync_queue r"
  by (induction xs arbitrary: r) simp_all

lemma keep_sync_queue_peers:
  "peer_sync_queue (rotate_peers now r) = peer_sync_queue r" "peer_sync_queue (flush_queues r) = peer_sync_queue r"
  "peer_sync_queue (handle_request_timeouts ids now r) = peer_sync_queue r"
  by (auto simp: rotate_peers_def flush_queues_def flush_peer_distribution_queue_def flush_peer_def handle_request_timeouts_def
      unpeer_def with_peer_def Let_def case_prod_beta fold_sync_queue split: option.split)

text \<open>A tick hands every queued synchronisation request over, in order and once; it adds at most one, an
  offer of everything in the propagation store to the peer that is due, and only when the node job runs.\<close>

theorem tick_hands_over:
  assumes "facade_tick E ops lock now r = (t, r')"
  shows "peer_sync_queue r' = [] \<and> (\<exists>new. peer_sync_requests t = peer_sync_queue r @ new \<and> length new \<le> 1
    \<and> (\<forall>(pid, req) \<in> set new. pn_ran t \<and> (\<exists>k. req = Offer k (ps_list_ids (lr_prop_store r)))))"
proof -
  obtain t0 rt where tk: "tick E ops now (lr_runtime r) = (t0, rt)" by fastforce
  define r2 where "r2 = (if links_ran t0 then clean_links now (r\<lparr>lr_runtime := rt\<rparr>) else r\<lparr>lr_runtime := rt\<rparr>)"
  define r3 where "r3 = (if pn_ran t0
    then schedule_peer_sync E now (poll_peer_sync_timeouts now (snd (clean_transient_id_caches now r2))) else r2)"
  define r4 where "r4 = (if store_ran t0 then snd (clean_propagation_store now r3) else r3)"
  define r5 where "r5 = (if rotate_ran t0 then rotate_peers now r4 else r4)"
  define r6 where "r6 = (if peeringest_ran t0 then flush_queues r5 else r5)"
  define r7 where "r7 = (if stamps_ran t0 then tick_stamps ops lock r6 else r6)"
  define r8 where "r8 = (if request_timeouts t0 \<noteq> [] then handle_request_timeouts (request_timeouts t0) now r7 else r7)"
  have q2: "peer_sync_queue r2 = peer_sync_queue r" "lr_prop_store r2 = lr_prop_store r"
    by (simp_all add: r2_def keep_sync_queue)
  have "facade_tick E ops lock now r = (t0\<lparr>peer_sync_requests := peer_sync_requests t0 @ peer_sync_queue r8\<rparr>, r8\<lparr>peer_sync_queue := []\<rparr>)"
    unfolding facade_tick_def tk Let_def prod.case r8_def r7_def r6_def r5_def r4_def r3_def r2_def by (rule refl)
  moreover have "peer_sync_queue r8 = peer_sync_queue r3"
    by (simp add: r8_def r7_def r6_def r5_def r4_def keep_sync_queue keep_sync_queue_peers)
  moreover have "peer_sync_requests t0 = []" using tick_no_sync_requests[of E ops now "lr_runtime r"] tk by simp
  ultimately have t: "peer_sync_requests t = peer_sync_queue r3" "pn_ran t = pn_ran t0" "peer_sync_queue r' = []"
    using assms by auto
  have "\<exists>new. peer_sync_queue r3 = peer_sync_queue r @ new \<and> length new \<le> 1
    \<and> (\<forall>(pid, req) \<in> set new. pn_ran t0 \<and> (\<exists>k. req = Offer k (ps_list_ids (lr_prop_store r))))"
    using q2 by (auto simp: r3_def schedule_peer_sync_def peer_sync_offer_def with_peer_def keep_sync_queue Let_def split: option.split)
  with t show ?thesis by simp
qed

theorem tick_hands_over_witness:
  "peer_sync_queue (snd (facade_tick sample_env mem_ops True 1000 (sample_facade\<lparr>peer_sync_queue := [([1], MessageGetList)]\<rparr>))) = []"
  by (rule conjunct1[OF tick_hands_over[OF prod.collapse[symmetric]]])

end
