(* ===== verification/Fernet.thy ===== *)
theory Fernet
  imports Packets
begin

section \<open>Encrypted tokens (reticulum-patched/src/crypt/fernet.rs)\<close>

text \<open>
  A token is an initialisation vector, the AES-256-CBC ciphertext with PKCS7 padding and an HMAC-SHA256
  tag over both. The primitives come from third-party crates and are the fields of the record \<open>prims\<close>;
  \<open>prims_ok\<close> states what their documentation promises. Both key sizes of the default build are 32 bytes.
  Results are \<open>(ret_error + 'a) option\<close> where the code can panic: \<open>None\<close> is the panic.
\<close>

subsection \<open>Primitives\<close>

record prims =
  pr_sha256 :: "bytes \<Rightarrow> bytes"
  pr_hmac :: "bytes \<Rightarrow> bytes \<Rightarrow> bytes"
  pr_cbc_encrypt :: "bytes \<Rightarrow> bytes \<Rightarrow> bytes \<Rightarrow> bytes"
  pr_cbc_decrypt :: "bytes \<Rightarrow> bytes \<Rightarrow> bytes \<Rightarrow> bytes option"
  pr_public :: "bytes \<Rightarrow> bytes"
  pr_dh :: "bytes \<Rightarrow> bytes \<Rightarrow> bytes"
  pr_hkdf :: "bytes option \<Rightarrow> bytes \<Rightarrow> bytes"
  pr_verifying :: "bytes \<Rightarrow> bytes"
  pr_valid_key :: "bytes \<Rightarrow> bool"
  pr_default_key :: bytes
  pr_sign :: "bytes \<Rightarrow> bytes \<Rightarrow> bytes"
  pr_verify :: "bytes \<Rightarrow> bytes \<Rightarrow> bytes \<Rightarrow> bool"

text \<open>Lengths of hashes, keys, tags and signatures; decryption inverts encryption with the same key and
  vector; both sides of a Diffie-Hellman exchange get the same secret; a signature verifies.\<close>

definition prims_ok :: "prims \<Rightarrow> bool" where
  "prims_ok P \<longleftrightarrow>
     (\<forall>x. length (pr_sha256 P x) = 32) \<and> (\<forall>k x. length (pr_hmac P k x) = 32)
   \<and> (\<forall>k v x. length (pr_cbc_encrypt P k v x) = 16 * (length x div 16 + 1))
   \<and> (\<forall>k v x. pr_cbc_decrypt P k v (pr_cbc_encrypt P k v x) = Some x)
   \<and> (\<forall>s. length (pr_public P s) = 32) \<and> (\<forall>a b. pr_dh P a (pr_public P b) = pr_dh P b (pr_public P a))
   \<and> (\<forall>s x. length (pr_hkdf P s x) = 64)
   \<and> (\<forall>k. length (pr_verifying P k) = 32 \<and> pr_valid_key P (pr_verifying P k))
   \<and> (\<forall>k m. length (pr_sign P k m) = 64 \<and> pr_verify P (pr_verifying P k) m (pr_sign P k m))"

subsection \<open>Tokens\<close>

definition HMAC_OUT_SIZE :: nat where "HMAC_OUT_SIZE = 32"
definition AES_KEY_SIZE :: nat where "AES_KEY_SIZE = 32"
definition IV_KEY_SIZE :: nat where "IV_KEY_SIZE = 16"
definition FERNET_OVERHEAD_SIZE :: nat where "FERNET_OVERHEAD_SIZE = IV_KEY_SIZE + HMAC_OUT_SIZE"

record fernet =
  f_sign_key :: bytes
  f_enc_key :: bytes

definition fernet_new :: "bytes \<Rightarrow> bytes \<Rightarrow> fernet" where
  "fernet_new sk ek = \<lparr>f_sign_key = sk, f_enc_key = ek\<rparr>"

text \<open>\<open>copy_from_slice\<close> panics when the slice is longer than the key.\<close>

definition fernet_new_from_slices :: "bytes \<Rightarrow> bytes \<Rightarrow> fernet option" where
  "fernet_new_from_slices sk ek =
     (if length sk \<le> AES_KEY_SIZE \<and> length ek \<le> AES_KEY_SIZE
      then Some \<lparr>f_sign_key = sk @ replicate (AES_KEY_SIZE - length sk) 0, f_enc_key = ek @ replicate (AES_KEY_SIZE - length ek) 0\<rparr>
      else None)"

text \<open>\<open>new_rand\<close> with the two keys that the generator draws.\<close>

definition fernet_new_rand :: "bytes \<Rightarrow> bytes \<Rightarrow> fernet" where
  "fernet_new_rand sk ek = fernet_new sk ek"

text \<open>Length after PKCS7 padding to blocks of 16 bytes.\<close>

definition padded_len :: "nat \<Rightarrow> nat" where
  "padded_len n = 16 * (n div 16 + 1)"

text \<open>\<open>encrypt\<close> into a buffer of \<open>n\<close> bytes with the vector that the generator draws: padding that does not
  fit is unwrapped, and the tag is written to a slice that may lie outside of the buffer.\<close>

definition fernet_encrypt :: "prims \<Rightarrow> bytes \<Rightarrow> fernet \<Rightarrow> bytes \<Rightarrow> nat \<Rightarrow> (ret_error + bytes) option" where
  "fernet_encrypt P iv f plain n =
     (if n \<le> FERNET_OVERHEAD_SIZE then Some (Inl InvalidArgument)
      else if n - length iv < padded_len (length plain) then None
      else (let body = iv @ pr_cbc_encrypt P (f_enc_key f) iv plain in
        if n < length body + HMAC_OUT_SIZE then None
        else Some (Inr (body @ pr_hmac P (f_sign_key f) body))))"

datatype ordering = OLess | OEqual | OGreater

definition byte_cmp :: "byte \<Rightarrow> byte \<Rightarrow> ordering" where
  "byte_cmp x y = (if x < y then OLess else if x = y then OEqual else OGreater)"

definition nat_cmp :: "nat \<Rightarrow> nat \<Rightarrow> ordering" where
  "nat_cmp x y = (if x < y then OLess else if x = y then OEqual else OGreater)"

definition tag_valid :: "bytes \<Rightarrow> bytes \<Rightarrow> bool" where
  "tag_valid expected actual \<longleftrightarrow>
     (case find (\<lambda>q. q \<noteq> OEqual) (map (\<lambda>(x, y). byte_cmp x y) (zip expected actual)) of
        Some q \<Rightarrow> q | None \<Rightarrow> nat_cmp (length actual) (length expected)) = OEqual"

definition fernet_verify :: "prims \<Rightarrow> fernet \<Rightarrow> bytes \<Rightarrow> ret_error + bytes" where
  "fernet_verify P f token =
     (if length token \<le> FERNET_OVERHEAD_SIZE then Inl InvalidArgument
      else (let cut = length token - HMAC_OUT_SIZE in
        if tag_valid (drop cut token) (pr_hmac P (f_sign_key f) (take cut token)) then Inr token else Inl IncorrectSignature))"

text \<open>\<open>decrypt_padded_b2b_mut\<close> refuses an output buffer shorter than the ciphertext.\<close>

definition fernet_decrypt :: "prims \<Rightarrow> fernet \<Rightarrow> bytes \<Rightarrow> nat \<Rightarrow> ret_error + bytes" where
  "fernet_decrypt P f token n =
     (if length token \<le> FERNET_OVERHEAD_SIZE then Inl InvalidArgument
      else (let tag_start = length token - HMAC_OUT_SIZE; iv = take IV_KEY_SIZE token;
                ciphertext = drop IV_KEY_SIZE (take tag_start token) in
        if n < length ciphertext then Inl CryptoError
        else (case pr_cbc_decrypt P (f_enc_key f) iv ciphertext of Some msg \<Rightarrow> Inr msg | None \<Rightarrow> Inl CryptoError)))"

subsection \<open>Facts\<close>

lemmas fernet_sizes = HMAC_OUT_SIZE_def AES_KEY_SIZE_def IV_KEY_SIZE_def FERNET_OVERHEAD_SIZE_def

lemma byte_cmp_equal [simp]: "byte_cmp x y = OEqual \<longleftrightarrow> x = y"
  by (simp add: byte_cmp_def)

text \<open>The comparison of the tags is equality.\<close>

lemma tag_valid_eq: "length expected = length actual \<Longrightarrow> tag_valid expected actual \<longleftrightarrow> expected = actual"
proof (induction expected actual rule: list_induct2)
  case (Cons x xs y ys)
  show ?case using Cons by (cases "x = y") (auto simp: tag_valid_def nat_cmp_def split: option.splits)
qed (simp add: tag_valid_def nat_cmp_def)

lemma fernet_encrypt_cases:
  assumes "prims_ok P" and "length iv = IV_KEY_SIZE"
  shows "fernet_encrypt P iv f plain n =
    (if n \<le> 48 then Some (Inl InvalidArgument)
     else if n < 48 + padded_len (length plain) then None
     else (let body = iv @ pr_cbc_encrypt P (f_enc_key f) iv plain in Some (Inr (body @ pr_hmac P (f_sign_key f) body))))"
  using assms by (auto simp: fernet_encrypt_def prims_ok_def padded_len_def fernet_sizes Let_def)

lemma token_parts:
  fixes f plain
  assumes "prims_ok P" and "length iv = IV_KEY_SIZE"
  defines "body \<equiv> iv @ pr_cbc_encrypt P (f_enc_key f) iv plain"
  shows "length (body @ pr_hmac P (f_sign_key f) body) = 48 + padded_len (length plain)"
    and "fernet_verify P f (body @ pr_hmac P (f_sign_key f) body) = Inr (body @ pr_hmac P (f_sign_key f) body)"
    and "padded_len (length plain) \<le> m \<Longrightarrow> fernet_decrypt P f (body @ pr_hmac P (f_sign_key f) body) m = Inr plain"
  using assms by (auto simp: fernet_verify_def fernet_decrypt_def tag_valid_eq prims_ok_def padded_len_def fernet_sizes Let_def)

text \<open>A token encrypted into a buffer with room is the only thing encryption returns then, verifies, and
  decrypts to the text; a token of which only the tag differs is refused.\<close>

theorem fernet_roundtrip:
  assumes "prims_ok P" and "length iv = 16" and "48 + padded_len (length plain) \<le> n" and "padded_len (length plain) \<le> m"
  shows "\<exists>token. fernet_encrypt P iv f plain n = Some (Inr token) \<and> length token = 48 + padded_len (length plain)
    \<and> fernet_verify P f token = Inr token \<and> fernet_decrypt P f token m = Inr plain
    \<and> (\<forall>tag. length tag = 32 \<and> tag \<noteq> drop (length token - 32) token
        \<longrightarrow> fernet_verify P f (take (length token - 32) token @ tag) = Inl IncorrectSignature)"
proof -
  let ?body = "iv @ pr_cbc_encrypt P (f_enc_key f) iv plain"
  let ?token = "?body @ pr_hmac P (f_sign_key f) ?body"
  have iv: "length iv = IV_KEY_SIZE" using assms(2) by (simp add: fernet_sizes)
  have len: "length (pr_hmac P (f_sign_key f) ?body) = 32" "length ?body = 16 + padded_len (length plain)"
    using assms(1,2) by (simp_all add: prims_ok_def padded_len_def)
  have "fernet_verify P f (?body @ tag) = Inl IncorrectSignature" if "length tag = 32" "tag \<noteq> pr_hmac P (f_sign_key f) ?body" for tag
    using that len by (simp add: fernet_verify_def fernet_sizes tag_valid_eq Let_def padded_len_def)
  then show ?thesis
    using token_parts[OF assms(1) iv, where f = f and plain = plain] assms(3,4) len fernet_encrypt_cases[OF assms(1) iv, of f plain n]
    by (intro exI[of _ ?token]) (simp add: Let_def padded_len_def)
qed

text \<open>What encryption does is decided by the size of the buffer alone: up to the overhead it is an error;
  a buffer above that with too little room for the padded text panics, and only a larger one gets a token.\<close>

theorem fernet_encrypt_total:
  assumes "prims_ok P" and "length iv = 16"
  shows "(fernet_encrypt P iv f plain n = Some (Inl InvalidArgument) \<longleftrightarrow> n \<le> 48)
    \<and> (fernet_encrypt P iv f plain n = None \<longleftrightarrow> 48 < n \<and> n < 48 + padded_len (length plain))
    \<and> ((\<exists>token. fernet_encrypt P iv f plain n = Some (Inr token)) \<longleftrightarrow> 48 + padded_len (length plain) \<le> n)"
  using fernet_encrypt_cases[OF assms(1), of iv f plain n] assms(2)
  by (auto simp: fernet_sizes Let_def padded_len_def)

subsection \<open>An instance\<close>

text \<open>Primitives for concrete inputs: the padding is PKCS7's, a signature is the key and the hash of the message.\<close>

definition pad_text :: "bytes \<Rightarrow> bytes" where
  "pad_text x = (let k = 16 - length x mod 16 in x @ replicate k (of_nat k))"

definition unpad_text :: "bytes \<Rightarrow> bytes option" where
  "unpad_text x = (if x = [] then None else Some (take (length x - unat (last x)) x))"

definition key32 :: "bytes \<Rightarrow> bytes" where
  "key32 k = take 32 (k @ replicate 32 0)"

definition sample_prims :: prims where
  "sample_prims = \<lparr>pr_sha256 = \<lambda>x. replicate 32 (if x = [] then 0 else last x), pr_hmac = \<lambda>k x. replicate 32 5,
     pr_cbc_encrypt = \<lambda>k v x. pad_text x, pr_cbc_decrypt = \<lambda>k v x. unpad_text x, pr_public = key32,
     pr_dh = \<lambda>a p. map2 (+) (key32 a) (key32 p), pr_hkdf = \<lambda>s x. replicate 64 1, pr_verifying = key32,
     pr_valid_key = \<lambda>k. True, pr_default_key = replicate 32 0, pr_sign = \<lambda>k m. key32 k @ replicate 32 (last (0 # m)),
     pr_verify = \<lambda>v m s. s = key32 v @ replicate 32 (last (0 # m))\<rparr>"

lemma key32 [simp]: "length (key32 k) = 32" "key32 (key32 k) = key32 k"
  by (auto simp: key32_def)

lemma unpad_pad: "unpad_text (pad_text x) = Some x"
proof -
  define k where "k = 16 - length x mod 16"
  have k: "0 < k" "k \<le> 16" by (simp_all add: k_def)
  then have "unat (of_nat k :: byte) = k" by (simp add: unat_of_nat take_bit_eq_mod)
  with k show ?thesis by (simp add: pad_text_def unpad_text_def Let_def k_def[symmetric])
qed

lemma length_pad: "length (pad_text x) = 16 * (length x div 16 + 1)"
proof -
  have "length x mod 16 < 16" "length x = 16 * (length x div 16) + length x mod 16" by simp_all
  then show ?thesis unfolding pad_text_def Let_def by (simp only: length_append length_replicate) arith
qed

lemma sample_prims_ok: "prims_ok sample_prims"
proof -
  have "map2 (+) a b = map2 (+) b a" for a b :: bytes
    by (rule nth_equalityI) (auto simp: add.commute)
  then show ?thesis by (simp add: prims_ok_def sample_prims_def unpad_pad length_pad)
qed

theorem fernet_roundtrip_witness:
  "\<exists>token. fernet_encrypt sample_prims (replicate 16 3) (fernet_new [1] [2]) [72, 105] 64 = Some (Inr token)
    \<and> fernet_decrypt sample_prims (fernet_new [1] [2]) token 16 = Inr [72, 105]"
  using fernet_roundtrip[OF sample_prims_ok, of "replicate 16 3" "[72, 105]" 64 16 "fernet_new [1] [2]"]
  by (auto simp: padded_len_def)

theorem fernet_encrypt_total_witness:
  "fernet_encrypt sample_prims (replicate 16 3) (fernet_new [1] [2]) [72, 105] 50 = None"
  using fernet_encrypt_total[OF sample_prims_ok, of "replicate 16 3" "fernet_new [1] [2]" "[72, 105]" 50]
  by (simp add: padded_len_def)

end
