(* ===== verification/Identities.thy ===== *)
theory Identities
  imports Fernet
begin

section \<open>Identities (reticulum-patched/src/identity.rs)\<close>

text \<open>
  An identity is an X25519 key for key agreement and an Ed25519 key for signatures; its address is a hash
  of both. The keys are their byte representations. Random draws are arguments: secrets, ephemeral keys and
  initialisation vectors. \<open>None\<close> is a panic: of a slice with the wrong length or of the unwrapped parser.
\<close>

definition PUBLIC_KEY_LENGTH :: nat where "PUBLIC_KEY_LENGTH = 32"
definition DERIVED_KEY_LENGTH :: nat where "DERIVED_KEY_LENGTH = 64"

subsection \<open>Public identities\<close>

record identity =
  idt_public_key :: bytes
  idt_verifying_key :: bytes
  idt_address_hash :: bytes

definition address_of_hash :: "bytes \<Rightarrow> bytes" where
  "address_of_hash h = take ADDRESS_HASH_SIZE h"

definition identity_new :: "prims \<Rightarrow> bytes \<Rightarrow> bytes \<Rightarrow> identity" where
  "identity_new P pk vk = \<lparr>idt_public_key = pk, idt_verifying_key = vk, idt_address_hash = address_of_hash (pr_sha256 P (pk @ vk))\<rparr>"

definition identity_new_from_slices :: "prims \<Rightarrow> bytes \<Rightarrow> bytes \<Rightarrow> identity option" where
  "identity_new_from_slices P pk vk =
     (if length pk = PUBLIC_KEY_LENGTH \<and> length vk = PUBLIC_KEY_LENGTH
      then Some (identity_new P pk (if pr_valid_key P vk then vk else pr_default_key P)) else None)"

text \<open>The loop of the two parsers: both keys are read in step; a digit that is none panics.\<close>

definition two_keys :: "string \<Rightarrow> (bytes \<times> bytes) option" where
  "two_keys s =
     (case parse_hex PUBLIC_KEY_LENGTH s of
        None \<Rightarrow> None
      | Some a \<Rightarrow> map_option (Pair a) (parse_hex PUBLIC_KEY_LENGTH (drop (PUBLIC_KEY_LENGTH * 2) s)))"

definition identity_new_from_hex_string :: "prims \<Rightarrow> string \<Rightarrow> (ret_error + identity) option" where
  "identity_new_from_hex_string P s =
     (if length s < PUBLIC_KEY_LENGTH * 2 * 2 then Some (Inl IncorrectHash)
      else (case two_keys s of
              None \<Rightarrow> None
            | Some (pk, vk) \<Rightarrow> map_option Inr (identity_new_from_slices P pk vk)))"

definition identity_to_hex_string :: "identity \<Rightarrow> string" where
  "identity_to_hex_string i = to_hex_string (idt_public_key i) @ to_hex_string (idt_verifying_key i)"

definition identity_verify :: "prims \<Rightarrow> identity \<Rightarrow> bytes \<Rightarrow> bytes \<Rightarrow> ret_error + unit" where
  "identity_verify P i d sig = (if pr_verify P (idt_verifying_key i) d sig then Inr () else Inl IncorrectSignature)"

definition identity_default :: "prims \<Rightarrow> identity" where
  "identity_default P = identity_new P (replicate PUBLIC_KEY_LENGTH 0) (pr_default_key P)"

subsection \<open>Derived keys\<close>

definition derived_key_new :: "prims \<Rightarrow> bytes \<Rightarrow> bytes option \<Rightarrow> bytes" where
  "derived_key_new P shared salt = pr_hkdf P salt shared"

definition derived_key_empty :: bytes where
  "derived_key_empty = replicate DERIVED_KEY_LENGTH 0"

definition derived_key_from_private_key :: "prims \<Rightarrow> bytes \<Rightarrow> bytes \<Rightarrow> bytes option \<Rightarrow> bytes" where
  "derived_key_from_private_key P secret pk salt = derived_key_new P (pr_dh P secret pk) salt"

definition derived_key_from_ephemeral_key :: "prims \<Rightarrow> bytes \<Rightarrow> bytes \<Rightarrow> bytes option \<Rightarrow> bytes" where
  "derived_key_from_ephemeral_key P eph pk salt = derived_key_new P (pr_dh P eph pk) salt"

definition identity_derive_key :: "prims \<Rightarrow> bytes \<Rightarrow> identity \<Rightarrow> bytes option \<Rightarrow> bytes" where
  "identity_derive_key P eph i salt = derived_key_from_ephemeral_key P eph (idt_public_key i) salt"

subsection \<open>Encryption\<close>

text \<open>For a public identity: an ephemeral public key in front of a token, whose keys are the first 16 bytes
  and the rest of the derived key.\<close>

definition identity_encrypt :: "prims \<Rightarrow> bytes \<Rightarrow> bytes \<Rightarrow> bytes \<Rightarrow> bytes \<Rightarrow> nat \<Rightarrow> (ret_error + bytes) option" where
  "identity_encrypt P eph iv plain dk n =
     (if n < PUBLIC_KEY_LENGTH then Some (Inl InvalidArgument)
      else (case fernet_new_from_slices (take 16 dk) (drop 16 dk) of
              None \<Rightarrow> None
            | Some f \<Rightarrow>
               map_option (map_sum id (\<lambda>token. pr_public P eph @ token)) (fernet_encrypt P iv f plain (n - PUBLIC_KEY_LENGTH))))"

definition empty_encrypt :: "bytes \<Rightarrow> nat \<Rightarrow> ret_error + bytes" where
  "empty_encrypt plain n = (if length plain > n then Inl OutOfMemory else Inr plain)"

definition empty_decrypt :: "bytes \<Rightarrow> nat \<Rightarrow> ret_error + bytes" where
  "empty_decrypt d n = (if length d > n then Inl OutOfMemory else Inr d)"

subsection \<open>Private identities\<close>

record private_identity =
  pid_identity :: identity
  pid_private_key :: bytes
  pid_sign_key :: bytes

definition private_new :: "prims \<Rightarrow> bytes \<Rightarrow> bytes \<Rightarrow> private_identity" where
  "private_new P secret sk =
     \<lparr>pid_identity = identity_new P (pr_public P secret) (pr_verifying P sk), pid_private_key = secret, pid_sign_key = sk\<rparr>"

definition private_new_from_name :: "prims \<Rightarrow> bytes \<Rightarrow> private_identity" where
  "private_new_from_name P name = (let h = pr_sha256 P name in private_new P h (pr_sha256 P h))"

definition private_new_from_hex_string :: "prims \<Rightarrow> string \<Rightarrow> (ret_error + private_identity) option" where
  "private_new_from_hex_string P s =
     (if length s < PUBLIC_KEY_LENGTH * 2 * 2 then Some (Inl IncorrectHash)
      else map_option (\<lambda>(a, b). Inr (private_new P a b)) (two_keys s))"

definition private_to_hex_string :: "private_identity \<Rightarrow> string" where
  "private_to_hex_string i = to_hex_string (pid_private_key i) @ to_hex_string (pid_sign_key i)"

definition private_sign :: "prims \<Rightarrow> private_identity \<Rightarrow> bytes \<Rightarrow> bytes" where
  "private_sign P i d = pr_sign P (pid_sign_key i) d"

definition private_exchange :: "prims \<Rightarrow> private_identity \<Rightarrow> bytes \<Rightarrow> bytes" where
  "private_exchange P i pk = pr_dh P (pid_private_key i) pk"

definition private_derive_key :: "prims \<Rightarrow> private_identity \<Rightarrow> bytes \<Rightarrow> bytes option \<Rightarrow> bytes" where
  "private_derive_key P i pk salt = derived_key_from_private_key P (pid_private_key i) pk salt"

definition private_encrypt :: "prims \<Rightarrow> bytes \<Rightarrow> bytes \<Rightarrow> bytes \<Rightarrow> nat \<Rightarrow> (ret_error + bytes) option" where
  "private_encrypt P iv plain dk n =
     (case fernet_new_from_slices (take (DERIVED_KEY_LENGTH div 2) dk) (drop (DERIVED_KEY_LENGTH div 2) dk) of
        None \<Rightarrow> None | Some f \<Rightarrow> fernet_encrypt P iv f plain n)"

definition private_decrypt :: "prims \<Rightarrow> bytes \<Rightarrow> bytes \<Rightarrow> nat \<Rightarrow> (ret_error + bytes) option" where
  "private_decrypt P d dk n =
     (if length d \<le> PUBLIC_KEY_LENGTH then Some (Inl InvalidArgument)
      else (case fernet_new_from_slices (take (DERIVED_KEY_LENGTH div 2) dk) (drop (DERIVED_KEY_LENGTH div 2) dk) of
              None \<Rightarrow> None
            | Some f \<Rightarrow>
               Some (case fernet_verify P f d of Inl e \<Rightarrow> Inl e | Inr token \<Rightarrow> fernet_decrypt P f token n)))"

subsection \<open>Hexadecimal form\<close>

lemmas identity_sizes = PUBLIC_KEY_LENGTH_def DERIVED_KEY_LENGTH_def ADDRESS_HASH_SIZE_def

lemma two_keys_hex: "length a = 32 \<Longrightarrow> length b = 32 \<Longrightarrow> two_keys (to_hex_string a @ to_hex_string b) = Some (a, b)"
  using parse_hex_to_hex_string[of a "to_hex_string b"] parse_hex_to_hex_string[of b "[]"]
  by (simp add: two_keys_def identity_sizes length_to_hex_string)

text \<open>Identities survive their hexadecimal form: the private one of the two secrets, the public one of the
  two public keys.\<close>

theorem identity_hex_roundtrip:
  assumes "prims_ok P" and "length secret = 32" and "length sk = 32"
  shows "let i = private_new P secret sk in
    private_new_from_hex_string P (private_to_hex_string i) = Some (Inr i)
    \<and> identity_new_from_hex_string P (identity_to_hex_string (pid_identity i)) = Some (Inr (pid_identity i))"
  using assms by (simp add: private_new_def identity_new_def private_new_from_hex_string_def private_to_hex_string_def
      identity_new_from_hex_string_def identity_to_hex_string_def identity_new_from_slices_def two_keys_hex prims_ok_def
      identity_sizes length_to_hex_string Let_def)

theorem identity_hex_roundtrip_witness:
  "identity_new_from_hex_string sample_prims (identity_to_hex_string (pid_identity (private_new sample_prims (replicate 32 1) (replicate 32 2))))
    = Some (Inr (pid_identity (private_new sample_prims (replicate 32 1) (replicate 32 2))))"
  using identity_hex_roundtrip[OF sample_prims_ok, of "replicate 32 1" "replicate 32 2"] by (simp add: Let_def)

subsection \<open>Keys that two identities agree on\<close>

lemma agreed_key:
  assumes "prims_ok P"
  shows "private_derive_key P (private_new P a ka) (pr_public P b) salt = private_derive_key P (private_new P b kb) (pr_public P a) salt"
  using assms by (simp add: private_derive_key_def derived_key_from_private_key_def derived_key_new_def private_new_def prims_ok_def)

lemma derived_key_length: "prims_ok P \<Longrightarrow> length (private_derive_key P i pk salt) = 64"
  by (simp add: private_derive_key_def derived_key_from_private_key_def derived_key_new_def prims_ok_def)

definition session_fernet :: "bytes \<Rightarrow> fernet" where
  "session_fernet dk = \<lparr>f_sign_key = take 32 dk, f_enc_key = drop 32 dk\<rparr>"

lemma session_fernet_new: "length dk = 64 \<Longrightarrow> fernet_new_from_slices (take (DERIVED_KEY_LENGTH div 2) dk) (drop (DERIVED_KEY_LENGTH div 2) dk)
    = Some (session_fernet dk)"
  by (simp add: fernet_new_from_slices_def session_fernet_def fernet_sizes identity_sizes)

text \<open>The token that a session key makes of a text, and that it is read back.\<close>

definition session_token :: "prims \<Rightarrow> bytes \<Rightarrow> bytes \<Rightarrow> bytes \<Rightarrow> bytes" where
  "session_token P iv dk plain =
     (let body = iv @ pr_cbc_encrypt P (drop 32 dk) iv plain in body @ pr_hmac P (take 32 dk) body)"

lemma session_roundtrip:
  assumes "prims_ok P" and "length iv = 16" and "length dk = 64" and "48 + padded_len (length plain) \<le> n"
  shows "private_encrypt P iv plain dk n = Some (Inr (session_token P iv dk plain))"
    and "length (session_token P iv dk plain) = 48 + padded_len (length plain)"
    and "padded_len (length plain) \<le> m \<Longrightarrow> private_decrypt P (session_token P iv dk plain) dk m = Some (Inr plain)"
proof -
  have iv: "length iv = IV_KEY_SIZE" using assms(2) by (simp add: fernet_sizes)
  note t = token_parts[OF assms(1) iv, where f = "session_fernet dk" and plain = plain]
  have tok: "session_token P iv dk plain = (let body = iv @ pr_cbc_encrypt P (f_enc_key (session_fernet dk)) iv plain in
      body @ pr_hmac P (f_sign_key (session_fernet dk)) body)"
    by (simp add: session_token_def session_fernet_def)
  show "private_encrypt P iv plain dk n = Some (Inr (session_token P iv dk plain))"
    using fernet_encrypt_cases[OF assms(1) iv, of "session_fernet dk" plain n] assms(3,4)
    by (simp add: private_encrypt_def session_fernet_new tok padded_len_def)
  show len: "length (session_token P iv dk plain) = 48 + padded_len (length plain)" using t(1) by (simp add: tok Let_def)
  show "padded_len (length plain) \<le> m \<Longrightarrow> private_decrypt P (session_token P iv dk plain) dk m = Some (Inr plain)"
    using t(2,3) len assms(3) by (simp add: private_decrypt_def session_fernet_new tok Let_def PUBLIC_KEY_LENGTH_def)
qed

text \<open>What one identity encrypts under the key derived with the other's public key, the other one decrypts
  under the key that it derives with the first one's public key and the same salt.\<close>

theorem key_agreement_roundtrip:
  assumes "prims_ok P" and "length iv = 16" and "48 + padded_len (length plain) \<le> n" and "padded_len (length plain) \<le> m"
    and "i = private_new P a ka" and "j = private_new P b kb"
  shows "\<exists>token. private_encrypt P iv plain (private_derive_key P i (idt_public_key (pid_identity j)) salt) n = Some (Inr token)
    \<and> private_decrypt P token (private_derive_key P j (idt_public_key (pid_identity i)) salt) m = Some (Inr plain)"
proof -
  have "idt_public_key (pid_identity i) = pr_public P a" "idt_public_key (pid_identity j) = pr_public P b"
    using assms(5,6) by (simp_all add: private_new_def identity_new_def)
  with agreed_key[OF assms(1)] session_roundtrip[OF assms(1,2) derived_key_length[OF assms(1)] assms(3)] assms(4-6)
  show ?thesis by metis
qed

theorem key_agreement_roundtrip_witness:
  "\<exists>token. private_decrypt sample_prims token
      (private_derive_key sample_prims (private_new sample_prims [2] [4]) (pr_public sample_prims [1]) None) 16 = Some (Inr [72, 105])"
  using key_agreement_roundtrip[OF sample_prims_ok, of "replicate 16 3" "[72, 105]" 64 16 "private_new sample_prims [1] [3]" "[1]" "[3]"
      "private_new sample_prims [2] [4]" "[2]" "[4]" None]
  by (auto simp: padded_len_def private_new_def identity_new_def)

text \<open>Encryption for a public identity never returns a token: the derived key has 64 bytes, so the second
  half handed to the token is longer than its key, and the copy panics.\<close>

theorem identity_encrypt_panics:
  assumes "prims_ok P"
  shows "identity_encrypt P eph iv plain (identity_derive_key P eph' i salt) n =
    (if n < PUBLIC_KEY_LENGTH then Some (Inl InvalidArgument) else None)"
  using assms by (simp add: identity_encrypt_def identity_derive_key_def derived_key_from_ephemeral_key_def derived_key_new_def
      fernet_new_from_slices_def prims_ok_def fernet_sizes)

theorem identity_encrypt_panics_witness:
  "identity_encrypt sample_prims [1] (replicate 16 3) [72] (identity_derive_key sample_prims [2] (identity_default sample_prims) None) 2048 = None"
  using identity_encrypt_panics[OF sample_prims_ok, of "[1]" "replicate 16 3" "[72]" "[2]" "identity_default sample_prims" None 2048]
  by (simp add: identity_sizes)

end
