(* ===== verification/Destinations.thy ===== *)
theory Destinations
  imports Identities
begin

section \<open>Destinations and announces (reticulum-patched/src/destination.rs)\<close>

text \<open>
  A destination is a name owned by an identity; its address is a hash of both. An announce is a packet
  that carries the public keys, the hash of the name and application data, signed by the identity. The
  hash drawn for an announce is an argument. \<open>None\<close> is a panic.
\<close>

definition NAME_HASH_LENGTH :: nat where "NAME_HASH_LENGTH = 10"
definition RAND_HASH_LENGTH :: nat where "RAND_HASH_LENGTH = 10"
definition ED25519_SIGNATURE_LENGTH :: nat where "ED25519_SIGNATURE_LENGTH = 64"
definition MIN_ANNOUNCE_DATA_LENGTH :: nat where
  "MIN_ANNOUNCE_DATA_LENGTH = PUBLIC_KEY_LENGTH * 2 + NAME_HASH_LENGTH + RAND_HASH_LENGTH + ED25519_SIGNATURE_LENGTH"

subsection \<open>Names\<close>

record destination_name =
  dn_hash :: bytes

definition name_new :: "prims \<Rightarrow> string \<Rightarrow> string \<Rightarrow> destination_name" where
  "name_new P app_name aspects = \<lparr>dn_hash = pr_sha256 P (str_bytes app_name @ str_bytes ''.'' @ str_bytes aspects)\<rparr>"

definition name_new_from_hash_slice :: "bytes \<Rightarrow> destination_name option" where
  "name_new_from_hash_slice s = (if length s \<le> 32 then Some \<lparr>dn_hash = s @ replicate (32 - length s) 0\<rparr> else None)"

definition as_name_hash_slice :: "destination_name \<Rightarrow> bytes" where
  "as_name_hash_slice n = take NAME_HASH_LENGTH (dn_hash n)"

subsection \<open>Destinations\<close>

record destination_desc =
  dd_identity :: identity
  dd_address_hash :: bytes
  dd_name :: destination_name

record 'i destination =
  d_identity :: 'i
  d_desc :: destination_desc

type_synonym single_input = "private_identity destination"
type_synonym single_output = "identity destination"
type_synonym plain_destination = "unit destination"

datatype destination_handle_status = DestNone | DestLinkProof

definition create_address_hash :: "prims \<Rightarrow> bytes \<Rightarrow> destination_name \<Rightarrow> bytes" where
  "create_address_hash P identity_hash name = address_of_hash (pr_sha256 P (as_name_hash_slice name @ identity_hash))"

definition single_input_new :: "prims \<Rightarrow> private_identity \<Rightarrow> destination_name \<Rightarrow> single_input" where
  "single_input_new P i name =
     \<lparr>d_identity = i, d_desc = \<lparr>dd_identity = pid_identity i,
        dd_address_hash = create_address_hash P (idt_address_hash (pid_identity i)) name, dd_name = name\<rparr>\<rparr>"

definition single_output_new :: "prims \<Rightarrow> identity \<Rightarrow> destination_name \<Rightarrow> single_output" where
  "single_output_new P i name =
     \<lparr>d_identity = i, d_desc = \<lparr>dd_identity = i, dd_address_hash = create_address_hash P (idt_address_hash i) name, dd_name = name\<rparr>\<rparr>"

text \<open>The empty identity of a plain destination has an empty address.\<close>

definition plain_new :: "prims \<Rightarrow> destination_name \<Rightarrow> plain_destination" where
  "plain_new P name =
     \<lparr>d_identity = (), d_desc = \<lparr>dd_identity = identity_default P, dd_address_hash = create_address_hash P [] name, dd_name = name\<rparr>\<rparr>"

definition dest_handle_packet :: "single_input \<Rightarrow> packet \<Rightarrow> destination_handle_status" where
  "dest_handle_packet d p =
     (if dd_address_hash (d_desc d) \<noteq> p_destination p then DestNone
      else if h_packet_type (p_header p) = LinkRequest then DestLinkProof else DestNone)"

subsection \<open>Announces\<close>

definition chain_safe_write :: "bytes list \<Rightarrow> static_buffer \<Rightarrow> static_buffer" where
  "chain_safe_write ds b = fold (\<lambda>d b. snd (sb_safe_write d b)) ds b"

definition write_app_data :: "bytes option \<Rightarrow> static_buffer \<Rightarrow> (ret_error + nat) \<times> static_buffer" where
  "write_app_data app b = (case app of None \<Rightarrow> (Inr 0, b) | Some d \<Rightarrow> sb_write d b)"

definition announce_header :: header where
  "announce_header = \<lparr>h_ifac_flag = Open, h_header_type = Type1, h_propagation_type = Broadcast,
     h_destination_type = Single, h_packet_type = Announce, h_hops = 0\<rparr>"

definition dest_announce :: "prims \<Rightarrow> bytes \<Rightarrow> single_input \<Rightarrow> bytes option \<Rightarrow> ret_error + packet" where
  "dest_announce P rand d app =
     (let rand_hash = take RAND_HASH_LENGTH (pr_sha256 P rand); i = pid_identity (d_identity d);
          pub_key = idt_public_key i; verifying_key = idt_verifying_key i; nh = as_name_hash_slice (dd_name (d_desc d)) in
      case write_app_data app (chain_safe_write [dd_address_hash (d_desc d), pub_key, verifying_key, nh, rand_hash] (sb_new PACKET_MDU)) of
        (Inl e, _) \<Rightarrow> Inl e
      | (Inr _, b) \<Rightarrow>
          (let signature = private_sign P (d_identity d) (sb_as_slice b) in
           case write_app_data app (chain_safe_write [pub_key, verifying_key, nh, rand_hash, signature] (sb_reset b)) of
             (Inl e, _) \<Rightarrow> Inl e
           | (Inr _, b') \<Rightarrow>
               Inr \<lparr>p_header = announce_header, p_ifac = None, p_destination = dd_address_hash (d_desc d), p_transport = None,
                    p_context = CtxNone, p_data = b'\<rparr>))"

definition announce_validate :: "prims \<Rightarrow> packet \<Rightarrow> (ret_error + single_output \<times> bytes) option" where
  "announce_validate P p =
     (let a = sb_as_slice (p_data p) in
      if h_packet_type (p_header p) \<noteq> Announce then Some (Inl PacketError)
      else if length a < MIN_ANNOUNCE_DATA_LENGTH then Some (Inl OutOfMemory)
      else (let public_key = take PUBLIC_KEY_LENGTH a; a1 = drop PUBLIC_KEY_LENGTH a; verifying_key = take PUBLIC_KEY_LENGTH a1 in
        if \<not> pr_valid_key P verifying_key then Some (Inl CryptoError)
        else (let i = identity_new P public_key verifying_key; a2 = drop PUBLIC_KEY_LENGTH a1;
                  name_hash = take NAME_HASH_LENGTH a2; a3 = drop NAME_HASH_LENGTH a2;
                  rand_hash = take RAND_HASH_LENGTH a3; a4 = drop RAND_HASH_LENGTH a3;
                  signature = take ED25519_SIGNATURE_LENGTH a4; app_data = drop ED25519_SIGNATURE_LENGTH a4 in
          case put_all sb_write [p_destination p, public_key, verifying_key, name_hash, rand_hash, app_data] (sb_new PACKET_MDU) of
            (Inl e, _) \<Rightarrow> Some (Inl e)
          | (Inr _, signed_data) \<Rightarrow>
              (case identity_verify P i (sb_as_slice signed_data) signature of
                 Inl e \<Rightarrow> Some (Inl e)
               | Inr _ \<Rightarrow> map_option (\<lambda>name. Inr (single_output_new P i name, app_data)) (name_new_from_hash_slice name_hash)))))"

subsection \<open>Facts\<close>

lemmas announce_sizes = NAME_HASH_LENGTH_def RAND_HASH_LENGTH_def ED25519_SIGNATURE_LENGTH_def MIN_ANNOUNCE_DATA_LENGTH_def
  identity_sizes PACKET_MDU_def

definition concat_opt :: "bytes option \<Rightarrow> bytes" where
  "concat_opt app = (case app of None \<Rightarrow> [] | Some d \<Rightarrow> d)"

lemma name_slice_length: "length (dn_hash n) = 32 \<Longrightarrow> length (as_name_hash_slice n) = 10"
  by (simp add: as_name_hash_slice_def announce_sizes)

lemma sb_room_eq: "sb_wf N b \<Longrightarrow> sb_room b = N - length (sb_as_slice b)"
  by (simp add: sb_wf_def sb_room_def sb_as_slice_def)

lemma chain_safe_write_contents:
  "sb_wf N b \<Longrightarrow> length (sb_as_slice b) + length (concat ds) \<le> N \<Longrightarrow>
    sb_wf N (chain_safe_write ds b) \<and> sb_as_slice (chain_safe_write ds b) = sb_as_slice b @ concat ds"
proof (induction ds arbitrary: b)
  case (Cons d ds)
  obtain b' where "snd (sb_safe_write d b) = b'" "sb_wf N b'" "sb_as_slice b' = sb_as_slice b @ d"
    using sb_safe_write_contents[OF Cons.prems(1), of d] Cons.prems sb_room_eq[OF Cons.prems(1)] by auto
  with Cons.IH[of b'] Cons.prems show ?case by (simp add: chain_safe_write_def)
qed (simp add: chain_safe_write_def)

text \<open>A chain of fields and the application data, in an empty buffer.\<close>

lemma announce_fields:
  assumes "sb_wf N b" and "sb_as_slice b = []" and "length (concat ds) \<le> N"
  shows "length (concat ds) + length (concat_opt app) \<le> N \<Longrightarrow>
      \<exists>n b'. write_app_data app (chain_safe_write ds b) = (Inr n, b') \<and> sb_wf N b' \<and> sb_as_slice b' = concat ds @ concat_opt app"
    and "N < length (concat ds) + length (concat_opt app) \<Longrightarrow> \<exists>b'. write_app_data app (chain_safe_write ds b) = (Inl OutOfMemory, b')"
proof -
  let ?c = "chain_safe_write ds b"
  have c: "sb_wf N ?c" "sb_as_slice ?c = concat ds" using chain_safe_write_contents[OF assms(1), of ds] assms(2,3) by simp_all
  show "\<exists>n b'. write_app_data app ?c = (Inr n, b') \<and> sb_wf N b' \<and> sb_as_slice b' = concat ds @ concat_opt app"
    if "length (concat ds) + length (concat_opt app) \<le> N"
  proof -
    have "length (concat_opt app) \<le> sb_room ?c" using that c sb_room_eq[OF c(1)] by simp
    from sb.put_ok[OF c(1) this] c show ?thesis by (auto simp: write_app_data_def concat_opt_def split: option.splits)
  qed
  show "N < length (concat ds) + length (concat_opt app) \<Longrightarrow> \<exists>b'. write_app_data app ?c = (Inl OutOfMemory, b')"
    using c sb.put_full[OF c(1)] sb_room_eq[OF c(1)] assms(3) by (auto simp: write_app_data_def concat_opt_def split: option.splits)
qed

lemma sb_reset_contents: "sb_wf N b \<Longrightarrow> sb_wf N (sb_reset b) \<and> sb_as_slice (sb_reset b) = []"
  by (simp add: sb_wf_def sb_reset_def sb_as_slice_def)

text \<open>The fields of an announce by their offsets.\<close>

lemma announce_validate_cases:
  assumes "length (p_destination p) = 16" and "sb_wf PACKET_MDU (p_data p)"
  shows "announce_validate P p =
    (let a = sb_as_slice (p_data p); vk = take 32 (drop 32 a); i = identity_new P (take 32 a) vk in
     if h_packet_type (p_header p) \<noteq> Announce then Some (Inl PacketError)
     else if length a < 148 then Some (Inl OutOfMemory)
     else if \<not> pr_valid_key P vk then Some (Inl CryptoError)
     else if pr_verify P vk (p_destination p @ take 84 a @ drop 148 a) (take 64 (drop 84 a))
     then Some (Inr (single_output_new P i \<lparr>dn_hash = take 10 (drop 64 a) @ replicate 22 0\<rparr>, drop 148 a))
     else Some (Inl IncorrectSignature))"
proof -
  let ?a = "sb_as_slice (p_data p)"
  let ?ds = "[p_destination p, take 32 ?a, take 32 (drop 32 ?a), take 10 (drop 64 ?a), take 10 (drop 74 ?a), drop 148 ?a]"
  have parts: "take 32 ?a @ take 32 (drop 32 ?a) @ take 10 (drop 64 ?a) @ take 10 (drop 74 ?a) = take 84 ?a"
    using take_add[of 32 "32 + (10 + 10)" ?a] take_add[of 32 "10 + 10" "drop 32 ?a"] take_add[of 10 10 "drop 64 ?a"] by simp
  then have flat: "concat ?ds = p_destination p @ take 84 ?a @ drop 148 ?a" by simp
  have "length ?a \<le> PACKET_MDU" using assms(2) by (simp add: sb_wf_def sb_as_slice_def)
  then have "length (concat ?ds) \<le> sb_room (sb_new PACKET_MDU)" unfolding flat using assms(1) by (simp add: PACKET_MDU_def)
  then obtain b where "put_all sb_write ?ds (sb_new PACKET_MDU) = (Inr (), b)" "sb_as_slice b = p_destination p @ take 84 ?a @ drop 148 ?a"
    using sb.put_all_ok[OF sb_wf_new, of ?ds PACKET_MDU] flat by auto
  then show ?thesis
    by (simp add: announce_validate_def announce_sizes Let_def identity_verify_def identity_new_def name_new_from_hash_slice_def
        del: put_all.simps)
qed

text \<open>An announce for any address, and what validation makes of it.\<close>

lemma dest_announce_ok:
  assumes "prims_ok P" and "d_identity d = private_new P s k" and "length (dd_address_hash (d_desc d)) = 16"
    and "length (dn_hash (dd_name (d_desc d))) = 32" and "length (concat_opt app) \<le> 1900"
  shows "\<exists>p. dest_announce P rand d app = Inr p \<and> packet_wf p \<and> p_destination p = dd_address_hash (d_desc d)
    \<and> announce_validate P p = Some (Inr (single_output_new P (pid_identity (d_identity d))
          \<lparr>dn_hash = as_name_hash_slice (dd_name (d_desc d)) @ replicate 22 0\<rparr>, concat_opt app))"
proof -
  define pk where "pk = pr_public P s"
  define vk where "vk = pr_verifying P k"
  define nh where "nh = as_name_hash_slice (dd_name (d_desc d))"
  define rh where "rh = take RAND_HASH_LENGTH (pr_sha256 P rand)"
  define addr where "addr = dd_address_hash (d_desc d)"
  note defs = pk_def[symmetric] vk_def[symmetric] nh_def[symmetric] rh_def[symmetric] addr_def[symmetric]
  have lens: "length pk = 32" "length vk = 32" "length nh = 10" "length rh = 10" "length addr = 16"
    using assms by (simp_all add: pk_def vk_def nh_def rh_def addr_def prims_ok_def name_slice_length announce_sizes)
  have keys: "idt_public_key (pid_identity (d_identity d)) = pk" "idt_verifying_key (pid_identity (d_identity d)) = vk"
    "pid_identity (d_identity d) = identity_new P pk vk" "pid_sign_key (d_identity d) = k"
    using assms(2) by (simp_all add: private_new_def identity_new_def pk_def vk_def)
  obtain n b2 where b2: "write_app_data app (chain_safe_write [addr, pk, vk, nh, rh] (sb_new PACKET_MDU)) = (Inr n, b2)"
      "sb_wf PACKET_MDU b2" "sb_as_slice b2 = addr @ pk @ vk @ nh @ rh @ concat_opt app"
    using announce_fields(1)[OF sb_wf_new sb_as_slice_new, of "[addr, pk, vk, nh, rh]" PACKET_MDU app] lens assms(5)
    by (auto simp: PACKET_MDU_def)
  define sig where "sig = private_sign P (d_identity d) (sb_as_slice b2)"
  have sig: "length sig = 64" "pr_verify P vk (sb_as_slice b2) sig"
    using assms(1) by (simp_all add: sig_def private_sign_def keys(4) vk_def prims_ok_def)
  obtain m b4 where b4: "write_app_data app (chain_safe_write [pk, vk, nh, rh, sig] (sb_reset b2)) = (Inr m, b4)"
      "sb_wf PACKET_MDU b4" "sb_as_slice b4 = pk @ vk @ nh @ rh @ sig @ concat_opt app"
    using announce_fields(1)[of PACKET_MDU "sb_reset b2" "[pk, vk, nh, rh, sig]" app] sb_reset_contents[OF b2(2)] lens sig(1) assms(5)
    by (auto simp: PACKET_MDU_def)
  let ?p = "\<lparr>p_header = announce_header, p_ifac = None, p_destination = addr, p_transport = None, p_context = CtxNone, p_data = b4\<rparr>"
  have "dest_announce P rand d app = Inr ?p"
    using b2(1) b4(1) by (simp add: dest_announce_def Let_def keys(1,2) defs sig_def[symmetric])
  moreover have "packet_wf ?p" using lens b4(2) by (simp add: packet_wf_def announce_header_def)
  moreover have "announce_validate P ?p = Some (Inr (single_output_new P (identity_new P pk vk) \<lparr>dn_hash = nh @ replicate 22 0\<rparr>, concat_opt app))"
    using announce_validate_cases[of ?p P] lens sig b2(3) b4(2,3) assms(1)
    by (simp add: announce_header_def prims_ok_def vk_def Let_def)
  ultimately show ?thesis by (simp add: keys(3) defs)
qed

lemma dest_announce_full:
  assumes "prims_ok P" and "d_identity d = private_new P s k" and "length (dd_address_hash (d_desc d)) = 16"
    and "length (dn_hash (dd_name (d_desc d))) = 32" and "1900 < length (concat_opt app)"
  shows "dest_announce P rand d app = Inl OutOfMemory"
proof -
  let ?i = "pid_identity (d_identity d)"
  let ?nh = "as_name_hash_slice (dd_name (d_desc d))"
  let ?rh = "take RAND_HASH_LENGTH (pr_sha256 P rand)"
  let ?ds = "[dd_address_hash (d_desc d), idt_public_key ?i, idt_verifying_key ?i, ?nh, ?rh]"
  have lens: "length (concat ?ds) = 100" and keys: "length (idt_public_key ?i) = 32" "length (idt_verifying_key ?i) = 32"
    and nh: "length ?nh = 10" and rh: "length ?rh = 10" and sig: "\<And>x. length (private_sign P (d_identity d) x) = 64"
    using assms by (simp_all add: private_new_def identity_new_def prims_ok_def name_slice_length announce_sizes private_sign_def)
  show ?thesis
  proof (cases "100 + length (concat_opt app) \<le> PACKET_MDU")
    case True
    obtain n b where b: "write_app_data app (chain_safe_write ?ds (sb_new PACKET_MDU)) = (Inr n, b)" "sb_wf PACKET_MDU b"
      using announce_fields(1)[OF sb_wf_new sb_as_slice_new, of ?ds PACKET_MDU app] lens True by auto
    let ?es = "[idt_public_key ?i, idt_verifying_key ?i, ?nh, ?rh, private_sign P (d_identity d) (sb_as_slice b)]"
    have es: "length (concat ?es) = 148" using keys nh rh sig by simp
    obtain b' where "write_app_data app (chain_safe_write ?es (sb_reset b)) = (Inl OutOfMemory, b')"
      using announce_fields(2)[of PACKET_MDU "sb_reset b" ?es app] sb_reset_contents[OF b(2)] es assms(5) by (auto simp: PACKET_MDU_def)
    then show ?thesis using b(1) by (simp add: dest_announce_def Let_def)
  next
    case False
    then obtain b' where "write_app_data app (chain_safe_write ?ds (sb_new PACKET_MDU)) = (Inl OutOfMemory, b')"
      using announce_fields(2)[OF sb_wf_new sb_as_slice_new, of ?ds PACKET_MDU app] lens by (auto simp: PACKET_MDU_def)
    then show ?thesis by (simp add: dest_announce_def Let_def)
  qed
qed

lemma single_input_lengths:
  "prims_ok P \<Longrightarrow> length (dd_address_hash (d_desc (single_input_new P i name))) = 16"
  by (simp add: single_input_new_def create_address_hash_def address_of_hash_def prims_ok_def ADDRESS_HASH_SIZE_def)

lemma address_of_padded_name:
  "length (dn_hash n) = 32 \<Longrightarrow> create_address_hash P h \<lparr>dn_hash = as_name_hash_slice n @ replicate 22 0\<rparr> = create_address_hash P h n"
  by (simp add: create_address_hash_def as_name_hash_slice_def NAME_HASH_LENGTH_def)

text \<open>C29. A destination's announce is understood: up to 1900 bytes of application data it is a well-formed packet
  for the destination's address, and whoever validates it gets the destination's public identity, its address and
  the data; with more data there is no announce.\<close>

theorem announce_validates:
  assumes "prims_ok P" and "length (dn_hash name) = 32" and "d = single_input_new P (private_new P s k) name"
  shows "if length (concat_opt app) \<le> 1900
    then \<exists>p out. dest_announce P rand d app = Inr p \<and> packet_wf p \<and> p_destination p = dd_address_hash (d_desc d)
      \<and> announce_validate P p = Some (Inr (out, concat_opt app))
      \<and> d_identity out = pid_identity (d_identity d) \<and> dd_address_hash (d_desc out) = dd_address_hash (d_desc d)
    else dest_announce P rand d app = Inl OutOfMemory"
proof -
  have d: "d_identity d = private_new P s k" "length (dd_address_hash (d_desc d)) = 16" "length (dn_hash (dd_name (d_desc d))) = 32"
    using assms single_input_lengths[OF assms(1)] by (simp_all add: single_input_new_def)
  have "dd_address_hash (d_desc (single_output_new P (pid_identity (d_identity d)) \<lparr>dn_hash = as_name_hash_slice name @ replicate 22 0\<rparr>))
      = dd_address_hash (d_desc d)"
    using assms(2,3) by (simp add: single_output_new_def single_input_new_def address_of_padded_name)
  with dest_announce_ok[OF assms(1) d, of app rand] dest_announce_full[OF assms(1) d, of app rand] assms(3) show ?thesis
    by (force simp: single_output_new_def single_input_new_def)
qed

theorem announce_validates_witness:
  "\<exists>p. dest_announce sample_prims [7] (single_input_new sample_prims (private_new sample_prims [1] [2]) (name_new sample_prims ''lxmf'' ''delivery''))
     (Some [1, 2, 3]) = Inr p"
  using announce_validates[OF sample_prims_ok, of "name_new sample_prims ''lxmf'' ''delivery''"
      "single_input_new sample_prims (private_new sample_prims [1] [2]) (name_new sample_prims ''lxmf'' ''delivery'')" "[1]" "[2]" "Some [1, 2, 3]" "[7]"]
  by (auto simp: concat_opt_def name_new_def sample_prims_def)

text \<open>Validation proves who signed, not whose address is announced. What it accepts was verified under the
  announced key; but the address of the packet is never compared with the hash of name and identity, so for every
  address and every identity there is an announce that is accepted and hands that identity to the reader.\<close>

theorem announce_address_unbound:
  assumes "prims_ok P" and "length target = 16" and "i = private_new P s k"
  shows "\<exists>p out. p_destination p = target \<and> announce_validate P p = Some (Inr (out, [])) \<and> d_identity out = pid_identity i
    \<and> dd_address_hash (d_desc out) = dd_address_hash (d_desc (single_input_new P i (name_new P app aspects)))"
proof -
  let ?name = "name_new P app aspects"
  define d where "d = (single_input_new P i ?name)\<lparr>d_desc := (d_desc (single_input_new P i ?name))\<lparr>dd_address_hash := target\<rparr>\<rparr>"
  have name: "length (dn_hash ?name) = 32" using assms(1) by (simp add: name_new_def prims_ok_def)
  have d: "d_identity d = private_new P s k" "length (dd_address_hash (d_desc d)) = 16" "length (dn_hash (dd_name (d_desc d))) = 32"
    using assms name by (simp_all add: d_def single_input_new_def)
  have "d_identity d = i" "dd_address_hash (d_desc d) = target" "dd_name (d_desc d) = ?name" by (simp_all add: d_def single_input_new_def)
  with dest_announce_ok[OF assms(1) d, of None "[]"] name show ?thesis
    by (auto simp: concat_opt_def single_output_new_def single_input_new_def address_of_padded_name)
qed

theorem announce_address_unbound_witness:
  "\<exists>p out. p_destination p = replicate 16 255 \<and> announce_validate sample_prims p = Some (Inr (out, []))"
  using announce_address_unbound[OF sample_prims_ok, of "replicate 16 255" "private_new sample_prims [1] [2]" "[1]" "[2]" "''a''" "''b''"]
  by auto

text \<open>Nothing else is accepted: an accepted announce is long enough, its key is valid, and its signature
  verifies under that key over the address, the keys, the hashes and the application data.\<close>

theorem announce_signed:
  assumes "packet_wf p" and "announce_validate P p = Some (Inr (out, app))"
  shows "\<exists>nh rh sig. sb_as_slice (p_data p) = idt_public_key (d_identity out) @ idt_verifying_key (d_identity out) @ nh @ rh @ sig @ app
    \<and> length nh = 10 \<and> length rh = 10 \<and> length sig = 64
    \<and> pr_verify P (idt_verifying_key (d_identity out))
        (p_destination p @ idt_public_key (d_identity out) @ idt_verifying_key (d_identity out) @ nh @ rh @ app) sig"
proof -
  let ?a = "sb_as_slice (p_data p)"
  have a: "148 \<le> length ?a" and ok: "pr_verify P (take 32 (drop 32 ?a)) (p_destination p @ take 84 ?a @ drop 148 ?a) (take 64 (drop 84 ?a))"
    and out: "d_identity out = identity_new P (take 32 ?a) (take 32 (drop 32 ?a))" "app = drop 148 ?a"
    using assms(2) announce_validate_cases[of p P] assms(1)
    by (auto simp: packet_wf_def Let_def single_output_new_def split: if_splits)
  have t84: "take 84 ?a = take 32 ?a @ take 32 (drop 32 ?a) @ take 10 (drop 64 ?a) @ take 10 (drop 74 ?a)"
    using take_add[of 32 "32 + (10 + 10)" ?a] take_add[of 32 "10 + 10" "drop 32 ?a"] take_add[of 10 10 "drop 64 ?a"] by simp
  have "?a = take 84 ?a @ take 64 (drop 84 ?a) @ drop 148 ?a"
    using append_take_drop_id[of 84 ?a] append_take_drop_id[of 64 "drop 84 ?a"] by simp
  with a ok out t84 show ?thesis
    by (intro exI[of _ "take 10 (drop 64 ?a)"] exI[of _ "take 10 (drop 74 ?a)"] exI[of _ "take 64 (drop 84 ?a)"]) (simp add: identity_new_def)
qed

theorem announce_signed_witness:
  "\<exists>p (out :: single_output). packet_wf p \<and> (\<exists>nh rh sig. sb_as_slice (p_data p)
      = idt_public_key (d_identity out) @ idt_verifying_key (d_identity out) @ nh @ rh @ sig @ [1, 2, 3])"
proof -
  let ?name = "name_new sample_prims ''lxmf'' ''delivery''"
  let ?d = "single_input_new sample_prims (private_new sample_prims [1] [2]) ?name"
  have "length (dn_hash ?name) = 32" by (simp add: name_new_def sample_prims_def)
  then obtain p out where p: "packet_wf p" "announce_validate sample_prims p = Some (Inr (out, [1, 2, 3]))"
    using dest_announce_ok[OF sample_prims_ok, of ?d "[1]" "[2]" "Some [1, 2, 3]" "[7]"] single_input_lengths[OF sample_prims_ok]
    by (auto simp: concat_opt_def single_input_new_def)
  from announce_signed[OF p] obtain nh rh sig where "sb_as_slice (p_data p)
      = idt_public_key (d_identity out) @ idt_verifying_key (d_identity out) @ nh @ rh @ sig @ [1, 2, 3]" by blast
  with p(1) show ?thesis by metis
qed


end
