(* ===== verification/Link_Layer.thy ===== *)
theory Link_Layer
  imports Destinations Floats
begin

section \<open>Encrypted links (reticulum-patched/src/destination/link.rs, link_map.rs)\<close>

text \<open>
  A link is requested by the side that knows the destination and proved by the destination; both derive
  the same key, with the identifier of the link as salt. Instants and durations are numbers of nanoseconds.
  The keys, secrets and vectors that the code draws are arguments, the events it posts to the channel are
  part of the result. \<open>None\<close> is a panic.
\<close>

definition LINK_MTU_SIZE :: nat where "LINK_MTU_SIZE = 3"

datatype link_status = Pending | Handshake | Active | Stale | Closed

subsection \<open>Payloads\<close>

record link_payload =
  lp_buffer :: bytes
  lp_len :: nat

definition payload_new :: link_payload where
  "payload_new = \<lparr>lp_buffer = replicate PACKET_MDU 0, lp_len = 0\<rparr>"

definition payload_new_from_slice :: "bytes \<Rightarrow> link_payload" where
  "payload_new_from_slice d =
     (let n = min (length d) PACKET_MDU in \<lparr>lp_buffer = splice (replicate PACKET_MDU 0) 0 (take n d), lp_len = n\<rparr>)"

definition payload_new_from_vec :: "bytes \<Rightarrow> link_payload" where
  "payload_new_from_vec d =
     \<lparr>lp_buffer = fold (\<lambda>i b. b[i := d ! i]) [0 ..< min PACKET_MDU (length d)] (replicate PACKET_MDU 0), lp_len = length d\<rparr>"

definition payload_as_slice :: "link_payload \<Rightarrow> bytes option" where
  "payload_as_slice p = (if lp_len p \<le> length (lp_buffer p) then Some (take (lp_len p) (lp_buffer p)) else None)"

subsection \<open>The link\<close>

datatype link_signal = Activated | DataSignal link_payload packet_context | ClosedSignal
datatype link_handle_result = HandledNone | HandledActivated | HandledKeepAlive

record link_signal_data =
  ls_id :: bytes
  ls_address_hash :: bytes
  ls_event :: link_signal
  ls_peer :: "bytes option"

record link =
  lk_id :: bytes
  lk_destination :: destination_desc
  lk_priv :: private_identity
  lk_peer :: identity
  lk_key :: bytes
  lk_status :: link_status
  lk_request_time :: nat
  lk_rtt :: nat

definition link_id_from :: "prims \<Rightarrow> packet \<Rightarrow> bytes" where
  "link_id_from P p =
     (let d = sb_as_slice (p_data p);
          diff = (if length d > PUBLIC_KEY_LENGTH * 2 then length d - PUBLIC_KEY_LENGTH * 2 else 0) in
      address_of_hash (pr_sha256 P ([to_meta (p_header p) AND 0x0f] @ p_destination p @ [context_u8 (p_context p)]
        @ take (length d - diff) d)))"

definition link_new :: "prims \<Rightarrow> nat \<Rightarrow> bytes \<Rightarrow> bytes \<Rightarrow> destination_desc \<Rightarrow> link" where
  "link_new P now secret sk dest =
     \<lparr>lk_id = replicate ADDRESS_HASH_SIZE 0, lk_destination = dest, lk_priv = private_new P secret sk, lk_peer = identity_default P,
      lk_key = derived_key_empty, lk_status = Pending, lk_request_time = now, lk_rtt = 0\<rparr>"

definition link_handshake :: "prims \<Rightarrow> identity \<Rightarrow> link \<Rightarrow> link" where
  "link_handshake P peer l =
     l\<lparr>lk_status := Handshake, lk_peer := peer, lk_key := private_derive_key P (lk_priv l) (idt_public_key peer) (Some (lk_id l))\<rparr>"

definition link_new_from_request :: "prims \<Rightarrow> nat \<Rightarrow> bytes \<Rightarrow> packet \<Rightarrow> bytes \<Rightarrow> destination_desc \<Rightarrow> (ret_error + link) option" where
  "link_new_from_request P now secret p signing_key dest =
     (let d = sb_as_slice (p_data p) in
      if length d < PUBLIC_KEY_LENGTH * 2 then Some (Inl InvalidArgument)
      else (case identity_new_from_slices P (take PUBLIC_KEY_LENGTH d) (take PUBLIC_KEY_LENGTH (drop PUBLIC_KEY_LENGTH d)) of
              None \<Rightarrow> None
            | Some peer \<Rightarrow>
                Some (Inr (link_handshake P peer
                  \<lparr>lk_id = link_id_from P p, lk_destination = dest, lk_priv = private_new P secret signing_key, lk_peer = peer,
                   lk_key = derived_key_empty, lk_status = Pending, lk_request_time = now, lk_rtt = 0\<rparr>))))"

text \<open>A packet of this node with the given type of destination and data.\<close>

definition link_packet :: "destination_type \<Rightarrow> packet_type \<Rightarrow> bytes \<Rightarrow> packet_context \<Rightarrow> static_buffer \<Rightarrow> packet" where
  "link_packet dt t dest ctx data =
     \<lparr>p_header = header_default\<lparr>h_destination_type := dt, h_packet_type := t\<rparr>, p_ifac = None, p_destination = dest,
      p_transport = None, p_context = ctx, p_data = data\<rparr>"

definition link_request_packet :: "link \<Rightarrow> packet" where
  "link_request_packet l =
     link_packet Single LinkRequest (dd_address_hash (lk_destination l)) CtxNone
       (chain_safe_write [idt_public_key (pid_identity (lk_priv l)), idt_verifying_key (pid_identity (lk_priv l))] (sb_new PACKET_MDU))"

definition link_request :: "prims \<Rightarrow> nat \<Rightarrow> link \<Rightarrow> link \<times> packet" where
  "link_request P now l =
     (let p = link_request_packet l in (l\<lparr>lk_status := Pending, lk_id := link_id_from P p, lk_request_time := now\<rparr>, p))"

definition post_event :: "link \<Rightarrow> link_signal \<Rightarrow> link_signal_data" where
  "post_event l ev =
     \<lparr>ls_id = lk_id l, ls_address_hash = dd_address_hash (lk_destination l), ls_event = ev, ls_peer = Some (idt_address_hash (lk_peer l))\<rparr>"

definition link_prove :: "prims \<Rightarrow> link \<Rightarrow> link \<times> packet \<times> link_signal_data list" where
  "link_prove P l =
     (let (l', evs) = (if lk_status l \<noteq> Active then (let l' = l\<lparr>lk_status := Active\<rparr> in (l', [post_event l' Activated])) else (l, []));
          i = pid_identity (lk_priv l');
          b = chain_safe_write [lk_id l', idt_public_key i, idt_verifying_key i] (sb_new PACKET_MDU);
          signature = private_sign P (lk_priv l') (sb_as_slice b) in
      (l', link_packet Single Proof (lk_id l') LinkRequestProof (chain_safe_write [signature, idt_public_key i] (sb_reset b)), evs))"

definition validate_proof_packet :: "prims \<Rightarrow> destination_desc \<Rightarrow> bytes \<Rightarrow> packet \<Rightarrow> (ret_error + identity) option" where
  "validate_proof_packet P dest lid p =
     (let d = sb_as_slice (p_data p); vk = idt_verifying_key (dd_identity dest) in
      if length d < ED25519_SIGNATURE_LENGTH + PUBLIC_KEY_LENGTH then Some (Inl PacketError)
      else (case put_all ob_write
                ([lid, take PUBLIC_KEY_LENGTH (drop ED25519_SIGNATURE_LENGTH d), vk]
                 @ (if length d \<ge> ED25519_SIGNATURE_LENGTH + PUBLIC_KEY_LENGTH + LINK_MTU_SIZE then [drop (ED25519_SIGNATURE_LENGTH + PUBLIC_KEY_LENGTH) d] else []))
                (ob_new (replicate (ADDRESS_HASH_SIZE + PUBLIC_KEY_LENGTH * 2 + LINK_MTU_SIZE) 0)) of
              (Inl e, _) \<Rightarrow> Some (Inl e)
            | (Inr _, output) \<Rightarrow>
                (case identity_new_from_slices P (take PUBLIC_KEY_LENGTH (drop ADDRESS_HASH_SIZE (ob_buffer output))) vk of
                   None \<Rightarrow> None
                 | Some i \<Rightarrow>
                     Some (case identity_verify P i (take (ob_offset output) (ob_buffer output)) (take ED25519_SIGNATURE_LENGTH d) of
                             Inl _ \<Rightarrow> Inl IncorrectSignature | Inr _ \<Rightarrow> Inr i))))"

subsection \<open>Encryption and data\<close>

definition link_encrypt :: "prims \<Rightarrow> bytes \<Rightarrow> link \<Rightarrow> bytes \<Rightarrow> nat \<Rightarrow> (ret_error + bytes) option" where
  "link_encrypt P iv l plain n = private_encrypt P iv plain (lk_key l) n"

definition link_decrypt :: "prims \<Rightarrow> link \<Rightarrow> bytes \<Rightarrow> nat \<Rightarrow> (ret_error + bytes) option" where
  "link_decrypt P l d n = private_decrypt P d (lk_key l) n"

text \<open>Both other branches of the match on the context decrypt and post the text; they differ in the log line.\<close>

definition link_handle_data :: "prims \<Rightarrow> nat \<Rightarrow> link \<Rightarrow> packet \<Rightarrow> (link \<times> link_handle_result \<times> link_signal_data list) option" where
  "link_handle_data P now l p =
     (let d = sb_as_slice (p_data p) in
      if p_context p = KeepAlive then
        (if length d \<ge> 1 \<and> d ! 0 = 0xFF then Some (l\<lparr>lk_request_time := now\<rparr>, HandledKeepAlive, [])
         else if length d \<ge> 1 \<and> d ! 0 = 0xFE then Some (l\<lparr>lk_request_time := now\<rparr>, HandledNone, [])
         else Some (l, HandledNone, []))
      else (case link_decrypt P l d PACKET_MDU of
              None \<Rightarrow> None
            | Some (Inl _) \<Rightarrow> Some (l, HandledNone, [])
            | Some (Inr plain) \<Rightarrow>
                (let l' = l\<lparr>lk_request_time := now\<rparr> in
                 Some (l', HandledNone, [post_event l' (DataSignal (payload_new_from_slice plain) (p_context p))]))))"

definition link_handle_packet :: "prims \<Rightarrow> nat \<Rightarrow> link \<Rightarrow> packet \<Rightarrow> (link \<times> link_handle_result \<times> link_signal_data list) option" where
  "link_handle_packet P now l p =
     (if p_destination p \<noteq> lk_id l then Some (l, HandledNone, [])
      else (case h_packet_type (p_header p) of
              Data \<Rightarrow> link_handle_data P now l p
            | Proof \<Rightarrow>
                (if lk_status l = Pending \<and> p_context p = LinkRequestProof
                 then (case validate_proof_packet P (lk_destination l) (lk_id l) p of
                         None \<Rightarrow> None
                       | Some (Inl _) \<Rightarrow> Some (l, HandledNone, [])
                       | Some (Inr i) \<Rightarrow>
                           (let l' = (link_handshake P i l)\<lparr>lk_status := Active, lk_rtt := now - lk_request_time l\<rparr> in
                            Some (l', HandledActivated, [post_event l' Activated])))
                 else Some (l, HandledNone, []))
            | _ \<Rightarrow> Some (l, HandledNone, [])))"

text \<open>A token in the packet's buffer, of which all was handed out, cut to the length of the token.\<close>

definition token_buffer :: "bytes \<Rightarrow> static_buffer" where
  "token_buffer token =
     (let b = sb_acquire_max (sb_new PACKET_MDU) in sb_resize (length token) (b\<lparr>sb_buffer := splice (sb_buffer b) 0 token\<rparr>))"

definition data_packet_with_context :: "prims \<Rightarrow> bytes \<Rightarrow> link \<Rightarrow> packet_context \<Rightarrow> bytes \<Rightarrow> (ret_error + packet) option" where
  "data_packet_with_context P iv l ctx d =
     map_option (map_sum id (\<lambda>token. link_packet Link Data (lk_id l) ctx (token_buffer token))) (link_encrypt P iv l d PACKET_MDU)"

definition data_packet :: "prims \<Rightarrow> bytes \<Rightarrow> link \<Rightarrow> bytes \<Rightarrow> (ret_error + packet) option" where
  "data_packet P iv l d = data_packet_with_context P iv l CtxNone d"

definition keep_alive_packet :: "link \<Rightarrow> byte \<Rightarrow> packet" where
  "keep_alive_packet l d = link_packet Link Data (lk_id l) KeepAlive (chain_safe_write [[d]] (sb_new PACKET_MDU))"

text \<open>The pattern of the \<open>f32\<close> nearest to \<open>n / d\<close>, the ratio that a pattern stands for, and
  \<open>Duration::as_secs_f32\<close>: both parts are rounded, then the quotient, then the sum.\<close>

definition f32_round :: "nat \<Rightarrow> nat \<Rightarrow> nat" where
  "f32_round n d =
     (if n = 0 then 0
      else (let u = max (ratio_exp n d - 23) (- 149);
                k = (if 0 \<le> u then round_half_even n (d * 2 ^ nat u) else round_half_even (n * 2 ^ nat (- u)) d) in
            min (nat (u + 149) * 2 ^ 23 + k) (255 * 2 ^ 23)))"

definition f32_ratio :: "nat \<Rightarrow> nat \<times> nat" where
  "f32_ratio w =
     (let e = w div 2 ^ 23; f = w mod 2 ^ 23; m = (if e = 0 then f else 2 ^ 23 + f); x = (if e = 0 then 1 else e) in
      if x \<ge> 150 then (m * 2 ^ (x - 150), 1) else (m, 2 ^ (150 - x)))"

definition as_secs_f32 :: "nat \<Rightarrow> nat" where
  "as_secs_f32 t =
     (let (a, b) = f32_ratio (f32_round (t div 1000000000) 1); (c, d) = f32_ratio (f32_round (t mod 1000000000) 1);
          (e, f) = f32_ratio (f32_round c (d * 1000000000)) in
      f32_round (a * f + e * b) (b * f))"

definition rmp_write_f32 :: "nat \<Rightarrow> bytes" where
  "rmp_write_f32 w = 0xCA # be_bytes 4 w"

definition create_rtt :: "prims \<Rightarrow> bytes \<Rightarrow> link \<Rightarrow> packet option" where
  "create_rtt P iv l =
     (case link_encrypt P iv l (rmp_write_f32 (as_secs_f32 (lk_rtt l))) PACKET_MDU of
        Some (Inr token) \<Rightarrow> Some (link_packet Link Data (lk_id l) LinkRTT (token_buffer token)) | _ \<Rightarrow> None)"

definition link_close :: "link \<Rightarrow> link \<times> link_signal_data list" where
  "link_close l = (let l' = l\<lparr>lk_status := Closed\<rparr> in (l', [post_event l' ClosedSignal]))"

definition link_restart :: "link \<Rightarrow> link" where
  "link_restart l = l\<lparr>lk_status := Pending\<rparr>"

definition link_elapsed :: "nat \<Rightarrow> link \<Rightarrow> nat" where
  "link_elapsed now l = now - lk_request_time l"

subsection \<open>The map from addresses to links\<close>

type_synonym link_map = "(bytes, bytes) hmap"

definition link_map_resolve :: "link_map \<Rightarrow> bytes \<Rightarrow> bytes option" where
  "link_map_resolve m a = map_of m a"

definition link_map_insert :: "bytes \<Rightarrow> bytes \<Rightarrow> link_map \<Rightarrow> link_map" where
  "link_map_insert a i m = hm_insert a i m"

definition link_map_remove :: "bytes \<Rightarrow> link_map \<Rightarrow> link_map" where
  "link_map_remove a m = hm_remove a m"

subsection \<open>Shapes of packets\<close>

lemma link_packet_simps [simp]:
  "p_destination (link_packet dt t dest ctx b) = dest" "p_context (link_packet dt t dest ctx b) = ctx"
  "p_data (link_packet dt t dest ctx b) = b" "h_packet_type (p_header (link_packet dt t dest ctx b)) = t"
  "h_destination_type (p_header (link_packet dt t dest ctx b)) = dt"
  by (simp_all add: link_packet_def)

lemma link_packet_wf: "length dest = 16 \<Longrightarrow> sb_wf PACKET_MDU b \<Longrightarrow> packet_wf (link_packet dt t dest ctx b)"
  by (simp add: link_packet_def packet_wf_def header_default_def)

lemma fresh_fields:
  "sb_wf PACKET_MDU b \<Longrightarrow> sb_as_slice b = [] \<Longrightarrow> length (concat ds) \<le> 2048 \<Longrightarrow>
    sb_wf PACKET_MDU (chain_safe_write ds b) \<and> sb_as_slice (chain_safe_write ds b) = concat ds"
  using chain_safe_write_contents[of PACKET_MDU b ds] by (simp add: PACKET_MDU_def)

lemma token_buffer_contents:
  "length token \<le> 2048 \<Longrightarrow> sb_wf PACKET_MDU (token_buffer token) \<and> sb_as_slice (token_buffer token) = token"
  by (simp add: token_buffer_def sb_acquire_max_def sb_resize_def sb_new_def sb_wf_def sb_as_slice_def splice_def PACKET_MDU_def Let_def)

lemma identity_new_simps [simp]:
  "idt_public_key (identity_new P pk vk) = pk" "idt_verifying_key (identity_new P pk vk) = vk"
  by (simp_all add: identity_new_def)

lemma private_new_keys:
  assumes "prims_ok P"
  shows "length (idt_public_key (pid_identity (private_new P s k))) = 32" "length (idt_verifying_key (pid_identity (private_new P s k))) = 32"
    "idt_public_key (pid_identity (private_new P s k)) = pr_public P s" "idt_verifying_key (pid_identity (private_new P s k)) = pr_verifying P k"
    "pid_identity (private_new P s k) = identity_new P (pr_public P s) (pr_verifying P k)" "pid_sign_key (private_new P s k) = k"
  using assms by (simp_all add: private_new_def identity_new_def prims_ok_def)

lemma request_fields:
  assumes "prims_ok P" and "lk_priv l = private_new P s k"
  shows "sb_as_slice (p_data (link_request_packet l)) = pr_public P s @ pr_verifying P k"
    and "sb_wf PACKET_MDU (p_data (link_request_packet l))"
  using fresh_fields[OF sb_wf_new sb_as_slice_new, of "[pr_public P s, pr_verifying P k]"] assms
  by (simp_all add: link_request_packet_def private_new_keys[OF assms(1)] prims_ok_def)

lemma link_id_length: "prims_ok P \<Longrightarrow> length (link_id_from P p) = 16"
  by (simp add: link_id_from_def address_of_hash_def prims_ok_def ADDRESS_HASH_SIZE_def Let_def)

text \<open>The fields of a proof: the signature, the public key and at most three more bytes.\<close>

lemma validate_proof_cases:
  fixes p dest lid
  defines "d \<equiv> sb_as_slice (p_data p)" and "vk \<equiv> idt_verifying_key (dd_identity dest)"
  assumes "length lid = 16" and "length vk = 32"
  shows "validate_proof_packet P dest lid p =
    (let pk = take 32 (drop 64 d); i = identity_new P pk (if pr_valid_key P vk then vk else pr_default_key P) in
     if length d < 96 then Some (Inl PacketError)
     else if 99 < length d then Some (Inl OutOfMemory)
     else if pr_verify P (idt_verifying_key i) (lid @ pk @ vk @ (if length d = 99 then drop 96 d else [])) (take 64 d)
     then Some (Inr i) else Some (Inl IncorrectSignature))"
proof -
  let ?ds = "[lid, take 32 (drop 64 d), vk] @ (if length d \<ge> 99 then [drop 96 d] else [])"
  let ?o = "ob_new (replicate 83 0)"
  have unf: "validate_proof_packet P dest lid p =
    (if length d < 96 then Some (Inl PacketError)
     else (case put_all ob_write ?ds ?o of
        (Inl e, _) \<Rightarrow> Some (Inl e)
      | (Inr _, output) \<Rightarrow>
          (case identity_new_from_slices P (take 32 (drop 16 (ob_buffer output))) vk of
             None \<Rightarrow> None
           | Some i \<Rightarrow> Some (case identity_verify P i (take (ob_offset output) (ob_buffer output)) (take 64 d) of
                        Inl _ \<Rightarrow> Inl IncorrectSignature | Inr _ \<Rightarrow> Inr i))))"
    unfolding validate_proof_packet_def d_def vk_def announce_sizes LINK_MTU_SIZE_def Let_def by (simp del: put_all.simps)
  consider (short) "length d < 96" | (fits) "96 \<le> length d" "length d \<le> 99" | (long) "99 < length d" by linarith
  then show ?thesis
  proof cases
    case fits
    then have "length (concat ?ds) \<le> ob_room ?o" using assms(3,4) by simp
    then obtain b where b: "put_all ob_write ?ds ?o = (Inr (), b)" "ob_as_slice b = concat ?ds" "ob_wf b"
      using ob.put_all_ok[of ?o ?ds] by auto
    have "length (concat ?ds) \<le> ob_offset b" unfolding b(2)[symmetric] by (simp add: ob_as_slice_def)
    moreover have "16 + 32 \<le> length (concat ?ds)" using fits assms(3,4) by simp
    ultimately have off: "16 + 32 \<le> ob_offset b" by linarith
    then have buf: "16 + 32 \<le> length (ob_buffer b)" using b(3) by (simp add: ob_wf_def)
    from off have "take 32 (drop 16 (ob_buffer b)) = take 32 (drop 16 (ob_as_slice b))"
      by (simp add: ob_as_slice_def drop_take min_def)
    then have "take 32 (drop 16 (ob_buffer b)) = take 32 (drop 64 d)" using b(2) fits assms(3) by simp
    moreover have "take (ob_offset b) (ob_buffer b) = concat ?ds" using b(2) by (simp add: ob_as_slice_def)
    ultimately show ?thesis using fits assms(3,4) b(1) buf
      by (simp add: unf identity_new_from_slices_def identity_sizes identity_verify_def Let_def del: put_all.simps)
  next
    case long
    then have "ob_room ?o < length (concat ?ds)" using assms(3,4) by simp
    then obtain b where "put_all ob_write ?ds ?o = (Inl OutOfMemory, b)" using ob.put_all_full[of ?o ?ds] by auto
    then show ?thesis using long by (simp add: unf Let_def del: put_all.simps)
  qed (simp add: unf Let_def)
qed


subsection \<open>Establishment\<close>

lemma identity_new_from_keys:
  "prims_ok P \<Longrightarrow> identity_new_from_slices P (pr_public P s) (pr_verifying P k) = Some (identity_new P (pr_public P s) (pr_verifying P k))"
  by (simp add: identity_new_from_slices_def prims_ok_def identity_sizes)

lemma new_from_request_of_request:
  assumes "prims_ok P" and "lk_priv l = private_new P s k"
  shows "link_new_from_request P now s' (link_request_packet l) sk dest =
    Some (Inr \<lparr>lk_id = link_id_from P (link_request_packet l), lk_destination = dest, lk_priv = private_new P s' sk,
      lk_peer = pid_identity (lk_priv l),
      lk_key = private_derive_key P (private_new P s' sk) (pr_public P s) (Some (link_id_from P (link_request_packet l))),
      lk_status = Handshake, lk_request_time = now, lk_rtt = 0\<rparr>)"
  using request_fields(1)[OF assms] assms(1) assms(2) identity_new_from_keys[OF assms(1), of s k]
  by (simp add: link_new_from_request_def link_handshake_def identity_sizes private_new_keys(5) prims_ok_def Let_def)

lemma prove_fields:
  assumes "prims_ok P" and "lk_priv r = private_new P s k" and "length (lk_id r) = 16" and "lk_status r \<noteq> Active"
  shows "\<exists>b. link_prove P r = (r\<lparr>lk_status := Active\<rparr>, link_packet Single Proof (lk_id r) LinkRequestProof b, [post_event (r\<lparr>lk_status := Active\<rparr>) Activated])
    \<and> sb_wf PACKET_MDU b \<and> sb_as_slice b = pr_sign P k (lk_id r @ pr_public P s @ pr_verifying P k) @ pr_public P s"
proof -
  let ?b = "chain_safe_write [lk_id r, pr_public P s, pr_verifying P k] (sb_new PACKET_MDU)"
  let ?sig = "pr_sign P k (lk_id r @ pr_public P s @ pr_verifying P k)"
  have lens: "length (pr_public P s) = 32" "length (pr_verifying P k) = 32" "length ?sig = 64"
    using assms(1) by (simp_all add: prims_ok_def)
  have b: "sb_wf PACKET_MDU ?b" "sb_as_slice ?b = lk_id r @ pr_public P s @ pr_verifying P k"
    using fresh_fields[OF sb_wf_new sb_as_slice_new, of "[lk_id r, pr_public P s, pr_verifying P k]"] lens assms(3) by simp_all
  then have "sb_wf PACKET_MDU (chain_safe_write [?sig, pr_public P s] (sb_reset ?b))
      \<and> sb_as_slice (chain_safe_write [?sig, pr_public P s] (sb_reset ?b)) = ?sig @ pr_public P s"
    using fresh_fields[of "sb_reset ?b" "[?sig, pr_public P s]"] sb_reset_contents[OF b(1)] lens by simp
  then show ?thesis using assms(2,4) b(2)
    by (intro exI[of _ "chain_safe_write [?sig, pr_public P s] (sb_reset ?b)"])
      (simp add: link_prove_def private_sign_def private_new_keys(3,4,6)[OF assms(1)] Let_def)
qed

lemma proof_accepted:
  assumes "prims_ok P" and "length lid = 16" and "idt_verifying_key (dd_identity dest) = pr_verifying P k"
    and "sb_as_slice b = pr_sign P k (lid @ pr_public P s @ pr_verifying P k) @ pr_public P s"
  shows "validate_proof_packet P dest lid (link_packet Single Proof lid LinkRequestProof b)
    = Some (Inr (identity_new P (pr_public P s) (pr_verifying P k)))"
  using assms validate_proof_cases[of lid dest P "link_packet Single Proof lid LinkRequestProof b"]
  by (simp add: prims_ok_def Let_def)

subsection \<open>Data over a link\<close>

lemma padded_fits: "48 + padded_len n \<le> 2048 \<longleftrightarrow> n < 2000"
  unfolding padded_len_def by presburger

lemma payload_roundtrip: "length d \<le> PACKET_MDU \<Longrightarrow> payload_as_slice (payload_new_from_slice d) = Some d"
  by (simp add: payload_as_slice_def payload_new_from_slice_def splice_def Let_def)

lemma data_packet_cases:
  assumes "prims_ok P" and "length iv = 16" and "length (lk_key l) = 64"
  shows "data_packet_with_context P iv l ctx d =
    (if length d < 2000 then Some (Inr (link_packet Link Data (lk_id l) ctx (token_buffer (session_token P iv (lk_key l) d)))) else None)"
proof (cases "length d < 2000")
  case True
  then have "48 + padded_len (length d) \<le> PACKET_MDU" using padded_fits[of "length d"] by (simp add: PACKET_MDU_def)
  from session_roundtrip(1)[OF assms this] True show ?thesis by (simp add: data_packet_with_context_def link_encrypt_def)
next
  case False
  then have "\<not> 48 + padded_len (length d) \<le> 2048" using padded_fits[of "length d"] by blast
  then have "fernet_encrypt P iv (session_fernet (lk_key l)) d PACKET_MDU = None"
    using assms(2) by (simp add: fernet_encrypt_cases[OF assms(1)] IV_KEY_SIZE_def PACKET_MDU_def)
  with False show ?thesis using assms(3) by (simp add: data_packet_with_context_def link_encrypt_def private_encrypt_def session_fernet_new)
qed

text \<open>Everything but keep-alives that one end sends within the bound is an event with the same data at the other end.\<close>

definition link_delivers :: "prims \<Rightarrow> link \<Rightarrow> link \<Rightarrow> bool" where
  "link_delivers P a b \<longleftrightarrow>
     (\<forall>ctx iv d now. ctx \<noteq> KeepAlive \<and> length iv = 16 \<and> length d < 2000 \<longrightarrow>
        (\<exists>p. data_packet_with_context P iv a ctx d = Some (Inr p)
           \<and> link_handle_packet P now b p = Some (b\<lparr>lk_request_time := now\<rparr>, HandledNone, [post_event b (DataSignal (payload_new_from_slice d) ctx)])
           \<and> payload_as_slice (payload_new_from_slice d) = Some d))"

lemma same_key_delivers:
  assumes "prims_ok P" and "lk_id a = lk_id b" and "lk_key a = lk_key b" and "length (lk_key a) = 64"
  shows "link_delivers P a b"
  unfolding link_delivers_def
proof (intro allI impI; elim conjE)
  fix ctx iv d now assume c: "ctx \<noteq> KeepAlive" "length (iv :: bytes) = 16" "length (d :: bytes) < 2000"
  let ?t = "session_token P iv (lk_key a) d"
  have fits: "48 + padded_len (length d) \<le> 2048" using c(3) padded_fits[of "length d"] by blast
  note t = session_roundtrip[OF assms(1) c(2) assms(4) fits]
  have "private_decrypt P ?t (lk_key b) PACKET_MDU = Some (Inr d)" using t(3)[of PACKET_MDU] fits assms(3) by (simp add: PACKET_MDU_def)
  moreover have "sb_as_slice (token_buffer ?t) = ?t" using token_buffer_contents[of ?t] t(2) fits by simp
  ultimately show "\<exists>p. data_packet_with_context P iv a ctx d = Some (Inr p)
      \<and> link_handle_packet P now b p = Some (b\<lparr>lk_request_time := now\<rparr>, HandledNone, [post_event b (DataSignal (payload_new_from_slice d) ctx)])
      \<and> payload_as_slice (payload_new_from_slice d) = Some d"
    using data_packet_cases[OF assms(1) c(2) assms(4), of ctx d] c assms(2)
    by (simp add: link_handle_packet_def link_handle_data_def link_decrypt_def post_event_def payload_roundtrip PACKET_MDU_def)
qed

lemma link_up:
  assumes "prims_ok P" and "d = single_input_new P (private_new P sd kd) name"
    and "link_request P t1 (link_new P t0 s k (d_desc d)) = (l1, req)"
  shows "\<exists>r0 r1 pf l2. link_new_from_request P t2 s' req (pid_sign_key (d_identity d)) (d_desc d) = Some (Inr r0)
    \<and> link_prove P r0 = (r1, pf, [post_event r1 Activated])
    \<and> link_handle_packet P t3 l1 pf = Some (l2, HandledActivated, [post_event l2 Activated])
    \<and> lk_status l2 = Active \<and> lk_status r1 = Active \<and> lk_id l2 = lk_id r1 \<and> lk_key l2 = lk_key r1 \<and> lk_rtt l2 = t3 - t1
    \<and> lk_peer r1 = pid_identity (lk_priv l2) \<and> lk_peer l2 = pid_identity (lk_priv r1)
    \<and> idt_verifying_key (lk_peer l2) = idt_verifying_key (pid_identity (d_identity d))
    \<and> link_delivers P l2 r1 \<and> link_delivers P r1 l2"
proof -
  let ?l0 = "link_new P t0 s k (d_desc d)"
  have priv: "lk_priv ?l0 = private_new P s k" by (simp add: link_new_def)
  define lid where "lid = link_id_from P req"
  have req: "req = link_request_packet ?l0" and l1: "l1 = ?l0\<lparr>lk_status := Pending, lk_id := lid, lk_request_time := t1\<rparr>"
    using assms(3) by (auto simp: link_request_def Let_def lid_def)
  have lid: "length lid = 16" using link_id_length[OF assms(1)] by (simp add: lid_def)
  have kd: "pid_sign_key (d_identity d) = kd" "idt_verifying_key (dd_identity (d_desc d)) = pr_verifying P kd"
    "idt_verifying_key (pid_identity (d_identity d)) = pr_verifying P kd"
    using assms(1,2) by (simp_all add: single_input_new_def private_new_keys)
  define key where "key = private_derive_key P (private_new P s' kd) (pr_public P s) (Some lid)"
  have key: "key = private_derive_key P (private_new P s k) (pr_public P s') (Some lid)" "length key = 64"
    unfolding key_def by (rule agreed_key[OF assms(1)], rule derived_key_length[OF assms(1)])
  let ?r0 = "\<lparr>lk_id = lid, lk_destination = d_desc d, lk_priv = private_new P s' kd, lk_peer = pid_identity (private_new P s k),
      lk_key = key, lk_status = Handshake, lk_request_time = t2, lk_rtt = 0\<rparr>"
  let ?r1 = "?r0\<lparr>lk_status := Active\<rparr>"
  have r0: "link_new_from_request P t2 s' req (pid_sign_key (d_identity d)) (d_desc d) = Some (Inr ?r0)"
    using new_from_request_of_request[OF assms(1) priv, of t2 s' kd "d_desc d"] by (simp add: req lid_def key_def kd priv)
  obtain b where b: "link_prove P ?r0 = (?r1, link_packet Single Proof lid LinkRequestProof b, [post_event ?r1 Activated])"
      "sb_as_slice b = pr_sign P kd (lid @ pr_public P s' @ pr_verifying P kd) @ pr_public P s'"
    using prove_fields[OF assms(1), of ?r0 s' kd] lid by auto
  define l2 where "l2 = l1\<lparr>lk_status := Active, lk_peer := pid_identity (private_new P s' kd), lk_key := key, lk_rtt := t3 - t1\<rparr>"
  have "link_handle_packet P t3 l1 (link_packet Single Proof lid LinkRequestProof b) = Some (l2, HandledActivated, [post_event l2 Activated])"
    using proof_accepted[OF assms(1) lid kd(2) b(2)]
    by (simp add: link_handle_packet_def l1 l2_def link_handshake_def link_new_def key(1) private_new_keys(5)[OF assms(1)] Let_def)
  moreover have "link_delivers P l2 ?r1" "link_delivers P ?r1 l2"
    using key(2) by (auto intro!: same_key_delivers[OF assms(1)] simp: l2_def l1)
  ultimately show ?thesis
    using r0 b(1) kd(3) by (intro exI[of _ ?r0] exI[of _ ?r1] exI[of _ l2] exI[of _ "link_packet Single Proof lid LinkRequestProof b"])
      (simp add: l2_def l1 link_new_def private_new_keys(4)[OF assms(1)])
qed


subsection \<open>What a packet can do to a link\<close>

lemma post_event_time [simp]: "post_event (l\<lparr>lk_request_time := t\<rparr>) e = post_event l e"
  by (simp add: post_event_def)

lemma link_handle_data_cases:
  assumes "link_handle_data P now l p = Some (l', res, evs)"
  shows "res \<noteq> HandledActivated" and "l' = l \<or> l' = l\<lparr>lk_request_time := now\<rparr>"
    and "evs = [] \<or> (\<exists>plain. link_decrypt P l (sb_as_slice (p_data p)) PACKET_MDU = Some (Inr plain)
            \<and> evs = [post_event l (DataSignal (payload_new_from_slice plain) (p_context p))])"
  using assms by (auto simp: link_handle_data_def Let_def split: if_split_asm option.split_asm sum.split_asm)

lemma cut_in_three:
  assumes "n + m \<le> length d"
  obtains a b c where "d = a @ b @ c" "length a = n" "length b = m"
proof (rule that)
  show "d = take n d @ take m (drop n d) @ drop m (drop n d)" by (simp only: append_take_drop_id)
qed (use assms in simp_all)

text \<open>A packet leaves the link as it is, or only refreshes its time, or activates it by a valid proof.\<close>

lemma link_handle_packet_cases:
  assumes "link_handle_packet P now l p = Some (l', res, evs)"
  obtains (same) "res \<noteq> HandledActivated" "l' = l" "evs = []"
  | (data) "res \<noteq> HandledActivated" "p_destination p = lk_id l" "h_packet_type (p_header p) = Data"
      "link_handle_data P now l p = Some (l', res, evs)" "l' = l \<or> l' = l\<lparr>lk_request_time := now\<rparr>"
  | (proved) i where "p_destination p = lk_id l" "h_packet_type (p_header p) = Proof" "lk_status l = Pending" "p_context p = LinkRequestProof"
      "validate_proof_packet P (lk_destination l) (lk_id l) p = Some (Inr i)" "res = HandledActivated" "evs = [post_event l' Activated]"
      "l' = (link_handshake P i l)\<lparr>lk_status := Active, lk_rtt := now - lk_request_time l\<rparr>"
proof (cases "p_destination p = lk_id l")
  case False
  then show ?thesis using assms same by (simp add: link_handle_packet_def)
next
  case here: True
  show ?thesis
  proof (cases "h_packet_type (p_header p)")
    case Data
    with here assms have "link_handle_data P now l p = Some (l', res, evs)" by (simp add: link_handle_packet_def)
    from data[OF link_handle_data_cases(1)[OF this] here Data this link_handle_data_cases(2)[OF this]] show ?thesis .
  next
    case Proof
    show ?thesis
    proof (cases "lk_status l = Pending \<and> p_context p = LinkRequestProof")
      case True
      with here Proof assms same show ?thesis
        by (auto simp: link_handle_packet_def Let_def split: option.split_asm sum.split_asm intro!: proved)
    qed (use here Proof assms same in \<open>auto simp: link_handle_packet_def\<close>)
  qed (use here assms same in \<open>simp_all add: link_handle_packet_def\<close>)
qed

text \<open>C4. Link establishment: whoever knows a destination requests a link with fresh keys; the destination makes
  a link of the request and proves it; the requester accepts the proof. Then both ends are active and have told
  their listeners, they hold the same identifier and the same key, each knows the other's keys, and what one end
  sends the other one delivers unchanged, in both directions.\<close>

theorem link_established:
  assumes "prims_ok P" and "d = single_input_new P (private_new P sd kd) name"
    and "link_request P t1 (link_new P t0 s k (d_desc d)) = (l1, req)"
  shows "\<exists>r0 r1 pf l2. link_new_from_request P t2 s' req (pid_sign_key (d_identity d)) (d_desc d) = Some (Inr r0)
    \<and> link_prove P r0 = (r1, pf, [post_event r1 Activated])
    \<and> link_handle_packet P t3 l1 pf = Some (l2, HandledActivated, [post_event l2 Activated])
    \<and> lk_status l2 = Active \<and> lk_status r1 = Active \<and> lk_id l2 = lk_id r1 \<and> lk_key l2 = lk_key r1 \<and> lk_rtt l2 = t3 - t1
    \<and> lk_peer r1 = pid_identity (lk_priv l2) \<and> lk_peer l2 = pid_identity (lk_priv r1)
    \<and> idt_verifying_key (lk_peer l2) = idt_verifying_key (pid_identity (d_identity d))
    \<and> link_delivers P l2 r1 \<and> link_delivers P r1 l2"
  using assms by (rule link_up)

theorem link_established_witness:
  "\<exists>r0. link_new_from_request sample_prims 7 [5] (snd (link_request sample_prims 4 (link_new sample_prims 3 [3] [4]
       (d_desc (single_input_new sample_prims (private_new sample_prims [1] [2]) (name_new sample_prims ''a'' ''b''))))))
     (pid_sign_key (private_new sample_prims [1] [2]))
     (d_desc (single_input_new sample_prims (private_new sample_prims [1] [2]) (name_new sample_prims ''a'' ''b''))) = Some (Inr r0)"
proof -
  let ?d = "single_input_new sample_prims (private_new sample_prims [1] [2]) (name_new sample_prims ''a'' ''b'')"
  let ?r = "link_request sample_prims 4 (link_new sample_prims 3 [3] [4] (d_desc ?d))"
  have "d_identity ?d = private_new sample_prims [1] [2]" by (simp add: single_input_new_def)
  with link_established[OF sample_prims_ok refl, of 4 3 "[3]" "[4]" "[1]" "[2]" "name_new sample_prims ''a'' ''b''" "fst ?r" "snd ?r" 7 "[5]" 9]
  show ?thesis by (metis prod.collapse)
qed





text \<open>The size of the data alone decides whether a link can send it: up to 1999 bytes there is a packet, from
  2000 bytes on the encryption panics; there is no error in between.\<close>

theorem data_packet_bound:
  assumes "prims_ok P" and "length iv = 16" and "length (lk_key l) = 64" and "length (lk_id l) = 16"
  shows "(data_packet_with_context P iv l ctx d = None \<longleftrightarrow> 2000 \<le> length d)
    \<and> ((\<exists>p. packet_wf p \<and> data_packet_with_context P iv l ctx d = Some (Inr p)) \<longleftrightarrow> length d < 2000)"
proof -
  let ?t = "session_token P iv (lk_key l) d"
  have "length d < 2000 \<Longrightarrow> length ?t \<le> 2048"
    using session_roundtrip(2)[OF assms(1-3), of d 2048] padded_fits[of "length d"] by simp
  then have "length d < 2000 \<Longrightarrow> packet_wf (link_packet Link Data (lk_id l) ctx (token_buffer ?t))"
    using token_buffer_contents[of ?t] assms(4) by (simp add: link_packet_wf)
  then show ?thesis using data_packet_cases[OF assms(1-3), of ctx d] by auto
qed

theorem data_packet_bound_witness:
  "data_packet_with_context sample_prims (replicate 16 3) (link_new sample_prims 0 [1] [2] (d_desc (plain_new sample_prims (name_new sample_prims ''a'' ''b''))))
     CtxNone (replicate 2000 0) = None"
  using data_packet_bound[OF sample_prims_ok, of "replicate 16 3"
      "link_new sample_prims 0 [1] [2] (d_desc (plain_new sample_prims (name_new sample_prims ''a'' ''b'')))" CtxNone "replicate 2000 0"]
  by (simp add: link_new_def derived_key_empty_def identity_sizes)

lemma copied_prefix:
  "n \<le> length d \<Longrightarrow> n \<le> length b \<Longrightarrow>
    fold (\<lambda>i b. b[i := d ! i]) [0 ..< n] b = take n d @ drop n b"
proof (induction n)
  case (Suc n)
  then have "drop n b = b ! n # drop (Suc n) b" by (simp add: Cons_nth_drop_Suc)
  with Suc show ?case by (simp add: list_update_append take_Suc_conv_app_nth)
qed simp

text \<open>A payload made of a vector keeps the vector's length but only the first 2048 bytes: reading a longer one
  panics.\<close>

theorem payload_from_vec:
  "payload_as_slice (payload_new_from_vec d) = (if length d \<le> PACKET_MDU then Some d else None)"
  using copied_prefix[of "min PACKET_MDU (length d)" d "replicate PACKET_MDU 0"]
  by (simp add: payload_as_slice_def payload_new_from_vec_def)


end
