(* ===== verification/Transport_Node.thy ===== *)
theory Transport_Node
  imports Link_Layer Caches
begin

section \<open>The node's transport (reticulum-patched/src/transport.rs, iface.rs)\<close>

text \<open>
  The transport keeps the node's own destinations, the announced ones, the links it requested (by the
  address of the destination) and the links it accepted (by identifier). Packets from the interfaces are
  forwarded when the node is a broadcaster and dispatched by type; timers close, repeat, restart and keep
  alive the links. What leaves the node is the list of outputs of an operation: a message handed to an
  interface, an event on one of the channels. The tasks take turns on the handler's lock, so each step is
  atomic. Keys, secrets and vectors that are drawn are arguments, \<open>None\<close> is a panic.
\<close>

subsection \<open>Interfaces\<close>

datatype tx_message_type = TxBroadcast "bytes option" | TxDirect bytes

record tx_message =
  tx_type :: tx_message_type
  tx_packet :: packet

record rx_message =
  rx_address :: bytes
  rx_packet :: packet

record local_interface =
  li_address :: bytes
  li_stopped :: bool

record interface_manager =
  im_counter :: nat
  im_ifaces :: "local_interface list"

definition manager_new :: interface_manager where
  "manager_new = \<lparr>im_counter = 0, im_ifaces = []\<rparr>"

definition manager_new_channel :: "prims \<Rightarrow> interface_manager \<Rightarrow> interface_manager \<times> bytes" where
  "manager_new_channel P m =
     (let c = im_counter m + 1; address = address_of_hash (pr_sha256 P (rev (be_bytes 8 c))) in
      (\<lparr>im_counter = c, im_ifaces = im_ifaces m @ [\<lparr>li_address = address, li_stopped = False\<rparr>]\<rparr>, address))"

definition manager_cleanup :: "interface_manager \<Rightarrow> interface_manager" where
  "manager_cleanup m = m\<lparr>im_ifaces := filter (\<lambda>i. \<not> li_stopped i) (im_ifaces m)\<rparr>"

definition should_send :: "tx_message_type \<Rightarrow> bytes \<Rightarrow> bool" where
  "should_send t a = (case t of TxBroadcast None \<Rightarrow> True | TxBroadcast (Some from_iface) \<Rightarrow> from_iface \<noteq> a | TxDirect addr \<Rightarrow> addr = a)"

definition manager_send :: "interface_manager \<Rightarrow> tx_message \<Rightarrow> (bytes \<times> tx_message) list" where
  "manager_send m msg =
     map (\<lambda>i. (li_address i, msg)) (filter (\<lambda>i. should_send (tx_type msg) (li_address i) \<and> \<not> li_stopped i) (im_ifaces m))"

subsection \<open>State and outputs\<close>

definition secs :: "nat \<Rightarrow> nat" where "secs n = n * 1000000000"
definition INTERVAL_INPUT_LINK_CLEANUP :: nat where "INTERVAL_INPUT_LINK_CLEANUP = secs 20"
definition INTERVAL_OUTPUT_LINK_RESTART :: nat where "INTERVAL_OUTPUT_LINK_RESTART = secs 60"
definition INTERVAL_OUTPUT_LINK_REPEAT :: nat where "INTERVAL_OUTPUT_LINK_REPEAT = secs 6"

record transport_config =
  tc_name :: string
  tc_identity :: private_identity
  tc_broadcast :: bool
  tc_retransmit :: bool

definition config_new :: "string \<Rightarrow> private_identity \<Rightarrow> bool \<Rightarrow> transport_config" where
  "config_new name i broadcast = \<lparr>tc_name = name, tc_identity = i, tc_broadcast = broadcast, tc_retransmit = False\<rparr>"

definition set_retransmit :: "bool \<Rightarrow> transport_config \<Rightarrow> transport_config" where
  "set_retransmit b c = c\<lparr>tc_retransmit := b\<rparr>"

definition set_broadcast :: "bool \<Rightarrow> transport_config \<Rightarrow> transport_config" where
  "set_broadcast b c = c\<lparr>tc_broadcast := b\<rparr>"

definition config_default :: "prims \<Rightarrow> bytes \<Rightarrow> bytes \<Rightarrow> transport_config" where
  "config_default P secret sk = \<lparr>tc_name = ''tp'', tc_identity = private_new P secret sk, tc_broadcast = False, tc_retransmit = False\<rparr>"

record transport_handler =
  th_config :: transport_config
  th_manager :: interface_manager
  th_path_table :: path_table
  th_single_in :: "(bytes, single_input) hmap"
  th_single_out :: "(bytes, single_output) hmap"
  th_out_links :: "(bytes, link) hmap"
  th_in_links :: "(bytes, link) hmap"
  th_packet_cache :: packet_cache

datatype tp_output =
    Sent bytes tx_message
  | Announced single_output static_buffer
  | LinkIn link_signal_data
  | LinkOut link_signal_data
  | IfaceMessage rx_message

definition transport_new :: "transport_config \<Rightarrow> transport_handler" where
  "transport_new c =
     \<lparr>th_config = c, th_manager = manager_new, th_path_table = [], th_single_in = [], th_single_out = [], th_out_links = [],
      th_in_links = [], th_packet_cache = []\<rparr>"

text \<open>An operation: the state and the outputs. \<open>tp_bind\<close> runs one after the other.\<close>

type_synonym tp_result = "(transport_handler \<times> tp_output list) option"

definition tp_bind :: "tp_result \<Rightarrow> (transport_handler \<Rightarrow> tp_result) \<Rightarrow> tp_result" where
  "tp_bind r f = (case r of None \<Rightarrow> None | Some (th, o1) \<Rightarrow> map_option (\<lambda>(th', o2). (th', o1 @ o2)) (f th))"

subsection \<open>Sending\<close>

definition handler_send :: "prims \<Rightarrow> nat \<Rightarrow> tx_message \<Rightarrow> transport_handler \<Rightarrow> transport_handler \<times> tp_output list" where
  "handler_send P now msg th =
     (th\<lparr>th_packet_cache := snd (pc_update (pr_sha256 P) now (tx_packet msg) (th_packet_cache th))\<rparr>,
      map (\<lambda>(a, m). Sent a m) (manager_send (th_manager th) msg))"

definition handler_send_packet :: "prims \<Rightarrow> nat \<Rightarrow> packet \<Rightarrow> transport_handler \<Rightarrow> transport_handler \<times> tp_output list" where
  "handler_send_packet P now p th = handler_send P now \<lparr>tx_type = TxBroadcast None, tx_packet = p\<rparr> th"

definition send_announce :: "prims \<Rightarrow> nat \<Rightarrow> bytes \<Rightarrow> single_input \<Rightarrow> bytes option \<Rightarrow> transport_handler \<Rightarrow> tp_result" where
  "send_announce P now rand d app th =
     (case dest_announce P rand d app of Inl _ \<Rightarrow> None | Inr p \<Rightarrow> Some (handler_send_packet P now p th))"

definition send_broadcast :: "prims \<Rightarrow> nat \<Rightarrow> packet \<Rightarrow> bytes option \<Rightarrow> transport_handler \<Rightarrow> transport_handler \<times> tp_output list" where
  "send_broadcast P now p from_iface th = handler_send P now \<lparr>tx_type = TxBroadcast from_iface, tx_packet = p\<rparr> th"

definition send_direct :: "prims \<Rightarrow> nat \<Rightarrow> bytes \<Rightarrow> packet \<Rightarrow> transport_handler \<Rightarrow> transport_handler \<times> tp_output list" where
  "send_direct P now addr p th = handler_send P now \<lparr>tx_type = TxDirect addr, tx_packet = p\<rparr> th"

text \<open>A loop over the links of a table that may change each link, send and post events.\<close>

fun each_link :: "(bytes \<Rightarrow> link \<Rightarrow> transport_handler \<Rightarrow> (link \<times> transport_handler \<times> tp_output list) option) \<Rightarrow>
    (bytes, link) hmap \<Rightarrow> transport_handler \<Rightarrow> ((bytes, link) hmap \<times> transport_handler \<times> tp_output list) option" where
  "each_link f [] th = Some ([], th, [])"
| "each_link f ((k, l) # ls) th =
     (case f k l th of
        None \<Rightarrow> None
      | Some (l', th1, o1) \<Rightarrow>
          map_option (\<lambda>(ls', th2, o2). ((k, l') # ls', th2, o1 @ o2)) (each_link f ls th1))"

definition on_out_links :: "(bytes \<Rightarrow> link \<Rightarrow> transport_handler \<Rightarrow> (link \<times> transport_handler \<times> tp_output list) option) \<Rightarrow>
    transport_handler \<Rightarrow> tp_result" where
  "on_out_links f th =
     map_option (\<lambda>(ls, th', evs). (th'\<lparr>th_out_links := ls\<rparr>, evs)) (each_link f (th_out_links th) th)"

text \<open>The body of the loops that send data: an active link that is meant gets a packet; an error is skipped.\<close>

definition send_on_link :: "prims \<Rightarrow> nat \<Rightarrow> (bytes \<Rightarrow> bytes) \<Rightarrow> (link \<Rightarrow> bool) \<Rightarrow> packet_context \<Rightarrow> bytes \<Rightarrow>
    bytes \<Rightarrow> link \<Rightarrow> transport_handler \<Rightarrow> (link \<times> transport_handler \<times> tp_output list) option" where
  "send_on_link P now iv meant ctx payload k l th =
     (if meant l \<and> lk_status l = Active
      then (case data_packet_with_context P (iv k) l ctx payload of
              None \<Rightarrow> None
            | Some (Inl _) \<Rightarrow> Some (l, th, [])
            | Some (Inr p) \<Rightarrow> Some (l, handler_send_packet P now p th))
      else Some (l, th, []))"

definition send_to_all_out_links :: "prims \<Rightarrow> nat \<Rightarrow> (bytes \<Rightarrow> bytes) \<Rightarrow> bytes \<Rightarrow> transport_handler \<Rightarrow> tp_result" where
  "send_to_all_out_links P now iv payload th = on_out_links (send_on_link P now iv (\<lambda>l. True) CtxNone payload) th"

definition send_to_out_links_with_context ::
    "prims \<Rightarrow> nat \<Rightarrow> (bytes \<Rightarrow> bytes) \<Rightarrow> bytes \<Rightarrow> bytes \<Rightarrow> packet_context \<Rightarrow> transport_handler \<Rightarrow> tp_result" where
  "send_to_out_links_with_context P now iv dest payload ctx th =
     on_out_links (send_on_link P now iv (\<lambda>l. dd_address_hash (lk_destination l) = dest) ctx payload) th"

definition send_to_out_links :: "prims \<Rightarrow> nat \<Rightarrow> (bytes \<Rightarrow> bytes) \<Rightarrow> bytes \<Rightarrow> bytes \<Rightarrow> transport_handler \<Rightarrow> tp_result" where
  "send_to_out_links P now iv dest payload th = send_to_out_links_with_context P now iv dest payload CtxNone th"

definition send_to_in_links :: "prims \<Rightarrow> nat \<Rightarrow> (bytes \<Rightarrow> bytes) \<Rightarrow> bytes \<Rightarrow> bytes \<Rightarrow> transport_handler \<Rightarrow> tp_result" where
  "send_to_in_links P now iv dest payload th =
     map_option (\<lambda>(ls, th', evs). (th'\<lparr>th_in_links := ls\<rparr>, evs))
       (each_link (send_on_link P now iv (\<lambda>l. dd_address_hash (lk_destination l) = dest) CtxNone payload) (th_in_links th) th)"

text \<open>The first link that takes the payload, as \<open>return true\<close> ends the loop.\<close>

fun send_first :: "prims \<Rightarrow> nat \<Rightarrow> (bytes \<Rightarrow> bytes) \<Rightarrow> bytes \<Rightarrow> packet_context \<Rightarrow> bytes \<Rightarrow> (bytes, link) hmap \<Rightarrow> transport_handler \<Rightarrow>
    (bool \<times> transport_handler \<times> tp_output list) option" where
  "send_first P now iv lid ctx payload [] th = Some (False, th, [])"
| "send_first P now iv lid ctx payload ((k, l) # ls) th =
     (if lk_id l = lid \<and> lk_status l = Active
      then (case data_packet_with_context P (iv k) l ctx payload of
              None \<Rightarrow> None
            | Some (Inl _) \<Rightarrow> send_first P now iv lid ctx payload ls th
            | Some (Inr p) \<Rightarrow> Some (True, handler_send_packet P now p th))
      else send_first P now iv lid ctx payload ls th)"

definition send_to_link_id_with_context :: "prims \<Rightarrow> nat \<Rightarrow> (bytes \<Rightarrow> bytes) \<Rightarrow> bytes \<Rightarrow> bytes \<Rightarrow> packet_context \<Rightarrow> transport_handler \<Rightarrow>
    (bool \<times> transport_handler \<times> tp_output list) option" where
  "send_to_link_id_with_context P now iv lid payload ctx th =
     (case map_of (th_in_links th) lid of
        Some l \<Rightarrow>
          (if lk_status l = Active
           then (case data_packet_with_context P (iv lid) l ctx payload of
                   None \<Rightarrow> None
                 | Some (Inl _) \<Rightarrow> send_first P now iv lid ctx payload (th_out_links th) th
                 | Some (Inr p) \<Rightarrow> Some (True, handler_send_packet P now p th))
           else send_first P now iv lid ctx payload (th_out_links th) th)
      | None \<Rightarrow> send_first P now iv lid ctx payload (th_out_links th) th)"

subsection \<open>Links and destinations of the node\<close>

definition find_out_link :: "transport_handler \<Rightarrow> bytes \<Rightarrow> link option" where
  "find_out_link th k = map_of (th_out_links th) k"

definition find_in_link :: "transport_handler \<Rightarrow> bytes \<Rightarrow> link option" where
  "find_in_link th k = map_of (th_in_links th) k"

text \<open>\<open>link\<close>: the link that exists and is not closed, or a new one that is requested at once.\<close>

definition tp_link :: "prims \<Rightarrow> nat \<Rightarrow> bytes \<Rightarrow> bytes \<Rightarrow> destination_desc \<Rightarrow> transport_handler \<Rightarrow> link \<times> transport_handler \<times> tp_output list" where
  "tp_link P now secret sk dest th =
     (let fresh = (let (l, p) = link_request P now (link_new P now secret sk dest); (th', evs) = handler_send_packet P now p th in
                   (l, th'\<lparr>th_out_links := hm_insert (dd_address_hash dest) l (th_out_links th')\<rparr>, evs)) in
      case map_of (th_out_links th) (dd_address_hash dest) of
        Some l \<Rightarrow> if lk_status l \<noteq> Closed then (l, th, []) else fresh
      | None \<Rightarrow> fresh)"

definition add_destination :: "prims \<Rightarrow> private_identity \<Rightarrow> destination_name \<Rightarrow> transport_handler \<Rightarrow> transport_handler \<times> single_input" where
  "add_destination P i name th =
     (let d = single_input_new P i name in (th\<lparr>th_single_in := hm_insert (dd_address_hash (d_desc d)) d (th_single_in th)\<rparr>, d))"

definition has_destination :: "transport_handler \<Rightarrow> bytes \<Rightarrow> bool" where
  "has_destination th a = hm_contains (th_single_in th) a"

subsection \<open>Packets by type\<close>

definition proof_on_link :: "prims \<Rightarrow> nat \<Rightarrow> (bytes \<Rightarrow> bytes) \<Rightarrow> packet \<Rightarrow>
    bytes \<Rightarrow> link \<Rightarrow> transport_handler \<Rightarrow> (link \<times> transport_handler \<times> tp_output list) option" where
  "proof_on_link P now iv p k l th =
     (case link_handle_packet P now l p of
        None \<Rightarrow> None
      | Some (l', res, evs) \<Rightarrow>
          (if res = HandledActivated
           then (case create_rtt P (iv k) l' of
                   None \<Rightarrow> None
                 | Some rtt \<Rightarrow> (let (th', sent) = handler_send_packet P now rtt th in Some (l', th', map LinkOut evs @ sent)))
           else Some (l', th, map LinkOut evs)))"

definition handle_proof :: "prims \<Rightarrow> nat \<Rightarrow> (bytes \<Rightarrow> bytes) \<Rightarrow> packet \<Rightarrow> transport_handler \<Rightarrow> tp_result" where
  "handle_proof P now iv p th = on_out_links (proof_on_link P now iv p) th"

text \<open>A data packet for a link: the accepted link with that identifier, which answers a keep-alive, and
  all requested links; data for a single destination is not processed.\<close>

definition handle_data_in :: "prims \<Rightarrow> nat \<Rightarrow> packet \<Rightarrow> transport_handler \<Rightarrow> tp_result" where
  "handle_data_in P now p th =
     (case map_of (th_in_links th) (p_destination p) of
        None \<Rightarrow> Some (th, [])
      | Some l \<Rightarrow>
          (case link_handle_packet P now l p of
             None \<Rightarrow> None
           | Some (l', res, evs) \<Rightarrow>
               (let th1 = th\<lparr>th_in_links := hm_modify (p_destination p) (\<lambda>_. l') (th_in_links th)\<rparr> in
                if res = HandledKeepAlive
                then (let (th2, sent) = handler_send_packet P now (keep_alive_packet l' 0xFE) th1 in Some (th2, map LinkIn evs @ sent))
                else Some (th1, map LinkIn evs))))"

definition data_on_link :: "prims \<Rightarrow> nat \<Rightarrow> packet \<Rightarrow>
    bytes \<Rightarrow> link \<Rightarrow> transport_handler \<Rightarrow> (link \<times> transport_handler \<times> tp_output list) option" where
  "data_on_link P now p k l th = map_option (\<lambda>(l', res, evs). (l', th, map LinkOut evs)) (link_handle_packet P now l p)"

definition handle_data_out :: "prims \<Rightarrow> nat \<Rightarrow> packet \<Rightarrow> transport_handler \<Rightarrow> tp_result" where
  "handle_data_out P now p th = on_out_links (data_on_link P now p) th"

definition handle_data :: "prims \<Rightarrow> nat \<Rightarrow> packet \<Rightarrow> transport_handler \<Rightarrow> tp_result" where
  "handle_data P now p th =
     (if h_destination_type (p_header p) = Link then tp_bind (handle_data_in P now p th) (handle_data_out P now p) else Some (th, []))"

definition handle_announce :: "prims \<Rightarrow> packet \<Rightarrow> transport_handler \<Rightarrow> tp_result" where
  "handle_announce P p th =
     (case announce_validate P p of
        None \<Rightarrow> None
      | Some (Inl _) \<Rightarrow> Some (th, [])
      | Some (Inr (d, app)) \<Rightarrow>
          Some (if hm_contains (th_single_out th) (p_destination p) then th
                else th\<lparr>th_single_out := hm_insert (p_destination p) d (th_single_out th)\<rparr>,
                [Announced d (sb_new_from_slice PACKET_MDU app)]))"

definition handle_link_request :: "prims \<Rightarrow> nat \<Rightarrow> bytes \<Rightarrow> packet \<Rightarrow> transport_handler \<Rightarrow> tp_result" where
  "handle_link_request P now secret p th =
     (case map_of (th_single_in th) (p_destination p) of
        None \<Rightarrow> Some (th, [])
      | Some d \<Rightarrow>
          (case dest_handle_packet d p of
             DestNone \<Rightarrow> Some (th, [])
           | DestLinkProof \<Rightarrow>
               (if hm_contains (th_in_links th) (link_id_from P p) then Some (th, [])
                else (case link_new_from_request P now secret p (pid_sign_key (d_identity d)) (d_desc d) of
                        None \<Rightarrow> None
                      | Some (Inl _) \<Rightarrow> Some (th, [])
                      | Some (Inr l) \<Rightarrow>
                          (let (l', pf, evs) = link_prove P l; (th', sent) = handler_send_packet P now pf th in
                           Some (th'\<lparr>th_in_links := hm_insert (lk_id l') l' (th_in_links th')\<rparr>, map LinkIn evs @ sent))))))"

text \<open>One message of an interface in the packet task.\<close>

definition dispatch_packet :: "prims \<Rightarrow> nat \<Rightarrow> bytes \<Rightarrow> (bytes \<Rightarrow> bytes) \<Rightarrow> packet \<Rightarrow> transport_handler \<Rightarrow> tp_result" where
  "dispatch_packet P now secret iv p th =
     (case h_packet_type (p_header p) of
        Announce \<Rightarrow> handle_announce P p th
      | LinkRequest \<Rightarrow> handle_link_request P now secret p th
      | Proof \<Rightarrow> handle_proof P now iv p th
      | Data \<Rightarrow> handle_data P now p th)"

definition receive_message :: "prims \<Rightarrow> nat \<Rightarrow> bytes \<Rightarrow> (bytes \<Rightarrow> bytes) \<Rightarrow> rx_message \<Rightarrow> transport_handler \<Rightarrow> tp_result" where
  "receive_message P now secret iv m th =
     (let (th1, o1) = (if tc_broadcast (th_config th)
                       then handler_send P now \<lparr>tx_type = TxBroadcast (Some (rx_address m)), tx_packet = rx_packet m\<rparr> th else (th, [])) in
      tp_bind (Some (th1, IfaceMessage m # o1)) (dispatch_packet P now secret iv (rx_packet m)))"

subsection \<open>Timers\<close>

text \<open>Accepted links without traffic are closed, closed ones of the own links are dropped, old ones are
  restarted and requests repeated.\<close>

definition check_in_links :: "nat \<Rightarrow> transport_handler \<Rightarrow> transport_handler \<times> tp_output list" where
  "check_in_links now th =
     (let old = filter (\<lambda>(k, l). link_elapsed now l > INTERVAL_INPUT_LINK_CLEANUP) (th_in_links th) in
      (th\<lparr>th_in_links := fold hm_remove (map fst old) (th_in_links th)\<rparr>, concat (map (\<lambda>(k, l). map LinkIn (snd (link_close l))) old)))"

definition drop_closed_links :: "transport_handler \<Rightarrow> transport_handler \<times> tp_output list" where
  "drop_closed_links th =
     (let old = filter (\<lambda>(k, l). lk_status l = Closed) (th_out_links th) in
      (th\<lparr>th_out_links := fold hm_remove (map fst old) (th_out_links th)\<rparr>, concat (map (\<lambda>(k, l). map LinkOut (snd (link_close l))) old)))"

definition repeat_request :: "prims \<Rightarrow> nat \<Rightarrow> bytes \<Rightarrow> link \<Rightarrow> transport_handler \<Rightarrow> (link \<times> transport_handler \<times> tp_output list) option" where
  "repeat_request P now k l th =
     (let l1 = (if lk_status l = Active \<and> link_elapsed now l > INTERVAL_OUTPUT_LINK_RESTART then link_restart l else l) in
      if lk_status l1 = Pending \<and> link_elapsed now l1 > INTERVAL_OUTPUT_LINK_REPEAT
      then (let (l2, p) = link_request P now l1 in Some (l2, handler_send_packet P now p th))
      else Some (l1, th, []))"

definition handle_check_links :: "prims \<Rightarrow> nat \<Rightarrow> transport_handler \<Rightarrow> tp_result" where
  "handle_check_links P now th =
     (let (th1, o1) = check_in_links now th; (th2, o2) = drop_closed_links th1 in
      tp_bind (Some (th2, o1 @ o2)) (on_out_links (repeat_request P now)))"

definition keep_on_link :: "prims \<Rightarrow> nat \<Rightarrow>
    bytes \<Rightarrow> link \<Rightarrow> transport_handler \<Rightarrow> (link \<times> transport_handler \<times> tp_output list) option" where
  "keep_on_link P now k l th =
     (if lk_status l = Active then Some (l, handler_send_packet P now (keep_alive_packet l 0xFF) th) else Some (l, th, []))"

definition handle_keep_links :: "prims \<Rightarrow> nat \<Rightarrow> transport_handler \<Rightarrow> tp_result" where
  "handle_keep_links P now th = on_out_links (keep_on_link P now) th"

definition handle_cleanup :: "transport_handler \<Rightarrow> transport_handler" where
  "handle_cleanup th = th\<lparr>th_manager := manager_cleanup (th_manager th)\<rparr>"

definition release_cache :: "nat \<Rightarrow> transport_handler \<Rightarrow> transport_handler" where
  "release_cache now th = th\<lparr>th_packet_cache := pc_release now (secs 4) (th_packet_cache th)\<rparr>"

text \<open>Not called by the code; the counter of hops overflows at 255.\<close>

definition create_retransmit_packet :: "packet \<Rightarrow> packet option" where
  "create_retransmit_packet p =
     (if h_hops (p_header p) = 255 then None else Some (p\<lparr>p_header := (p_header p)\<lparr>h_hops := h_hops (p_header p) + 1\<rparr>\<rparr>))"

subsection \<open>Steps of the node\<close>

text \<open>What a holder of a link can do with its handle: close it.\<close>

definition close_out_link :: "bytes \<Rightarrow> transport_handler \<Rightarrow> transport_handler \<times> tp_output list" where
  "close_out_link k th =
     (case map_of (th_out_links th) k of
        None \<Rightarrow> (th, [])
      | Some l \<Rightarrow> (let (l', evs) = link_close l in (th\<lparr>th_out_links := hm_modify k (\<lambda>_. l') (th_out_links th)\<rparr>, map LinkOut evs)))"

text \<open>The bytes of a verifying key, as the type of the code guarantees.\<close>

definition valid_key :: "prims \<Rightarrow> bytes \<Rightarrow> bool" where
  "valid_key P vk \<longleftrightarrow> length vk = 32 \<and> pr_valid_key P vk"

inductive tp_step :: "prims \<Rightarrow> transport_handler \<Rightarrow> tp_output list \<Rightarrow> transport_handler \<Rightarrow> bool" for P where
  receive: "packet_wf (rx_packet m) \<Longrightarrow> (\<And>k. length (iv k) = 16) \<Longrightarrow> receive_message P now secret iv m th = Some (th', evs) \<Longrightarrow> tp_step P th evs th'"
| check: "handle_check_links P now th = Some (th', evs) \<Longrightarrow> tp_step P th evs th'"
| keep: "handle_keep_links P now th = Some (th', evs) \<Longrightarrow> tp_step P th evs th'"
| cleanup: "tp_step P th [] (handle_cleanup th)"
| release: "tp_step P th [] (release_cache now th)"
| link: "length (dd_address_hash dest) = 16 \<Longrightarrow> valid_key P (idt_verifying_key (dd_identity dest)) \<Longrightarrow>
    tp_link P now secret sk dest th = (l, th', evs) \<Longrightarrow> tp_step P th evs th'"
| destination: "add_destination P (private_new P secret sk) (name_new P app aspects) th = (th', d) \<Longrightarrow> tp_step P th [] th'"
| announce: "send_announce P now rand d app th = Some (th', evs) \<Longrightarrow> tp_step P th evs th'"
| send: "handler_send P now msg th = (th', evs) \<Longrightarrow> tp_step P th evs th'"
| to_all: "send_to_all_out_links P now iv payload th = Some (th', evs) \<Longrightarrow> tp_step P th evs th'"
| to_out: "send_to_out_links_with_context P now iv dest payload ctx th = Some (th', evs) \<Longrightarrow> tp_step P th evs th'"
| to_in: "send_to_in_links P now iv dest payload th = Some (th', evs) \<Longrightarrow> tp_step P th evs th'"
| to_id: "send_to_link_id_with_context P now iv lid payload ctx th = Some (b, th', evs) \<Longrightarrow> tp_step P th evs th'"
| close: "close_out_link k th = (th', evs) \<Longrightarrow> tp_step P th evs th'"
| iface: "manager_new_channel P (th_manager th) = (m, a) \<Longrightarrow> tp_step P th [] (th\<lparr>th_manager := m\<rparr>)"

inductive_cases tp_stepE: "tp_step P th evs th'"

inductive tp_reachable :: "prims \<Rightarrow> transport_handler \<Rightarrow> bool" for P where
  start: "tp_reachable P (transport_new c)"
| step: "tp_reachable P th \<Longrightarrow> tp_step P th evs th' \<Longrightarrow> tp_reachable P th'"

subsection \<open>Loops over the links\<close>

text \<open>Operations on links leave everything of the node as it is but the packet cache.\<close>

definition only_cache :: "transport_handler \<Rightarrow> transport_handler \<Rightarrow> bool" where
  "only_cache th th' \<longleftrightarrow> (\<exists>c. th' = th\<lparr>th_packet_cache := c\<rparr> \<and> (hm_wf (th_packet_cache th) \<longrightarrow> hm_wf c))"

lemma only_cache_refl [simp]: "only_cache th th"
  unfolding only_cache_def by (rule exI[of _ "th_packet_cache th"]) simp

lemma only_cache_trans: "only_cache a b \<Longrightarrow> only_cache b c \<Longrightarrow> only_cache a c"
  by (auto simp: only_cache_def)

lemma only_cache_fields:
  assumes "only_cache th th'"
  shows "th_config th' = th_config th" "th_manager th' = th_manager th" "th_path_table th' = th_path_table th"
    "th_single_in th' = th_single_in th" "th_single_out th' = th_single_out th" "th_out_links th' = th_out_links th"
    "th_in_links th' = th_in_links th" "hm_wf (th_packet_cache th) \<Longrightarrow> hm_wf (th_packet_cache th')"
  using assms by (auto simp: only_cache_def)

lemma pc_update_wf: "hm_wf m \<Longrightarrow> hm_wf (snd (pc_update h now p m))"
  by (simp add: pc_update_def Let_def hmap_simps split: option.split)

lemma handler_send_only_cache: "handler_send P now msg th = (th', o1) \<Longrightarrow> only_cache th th'"
  by (auto simp: handler_send_def only_cache_def pc_update_wf)

lemma handler_send_packet_only_cache: "handler_send_packet P now p th = (th', o1) \<Longrightarrow> only_cache th th'"
  unfolding handler_send_packet_def by (rule handler_send_only_cache)

locale link_loop =
  fixes f :: "bytes \<Rightarrow> link \<Rightarrow> transport_handler \<Rightarrow> (link \<times> transport_handler \<times> tp_output list) option"
    and ok :: "bytes \<Rightarrow> link \<Rightarrow> bool"
  assumes keeps: "ok k l \<Longrightarrow> f k l th = Some (l', th', o1) \<Longrightarrow> ok k l' \<and> only_cache th th'"
begin

lemma each_link_keeps:
  "(\<forall>(k, l) \<in> set ls. ok k l) \<Longrightarrow> each_link f ls th = Some (ls', th', o1) \<Longrightarrow>
    map fst ls' = map fst ls \<and> (\<forall>(k, l) \<in> set ls'. ok k l) \<and> only_cache th th'"
proof (induction ls arbitrary: th ls' o1)
  case (Cons x ls)
  obtain k l where x: "x = (k, l)" by force
  with Cons.prems(2) obtain l1 th1 o2 where f: "f k l th = Some (l1, th1, o2)" by (auto split: option.split_asm)
  with x Cons.prems(2) obtain ls2 o3 where r: "each_link f ls th1 = Some (ls2, th', o3)" "ls' = (k, l1) # ls2" by auto
  have "ok k l1" "only_cache th th1" using keeps[OF _ f] Cons.prems(1) x by auto
  moreover have "map fst ls2 = map fst ls \<and> (\<forall>(k, l) \<in> set ls2. ok k l) \<and> only_cache th1 th'"
    using Cons.IH[OF _ r(1)] Cons.prems(1) by simp
  ultimately show ?case using x r(2) by (auto intro: only_cache_trans)
qed simp

end

locale total_link_loop = link_loop +
  assumes total: "ok k l \<Longrightarrow> f k l th \<noteq> None"
begin

lemma each_link_total: "(\<forall>(k, l) \<in> set ls. ok k l) \<Longrightarrow> each_link f ls th \<noteq> None"
proof (induction ls arbitrary: th)
  case (Cons x ls)
  obtain k l where x: "x = (k, l)" by force
  then obtain l1 th1 o2 where f: "f k l th = Some (l1, th1, o2)" using total[of k l th] Cons.prems by auto
  with Cons.IH[of th1] Cons.prems x show ?case by auto
qed simp

end

subsection \<open>What holds of the links\<close>

text \<open>An accepted link is active under its identifier; a requested one is filed under its destination, and
  while active it has the key agreed with a peer that holds the destination's signing key.\<close>

definition session_agreed :: "prims \<Rightarrow> link \<Rightarrow> bool" where
  "session_agreed P l \<longleftrightarrow> lk_key l = private_derive_key P (lk_priv l) (idt_public_key (lk_peer l)) (Some (lk_id l))"

definition in_link_ok :: "prims \<Rightarrow> bytes \<Rightarrow> link \<Rightarrow> bool" where
  "in_link_ok P k l \<longleftrightarrow> prims_ok P \<and> lk_id l = k \<and> length k = 16 \<and> lk_status l = Active \<and> session_agreed P l"

definition out_link_ok :: "prims \<Rightarrow> bytes \<Rightarrow> link \<Rightarrow> bool" where
  "out_link_ok P k l \<longleftrightarrow> prims_ok P \<and> dd_address_hash (lk_destination l) = k \<and> length k = 16 \<and> length (lk_id l) = 16 \<and> length (lk_key l) = 64
     \<and> valid_key P (idt_verifying_key (dd_identity (lk_destination l))) \<and> lk_status l \<in> {Pending, Active, Closed}
     \<and> (lk_status l = Active \<longrightarrow> session_agreed P l \<and> idt_verifying_key (lk_peer l) = idt_verifying_key (dd_identity (lk_destination l)))"

lemma in_link_key: "in_link_ok P k l \<Longrightarrow> length (lk_key l) = 64"
  by (simp add: in_link_ok_def session_agreed_def derived_key_length)

lemma link_decrypt_total: "length (lk_key l) = 64 \<Longrightarrow> link_decrypt P l d n \<noteq> None"
  by (simp add: link_decrypt_def private_decrypt_def session_fernet_new)

lemma link_handle_data_total: "length (lk_key l) = 64 \<Longrightarrow> link_handle_data P now l p \<noteq> None"
  using link_decrypt_total[of l P "sb_as_slice (p_data p)" PACKET_MDU] by (auto simp: link_handle_data_def Let_def split: option.splits sum.splits)

lemma validate_proof_total:
  "length (lk_id l) = 16 \<Longrightarrow> valid_key P (idt_verifying_key (dd_identity (lk_destination l))) \<Longrightarrow>
    validate_proof_packet P (lk_destination l) (lk_id l) p \<noteq> None"
  using validate_proof_cases[of "lk_id l" "lk_destination l" P p] by (simp add: valid_key_def Let_def)

lemma validate_proof_key:
  "length (lk_id l) = 16 \<Longrightarrow> valid_key P (idt_verifying_key (dd_identity (lk_destination l))) \<Longrightarrow>
    validate_proof_packet P (lk_destination l) (lk_id l) p = Some (Inr i) \<Longrightarrow>
    idt_verifying_key i = idt_verifying_key (dd_identity (lk_destination l))"
  using validate_proof_cases[of "lk_id l" "lk_destination l" P p] by (auto simp: valid_key_def Let_def split: if_splits)

lemma out_link_handle_total: "out_link_ok P k l \<Longrightarrow> link_handle_packet P now l p \<noteq> None"
  using link_handle_data_total[of l P now p] validate_proof_total[of l P p]
  by (auto simp: out_link_ok_def link_handle_packet_def Let_def split: packet_type.split option.split sum.split)

lemma in_link_handle_total: "in_link_ok P k l \<Longrightarrow> link_handle_packet P now l p \<noteq> None"
  using link_handle_data_total[of l P now p] in_link_key[of P k l]
  by (auto simp: in_link_ok_def link_handle_packet_def split: packet_type.split)

lemma out_link_handle_ok:
  assumes "out_link_ok P k l" and "link_handle_packet P now l p = Some (l', res, evs)"
  shows "out_link_ok P k l'" and "res = HandledActivated \<Longrightarrow> lk_status l' = Active"
proof -
  have "out_link_ok P k l' \<and> (res = HandledActivated \<longrightarrow> lk_status l' = Active)"
    using assms(2)
  proof (cases rule: link_handle_packet_cases)
    case data
    then show ?thesis using assms(1) by (auto simp: out_link_ok_def session_agreed_def)
  next
    case (proved i)
    then show ?thesis using assms(1) validate_proof_key[of l P p i]
      by (auto simp: out_link_ok_def session_agreed_def link_handshake_def derived_key_length)
  qed (use assms(1) in auto)
  then show "out_link_ok P k l'" "res = HandledActivated \<Longrightarrow> lk_status l' = Active" by blast+
qed

lemma in_link_handle_ok:
  assumes "in_link_ok P k l" and "link_handle_packet P now l p = Some (l', res, evs)"
  shows "in_link_ok P k l'"
  using assms(2)
proof (cases rule: link_handle_packet_cases)
  case data
  then show ?thesis using assms(1) by (auto simp: in_link_ok_def session_agreed_def)
qed (use assms(1) in \<open>auto simp: in_link_ok_def\<close>)

lemma create_rtt_total:
  assumes "prims_ok P" and "length iv = 16" and "length (lk_key l) = 64"
  shows "create_rtt P iv l \<noteq> None"
proof -
  have "48 + padded_len (length (rmp_write_f32 (as_secs_f32 (lk_rtt l)))) \<le> PACKET_MDU"
    by (simp add: rmp_write_f32_def padded_len_def PACKET_MDU_def)
  from session_roundtrip(1)[OF assms this] show ?thesis by (simp add: create_rtt_def link_encrypt_def)
qed


interpretation proof_loop: total_link_loop "proof_on_link P now iv p" "\<lambda>k l. (\<forall>k. length (iv k) = 16) \<and> out_link_ok P k l" for P now iv p
proof
  fix k l th l' th' o1
  assume ok: "(\<forall>k. length (iv k) = 16) \<and> out_link_ok P k l" and f: "proof_on_link P now iv p k l th = Some (l', th', o1)"
  then obtain res evs where h: "link_handle_packet P now l p = Some (l', res, evs)"
    by (auto simp: proof_on_link_def Let_def split: option.split_asm if_split_asm prod.split_asm)
  have "only_cache th th'"
    using f h by (auto simp: proof_on_link_def Let_def split: option.split_asm if_split_asm prod.split_asm dest: handler_send_packet_only_cache)
  then show "((\<forall>k. length (iv k) = 16) \<and> out_link_ok P k l') \<and> only_cache th th'" using ok out_link_handle_ok(1)[OF _ h] by blast
next
  fix k l th
  assume ok: "(\<forall>k. length (iv k) = 16) \<and> out_link_ok P k l"
  then obtain l' res evs where h: "link_handle_packet P now l p = Some (l', res, evs)" using out_link_handle_total[of P k l now p] by auto
  with ok have "out_link_ok P k l'" using out_link_handle_ok(1) by blast
  then have "create_rtt P (iv k) l' \<noteq> None" using ok create_rtt_total[of P "iv k" l'] by (simp add: out_link_ok_def)
  with h show "proof_on_link P now iv p k l th \<noteq> None" by (auto simp: proof_on_link_def Let_def split: prod.split)
qed

interpretation data_loop: total_link_loop "data_on_link P now p" "out_link_ok P" for P now p
proof
  fix k l th l' th' o1
  assume "out_link_ok P k l" "data_on_link P now p k l th = Some (l', th', o1)"
  then show "out_link_ok P k l' \<and> only_cache th th'" by (auto simp: data_on_link_def intro: out_link_handle_ok(1))
next
  fix k l th
  assume "out_link_ok P k l"
  then show "data_on_link P now p k l th \<noteq> None" using out_link_handle_total[of P k l now p] by (simp add: data_on_link_def)
qed

interpretation keep_loop: total_link_loop "keep_on_link P now" "out_link_ok P" for P now
  by unfold_locales (auto simp: keep_on_link_def dest: handler_send_packet_only_cache split: if_split_asm)

lemma link_request_ok:
  assumes "out_link_ok P k l" and "link_request P now l = (l', p)"
  shows "out_link_ok P k l'" and "lk_status l' = Pending"
  using assms by (auto simp: out_link_ok_def link_request_def Let_def link_id_length)

interpretation repeat_loop: total_link_loop "repeat_request P now" "out_link_ok P" for P now
proof
  fix k l th l' th' o1
  assume ok: "out_link_ok P k l" and f: "repeat_request P now k l th = Some (l', th', o1)"
  have "out_link_ok P k (link_restart l)" using ok by (simp add: out_link_ok_def link_restart_def)
  with ok f show "out_link_ok P k l' \<and> only_cache th th'"
    by (auto simp: repeat_request_def Let_def dest: handler_send_packet_only_cache intro: link_request_ok(1)
        split: if_split_asm prod.split_asm)
next
  fix k l th
  show "repeat_request P now k l th \<noteq> None" by (simp add: repeat_request_def Let_def split: prod.split)
qed

interpretation send_loop: link_loop "send_on_link P now iv meant ctx payload" ok for P now iv meant ctx payload ok
  by unfold_locales
    (auto simp: send_on_link_def dest: handler_send_packet_only_cache split: if_split_asm option.split_asm sum.split_asm)

context link_loop
begin

lemma on_out_links_keeps:
  assumes "\<forall>(k, l) \<in> set (th_out_links th). ok k l" and "on_out_links f th = Some (th', evs)"
  shows "\<exists>th1 ls. only_cache th th1 \<and> th' = th1\<lparr>th_out_links := ls\<rparr> \<and> map fst ls = map fst (th_out_links th) \<and> (\<forall>(k, l) \<in> set ls. ok k l)"
proof -
  obtain ls th1 where "each_link f (th_out_links th) th = Some (ls, th1, evs)" "th' = th1\<lparr>th_out_links := ls\<rparr>"
    using assms(2) by (auto simp: on_out_links_def)
  with each_link_keeps[OF assms(1)] show ?thesis by blast
qed

end

subsection \<open>The invariant of the node\<close>

definition own_destination_ok :: "prims \<Rightarrow> bytes \<Rightarrow> single_input \<Rightarrow> bool" where
  "own_destination_ok P k d \<longleftrightarrow> dd_address_hash (d_desc d) = k \<and> length k = 16 \<and> valid_key P (idt_verifying_key (dd_identity (d_desc d)))"

definition tp_invar :: "prims \<Rightarrow> transport_handler \<Rightarrow> bool" where
  "tp_invar P th \<longleftrightarrow> hm_wf (th_single_in th) \<and> hm_wf (th_single_out th) \<and> hm_wf (th_out_links th) \<and> hm_wf (th_in_links th) \<and> hm_wf (th_packet_cache th)
     \<and> (\<forall>(k, d) \<in> set (th_single_in th). own_destination_ok P k d)
     \<and> (\<forall>(k, l) \<in> set (th_out_links th). out_link_ok P k l) \<and> (\<forall>(k, l) \<in> set (th_in_links th). in_link_ok P k l)"

lemma tp_invar_new: "tp_invar P (transport_new c)"
  by (simp add: tp_invar_def transport_new_def hmap_simps)

lemma tp_invar_cache: "tp_invar P th \<Longrightarrow> only_cache th th' \<Longrightarrow> tp_invar P th'"
  by (auto simp: tp_invar_def only_cache_def)

lemma tp_invar_out:
  "tp_invar P th \<Longrightarrow> map fst ls = map fst (th_out_links th) \<Longrightarrow> \<forall>(k, l) \<in> set ls. out_link_ok P k l \<Longrightarrow>
    tp_invar P (th\<lparr>th_out_links := ls\<rparr>)"
  by (simp add: tp_invar_def hm_wf_def)

lemma loop_invar:
  assumes "link_loop f (out_link_ok P)" and "tp_invar P th" and "on_out_links f th = Some (th', evs)"
  shows "tp_invar P th'"
proof -
  obtain th1 ls where "only_cache th th1" "th' = th1\<lparr>th_out_links := ls\<rparr>" "map fst ls = map fst (th_out_links th)"
      "\<forall>(k, l) \<in> set ls. out_link_ok P k l"
    using link_loop.on_out_links_keeps[OF assms(1) _ assms(3)] assms(2) by (auto simp: tp_invar_def)
  then show ?thesis using tp_invar_out[OF tp_invar_cache[OF assms(2)]] only_cache_fields(6) by auto
qed

lemma hm_modify_ok:
  "hm_wf m \<Longrightarrow> map_of m k = Some v \<Longrightarrow> \<forall>(k, v) \<in> set m. Q k v \<Longrightarrow> Q k v' \<Longrightarrow> \<forall>(k, v) \<in> set (hm_modify k (\<lambda>_. v') m). Q k v"
  by (auto simp: hm_modify_def split: if_split_asm)

lemma hm_insert_ok:
  "hm_wf m \<Longrightarrow> \<forall>(k, v) \<in> set m. Q k v \<Longrightarrow> Q k v \<Longrightarrow> \<forall>(k, v) \<in> set (hm_insert k v m). Q k v"
  by (auto simp: set_hm_insert split: if_split_asm)

lemma fold_remove_subset: "set (fold hm_remove ks m) \<subseteq> set m"
proof (induction ks arbitrary: m)
  case (Cons k ks)
  have "set (hm_remove k m) \<subseteq> set m" by (auto simp: set_hm_remove)
  with Cons[of "hm_remove k m"] show ?case by simp
qed simp

lemma fold_remove_wf: "hm_wf m \<Longrightarrow> hm_wf (fold hm_remove ks m)"
  by (induction ks arbitrary: m) (simp_all add: hm_wf_remove)


lemma tp_invar_lookups:
  assumes "tp_invar P th"
  shows "map_of (th_single_in th) k = Some d \<Longrightarrow> own_destination_ok P k d" "map_of (th_out_links th) k = Some l \<Longrightarrow> out_link_ok P k l"
    "map_of (th_in_links th) k = Some l \<Longrightarrow> in_link_ok P k l"
  using assms by (auto simp: tp_invar_def dest!: map_of_SomeD)

lemma tp_invar_in:
  "tp_invar P th \<Longrightarrow> hm_wf ls \<Longrightarrow> \<forall>(k, l) \<in> set ls. in_link_ok P k l \<Longrightarrow> tp_invar P (th\<lparr>th_in_links := ls\<rparr>)"
  by (simp add: tp_invar_def)

lemma proof_loop_ok: "(\<And>k. length (iv k) = 16) \<Longrightarrow> link_loop (proof_on_link P now iv p) (out_link_ok P)"
  using proof_loop.keeps by unfold_locales blast

lemma handle_data_in_ok:
  assumes "tp_invar P th"
  shows "handle_data_in P now p th \<noteq> None" and "handle_data_in P now p th = Some (th', evs) \<Longrightarrow> tp_invar P th'"
proof -
  have "\<exists>th' evs. handle_data_in P now p th = Some (th', evs) \<and> tp_invar P th'"
  proof (cases "map_of (th_in_links th) (p_destination p)")
    case None
    then show ?thesis using assms by (simp add: handle_data_in_def)
  next
    case (Some l)
    note ok = tp_invar_lookups(3)[OF assms Some]
    obtain l' res evs where h: "link_handle_packet P now l p = Some (l', res, evs)" using in_link_handle_total[OF ok, of now p] by auto
    let ?th1 = "th\<lparr>th_in_links := hm_modify (p_destination p) (\<lambda>_. l') (th_in_links th)\<rparr>"
    have in1: "hm_wf (hm_modify (p_destination p) (\<lambda>_. l') (th_in_links th))"
      and in2: "\<forall>(k, l) \<in> set (hm_modify (p_destination p) (\<lambda>_. l') (th_in_links th)). in_link_ok P k l"
      using assms Some hm_modify_ok[of "th_in_links th" "p_destination p" l "in_link_ok P" l'] in_link_handle_ok[OF ok h] by (auto simp: tp_invar_def hm_wf_modify)
    have th1: "tp_invar P ?th1" using tp_invar_in[OF assms in1 in2] .
    obtain th2 sent where s: "handler_send_packet P now (keep_alive_packet l' 0xFE) ?th1 = (th2, sent)" by force
    have "tp_invar P th2" using tp_invar_cache[OF th1 handler_send_packet_only_cache[OF s]] .
    with Some h th1 s show ?thesis by (simp add: handle_data_in_def Let_def)
  qed
  then show "handle_data_in P now p th \<noteq> None" "handle_data_in P now p th = Some (th', evs) \<Longrightarrow> tp_invar P th'" by auto
qed

lemma on_out_links_total: "total_link_loop f (out_link_ok P) \<Longrightarrow> tp_invar P th \<Longrightarrow> on_out_links f th \<noteq> None"
  using total_link_loop.each_link_total[of f "out_link_ok P" "th_out_links th" th] by (auto simp: on_out_links_def tp_invar_def)

lemma handle_data_ok:
  assumes "tp_invar P th"
  shows "\<exists>th' evs. handle_data P now p th = Some (th', evs) \<and> tp_invar P th'"
proof (cases "h_destination_type (p_header p) = Link")
  case True
  obtain th1 o1 where d: "handle_data_in P now p th = Some (th1, o1)" "tp_invar P th1" using handle_data_in_ok[OF assms, of now p] by auto
  obtain th2 o2 where e: "handle_data_out P now p th1 = Some (th2, o2)"
    using on_out_links_total[OF data_loop.total_link_loop_axioms d(2), of now p] by (auto simp: handle_data_out_def)
  then have "tp_invar P th2" using loop_invar[OF data_loop.link_loop_axioms d(2)] by (auto simp: handle_data_out_def)
  with True d e show ?thesis by (simp add: handle_data_def tp_bind_def)
qed (use assms in \<open>simp add: handle_data_def\<close>)

lemma handle_proof_ok:
  assumes "tp_invar P th" and iv: "\<And>k. length (iv k) = 16"
  shows "\<exists>th' evs. handle_proof P now iv p th = Some (th', evs) \<and> tp_invar P th'"
proof -
  have "\<forall>(k, l) \<in> set (th_out_links th). (\<forall>k. length (iv k) = 16) \<and> out_link_ok P k l" using assms by (auto simp: tp_invar_def)
  from proof_loop.each_link_total[OF this, of now p th]
  obtain th' evs where "handle_proof P now iv p th = Some (th', evs)" by (auto simp: handle_proof_def on_out_links_def)
  with loop_invar[OF proof_loop_ok[OF iv] assms(1)] show ?thesis by (auto simp: handle_proof_def)
qed

lemma handle_announce_ok:
  assumes "tp_invar P th" and "packet_wf p"
  shows "\<exists>th' evs. handle_announce P p th = Some (th', evs) \<and> tp_invar P th'"
proof -
  have "announce_validate P p \<noteq> None" using announce_validate_cases[of p P] assms(2) by (simp add: packet_wf_def Let_def)
  then show ?thesis using assms(1)
    by (auto simp: handle_announce_def tp_invar_def hm_wf_insert split: option.split sum.split)
qed

lemma new_from_request_ok:
  assumes "prims_ok P"
  shows "link_new_from_request P now secret p sk dest \<noteq> None"
    and "link_new_from_request P now secret p sk dest = Some (Inr l) \<Longrightarrow>
      lk_id l = link_id_from P p \<and> lk_status l = Handshake \<and> session_agreed P l \<and> lk_destination l = dest"
  by (auto simp: link_new_from_request_def identity_new_from_slices_def Let_def link_handshake_def session_agreed_def PUBLIC_KEY_LENGTH_def
      split: if_split_asm)

lemma handle_link_request_ok:
  assumes "prims_ok P" and "tp_invar P th"
  shows "\<exists>th' evs. handle_link_request P now secret p th = Some (th', evs) \<and> tp_invar P th'"
proof (cases "map_of (th_single_in th) (p_destination p)")
  case (Some d)
  let ?r = "link_new_from_request P now secret p (pid_sign_key (d_identity d)) (d_desc d)"
  show ?thesis
  proof (cases "dest_handle_packet d p = DestLinkProof \<and> \<not> hm_contains (th_in_links th) (link_id_from P p) \<and> (\<exists>l. ?r = Some (Inr l))")
    case True
    then obtain l where l: "?r = Some (Inr l)" by blast
    note n = new_from_request_ok(2)[OF assms(1) l]
    obtain l' pf evs where pv: "link_prove P l = (l', pf, evs)" by (metis prod_cases3)
    have l': "in_link_ok P (lk_id l') l'"
      using pv n assms(1) link_id_length[OF assms(1), of p] by (auto simp: link_prove_def in_link_ok_def session_agreed_def Let_def)
    obtain th1 sent where s: "handler_send_packet P now pf th = (th1, sent)" by force
    have th1: "tp_invar P th1" using tp_invar_cache[OF assms(2) handler_send_packet_only_cache[OF s]] .
    have "tp_invar P (th1\<lparr>th_in_links := hm_insert (lk_id l') l' (th_in_links th1)\<rparr>)"
      using th1 hm_insert_ok[of "th_in_links th1" "in_link_ok P" "lk_id l'" l'] l' by (intro tp_invar_in) (auto simp: tp_invar_def hm_wf_insert)
    with Some True l pv s show ?thesis by (simp add: handle_link_request_def)
  next
    case False
    with Some assms(2) new_from_request_ok(1)[OF assms(1), of now secret p "pid_sign_key (d_identity d)" "d_desc d"] show ?thesis
      by (auto simp: handle_link_request_def split: option.split sum.split destination_handle_status.split)
  qed
qed (use assms(2) in \<open>simp add: handle_link_request_def\<close>)

lemma receive_message_ok:
  assumes "prims_ok P" and "tp_invar P th" and "packet_wf (rx_packet m)" and iv: "\<And>k. length (iv k) = 16"
  shows "\<exists>th' evs. receive_message P now secret iv m th = Some (th', evs) \<and> tp_invar P th'"
proof -
  obtain th1 o1 where f: "(if tc_broadcast (th_config th)
      then handler_send P now \<lparr>tx_type = TxBroadcast (Some (rx_address m)), tx_packet = rx_packet m\<rparr> th else (th, [])) = (th1, o1)" by force
  have th1: "tp_invar P th1" using f assms(2) by (auto split: if_split_asm dest!: handler_send_only_cache intro: tp_invar_cache)
  have "\<exists>th' evs. dispatch_packet P now secret iv (rx_packet m) th1 = Some (th', evs) \<and> tp_invar P th'"
    using handle_announce_ok[OF th1 assms(3)] handle_link_request_ok[OF assms(1) th1] handle_proof_ok[OF th1 iv] handle_data_ok[OF th1]
    by (simp add: dispatch_packet_def split: packet_type.split)
  with f show ?thesis by (auto simp: receive_message_def tp_bind_def)
qed


lemma tp_invar_subset:
  "tp_invar P th \<Longrightarrow> tp_invar P (th\<lparr>th_in_links := fold hm_remove ks (th_in_links th)\<rparr>)"
  "tp_invar P th \<Longrightarrow> tp_invar P (th\<lparr>th_out_links := fold hm_remove ks (th_out_links th)\<rparr>)"
  using fold_remove_subset[of ks "th_in_links th"] fold_remove_subset[of ks "th_out_links th"]
  by (auto simp: tp_invar_def fold_remove_wf)

lemma handle_check_links_ok:
  assumes "tp_invar P th"
  shows "\<exists>th' evs. handle_check_links P now th = Some (th', evs) \<and> tp_invar P th'"
proof -
  obtain th1 o1 where c: "check_in_links now th = (th1, o1)" by force
  obtain th2 o2 where d: "drop_closed_links th1 = (th2, o2)" by force
  have "tp_invar P th1" using c tp_invar_subset(1)[OF assms] by (auto simp: check_in_links_def Let_def)
  then have th2: "tp_invar P th2" using d tp_invar_subset(2) by (auto simp: drop_closed_links_def Let_def)
  obtain th3 o3 where e: "on_out_links (repeat_request P now) th2 = Some (th3, o3)"
    using on_out_links_total[OF repeat_loop.total_link_loop_axioms th2, of now] by auto
  with loop_invar[OF repeat_loop.link_loop_axioms th2] c d show ?thesis by (auto simp: handle_check_links_def tp_bind_def)
qed

lemma handle_keep_links_ok:
  assumes "tp_invar P th"
  shows "\<exists>th' evs. handle_keep_links P now th = Some (th', evs) \<and> tp_invar P th'"
  using on_out_links_total[OF keep_loop.total_link_loop_axioms assms, of now] loop_invar[OF keep_loop.link_loop_axioms assms, of now]
  by (auto simp: handle_keep_links_def)

lemma tp_link_ok:
  assumes "prims_ok P" and "tp_invar P th" and "length (dd_address_hash dest) = 16" and "valid_key P (idt_verifying_key (dd_identity dest))"
    and "tp_link P now secret sk dest th = (l, th', evs)"
  shows "tp_invar P th'"
proof -
  obtain l1 p where r: "link_request P now (link_new P now secret sk dest) = (l1, p)" by force
  obtain th1 o1 where s: "handler_send_packet P now p th = (th1, o1)" by force
  have "out_link_ok P (dd_address_hash dest) (link_new P now secret sk dest)"
    using assms(1,3,4) by (simp add: out_link_ok_def link_new_def derived_key_empty_def identity_sizes)
  then have l1: "out_link_ok P (dd_address_hash dest) l1" using link_request_ok(1)[OF _ r] by blast
  have th1: "tp_invar P th1" using tp_invar_cache[OF assms(2) handler_send_packet_only_cache[OF s]] .
  then have "tp_invar P (th1\<lparr>th_out_links := hm_insert (dd_address_hash dest) l1 (th_out_links th1)\<rparr>)"
    using hm_insert_ok[of "th_out_links th1" "out_link_ok P" "dd_address_hash dest" l1] l1 by (simp add: tp_invar_def hm_wf_insert)
  with assms(2,5) r s show ?thesis by (auto simp: tp_link_def Let_def split: option.split_asm if_split_asm)
qed

lemma add_destination_ok:
  assumes "prims_ok P" and "tp_invar P th" and "add_destination P (private_new P secret sk) name th = (th', d)"
  shows "tp_invar P th'"
proof -
  have "own_destination_ok P (dd_address_hash (d_desc d)) d"
    using assms(1,3) single_input_lengths[OF assms(1), of "private_new P secret sk" name]
    by (auto simp: add_destination_def Let_def own_destination_ok_def valid_key_def single_input_new_def private_new_keys prims_ok_def)
  with assms(2,3) hm_insert_ok[of "th_single_in th" "own_destination_ok P" "dd_address_hash (d_desc d)" d] show ?thesis
    by (auto simp: add_destination_def Let_def tp_invar_def hm_wf_insert)
qed

lemma send_first_only_cache: "send_first P now iv lid ctx payload ls th = Some (b, th', evs) \<Longrightarrow> only_cache th th'"
  by (induction ls) (auto split: if_split_asm option.split_asm sum.split_asm dest: handler_send_packet_only_cache)

lemma send_to_link_id_only_cache: "send_to_link_id_with_context P now iv lid payload ctx th = Some (b, th', evs) \<Longrightarrow> only_cache th th'"
  by (auto simp: send_to_link_id_with_context_def split: option.split_asm if_split_asm sum.split_asm
      dest: handler_send_packet_only_cache send_first_only_cache)

lemma send_to_in_links_ok:
  assumes "tp_invar P th" and "send_to_in_links P now iv dest payload th = Some (th', evs)"
  shows "tp_invar P th'"
proof -
  let ?f = "send_on_link P now iv (\<lambda>l. dd_address_hash (lk_destination l) = dest) CtxNone payload"
  obtain ls th1 where e: "each_link ?f (th_in_links th) th = Some (ls, th1, evs)" "th' = th1\<lparr>th_in_links := ls\<rparr>"
    using assms(2) by (auto simp: send_to_in_links_def)
  have "map fst ls = map fst (th_in_links th)" "\<forall>(k, l) \<in> set ls. in_link_ok P k l" "only_cache th th1"
    using send_loop.each_link_keeps[OF _ e(1), of "in_link_ok P"] assms(1) by (auto simp: tp_invar_def)
  moreover from this have "hm_wf ls" using assms(1) by (simp add: tp_invar_def hm_wf_def)
  ultimately show ?thesis using tp_invar_in[OF tp_invar_cache[OF assms(1)]] e(2) by blast
qed

lemma close_out_link_ok:
  assumes "tp_invar P th" and "close_out_link k th = (th', evs)"
  shows "tp_invar P th'"
proof (cases "map_of (th_out_links th) k")
  case (Some l)
  have "out_link_ok P k (fst (link_close l))" using tp_invar_lookups(2)[OF assms(1) Some] by (simp add: out_link_ok_def link_close_def Let_def)
  with hm_modify_ok[of "th_out_links th" k l "out_link_ok P" "fst (link_close l)"] assms Some show ?thesis
    by (auto simp: close_out_link_def link_close_def Let_def tp_invar_def hm_wf_modify)
qed (use assms in \<open>simp add: close_out_link_def\<close>)

lemma release_wf: "hm_wf m \<Longrightarrow> hm_wf (pc_release now d m)"
  by (simp add: pc_release_def fold_remove_wf)

lemma tp_step_invar:
  assumes "prims_ok P" and "tp_step P th evs th'" and "tp_invar P th"
  shows "tp_invar P th'"
  using assms(2,3)
proof cases
  case (receive m iv now secret)
  then show ?thesis using receive_message_ok[OF assms(1,3) receive(1), of iv now secret] by auto
next
  case (announce now rand d app)
  then show ?thesis using assms(3)
    by (auto simp: send_announce_def split: sum.split_asm dest!: handler_send_packet_only_cache intro: tp_invar_cache)
next
  case (to_all now iv payload)
  then show ?thesis using loop_invar[OF send_loop.link_loop_axioms assms(3)] by (simp add: send_to_all_out_links_def)
next
  case (to_out now iv dest payload ctx)
  then show ?thesis using loop_invar[OF send_loop.link_loop_axioms assms(3)] by (simp add: send_to_out_links_with_context_def)
next
  case (check now)
  then show ?thesis using handle_check_links_ok[OF assms(3), of now] by auto
next
  case (keep now)
  then show ?thesis using handle_keep_links_ok[OF assms(3), of now] by auto
next
  case cleanup
  then show ?thesis using assms(3) by (simp add: handle_cleanup_def tp_invar_def)
next
  case (release now)
  then show ?thesis using assms(3) by (simp add: release_cache_def tp_invar_def release_wf)
next
  case (iface m a)
  then show ?thesis using assms(3) by (simp add: tp_invar_def)
qed (use assms(1,3) in \<open>blast intro: tp_link_ok add_destination_ok send_to_in_links_ok close_out_link_ok tp_invar_cache
    dest: handler_send_only_cache send_to_link_id_only_cache\<close>)+

lemma tp_reachable_ok: "tp_reachable P th \<Longrightarrow> prims_ok P \<Longrightarrow> tp_invar P th"
  by (induction rule: tp_reachable.induct) (auto intro: tp_invar_new tp_step_invar)


context link_loop
begin

text \<open>What a loop did to one of the links: it ran on it in a state that differs in the packet cache.\<close>

lemma each_link_member:
  "(\<forall>(k, l) \<in> set ls. ok k l) \<Longrightarrow> each_link f ls th = Some (ls', th', o1) \<Longrightarrow> (k, l) \<in> set ls \<Longrightarrow>
    \<exists>th1 l' th2 o2. only_cache th th1 \<and> f k l th1 = Some (l', th2, o2) \<and> (k, l') \<in> set ls' \<and> set o2 \<subseteq> set o1"
proof (induction ls arbitrary: th ls' o1)
  case (Cons x ls)
  obtain k0 l0 where x: "x = (k0, l0)" by force
  with Cons.prems(2) obtain l1 th1 o2 where f0: "f k0 l0 th = Some (l1, th1, o2)" by (auto split: option.split_asm)
  with x Cons.prems(2) obtain ls2 o3 where r: "each_link f ls th1 = Some (ls2, th', o3)" "ls' = (k0, l1) # ls2" "o1 = o2 @ o3" by auto
  show ?case
  proof (cases "(k, l) = x")
    case True
    then show ?thesis using f0 r x by (intro exI[of _ th]) auto
  next
    case False
    then have "(k, l) \<in> set ls" using Cons.prems(3) by auto
    from Cons.IH[OF _ r(1) this] Cons.prems(1) obtain th2 l' th3 o4 where
      m: "only_cache th1 th2" "f k l th2 = Some (l', th3, o4)" "(k, l') \<in> set ls2" "set o4 \<subseteq> set o3" by auto
    moreover have "only_cache th th1" using keeps[OF _ f0] Cons.prems(1) x by auto
    ultimately show ?thesis using r by (intro exI[of _ th2] exI[of _ l'] exI[of _ th3] exI[of _ o4]) (auto intro: only_cache_trans)
  qed
qed simp

lemma on_out_links_member:
  assumes "\<forall>(k, l) \<in> set (th_out_links th). ok k l" and "on_out_links f th = Some (th', o1)" and "map_of (th_out_links th) k = Some l"
    and "hm_wf (th_out_links th)"
  obtains th1 l' th2 o2 where "only_cache th th1" "f k l th1 = Some (l', th2, o2)" "map_of (th_out_links th') k = Some l'" "set o2 \<subseteq> set o1"
proof -
  obtain ls th3 where e: "each_link f (th_out_links th) th = Some (ls, th3, o1)" "th' = th3\<lparr>th_out_links := ls\<rparr>"
    using assms(2) by (auto simp: on_out_links_def)
  have "hm_wf ls" using each_link_keeps[OF assms(1) e(1)] assms(4) by (simp add: hm_wf_def)
  with each_link_member[OF assms(1) e(1) map_of_SomeD[OF assms(3)]] e(2) that show thesis by (auto simp: hm_get_in)
qed

end

text \<open>The interfaces that get a packet of the node: all that run.\<close>

definition running :: "transport_handler \<Rightarrow> bytes list" where
  "running th = map li_address (filter (\<lambda>i. \<not> li_stopped i) (im_ifaces (th_manager th)))"

abbreviation sent_by :: "packet \<Rightarrow> bytes \<Rightarrow> tp_output" where
  "sent_by p i \<equiv> Sent i \<lparr>tx_type = TxBroadcast None, tx_packet = p\<rparr>"

lemma handler_send_packet_outputs: "snd (handler_send_packet P now p th) = map (sent_by p) (running th)"
  by (simp add: handler_send_packet_def handler_send_def manager_send_def running_def should_send_def comp_def)

lemma running_cache: "only_cache th th' \<Longrightarrow> running th' = running th"
  by (simp add: running_def only_cache_fields(2))

text \<open>The forwarding of a received message and the dispatch that follows.\<close>

lemma receive_message_dispatch:
  "\<exists>th1 o1. only_cache th th1 \<and> (\<forall>th' o2. dispatch_packet P now secret iv (rx_packet m) th1 = Some (th', o2)
      \<longrightarrow> receive_message P now secret iv m th = Some (th', IfaceMessage m # o1 @ o2))"
proof -
  obtain th1 o1 where f: "(if tc_broadcast (th_config th)
      then handler_send P now \<lparr>tx_type = TxBroadcast (Some (rx_address m)), tx_packet = rx_packet m\<rparr> th else (th, [])) = (th1, o1)" by force
  then have "only_cache th th1" by (auto split: if_split_asm dest: handler_send_only_cache)
  with f show ?thesis by (auto simp: receive_message_def tp_bind_def)
qed

subsection \<open>Two nodes\<close>

lemma request_received:
  assumes "prims_ok P" and "map_of (th_single_in b) (p_destination req) = Some d" and "req = link_request_packet l0" and "lk_priv l0 = private_new P s k"
    and "dd_address_hash (d_desc d) = p_destination req" and "map_of (th_in_links b) (link_id_from P req) = None"
    and "link_new_from_request P now secret req (pid_sign_key (d_identity d)) (d_desc d) = Some (Inr r0)" and "link_prove P r0 = (r1, pf, evs)"
  shows "dispatch_packet P now secret iv req b = Some ((fst (handler_send_packet P now pf b))\<lparr>th_in_links := hm_insert (lk_id r1) r1 (th_in_links b)\<rparr>,
      map LinkIn evs @ map (sent_by pf) (running b))"
proof -
  have t: "h_packet_type (p_header req) = LinkRequest" by (simp add: assms(3) link_request_packet_def)
  obtain th1 sent where s: "handler_send_packet P now pf b = (th1, sent)" by force
  then have "sent = map (sent_by pf) (running b)" using handler_send_packet_outputs[of P now pf b] by simp
  moreover have "th_in_links th1 = th_in_links b" using only_cache_fields(7)[OF handler_send_packet_only_cache[OF s]] .
  ultimately show ?thesis using assms(2,5-8) t s
    by (simp add: dispatch_packet_def handle_link_request_def dest_handle_packet_def hm_contains_def)
qed

lemma proof_on_link_activated:
  assumes "link_handle_packet P now l pf = Some (l', HandledActivated, evs)" and "prims_ok P" and "length (iv k) = 16" and "length (lk_key l') = 64"
  shows "\<exists>rtt th'. proof_on_link P now iv pf k l th = Some (l', th', map LinkOut evs @ map (sent_by rtt) (running th))"
proof -
  obtain rtt where r: "create_rtt P (iv k) l' = Some rtt" using create_rtt_total[OF assms(2-4)] by auto
  obtain th' sent where s: "handler_send_packet P now rtt th = (th', sent)" by force
  then have "sent = map (sent_by rtt) (running th)" using handler_send_packet_outputs[of P now rtt th] by simp
  with assms(1) r s show ?thesis by (auto simp: proof_on_link_def)
qed

lemma request_answered:
  assumes "prims_ok P" and "map_of (th_single_in b) (p_destination req) = Some d" and "req = link_request_packet l0" and "lk_priv l0 = private_new P s k"
    and "dd_address_hash (d_desc d) = p_destination req" and "map_of (th_in_links b) (link_id_from P req) = None"
    and "link_new_from_request P now secret req (pid_sign_key (d_identity d)) (d_desc d) = Some (Inr r0)" and "link_prove P r0 = (r1, pf, evs)"
  shows "\<exists>b1 o1. receive_message P now secret iv \<lparr>rx_address = i, rx_packet = req\<rparr> b = Some (b1, o1) \<and> map_of (th_in_links b1) (lk_id r1) = Some r1
    \<and> LinkIn ` set evs \<subseteq> set o1 \<and> sent_by pf ` set (running b) \<subseteq> set o1"
proof -
  obtain th1 o1 where c: "only_cache b th1" and
    r: "\<And>th' o2. dispatch_packet P now secret iv req th1 = Some (th', o2) \<Longrightarrow>
      receive_message P now secret iv \<lparr>rx_address = i, rx_packet = req\<rparr> b = Some (th', IfaceMessage \<lparr>rx_address = i, rx_packet = req\<rparr> # o1 @ o2)"
    using receive_message_dispatch[of b P now secret iv "\<lparr>rx_address = i, rx_packet = req\<rparr>"] by auto
  have "map_of (th_single_in th1) (p_destination req) = Some d" "map_of (th_in_links th1) (link_id_from P req) = None"
    using assms(2,6) only_cache_fields[OF c] by simp_all
  from r[OF request_received[OF assms(1) this(1) assms(3-5) this(2) assms(7,8)]] show ?thesis
    by (auto simp: hmap_simps running_cache[OF c])
qed

lemma proof_answered:
  assumes "tp_invar P a" and "\<And>k. length (iv k) = 16" and "map_of (th_out_links a) k = Some l" and "h_packet_type (p_header pf) = Proof"
    and "link_handle_packet P now l pf = Some (l', HandledActivated, evs)"
  shows "\<exists>a1 o1 rtt. receive_message P now secret iv \<lparr>rx_address = i, rx_packet = pf\<rparr> a = Some (a1, o1) \<and> map_of (th_out_links a1) k = Some l'
    \<and> LinkOut ` set evs \<subseteq> set o1 \<and> sent_by rtt ` set (running a) \<subseteq> set o1"
proof -
  obtain th1 o1 where c: "only_cache a th1" and
    r: "\<And>th' o2. dispatch_packet P now secret iv pf th1 = Some (th', o2) \<Longrightarrow>
      receive_message P now secret iv \<lparr>rx_address = i, rx_packet = pf\<rparr> a = Some (th', IfaceMessage \<lparr>rx_address = i, rx_packet = pf\<rparr> # o1 @ o2)"
    using receive_message_dispatch[of a P now secret iv "\<lparr>rx_address = i, rx_packet = pf\<rparr>"] by auto
  have inv: "tp_invar P th1" using tp_invar_cache[OF assms(1) c] .
  obtain a1 o2 where h: "handle_proof P now iv pf th1 = Some (a1, o2)" using handle_proof_ok[OF inv, of iv now pf] assms(2) by auto
  have loop: "\<forall>(k, l) \<in> set (th_out_links th1). (\<forall>k. length (iv k) = 16) \<and> out_link_ok P k l" "hm_wf (th_out_links th1)"
    "map_of (th_out_links th1) k = Some l" using inv assms(2,3) only_cache_fields[OF c] by (auto simp: tp_invar_def)
  obtain th2 l2 th3 o3 where m: "only_cache th1 th2" "proof_on_link P now iv pf k l th2 = Some (l2, th3, o3)"
      "map_of (th_out_links a1) k = Some l2" "set o3 \<subseteq> set o2"
    by (rule proof_loop.on_out_links_member[OF loop(1) h[unfolded handle_proof_def] loop(3,2)])
  have "out_link_ok P k l'" using out_link_handle_ok(1)[OF tp_invar_lookups(2)[OF assms(1,3)] assms(5)] .
  then have "prims_ok P" "length (lk_key l') = 64" by (simp_all add: out_link_ok_def)
  from proof_on_link_activated[where iv = iv and k = k and th = th2, OF assms(5) this(1) assms(2) this(2)] m(2) obtain rtt where
    "l2 = l'" "o3 = map LinkOut evs @ map (sent_by rtt) (running th2)" by auto
  moreover have "running th2 = running a" using running_cache m(1) c by simp
  moreover have "receive_message P now secret iv \<lparr>rx_address = i, rx_packet = pf\<rparr> a = Some (a1, IfaceMessage \<lparr>rx_address = i, rx_packet = pf\<rparr> # o1 @ o2)"
    using r h assms(4) by (simp add: dispatch_packet_def)
  ultimately show ?thesis using m(3,4) by (intro exI[of _ a1] exI[of _ "IfaceMessage \<lparr>rx_address = i, rx_packet = pf\<rparr> # o1 @ o2"] exI[of _ rtt]) auto
qed


text \<open>A node with one interface and, in the second case, a destination of its own.\<close>

definition sample_node :: transport_handler where
  "sample_node = (transport_new (config_default sample_prims [9] [9]))\<lparr>th_manager := fst (manager_new_channel sample_prims manager_new)\<rparr>"

definition sample_server :: transport_handler where
  "sample_server = fst (add_destination sample_prims (private_new sample_prims [1] [2]) (name_new sample_prims ''a'' ''b'') sample_node)"

lemma sample_nodes_reachable: "tp_reachable sample_prims sample_node" "tp_reachable sample_prims sample_server"
proof -
  have "manager_new_channel sample_prims (th_manager (transport_new c))
      = (fst (manager_new_channel sample_prims manager_new), snd (manager_new_channel sample_prims manager_new))" for c
    by (simp add: transport_new_def)
  then show n: "tp_reachable sample_prims sample_node"
    unfolding sample_node_def by (blast intro: tp_reachable.intros tp_step.iface)
  have "add_destination sample_prims (private_new sample_prims [1] [2]) (name_new sample_prims ''a'' ''b'') sample_node
      = (sample_server, snd (add_destination sample_prims (private_new sample_prims [1] [2]) (name_new sample_prims ''a'' ''b'') sample_node))"
    by (simp add: sample_server_def)
  then show "tp_reachable sample_prims sample_server" using n by (blast intro: tp_reachable.intros tp_step.destination)
qed


subsection \<open>Properties\<close>

text \<open>C26. The tables of a node stay consistent whatever it receives and does: each of its destinations is filed under
  its address; each accepted link is active, filed under its identifier and has the key agreed with its peer under
  that identifier; each requested link is filed under its destination's address and, while active, has the agreed
  key of a peer with the destination's signing key.\<close>

theorem node_tables_consistent:
  assumes "prims_ok P" and "tp_reachable P th"
  shows "tp_invar P th
    \<and> (\<forall>k l. map_of (th_in_links th) k = Some l \<longrightarrow> lk_id l = k \<and> lk_status l = Active
        \<and> lk_key l = private_derive_key P (lk_priv l) (idt_public_key (lk_peer l)) (Some k))
    \<and> (\<forall>k l. map_of (th_out_links th) k = Some l \<longrightarrow> dd_address_hash (lk_destination l) = k
        \<and> (lk_status l = Active \<longrightarrow> lk_key l = private_derive_key P (lk_priv l) (idt_public_key (lk_peer l)) (Some (lk_id l))
             \<and> idt_verifying_key (lk_peer l) = idt_verifying_key (dd_identity (lk_destination l))))"
proof -
  note inv = tp_reachable_ok[OF assms(2,1)]
  then show ?thesis using tp_invar_lookups(2,3)[OF inv] by (auto simp: in_link_ok_def out_link_ok_def session_agreed_def)
qed

theorem node_tables_consistent_witness: "tp_invar sample_prims sample_server"
  using node_tables_consistent[OF sample_prims_ok sample_nodes_reachable(2)] by blast

text \<open>C8. No packet makes a node panic: whatever well-formed packet arrives at a node in a state it can reach, its
  task processes it and goes on with consistent tables; and so do its timers.\<close>

theorem node_never_panics:
  assumes "prims_ok P" and "tp_reachable P th" and "packet_wf (rx_packet m)" and "\<And>k. length (iv k) = 16"
  shows "(\<exists>th' evs. receive_message P now secret iv m th = Some (th', evs) \<and> tp_reachable P th')
    \<and> (\<exists>th' evs. handle_check_links P now th = Some (th', evs)) \<and> (\<exists>th' evs. handle_keep_links P now th = Some (th', evs))"
proof -
  note inv = tp_reachable_ok[OF assms(2,1)]
  obtain th' evs where r: "receive_message P now secret iv m th = Some (th', evs)"
    using receive_message_ok[OF assms(1) inv assms(3), of iv now secret] assms(4) by auto
  then have "tp_step P th evs th'" using assms(3,4) by (intro tp_step.receive)
  then have "tp_reachable P th'" using assms(2) by (rule tp_reachable.step[rotated])
  with r handle_check_links_ok[OF inv, of now] handle_keep_links_ok[OF inv, of now] show ?thesis by blast
qed

theorem node_never_panics_witness:
  "\<exists>th' evs. receive_message sample_prims 5 [8] (\<lambda>_. replicate 16 3) \<lparr>rx_address = [], rx_packet = sample_packet\<rparr> sample_server = Some (th', evs)"
  using node_never_panics[OF sample_prims_ok sample_nodes_reachable(2), of "\<lparr>rx_address = [], rx_packet = sample_packet\<rparr>" "\<lambda>_. replicate 16 3" 5 "[8]"]
    sample_packet_wf by auto

text \<open>C37. A forged announce takes an address: it is accepted for an address that is not its own, the table of
  destinations gets the forger's identity under that address, and no later announce replaces it.\<close>

theorem forged_announce_kept:
  assumes "prims_ok P" and "length target = 16" and "i = private_new P s k" and "map_of (th_single_out th) target = None"
  shows "\<exists>p th1 evs d. handle_announce P p th = Some (th1, evs) \<and> map_of (th_single_out th1) target = Some d \<and> d_identity d = pid_identity i
    \<and> dd_address_hash (d_desc d) = create_address_hash P (idt_address_hash (pid_identity i)) (name_new P app aspects)
    \<and> (\<forall>q th2 evs'. handle_announce P q th1 = Some (th2, evs') \<longrightarrow> map_of (th_single_out th2) target = Some d)"
proof -
  let ?name = "name_new P app aspects"
  define d where "d = (single_input_new P i ?name)\<lparr>d_desc := (d_desc (single_input_new P i ?name))\<lparr>dd_address_hash := target\<rparr>\<rparr>"
  have name: "length (dn_hash ?name) = 32" using assms(1) by (simp add: name_new_def prims_ok_def)
  have d: "d_identity d = private_new P s k" "length (dd_address_hash (d_desc d)) = 16" "length (dn_hash (dd_name (d_desc d))) = 32"
    using assms name by (simp_all add: d_def single_input_new_def)
  let ?out = "single_output_new P (pid_identity i) \<lparr>dn_hash = as_name_hash_slice ?name @ replicate 22 0\<rparr>"
  obtain p where p: "p_destination p = target" "announce_validate P p = Some (Inr (?out, []))"
    using dest_announce_ok[OF assms(1) d, of None "[]"] by (auto simp: concat_opt_def d_def single_input_new_def)
  let ?th1 = "th\<lparr>th_single_out := hm_insert target ?out (th_single_out th)\<rparr>"
  have "handle_announce P p th = Some (?th1, [Announced ?out (sb_new_from_slice PACKET_MDU [])])"
    using p assms(4) by (simp add: handle_announce_def hm_contains_def)
  moreover have "map_of (th_single_out th2) target = Some ?out" if "handle_announce P q ?th1 = Some (th2, evs')" for q th2 evs'
    using that by (auto simp: handle_announce_def hm_contains_def map_of_hm_insert split: option.split_asm sum.split_asm if_split_asm)
  ultimately show ?thesis
    by (intro exI[of _ p] exI[of _ ?th1] exI[of _ "[Announced ?out (sb_new_from_slice PACKET_MDU [])]"] exI[of _ ?out])
      (auto simp: map_of_hm_insert single_output_new_def address_of_padded_name[OF name])
qed

theorem forged_announce_kept_witness:
  "\<exists>p th1 evs d. handle_announce sample_prims p sample_node = Some (th1, evs) \<and> map_of (th_single_out th1) (replicate 16 255) = Some d
     \<and> d_identity d = pid_identity (private_new sample_prims [1] [2])"
proof -
  have "map_of (th_single_out sample_node) (replicate 16 255) = None" by (simp add: sample_node_def transport_new_def)
  from forged_announce_kept[OF sample_prims_ok _ refl this, of "[1]" "[2]" "''a''" "''b''"] show ?thesis by auto
qed

text \<open>A relay forwards a packet to every running interface but the one it came from, whether or not it has
  seen the packet before: the cache that records the packets is never asked, and the hops are not counted.\<close>

theorem relay_ignores_cache:
  assumes "tc_broadcast (th_config th)" and "i \<in> set (running th)" and "i \<noteq> rx_address m"
    and "map_of (th_packet_cache th) (packet_hash (pr_sha256 P) (rx_packet m)) = Some track"
    and "receive_message P now secret iv m th = Some (th', evs)"
  shows "Sent i \<lparr>tx_type = TxBroadcast (Some (rx_address m)), tx_packet = rx_packet m\<rparr> \<in> set evs"
  using assms(1-3,5)
  by (auto simp: receive_message_def tp_bind_def handler_send_def manager_send_def running_def should_send_def Let_def image_iff) metis

theorem relay_ignores_cache_witness:
  "let th = sample_node\<lparr>th_config := set_broadcast True (th_config sample_node),
        th_packet_cache := [(packet_hash (pr_sha256 sample_prims) sample_packet, \<lparr>pt_time = 1, pt_min_hops = 0\<rparr>)]\<rparr> in
   Sent (hd (running sample_node)) \<lparr>tx_type = TxBroadcast (Some []), tx_packet = sample_packet\<rparr>
     \<in> set (snd (the (receive_message sample_prims 5 [8] (\<lambda>_. replicate 16 3) \<lparr>rx_address = [], rx_packet = sample_packet\<rparr> th)))"
proof -
  let ?th = "sample_node\<lparr>th_config := set_broadcast True (th_config sample_node),
        th_packet_cache := [(packet_hash (pr_sha256 sample_prims) sample_packet, \<lparr>pt_time = 1, pt_min_hops = 0\<rparr>)]\<rparr>"
  let ?m = "\<lparr>rx_address = [], rx_packet = sample_packet\<rparr>"
  have run: "hd (running sample_node) \<in> set (running ?th)" "hd (running sample_node) \<noteq> []"
    using sample_prims_ok by (auto simp: running_def sample_node_def transport_new_def manager_new_channel_def manager_new_def Let_def
        address_of_hash_def ADDRESS_HASH_SIZE_def prims_ok_def simp flip: length_greater_0_conv)
  have "hm_wf (th_packet_cache ?th)" by (simp add: hm_wf_def)
  then have "tp_invar sample_prims ?th"
    using tp_reachable_ok[OF sample_nodes_reachable(1) sample_prims_ok] by (simp add: tp_invar_def)
  then obtain th' evs where r: "receive_message sample_prims 5 [8] (\<lambda>_. replicate 16 3) ?m ?th = Some (th', evs)"
    using receive_message_ok[OF sample_prims_ok, of ?th ?m "\<lambda>_. replicate 16 3" 5 "[8]"] sample_packet_wf by auto
  from relay_ignores_cache[OF _ run(1) _ _ r] run(2) r show ?thesis by (simp add: set_broadcast_def Let_def)
qed

text \<open>A repeated request is the same packet with the same identifier, and a node that has the link already does
  not answer it: when the proof is lost, repeating the request is in vain until the other node forgets the link.\<close>

theorem repeated_request_unanswered:
  assumes "link_request P t l = (l1, req)" and "t + secs 6 < now" and "hm_contains (th_in_links b) (lk_id l1)"
  shows "\<exists>th'. repeat_request P now k l1 th = Some (l1\<lparr>lk_request_time := now\<rparr>, th', map (sent_by req) (running th))
    \<and> dispatch_packet P now' secret iv req b = Some (b, [])"
proof -
  have l1: "l1 = l\<lparr>lk_status := Pending, lk_id := link_id_from P req, lk_request_time := t\<rparr>" and req: "req = link_request_packet l"
    using assms(1) by (auto simp: link_request_def Let_def)
  have "link_request_packet l1 = req" by (simp add: l1 req link_request_packet_def)
  then have same: "link_request P now l1 = (l1\<lparr>lk_request_time := now\<rparr>, req)" by (simp add: link_request_def Let_def l1)
  obtain th' sent where s: "handler_send_packet P now req th = (th', sent)" by force
  then have "sent = map (sent_by req) (running th)" using handler_send_packet_outputs[of P now req th] by simp
  moreover have "repeat_request P now k l1 th = Some (l1\<lparr>lk_request_time := now\<rparr>, th', sent)"
    using same s less_diff_conv[of "secs 6" now t] assms(2) by (simp add: repeat_request_def add.commute INTERVAL_OUTPUT_LINK_REPEAT_def link_elapsed_def l1 Let_def)
  moreover have "dispatch_packet P now' secret iv req b = Some (b, [])"
    using assms(3) by (simp add: l1 req dispatch_packet_def handle_link_request_def link_request_packet_def dest_handle_packet_def split: option.split)
  ultimately show ?thesis by simp
qed

theorem repeated_request_unanswered_witness:
  "let (l1, req) = link_request sample_prims 0 (link_new sample_prims 0 [3] [4] (d_desc (single_input_new sample_prims (private_new sample_prims [1] [2])
         (name_new sample_prims ''a'' ''b'')))) in
   dispatch_packet sample_prims 9 [5] (\<lambda>_. []) req (sample_server\<lparr>th_in_links := [(lk_id l1, l1)]\<rparr>) = Some (sample_server\<lparr>th_in_links := [(lk_id l1, l1)]\<rparr>, [])"
proof -
  let ?r = "link_request sample_prims 0 (link_new sample_prims 0 [3] [4] (d_desc (single_input_new sample_prims (private_new sample_prims [1] [2])
         (name_new sample_prims ''a'' ''b''))))"
  have "hm_contains (th_in_links (sample_server\<lparr>th_in_links := [(lk_id (fst ?r), fst ?r)]\<rparr>)) (lk_id (fst ?r))" by (simp add: hm_contains_def)
  from repeated_request_unanswered[OF _ _ this, of sample_prims 0 _ "snd ?r" "secs 7" "[]" sample_node 9 "[5]" "\<lambda>_. []"] show ?thesis
    by (force simp: secs_def split_beta)
qed


end
