(* ===== verification/Resource_Wire.thy ===== *)
theory Resource_Wire
  imports Packets
begin

section \<open>Resource messages on the wire (reticulum-patched/src/resource.rs, first half)\<close>

text \<open>
  The six messages of a resource transfer and their byte encodings: advertisement, part, proof,
  request, hash update and cancel. The hash update embeds MessagePack written and read by the
  third-party crate \<open>rmp\<close>; its five functions are the record \<open>rmp\<close>, and \<open>rmp_ok\<close> states what their
  documentation promises: a reader returns what the writer wrote and leaves the bytes after it.
\<close>

subsection \<open>Definitions\<close>

definition RESOURCE_ID_LEN :: nat where "RESOURCE_ID_LEN = ADDRESS_HASH_SIZE"
definition RESOURCE_VERSION :: byte where "RESOURCE_VERSION = 1"
definition FLAG_HAS_REQUEST_ID :: byte where "FLAG_HAS_REQUEST_ID = 1"
definition FLAG_IS_RESPONSE :: byte where "FLAG_IS_RESPONSE = 2"
definition FLAG_IS_REQUEST :: byte where "FLAG_IS_REQUEST = 4"
definition RESOURCE_ADV_HEADER_LEN :: nat where
  "RESOURCE_ADV_HEADER_LEN = 1 + 1 + RESOURCE_ID_LEN + RESOURCE_ID_LEN + 4 + 4 + 4"
definition RESOURCE_PART_HEADER_LEN :: nat where "RESOURCE_PART_HEADER_LEN = 1 + RESOURCE_ID_LEN + 4"
definition RESOURCE_PROOF_LEN :: nat where "RESOURCE_PROOF_LEN = 1 + RESOURCE_ID_LEN + 1"
definition RESOURCE_HASH_UPDATE_HEADER_LEN :: nat where "RESOURCE_HASH_UPDATE_HEADER_LEN = 1 + RESOURCE_ID_LEN"
definition RESOURCE_CANCEL_LEN :: nat where "RESOURCE_CANCEL_LEN = 1 + RESOURCE_ID_LEN"
definition RESOURCE_MAPHASH_LEN :: nat where "RESOURCE_MAPHASH_LEN = 4"
definition RESOURCE_HASHMAP_IS_NOT_EXHAUSTED :: byte where "RESOURCE_HASHMAP_IS_NOT_EXHAUSTED = 0"
definition RESOURCE_HASHMAP_IS_EXHAUSTED :: byte where "RESOURCE_HASHMAP_IS_EXHAUSTED = 0xff"

lemmas resource_consts = RESOURCE_ID_LEN_def ADDRESS_HASH_SIZE_def RESOURCE_VERSION_def
  FLAG_HAS_REQUEST_ID_def FLAG_IS_RESPONSE_def FLAG_IS_REQUEST_def RESOURCE_ADV_HEADER_LEN_def
  RESOURCE_PART_HEADER_LEN_def RESOURCE_PROOF_LEN_def RESOURCE_HASH_UPDATE_HEADER_LEN_def
  RESOURCE_CANCEL_LEN_def RESOURCE_MAPHASH_LEN_def RESOURCE_HASHMAP_IS_NOT_EXHAUSTED_def
  RESOURCE_HASHMAP_IS_EXHAUSTED_def

record resource_advertisement =
  ra_resource_id :: bytes
  ra_request_id :: "bytes option"
  ra_total_len :: nat
  ra_part_size :: nat
  ra_total_parts :: nat
  ra_is_response :: bool
  ra_is_request :: bool

text \<open>\<open>&buffer[off..off + n]\<close>; every use is guarded by a length check of the code before it.\<close>

definition slice :: "nat \<Rightarrow> nat \<Rightarrow> bytes \<Rightarrow> bytes" where
  "slice off n buf = take n (drop off buf)"

definition advert_encode :: "resource_advertisement \<Rightarrow> bytes" where
  "advert_encode a =
     (let flags = (0 :: byte) OR (if ra_request_id a \<noteq> None then FLAG_HAS_REQUEST_ID else 0)
                   OR (if ra_is_response a then FLAG_IS_RESPONSE else 0)
                   OR (if ra_is_request a then FLAG_IS_REQUEST else 0) in
      [RESOURCE_VERSION] @ [flags] @ ra_resource_id a
      @ (case ra_request_id a of Some r \<Rightarrow> r | None \<Rightarrow> replicate RESOURCE_ID_LEN 0)
      @ be_bytes32 (ra_total_len a) @ be_bytes32 (ra_total_parts a) @ be_bytes32 (ra_part_size a))"

definition advert_decode :: "bytes \<Rightarrow> ret_error + resource_advertisement" where
  "advert_decode buf =
     (if length buf < RESOURCE_ADV_HEADER_LEN then Inl OutOfMemory
      else if buf ! 0 \<noteq> RESOURCE_VERSION then Inl InvalidArgument
      else (let flags = buf ! 1; start = 2 + RESOURCE_ID_LEN; off = start + RESOURCE_ID_LEN in
        Inr \<lparr>ra_resource_id = slice 2 RESOURCE_ID_LEN buf,
             ra_request_id = (if flags AND FLAG_HAS_REQUEST_ID \<noteq> 0 then Some (slice start RESOURCE_ID_LEN buf) else None),
             ra_total_len = from_be_bytes 0 (slice off 4 buf),
             ra_part_size = from_be_bytes 0 (slice (off + 4 + 4) 4 buf),
             ra_total_parts = from_be_bytes 0 (slice (off + 4) 4 buf),
             ra_is_response = (flags AND FLAG_IS_RESPONSE \<noteq> 0),
             ra_is_request = (flags AND FLAG_IS_REQUEST \<noteq> 0)\<rparr>))"

record resource_part =
  rp_resource_id :: bytes
  rp_part_index :: nat
  rp_data :: bytes

definition part_encode :: "resource_part \<Rightarrow> bytes" where
  "part_encode p = [RESOURCE_VERSION] @ rp_resource_id p @ be_bytes32 (rp_part_index p) @ rp_data p"

definition part_decode :: "bytes \<Rightarrow> ret_error + resource_part" where
  "part_decode buf =
     (if length buf < RESOURCE_PART_HEADER_LEN then Inl OutOfMemory
      else if buf ! 0 \<noteq> RESOURCE_VERSION then Inl InvalidArgument
      else (let off = 1 + RESOURCE_ID_LEN in
        Inr \<lparr>rp_resource_id = slice 1 RESOURCE_ID_LEN buf,
             rp_part_index = from_be_bytes 0 (slice off 4 buf),
             rp_data = drop (off + 4) buf\<rparr>))"

record resource_proof =
  rf_resource_id :: bytes
  rf_status :: byte

definition proof_encode :: "resource_proof \<Rightarrow> bytes" where
  "proof_encode p = [RESOURCE_VERSION] @ rf_resource_id p @ [rf_status p]"

definition proof_decode :: "bytes \<Rightarrow> ret_error + resource_proof" where
  "proof_decode buf =
     (if length buf < RESOURCE_PROOF_LEN then Inl OutOfMemory
      else if buf ! 0 \<noteq> RESOURCE_VERSION then Inl InvalidArgument
      else Inr \<lparr>rf_resource_id = slice 1 RESOURCE_ID_LEN buf, rf_status = buf ! (1 + RESOURCE_ID_LEN)\<rparr>)"

definition cancel_encode :: "bytes \<Rightarrow> bytes" where
  "cancel_encode rid = [RESOURCE_VERSION] @ rid"

definition cancel_decode :: "bytes \<Rightarrow> ret_error + bytes" where
  "cancel_decode buf =
     (if length buf < RESOURCE_CANCEL_LEN then Inl OutOfMemory
      else if buf ! 0 \<noteq> RESOURCE_VERSION then Inl InvalidArgument
      else Inr (slice 1 RESOURCE_ID_LEN buf))"

record resource_request =
  rq_resource_id :: bytes
  rq_hashmap_exhausted :: bool
  rq_last_map_hash :: "bytes option"
  rq_requested_hashes :: "bytes list"

definition request_encode :: "resource_request \<Rightarrow> bytes" where
  "request_encode r =
     (if rq_hashmap_exhausted r
      then [RESOURCE_HASHMAP_IS_EXHAUSTED]
           @ (case rq_last_map_hash r of Some h \<Rightarrow> h | None \<Rightarrow> replicate RESOURCE_MAPHASH_LEN 0)
      else [RESOURCE_HASHMAP_IS_NOT_EXHAUSTED])
     @ rq_resource_id r @ concat (rq_requested_hashes r)"

text \<open>The loop that reads hashes: the hashes and the offset it stops at.\<close>

function read_hashes :: "nat \<Rightarrow> bytes \<Rightarrow> bytes list \<times> nat" where
  "read_hashes off buf =
     (if off + RESOURCE_MAPHASH_LEN \<le> length buf
      then (let (hs, off') = read_hashes (off + RESOURCE_MAPHASH_LEN) buf in
            (slice off RESOURCE_MAPHASH_LEN buf # hs, off'))
      else ([], off))"
  by pat_completeness auto
termination
  by (relation "measure (\<lambda>(off, buf). length buf - off)") (auto simp: RESOURCE_MAPHASH_LEN_def)

declare read_hashes.simps [simp del]

definition request_decode :: "bytes \<Rightarrow> ret_error + resource_request" where
  "request_decode buf =
     (if buf = [] then Inl OutOfMemory
      else (let exhausted = (buf ! 0 = RESOURCE_HASHMAP_IS_EXHAUSTED) in
        if exhausted \<and> 1 + RESOURCE_MAPHASH_LEN > length buf then Inl OutOfMemory
        else (let last = (if exhausted then Some (slice 1 RESOURCE_MAPHASH_LEN buf) else None);
                  off = (if exhausted then 1 + RESOURCE_MAPHASH_LEN else 1) in
          if off + RESOURCE_ID_LEN > length buf then Inl OutOfMemory
          else (let rid = slice off RESOURCE_ID_LEN buf;
                    (hashes, off') = read_hashes (off + RESOURCE_ID_LEN) buf in
            if off' \<noteq> length buf then Inl InvalidArgument
            else if exhausted \<and> last = None then Inl InvalidArgument
            else Inr \<lparr>rq_resource_id = rid, rq_hashmap_exhausted = exhausted,
                      rq_last_map_hash = last, rq_requested_hashes = hashes\<rparr>))))"

record rmp =
  write_array_len :: "nat \<Rightarrow> bytes"
  write_uint :: "nat \<Rightarrow> bytes"
  write_bin :: "bytes \<Rightarrow> bytes"
  read_array_len :: "bytes \<Rightarrow> (nat \<times> bytes) option"
  read_int :: "bytes \<Rightarrow> (nat \<times> bytes) option"
  read_bin_len :: "bytes \<Rightarrow> (nat \<times> bytes) option"

definition rmp_ok :: "rmp \<Rightarrow> bool" where
  "rmp_ok c \<longleftrightarrow>
     (\<forall>n r. n < 2 ^ 32 \<longrightarrow> read_array_len c (write_array_len c n @ r) = Some (n, r))
     \<and> (\<forall>n r. n < 2 ^ 64 \<longrightarrow> read_int c (write_uint c n @ r) = Some (n, r))
     \<and> (\<forall>d r. length d < 2 ^ 32 \<longrightarrow> read_bin_len c (write_bin c d @ r) = Some (length d, d @ r))"

record resource_hash_update =
  ru_resource_id :: bytes
  ru_segment :: nat
  ru_hashmap :: bytes

definition hash_update_encode :: "rmp \<Rightarrow> resource_hash_update \<Rightarrow> bytes" where
  "hash_update_encode c u =
     [RESOURCE_VERSION] @ ru_resource_id u
     @ (write_array_len c 2 @ write_uint c (ru_segment u) @ write_bin c (ru_hashmap u))"

definition hash_update_decode :: "rmp \<Rightarrow> bytes \<Rightarrow> ret_error + resource_hash_update" where
  "hash_update_decode c buf =
     (if length buf < RESOURCE_HASH_UPDATE_HEADER_LEN then Inl OutOfMemory
      else if buf ! 0 \<noteq> RESOURCE_VERSION then Inl InvalidArgument
      else (case read_array_len c (drop (1 + RESOURCE_ID_LEN) buf) of None \<Rightarrow> Inl InvalidArgument
        | Some (array_len, r1) \<Rightarrow>
          if array_len \<noteq> 2 then Inl InvalidArgument
          else (case read_int c r1 of None \<Rightarrow> Inl InvalidArgument
            | Some (segment, r2) \<Rightarrow>
              if segment > u32_max then Inl InvalidArgument
              else (case read_bin_len c r2 of None \<Rightarrow> Inl InvalidArgument
                | Some (bin_len, r3) \<Rightarrow>
                  if length r3 < bin_len then Inl InvalidArgument
                  else Inr \<lparr>ru_resource_id = slice 1 RESOURCE_ID_LEN buf, ru_segment = segment,
                            ru_hashmap = take bin_len r3\<rparr>))))"

subsection \<open>Well-formed messages\<close>

definition id_ok :: "bytes \<Rightarrow> bool" where
  "id_ok r \<longleftrightarrow> length r = 16"

definition advert_wf :: "resource_advertisement \<Rightarrow> bool" where
  "advert_wf a \<longleftrightarrow> id_ok (ra_resource_id a) \<and> (case ra_request_id a of None \<Rightarrow> True | Some r \<Rightarrow> id_ok r)
     \<and> ra_total_len a < 2 ^ 32 \<and> ra_part_size a < 2 ^ 32 \<and> ra_total_parts a < 2 ^ 32"

definition part_wf :: "resource_part \<Rightarrow> bool" where
  "part_wf p \<longleftrightarrow> id_ok (rp_resource_id p) \<and> rp_part_index p < 2 ^ 32"

definition request_wf :: "resource_request \<Rightarrow> bool" where
  "request_wf r \<longleftrightarrow> id_ok (rq_resource_id r) \<and> list_all (\<lambda>h. length h = 4) (rq_requested_hashes r)
     \<and> (case rq_last_map_hash r of None \<Rightarrow> \<not> rq_hashmap_exhausted r
        | Some h \<Rightarrow> rq_hashmap_exhausted r \<and> length h = 4)"

definition hash_update_wf :: "resource_hash_update \<Rightarrow> bool" where
  "hash_update_wf u \<longleftrightarrow> id_ok (ru_resource_id u) \<and> ru_segment u \<le> u32_max \<and> length (ru_hashmap u) < 2 ^ 32"

subsection \<open>Round trips\<close>

lemma from_be_be32 [simp]: "n < 4294967296 \<Longrightarrow> from_be_bytes 0 (be_bytes32 n) = n"
  using from_be_bytes_be_bytes32 [of n] by simp

lemma advert_roundtrip:
  assumes "advert_wf a"
  shows "advert_decode (advert_encode a @ rest) = Inr a"
proof (cases a)
  case (fields rid req tl ps tp isr isq)
  with assms show ?thesis
    by (cases req; cases isr; cases isq)
      (simp_all add: advert_decode_def advert_encode_def advert_wf_def id_ok_def slice_def Let_def resource_consts)
qed

lemma part_roundtrip: "part_wf p \<Longrightarrow> part_decode (part_encode p) = Inr p"
  by (simp add: part_decode_def part_encode_def part_wf_def id_ok_def slice_def Let_def resource_consts)

lemma proof_roundtrip: "id_ok (rf_resource_id p) \<Longrightarrow> proof_decode (proof_encode p @ rest) = Inr p"
  by (simp add: proof_decode_def proof_encode_def id_ok_def slice_def resource_consts nth_append)

lemma cancel_roundtrip: "id_ok rid \<Longrightarrow> cancel_decode (cancel_encode rid @ rest) = Inr rid"
  by (simp add: cancel_decode_def cancel_encode_def id_ok_def slice_def resource_consts)

lemma read_hashes_concat:
  "list_all (\<lambda>h. length h = 4) hs \<Longrightarrow>
    read_hashes (length pre) (pre @ concat hs) = (hs, length (pre @ concat hs))"
proof (induction hs arbitrary: pre)
  case Nil
  then show ?case by (simp add: read_hashes.simps resource_consts)
next
  case (Cons h hs)
  then have "read_hashes (length (pre @ h)) ((pre @ h) @ concat hs) = (hs, length ((pre @ h) @ concat hs))"
    by (intro Cons.IH) simp
  with Cons.prems show ?case
    by (subst read_hashes.simps) (simp add: resource_consts slice_def)
qed

lemma request_roundtrip:
  assumes "request_wf r"
  shows "request_decode (request_encode r) = Inr r"
proof (cases r)
  case (fields rid ex lst hs)
  have hs: "list_all (\<lambda>h. length h = 4) hs" and rid: "length rid = 16"
    using assms fields by (simp_all add: request_wf_def id_ok_def)
  show ?thesis
  proof (cases lst)
    case None
    then have "\<not> ex" using assms fields by (simp add: request_wf_def)
    moreover have "read_hashes 17 (0 # rid @ concat hs) = (hs, length (0 # rid @ concat hs))"
      using read_hashes_concat [OF hs, of "0 # rid"] rid by simp
    ultimately show ?thesis
      using fields None rid by (simp add: request_decode_def request_encode_def resource_consts slice_def Let_def)
  next
    case (Some h)
    then have "ex" "length h = 4" using assms fields by (simp_all add: request_wf_def)
    moreover have "read_hashes 21 (0xff # h @ rid @ concat hs) = (hs, length (0xff # h @ rid @ concat hs))"
      using read_hashes_concat [OF hs, of "0xff # h @ rid"] rid \<open>length h = 4\<close> by simp
    ultimately show ?thesis
      using fields Some rid by (simp add: request_decode_def request_encode_def resource_consts slice_def Let_def)
  qed
qed

lemma hash_update_roundtrip:
  "rmp_ok c \<Longrightarrow> hash_update_wf u \<Longrightarrow> hash_update_decode c (hash_update_encode c u @ rest) = Inr u"
  by (simp add: hash_update_decode_def hash_update_encode_def hash_update_wf_def rmp_ok_def id_ok_def
      slice_def resource_consts u32_max_def)

subsection \<open>A concrete MessagePack instance\<close>

text \<open>The 32- and 64-bit forms of the format (markers \<open>0xdd\<close>, \<open>0xcf\<close>, \<open>0xc6\<close>), as a witness that
  \<open>rmp_ok\<close> can hold.\<close>

definition read_marked :: "byte \<Rightarrow> nat \<Rightarrow> bytes \<Rightarrow> (nat \<times> bytes) option" where
  "read_marked m k buf = (case buf of [] \<Rightarrow> None
     | x # r \<Rightarrow> if x = m \<and> k \<le> length r then Some (from_be_bytes 0 (take k r), drop k r) else None)"

definition rmp_wide :: rmp where
  "rmp_wide = \<lparr>write_array_len = (\<lambda>n. 0xdd # be_bytes 4 n), write_uint = (\<lambda>n. 0xcf # be_bytes 8 n),
     write_bin = (\<lambda>d. 0xc6 # be_bytes 4 (length d) @ d),
     read_array_len = read_marked 0xdd 4, read_int = read_marked 0xcf 8, read_bin_len = read_marked 0xc6 4\<rparr>"

lemma read_marked_be: "n < 256 ^ k \<Longrightarrow> read_marked m k (m # be_bytes k n @ r) = Some (n, r)"
  by (simp add: read_marked_def from_be_bytes_be_bytes)

lemma rmp_wide_ok: "rmp_ok rmp_wide"
  using read_marked_be [of _ 4 "0xdd"] read_marked_be [of _ 8 "0xcf"] read_marked_be [of _ 4 "0xc6"]
  by (simp add: rmp_ok_def rmp_wide_def)

subsection \<open>Properties\<close>

text \<open>Every well-formed resource message decodes to itself from its encoding: advertisements,
  proofs, cancels and hash updates also when bytes follow, parts and requests (whose tail is data)
  exactly.\<close>

theorem resource_messages_roundtrip:
  assumes "advert_wf a" and "part_wf p" and "id_ok (rf_resource_id f)" and "id_ok c"
    and "request_wf r" and "rmp_ok codec" and "hash_update_wf u"
  shows "advert_decode (advert_encode a @ rest) = Inr a \<and> part_decode (part_encode p) = Inr p
    \<and> proof_decode (proof_encode f @ rest) = Inr f \<and> cancel_decode (cancel_encode c @ rest) = Inr c
    \<and> request_decode (request_encode r) = Inr r
    \<and> hash_update_decode codec (hash_update_encode codec u @ rest) = Inr u"
  by (intro conjI advert_roundtrip part_roundtrip proof_roundtrip cancel_roundtrip request_roundtrip
      hash_update_roundtrip assms)

definition sample_id :: bytes where "sample_id = replicate 16 0xab"

definition sample_advert :: resource_advertisement where
  "sample_advert = \<lparr>ra_resource_id = sample_id, ra_request_id = Some sample_id, ra_total_len = 70000,
     ra_part_size = 400, ra_total_parts = 175, ra_is_response = True, ra_is_request = False\<rparr>"

definition sample_request :: resource_request where
  "sample_request = \<lparr>rq_resource_id = sample_id, rq_hashmap_exhausted = True,
     rq_last_map_hash = Some [1, 2, 3, 4], rq_requested_hashes = [[5, 6, 7, 8]]\<rparr>"

theorem resource_messages_roundtrip_witness:
  "advert_decode (advert_encode sample_advert @ [9]) = Inr sample_advert
    \<and> part_decode (part_encode \<lparr>rp_resource_id = sample_id, rp_part_index = 3, rp_data = [1, 2]\<rparr>)
        = Inr \<lparr>rp_resource_id = sample_id, rp_part_index = 3, rp_data = [1, 2]\<rparr>
    \<and> proof_decode (proof_encode \<lparr>rf_resource_id = sample_id, rf_status = 1\<rparr> @ [9])
        = Inr \<lparr>rf_resource_id = sample_id, rf_status = 1\<rparr>
    \<and> cancel_decode (cancel_encode sample_id @ [9]) = Inr sample_id
    \<and> request_decode (request_encode sample_request) = Inr sample_request
    \<and> hash_update_decode rmp_wide (hash_update_encode rmp_wide
          \<lparr>ru_resource_id = sample_id, ru_segment = 2, ru_hashmap = [1, 2, 3, 4]\<rparr> @ [9])
        = Inr \<lparr>ru_resource_id = sample_id, ru_segment = 2, ru_hashmap = [1, 2, 3, 4]\<rparr>"
  by (rule resource_messages_roundtrip)
    (simp_all add: advert_wf_def part_wf_def request_wf_def hash_update_wf_def id_ok_def
      sample_id_def sample_advert_def sample_request_def rmp_wide_ok u32_max_def)

end
