(* ===== verification/Resources.thy ===== *)
theory Resources
  imports Resource_Wire Caches
begin

section \<open>Resource transfers (reticulum-patched/src/resource.rs, second half)\<close>

text \<open>
  The receiving side (\<open>ResourceTracker\<close>: advertisements open an assembly, parts fill it, timeouts
  ask for what is missing and give up after three retries) and the sending side
  (\<open>ResourceSender::split\<close>, \<open>ResourceSendState\<close>). \<open>Instant\<close> and \<open>Duration\<close> are \<open>nat\<close>;
  \<open>duration_since\<close> saturates at zero. A handler that calls \<open>Instant::now()\<close> itself takes that time
  as the argument \<open>clock\<close>. The \<open>f32\<close> progress value is kept as the pair of its operands. SHA-256
  is the argument \<open>sha256\<close>.
\<close>

subsection \<open>Receiving side: definitions\<close>

definition RESOURCE_DEFAULT_MAX_RETRIES :: nat where "RESOURCE_DEFAULT_MAX_RETRIES = 3"
definition RESOURCE_COMPLETED_CACHE_SIZE :: nat where "RESOURCE_COMPLETED_CACHE_SIZE = 256"
definition RESOURCE_PROOF_STATUS_OK :: byte where "RESOURCE_PROOF_STATUS_OK = 1"
definition RESOURCE_PROOF_STATUS_FAILED :: byte where "RESOURCE_PROOF_STATUS_FAILED = 0"

definition compute_map_hash :: "(bytes \<Rightarrow> bytes) \<Rightarrow> bytes \<Rightarrow> bytes" where
  "compute_map_hash sha256 d = take RESOURCE_MAPHASH_LEN (sha256 d)"

datatype advertisement_result = Accepted | AlreadyCompleted

record resource_completion =
  rc_resource_id :: bytes
  rc_data :: bytes
  rc_request_id :: "bytes option"
  rc_is_response :: bool

record resource_progress =
  rg_resource_id :: bytes
  rg_request_id :: "bytes option"
  rg_is_response :: bool
  rg_progress :: "nat \<times> nat"

datatype resource_event = Progress resource_progress | Complete resource_completion

record resource_cancel_event =
  rx_resource_id :: bytes
  rx_request_id :: "bytes option"
  rx_is_response :: bool

record resource_timeout =
  rt_resource_id :: bytes
  rt_link_id :: bytes
  rt_request_id :: "bytes option"
  rt_is_response :: bool
  rt_requested_hashes :: "bytes list"
  rt_hashmap_exhausted :: bool
  rt_last_map_hash :: "bytes option"
  rt_failed :: bool

record resource_assembly =
  as_resource_id :: bytes
  as_link_id :: bytes
  as_request_id :: "bytes option"
  as_is_response :: bool
  as_total_len :: nat
  as_total_parts :: nat
  as_part_size :: nat
  as_received :: "bytes option list"
  as_received_count :: nat
  as_hashmap :: "bytes option list"
  as_last_activity :: nat
  as_retries :: nat
  as_max_retries :: nat

record resource_tracker =
  incoming :: "(bytes, resource_assembly) hmap"
  tk_timeout :: nat
  tk_completed :: "bytes cache_set"

definition tracker_new :: "nat \<Rightarrow> resource_tracker" where
  "tracker_new timeout = \<lparr>incoming = [], tk_timeout = timeout, tk_completed = cs_new RESOURCE_COMPLETED_CACHE_SIZE\<rparr>"

text \<open>The fresh \<open>ResourceAssembly\<close> of an accepted advertisement.\<close>

definition assembly_new :: "resource_advertisement \<Rightarrow> bytes \<Rightarrow> nat \<Rightarrow> resource_assembly" where
  "assembly_new advert link_id now =
     \<lparr>as_resource_id = ra_resource_id advert, as_link_id = link_id,
      as_request_id = ra_request_id advert, as_is_response = ra_is_response advert,
      as_total_len = ra_total_len advert, as_total_parts = ra_total_parts advert,
      as_part_size = ra_part_size advert, as_received = replicate (ra_total_parts advert) None,
      as_received_count = 0, as_hashmap = replicate (ra_total_parts advert) None,
      as_last_activity = now, as_retries = 0, as_max_retries = RESOURCE_DEFAULT_MAX_RETRIES\<rparr>"

definition handle_advertisement ::
  "resource_advertisement \<Rightarrow> bytes \<Rightarrow> nat \<Rightarrow> resource_tracker \<Rightarrow> (ret_error + advertisement_result) \<times> resource_tracker" where
  "handle_advertisement advert link_id now t =
     (if cs_contains (ra_resource_id advert) (tk_completed t) then (Inr AlreadyCompleted, t)
      else if ra_total_parts advert = 0 then (Inl InvalidArgument, t)
      else (Inr Accepted,
            t\<lparr>incoming := hm_insert (ra_resource_id advert) (assembly_new advert link_id now) (incoming t)\<rparr>))"

text \<open>The chunks received so far, concatenated and truncated to the announced length.\<close>

definition assemble :: "resource_assembly \<Rightarrow> bytes" where
  "assemble a = take (as_total_len a) (concat (map (\<lambda>c. case c of Some d \<Rightarrow> d | None \<Rightarrow> []) (as_received a)))"

text \<open>The changes \<open>handle_part\<close> makes to the assembly before it tests for completion.\<close>

definition accept_part :: "(bytes \<Rightarrow> bytes) \<Rightarrow> nat \<Rightarrow> resource_part \<Rightarrow> resource_assembly \<Rightarrow> resource_assembly" where
  "accept_part sha256 clock part a =
     (let i = rp_part_index part;
          a1 = (if as_received a ! i = None
                then a\<lparr>as_received := (as_received a)[i := Some (rp_data part)],
                       as_received_count := (as_received_count a + 1) mod 2 ^ 32\<rparr>
                else a);
          a2 = (if as_hashmap a1 ! i = None
                then (case as_received a1 ! i of
                        Some d \<Rightarrow> a1\<lparr>as_hashmap := (as_hashmap a1)[i := Some (compute_map_hash sha256 d)]\<rparr>
                      | None \<Rightarrow> a1)
                else a1) in
      a2\<lparr>as_last_activity := clock\<rparr>)"

definition handle_part ::
  "(bytes \<Rightarrow> bytes) \<Rightarrow> nat \<Rightarrow> resource_part \<Rightarrow> resource_tracker \<Rightarrow> (ret_error + resource_event option) \<times> resource_tracker" where
  "handle_part sha256 clock part t =
     (case map_of (incoming t) (rp_resource_id part) of
        None \<Rightarrow> (Inr None, t)
      | Some a \<Rightarrow>
         if length (rp_data part) > as_part_size a then (Inl OutOfMemory, t)
         else if rp_part_index part \<ge> length (as_received a) then (Inl InvalidArgument, t)
         else (let a' = accept_part sha256 clock part a in
           if as_received_count a' = as_total_parts a' then
             (Inr (Some (Complete \<lparr>rc_resource_id = as_resource_id a', rc_data = assemble a',
                    rc_request_id = as_request_id a', rc_is_response = as_is_response a'\<rparr>)),
              t\<lparr>incoming := hm_remove (as_resource_id a') (hm_modify (rp_resource_id part) (\<lambda>_. a') (incoming t)),
                tk_completed := snd (cs_insert (as_resource_id a') (tk_completed t))\<rparr>)
           else
             (Inr (Some (Progress \<lparr>rg_resource_id = as_resource_id a', rg_request_id = as_request_id a',
                    rg_is_response = as_is_response a',
                    rg_progress = (as_received_count a', as_total_parts a')\<rparr>)),
              t\<lparr>incoming := hm_modify (rp_resource_id part) (\<lambda>_. a') (incoming t)\<rparr>)))"

text \<open>The loop over the entries of a hash update: entry \<open>i\<close> goes to index \<open>start + i\<close>.\<close>

fun update_hashmap :: "nat \<Rightarrow> bytes list \<Rightarrow> bytes option list \<Rightarrow> bytes option list" where
  "update_hashmap idx [] hm = hm"
| "update_hashmap idx (h # hs) hm =
     (if idx \<ge> length hm then hm else update_hashmap (Suc idx) hs (hm[idx := Some h]))"

definition handle_hash_update :: "resource_hash_update \<Rightarrow> nat \<Rightarrow> resource_tracker \<Rightarrow> bool \<times> resource_tracker" where
  "handle_hash_update u now t =
     (case map_of (incoming t) (ru_resource_id u) of
        None \<Rightarrow> (False, t)
      | Some a \<Rightarrow>
         if length (ru_hashmap u) mod RESOURCE_MAPHASH_LEN \<noteq> 0 then (False, t)
         else (let entries = length (ru_hashmap u) div RESOURCE_MAPHASH_LEN; start = ru_segment u * entries in
           (True, t\<lparr>incoming := hm_modify (ru_resource_id u)
              (\<lambda>a. a\<lparr>as_hashmap := update_hashmap start (chunks RESOURCE_MAPHASH_LEN (ru_hashmap u)) (as_hashmap a),
                      as_last_activity := now\<rparr>) (incoming t)\<rparr>)))"

definition handle_cancel :: "bytes \<Rightarrow> resource_tracker \<Rightarrow> resource_cancel_event option \<times> resource_tracker" where
  "handle_cancel rid t =
     (case map_of (incoming t) rid of
        None \<Rightarrow> (None, t)
      | Some a \<Rightarrow>
         (Some \<lparr>rx_resource_id = rid, rx_request_id = as_request_id a, rx_is_response = as_is_response a\<rparr>,
          t\<lparr>incoming := hm_remove rid (incoming t), tk_completed := snd (cs_insert rid (tk_completed t))\<rparr>))"

text \<open>What a timed-out assembly asks for: the known hashes of its missing parts, whether some missing
  part has no known hash, and the last known hash.\<close>

definition missing_hashes :: "resource_assembly \<Rightarrow> bytes list" where
  "missing_hashes a = concat (map (\<lambda>(c, h). case c of Some _ \<Rightarrow> [] | None \<Rightarrow> (case h of Some x \<Rightarrow> [x] | None \<Rightarrow> []))
     (zip (as_received a) (as_hashmap a)))"

definition missing_unknown :: "resource_assembly \<Rightarrow> bool" where
  "missing_unknown a = list_ex (\<lambda>(c, h). c = None \<and> h = None) (zip (as_received a) (as_hashmap a))"

definition last_known_hash :: "resource_assembly \<Rightarrow> bytes option" where
  "last_known_hash a = (case filter (\<lambda>h. h \<noteq> None) (as_hashmap a) of [] \<Rightarrow> None | hs \<Rightarrow> last hs)"

definition timeout_of :: "resource_assembly \<Rightarrow> bool \<Rightarrow> resource_timeout" where
  "timeout_of a failed = \<lparr>rt_resource_id = as_resource_id a, rt_link_id = as_link_id a,
     rt_request_id = as_request_id a, rt_is_response = as_is_response a,
     rt_requested_hashes = missing_hashes a, rt_hashmap_exhausted = missing_unknown a,
     rt_last_map_hash = last_known_hash a, rt_failed = failed\<rparr>"

text \<open>The body of the loop over the keys.\<close>

definition poll_key :: "nat \<Rightarrow> bytes \<Rightarrow> resource_tracker \<Rightarrow> resource_timeout list \<times> resource_tracker" where
  "poll_key now key t =
     (case map_of (incoming t) key of
        None \<Rightarrow> ([], t)
      | Some a \<Rightarrow>
         if \<not> (now - as_last_activity a \<ge> tk_timeout t) then ([], t)
         else if as_retries a \<ge> as_max_retries a
         then ([timeout_of a True], t\<lparr>incoming := hm_remove key (incoming t)\<rparr>)
         else ([timeout_of a False],
               t\<lparr>incoming := hm_modify key
                  (\<lambda>a. a\<lparr>as_retries := as_retries a + 1, as_last_activity := now\<rparr>) (incoming t)\<rparr>))"

fun poll_keys :: "nat \<Rightarrow> bytes list \<Rightarrow> resource_tracker \<Rightarrow> resource_timeout list \<times> resource_tracker" where
  "poll_keys now [] t = ([], t)"
| "poll_keys now (k # ks) t =
     (let (e1, t1) = poll_key now k t; (e2, t2) = poll_keys now ks t1 in (e1 @ e2, t2))"

definition resource_poll_timeouts :: "nat \<Rightarrow> resource_tracker \<Rightarrow> resource_timeout list \<times> resource_tracker" where
  "resource_poll_timeouts now t = poll_keys now (hm_keys (incoming t)) t"

subsection \<open>Sending side: definitions\<close>

definition resource_split ::
  "(bytes \<Rightarrow> bytes) \<Rightarrow> bytes \<Rightarrow> nat \<Rightarrow> bytes option \<Rightarrow> bool \<Rightarrow> bool
    \<Rightarrow> ret_error + (resource_advertisement \<times> resource_part list)" where
  "resource_split sha256 data part_size request_id is_response is_request =
     (if part_size = 0 then Inl InvalidArgument
      else (let total_len = length data;
                total_parts = ((total_len + part_size - 1) mod 2 ^ 64 div part_size) mod 2 ^ 32;
                resource_id = take RESOURCE_ID_LEN (sha256 data) in
        Inr (\<lparr>ra_resource_id = resource_id, ra_request_id = request_id,
              ra_total_len = total_len mod 2 ^ 32, ra_part_size = part_size mod 2 ^ 32,
              ra_total_parts = total_parts, ra_is_response = is_response, ra_is_request = is_request\<rparr>,
             map (\<lambda>(idx, chunk). \<lparr>rp_resource_id = resource_id, rp_part_index = idx mod 2 ^ 32, rp_data = chunk\<rparr>)
               (enumerate 0 (chunks part_size data)))))"

datatype receipt_status = Sent | Completed | Failed

record resource_receipt =
  rr_resource_id :: bytes
  rr_status :: receipt_status
  rr_sent_at :: nat
  rr_concluded_at :: "nat option"
  rr_timeout :: nat

record resource_send_state =
  ss_resource_id :: bytes
  ss_destination :: bytes
  ss_request_id :: "bytes option"
  ss_is_response :: bool
  ss_is_request :: bool
  ss_advert :: resource_advertisement
  ss_parts :: "resource_part list"
  ss_receipt :: resource_receipt
  ss_timeout :: nat
  ss_last_sent :: nat
  ss_retries :: nat
  ss_max_retries :: nat

definition send_state_new ::
  "(bytes \<Rightarrow> bytes) \<Rightarrow> nat \<Rightarrow> bytes \<Rightarrow> bytes \<Rightarrow> nat \<Rightarrow> bytes option \<Rightarrow> bool \<Rightarrow> bool \<Rightarrow> nat \<Rightarrow> nat
    \<Rightarrow> ret_error + resource_send_state" where
  "send_state_new sha256 clock destination data part_size request_id is_response is_request timeout max_retries =
     (case resource_split sha256 data part_size request_id is_response is_request of
        Inl e \<Rightarrow> Inl e
      | Inr (advert, parts) \<Rightarrow> Inr
          \<lparr>ss_resource_id = ra_resource_id advert, ss_destination = destination,
           ss_request_id = ra_request_id advert, ss_is_response = is_response, ss_is_request = is_request,
           ss_advert = advert, ss_parts = parts,
           ss_receipt = \<lparr>rr_resource_id = ra_resource_id advert, rr_status = Sent, rr_sent_at = clock,
                         rr_concluded_at = None, rr_timeout = timeout\<rparr>,
           ss_timeout = timeout, ss_last_sent = clock, ss_retries = 0, ss_max_retries = max_retries\<rparr>)"

definition mark_sent :: "nat \<Rightarrow> resource_send_state \<Rightarrow> resource_send_state" where
  "mark_sent now s = s\<lparr>ss_last_sent := now\<rparr>"

definition conclude :: "receipt_status \<Rightarrow> nat \<Rightarrow> resource_send_state \<Rightarrow> resource_send_state" where
  "conclude st now s = s\<lparr>ss_receipt := (ss_receipt s)\<lparr>rr_status := st, rr_concluded_at := Some now\<rparr>\<rparr>"

definition send_handle_proof :: "nat \<Rightarrow> resource_proof \<Rightarrow> resource_send_state \<Rightarrow> bool \<times> resource_send_state" where
  "send_handle_proof clock prf s =
     (if rf_resource_id prf \<noteq> ss_resource_id s then (False, s)
      else (True, conclude (if rf_status prf = RESOURCE_PROOF_STATUS_OK then Completed else Failed) clock s))"

definition send_mark_failed :: "nat \<Rightarrow> resource_send_state \<Rightarrow> resource_send_state" where
  "send_mark_failed now s = conclude Failed now s"

definition send_handle_request :: "(bytes \<Rightarrow> bytes) \<Rightarrow> resource_request \<Rightarrow> resource_send_state \<Rightarrow> resource_part list" where
  "send_handle_request sha256 r s =
     (if rq_resource_id r \<noteq> ss_resource_id s then []
      else if rq_requested_hashes r = [] then []
      else filter (\<lambda>p. list_ex (\<lambda>h. h = compute_map_hash sha256 (rp_data p)) (rq_requested_hashes r)) (ss_parts s))"

definition poll_retry :: "nat \<Rightarrow> resource_send_state \<Rightarrow> resource_part list option \<times> resource_send_state" where
  "poll_retry now s =
     (if now - ss_last_sent s < ss_timeout s then (None, s)
      else if ss_retries s \<ge> ss_max_retries s then (None, conclude Failed now s)
      else (Some (ss_parts s), s\<lparr>ss_retries := ss_retries s + 1, ss_last_sent := now\<rparr>))"

text \<open>A sequence of parts handled one after the other, each at its own time.\<close>

fun handle_parts ::
  "(bytes \<Rightarrow> bytes) \<Rightarrow> (nat \<times> resource_part) list \<Rightarrow> resource_tracker
    \<Rightarrow> (ret_error + resource_event option) list \<times> resource_tracker" where
  "handle_parts sha256 [] t = ([], t)"
| "handle_parts sha256 ((clock, p) # ps) t =
     (let (r, t1) = handle_part sha256 clock p t; (rs, t2) = handle_parts sha256 ps t1 in (r # rs, t2))"

subsection \<open>Type invariant of the tracker\<close>

definition count_some :: "'a option list \<Rightarrow> nat" where
  "count_some xs = length (filter (\<lambda>c. c \<noteq> None) xs)"

text \<open>An assembly counts its received parts and is never complete while it is in the table.\<close>

definition assembly_wf :: "resource_assembly \<Rightarrow> bool" where
  "assembly_wf a \<longleftrightarrow> length (as_received a) = as_total_parts a \<and> length (as_hashmap a) = as_total_parts a
     \<and> as_received_count a = count_some (as_received a) \<and> as_received_count a < as_total_parts a
     \<and> as_total_parts a < 2 ^ 32 \<and> as_retries a \<le> as_max_retries a
     \<and> as_max_retries a = RESOURCE_DEFAULT_MAX_RETRIES
     \<and> list_all (\<lambda>c. case c of None \<Rightarrow> True | Some d \<Rightarrow> length d \<le> as_part_size a) (as_received a)"

definition tracker_wf :: "resource_tracker \<Rightarrow> bool" where
  "tracker_wf t \<longleftrightarrow> hm_wf (incoming t) \<and> cs_invar (tk_completed t)
     \<and> (\<forall>k a. map_of (incoming t) k = Some a \<longrightarrow>
          as_resource_id a = k \<and> assembly_wf a \<and> \<not> cs_contains k (tk_completed t))"

lemma tracker_wfD:
  "tracker_wf t \<Longrightarrow> map_of (incoming t) k = Some a \<Longrightarrow>
    as_resource_id a = k \<and> assembly_wf a \<and> \<not> cs_contains k (tk_completed t)"
  by (auto simp: tracker_wf_def)

lemma count_some_update:
  "i < length xs \<Longrightarrow> xs ! i = None \<Longrightarrow> count_some (xs[i := Some d]) = Suc (count_some xs)"
proof (induction xs arbitrary: i)
  case (Cons x xs)
  then show ?case by (cases i) (auto simp: count_some_def)
qed simp

lemma count_some_le: "count_some xs \<le> length xs"
  by (simp add: count_some_def)

lemma list_all_update: "list_all P xs \<Longrightarrow> P x \<Longrightarrow> list_all P (xs[i := x])"
  by (auto simp: list_all_iff dest: set_update_subset_insert [THEN subsetD])

lemma accept_part_fields [simp]:
  "as_resource_id (accept_part sha256 c p a) = as_resource_id a"
  "as_request_id (accept_part sha256 c p a) = as_request_id a"
  "as_is_response (accept_part sha256 c p a) = as_is_response a"
  "as_total_len (accept_part sha256 c p a) = as_total_len a"
  "as_total_parts (accept_part sha256 c p a) = as_total_parts a"
  "as_part_size (accept_part sha256 c p a) = as_part_size a"
  "as_retries (accept_part sha256 c p a) = as_retries a"
  "as_max_retries (accept_part sha256 c p a) = as_max_retries a"
  "length (as_received (accept_part sha256 c p a)) = length (as_received a)"
  "length (as_hashmap (accept_part sha256 c p a)) = length (as_hashmap a)"
  by (simp_all add: accept_part_def Let_def split: option.split)

lemma accept_part_received:
  "as_received (accept_part sha256 c p a) =
     (if as_received a ! rp_part_index p = None
      then (as_received a)[rp_part_index p := Some (rp_data p)] else as_received a)"
  "as_received_count (accept_part sha256 c p a) =
     (if as_received a ! rp_part_index p = None then (as_received_count a + 1) mod 2 ^ 32 else as_received_count a)"
  by (simp_all add: accept_part_def Let_def split: option.split)

lemma accept_part_count:
  assumes "assembly_wf a" and "rp_part_index p < length (as_received a)"
  shows "as_received_count (accept_part sha256 c p a) = count_some (as_received (accept_part sha256 c p a))"
  using assms by (auto simp: accept_part_received assembly_wf_def count_some_update)

lemma accept_part_wf:
  assumes "assembly_wf a" and "rp_part_index p < length (as_received a)"
    and "length (rp_data p) \<le> as_part_size a"
    and "as_received_count (accept_part sha256 c p a) \<noteq> as_total_parts a"
  shows "assembly_wf (accept_part sha256 c p a)"
proof -
  let ?a = "accept_part sha256 c p a"
  have "as_received_count ?a = count_some (as_received ?a)"
    using assms(1,2) by (rule accept_part_count)
  moreover have "count_some (as_received ?a) \<le> as_total_parts a"
    using count_some_le [of "as_received ?a"] assms(1) by (simp add: assembly_wf_def)
  ultimately show ?thesis
    using assms by (auto simp: assembly_wf_def accept_part_received(1) intro: list_all_update)
qed

lemma cs_insert_contains:
  "cs_invar c \<Longrightarrow> cs_contains k (snd (cs_insert x c)) \<Longrightarrow> k = x \<or> cs_contains k c"
  by (auto simp: cs_insert_def cs_contains_def Let_def cs_evict_def split: list.splits if_splits)

lemma cs_insert_invar: "cs_invar c \<Longrightarrow> cs_invar (snd (cs_insert x c))"
  using cs.ins_seen [of c x] cs.ins_new [of c x] by (cases "x \<in> set (cs_queue c)") auto

lemma cs_insert_member: "cs_invar c \<Longrightarrow> cs_contains x (snd (cs_insert x c))"
  by (auto simp: cs_insert_def cs_contains_def Let_def)

lemma assembly_new_wf:
  "0 < ra_total_parts adv \<Longrightarrow> ra_total_parts adv < 2 ^ 32 \<Longrightarrow> assembly_wf (assembly_new adv l now)"
  by (simp add: assembly_wf_def assembly_new_def count_some_def list_all_iff)

lemma handle_advertisement_wf:
  assumes "tracker_wf t" and "ra_total_parts adv < 2 ^ 32"
  shows "tracker_wf (snd (handle_advertisement adv l now t))"
proof -
  have "as_resource_id (assembly_new adv l now) = ra_resource_id adv" by (simp add: assembly_new_def)
  then show ?thesis
    using assms assembly_new_wf [of adv l now]
    by (auto simp: handle_advertisement_def tracker_wf_def hmap_simps)
qed

lemma tracker_wf_drop:
  assumes "tracker_wf t"
  shows "tracker_wf (t\<lparr>incoming := hm_remove k (incoming t), tk_completed := snd (cs_insert k (tk_completed t))\<rparr>)"
    and "tracker_wf (t\<lparr>incoming := hm_remove k (incoming t)\<rparr>)"
  using assms cs_insert_contains [of "tk_completed t" _ k]
  by (auto simp: tracker_wf_def hmap_simps cs_insert_invar split: if_splits)

lemma tracker_wf_modify:
  assumes "tracker_wf t" and "\<And>a. map_of (incoming t) k = Some a \<Longrightarrow> as_resource_id (f a) = as_resource_id a \<and> assembly_wf (f a)"
  shows "tracker_wf (t\<lparr>incoming := hm_modify k f (incoming t)\<rparr>)"
  using assms by (auto simp: tracker_wf_def hmap_simps split: if_splits)

lemma hm_remove_modify: "hm_remove k (hm_modify k f m) = hm_remove k m"
  by (induction m) (auto simp: hm_remove_def hm_modify_def split: if_splits)

lemma handle_part_wf:
  assumes "tracker_wf t"
  shows "tracker_wf (snd (handle_part sha256 c p t))"
proof (cases "map_of (incoming t) (rp_resource_id p)")
  case None
  then show ?thesis using assms by (simp add: handle_part_def)
next
  case (Some a)
  note a = tracker_wfD [OF assms Some]
  let ?a = "accept_part sha256 c p a"
  show ?thesis
  proof (cases "length (rp_data p) \<le> as_part_size a \<and> rp_part_index p < length (as_received a)")
    case False
    then show ?thesis using assms Some by (auto simp: handle_part_def)
  next
    case ok: True
    have "tracker_wf (t\<lparr>incoming := hm_modify (rp_resource_id p) (\<lambda>_. ?a) (incoming t)\<rparr>)"
      if "as_received_count ?a \<noteq> as_total_parts a"
      using a ok Some that accept_part_wf [of a p sha256 c] assms by (intro tracker_wf_modify) auto
    with ok Some a tracker_wf_drop(1) [OF assms] show ?thesis
      by (simp add: handle_part_def Let_def hm_remove_modify)
  qed
qed

lemma length_update_hashmap [simp]: "length (update_hashmap i hs hm) = length hm"
  by (induction i hs hm rule: update_hashmap.induct) auto

lemma handle_hash_update_wf:
  assumes "tracker_wf t"
  shows "tracker_wf (snd (handle_hash_update u now t))"
proof -
  have "tracker_wf (t\<lparr>incoming := hm_modify (ru_resource_id u)
      (\<lambda>a. a\<lparr>as_hashmap := update_hashmap i hs (as_hashmap a), as_last_activity := now\<rparr>) (incoming t)\<rparr>)" for i hs
    using tracker_wfD [OF assms] by (intro tracker_wf_modify assms) (fastforce simp: assembly_wf_def)
  with assms show ?thesis
    by (simp add: handle_hash_update_def Let_def split: option.split)
qed

lemma handle_cancel_wf: "tracker_wf t \<Longrightarrow> tracker_wf (snd (handle_cancel rid t))"
  by (simp add: handle_cancel_def tracker_wf_drop(1) split: option.split)

lemma poll_key_wf:
  assumes "tracker_wf t"
  shows "tracker_wf (snd (poll_key now k t))"
proof (cases "map_of (incoming t) k")
  case (Some a)
  note a = tracker_wfD [OF assms Some]
  have "tracker_wf (t\<lparr>incoming := hm_modify k (\<lambda>a. a\<lparr>as_retries := as_retries a + 1, as_last_activity := now\<rparr>) (incoming t)\<rparr>)"
    if "\<not> as_retries a \<ge> as_max_retries a"
    using that assms a Some by (intro tracker_wf_modify) (auto simp: assembly_wf_def)
  with assms Some show ?thesis by (simp add: poll_key_def tracker_wf_drop(2))
qed (simp add: poll_key_def assms)

lemma poll_keys_wf: "tracker_wf t \<Longrightarrow> tracker_wf (snd (poll_keys now ks t))"
proof (induction ks arbitrary: t)
  case (Cons k ks)
  from Cons.IH [OF poll_key_wf [OF Cons.prems], of now k] show ?case by (simp add: case_prod_beta)
qed simp

subsection \<open>A split resource is reassembled\<close>

text \<open>The state of an assembly that has received exactly the chunks with index in \<open>S\<close>.\<close>

definition tracks :: "bytes list \<Rightarrow> nat set \<Rightarrow> resource_assembly \<Rightarrow> bool" where
  "tracks cs S a \<longleftrightarrow> assembly_wf a \<and> as_total_parts a = length cs
     \<and> as_received a = map (\<lambda>i. if i \<in> S then Some (cs ! i) else None) [0..<length cs]"

lemma tracks_received: "tracks cs S a \<Longrightarrow> i < length cs \<Longrightarrow> as_received a ! i = (if i \<in> S then Some (cs ! i) else None)"
  by (simp add: tracks_def)

lemma accept_tracked:
  assumes "tracks cs S a" and "i < length cs" and "rp_part_index p = i" and "rp_data p = cs ! i"
  shows "as_received (accept_part sha256 c p a) = map (\<lambda>j. if j \<in> insert i S then Some (cs ! j) else None) [0..<length cs]"
proof (rule nth_equalityI)
  have "length (as_received a) = length cs" using assms(1) by (simp add: tracks_def)
  then show "length (as_received (accept_part sha256 c p a))
      = length (map (\<lambda>j. if j \<in> insert i S then Some (cs ! j) else None) [0..<length cs])"
    by simp
  fix j
  assume "j < length (as_received (accept_part sha256 c p a))"
  with \<open>length (as_received a) = length cs\<close> have "j < length cs" by simp
  with assms \<open>length (as_received a) = length cs\<close>
  show "as_received (accept_part sha256 c p a) ! j
      = map (\<lambda>j. if j \<in> insert i S then Some (cs ! j) else None) [0..<length cs] ! j"
    by (auto simp: accept_part_received(1) tracks_received nth_list_update)
qed

lemma count_some_tracked:
  "S \<subseteq> {..<n} \<Longrightarrow> count_some (map (\<lambda>j. if j \<in> S then Some (f j) else None) [0..<n]) = card S"
proof -
  assume S: "S \<subseteq> {..<n}"
  have "count_some (map (\<lambda>j. if j \<in> S then Some (f j) else None) [0..<n]) = length (filter (\<lambda>j. j \<in> S) [0..<n])"
    by (simp add: count_some_def filter_map comp_def)
  also have "\<dots> = card (set (filter (\<lambda>j. j \<in> S) [0..<n]))"
    by (rule distinct_card [symmetric]) simp
  also have "set (filter (\<lambda>j. j \<in> S) [0..<n]) = S" using S by auto
  finally show ?thesis .
qed

lemma card_full: "S \<subseteq> {..<n} \<Longrightarrow> card S = n \<longleftrightarrow> S = {..<n}"
  using card_subset_eq [of "{..<n}" S] by auto

text \<open>One more chunk: either the resource is complete, with the concatenation of the chunks as its
  data, or the assembly tracks one index more.\<close>

lemma handle_tracked_part:
  assumes wf: "tracker_wf t" and a: "map_of (incoming t) rid = Some a" "tracks cs S a"
    and S: "S \<subseteq> {..<length cs}" and p: "rp_resource_id p = rid" "i < length cs" "rp_part_index p = i" "rp_data p = cs ! i"
    and len: "length (cs ! i) \<le> as_part_size a"
  shows "insert i S = {..<length cs} \<Longrightarrow> handle_part sha256 c p t =
      (Inr (Some (Complete \<lparr>rc_resource_id = rid, rc_data = take (as_total_len a) (concat cs),
            rc_request_id = as_request_id a, rc_is_response = as_is_response a\<rparr>)),
       t\<lparr>incoming := hm_remove rid (incoming t), tk_completed := snd (cs_insert rid (tk_completed t))\<rparr>)"
    and "insert i S \<noteq> {..<length cs} \<Longrightarrow> \<exists>g a' t'. handle_part sha256 c p t = (Inr (Some (Progress g)), t')
      \<and> map_of (incoming t') rid = Some a' \<and> tracks cs (insert i S) a'
      \<and> as_total_len a' = as_total_len a \<and> as_part_size a' = as_part_size a
      \<and> as_request_id a' = as_request_id a \<and> as_is_response a' = as_is_response a"
proof -
  let ?a = "accept_part sha256 c p a"
  note awf = tracker_wfD [OF wf a(1)]
  have n: "length (as_received a) = length cs" "as_total_parts a = length cs" using a(2) by (simp_all add: tracks_def)
  have iS: "insert i S \<subseteq> {..<length cs}" using S p(2) by simp
  have rec: "as_received ?a = map (\<lambda>j. if j \<in> insert i S then Some (cs ! j) else None) [0..<length cs]"
    by (rule accept_tracked [OF a(2) p(2-4)])
  have cnt: "as_received_count ?a = card (insert i S)"
    using accept_part_count [of a p sha256 c] awf p n rec count_some_tracked [OF iS, of "\<lambda>j. cs ! j"] by simp
  then have full: "as_received_count ?a = as_total_parts ?a \<longleftrightarrow> insert i S = {..<length cs}"
    using card_full [OF iS] n by simp
  have hp: "handle_part sha256 c p t =
      (if as_received_count ?a = as_total_parts ?a then
             (Inr (Some (Complete \<lparr>rc_resource_id = rid, rc_data = assemble ?a,
                    rc_request_id = as_request_id a, rc_is_response = as_is_response a\<rparr>)),
              t\<lparr>incoming := hm_remove rid (incoming t), tk_completed := snd (cs_insert rid (tk_completed t))\<rparr>)
           else
             (Inr (Some (Progress \<lparr>rg_resource_id = rid, rg_request_id = as_request_id a,
                    rg_is_response = as_is_response a, rg_progress = (as_received_count ?a, as_total_parts ?a)\<rparr>)),
              t\<lparr>incoming := hm_modify rid (\<lambda>_. ?a) (incoming t)\<rparr>))"
    using a p awf n len by (simp add: handle_part_def Let_def hm_remove_modify)
  show "handle_part sha256 c p t =
      (Inr (Some (Complete \<lparr>rc_resource_id = rid, rc_data = take (as_total_len a) (concat cs),
            rc_request_id = as_request_id a, rc_is_response = as_is_response a\<rparr>)),
       t\<lparr>incoming := hm_remove rid (incoming t), tk_completed := snd (cs_insert rid (tk_completed t))\<rparr>)"
    if all: "insert i S = {..<length cs}"
  proof -
    have "map (\<lambda>c. case c of Some d \<Rightarrow> d | None \<Rightarrow> []) (as_received ?a) = cs"
      by (rule nth_equalityI) (simp_all add: rec all)
    then have "assemble ?a = take (as_total_len a) (concat cs)" by (simp add: assemble_def)
    with hp full all show ?thesis by simp
  qed
  show "\<exists>g a' t'. handle_part sha256 c p t = (Inr (Some (Progress g)), t')
      \<and> map_of (incoming t') rid = Some a' \<and> tracks cs (insert i S) a'
      \<and> as_total_len a' = as_total_len a \<and> as_part_size a' = as_part_size a
      \<and> as_request_id a' = as_request_id a \<and> as_is_response a' = as_is_response a"
    if "insert i S \<noteq> {..<length cs}"
  proof -
    have "assembly_wf ?a"
      using accept_part_wf [of a p sha256 c] awf n p len full that by auto
    with that full hp a(1) rec n show ?thesis
      by (auto simp: hmap_simps tracks_def)
  qed
qed

subsection \<open>Sequences of parts\<close>

text \<open>A part of another resource leaves the assembly of \<open>rid\<close> alone.\<close>

lemma handle_foreign_part:
  assumes "tracker_wf t" and "rp_resource_id p \<noteq> rid" and "handle_part sha256 c p t = (r, t')"
  shows "map_of (incoming t') rid = map_of (incoming t) rid"
    and "r = Inr (Some (Complete d)) \<Longrightarrow> rc_resource_id d \<noteq> rid"
  using assms tracker_wfD [OF assms(1), of "rp_resource_id p"]
  by (auto simp: handle_part_def Let_def hmap_simps split: option.splits if_splits)

definition completes :: "bytes \<Rightarrow> ret_error + resource_event option \<Rightarrow> bool" where
  "completes rid r \<longleftrightarrow> (case r of Inr (Some (Complete d)) \<Rightarrow> rc_resource_id d = rid | _ \<Rightarrow> False)"

text \<open>The parts of the resource \<open>rid\<close> carry the chunks \<open>cs\<close>; other parts are arbitrary.\<close>

definition carries :: "bytes \<Rightarrow> bytes list \<Rightarrow> resource_part \<Rightarrow> bool" where
  "carries rid cs p \<longleftrightarrow> rp_resource_id p \<noteq> rid \<or> (rp_part_index p < length cs \<and> rp_data p = cs ! rp_part_index p)"

definition indices :: "bytes \<Rightarrow> (nat \<times> resource_part) list \<Rightarrow> nat set" where
  "indices rid xs = rp_part_index ` {p \<in> snd ` set xs. rp_resource_id p = rid}"

lemma indices_simps [simp]:
  "indices rid [] = {}"
  "indices rid ((c, p) # xs) = (if rp_resource_id p = rid then insert (rp_part_index p) (indices rid xs) else indices rid xs)"
  by (auto simp: indices_def)

lemma handle_parts_tracked:
  assumes "tracker_wf t" and "map_of (incoming t) rid = Some a" "tracks cs S a" "S \<subseteq> {..<length cs}"
    and "list_all (\<lambda>(c, p). carries rid cs p) xs" and "list_all (\<lambda>d. length d \<le> as_part_size a) cs"
    and "S \<union> indices rid xs \<noteq> {..<length cs}"
    and "handle_parts sha256 xs t = (rs, t')"
  shows "\<exists>a'. tracker_wf t' \<and> map_of (incoming t') rid = Some a' \<and> tracks cs (S \<union> indices rid xs) a'
      \<and> as_total_len a' = as_total_len a \<and> as_part_size a' = as_part_size a
      \<and> as_request_id a' = as_request_id a \<and> as_is_response a' = as_is_response a
      \<and> S \<union> indices rid xs \<subseteq> {..<length cs} \<and> list_all (\<lambda>r. \<not> completes rid r) rs"
  using assms
proof (induction xs arbitrary: t a S rs)
  case Nil
  then show ?case by auto
next
  case (Cons x xs)
  obtain c p where x: "x = (c, p)" by fastforce
  obtain r t1 where r: "handle_part sha256 c p t = (r, t1)" by fastforce
  obtain rs' where rs: "handle_parts sha256 xs t1 = (rs', t')" "rs = r # rs'"
    using Cons.prems(8) r x by (auto split: prod.splits)
  have wf1: "tracker_wf t1" using handle_part_wf [OF Cons.prems(1), of sha256 c p] r by simp
  show ?case
  proof (cases "rp_resource_id p = rid")
    case True
    let ?i = "rp_part_index p"
    have i: "?i < length cs" "rp_data p = cs ! ?i" using Cons.prems(5) x True by (simp_all add: carries_def)
    have sub: "insert ?i S \<subseteq> {..<length cs}" using i Cons.prems(4) by simp
    have "insert ?i S \<noteq> {..<length cs}"
    proof
      assume full: "insert ?i S = {..<length cs}"
      have "indices rid xs \<subseteq> {..<length cs}"
        using Cons.prems(5) x by (auto simp: indices_def carries_def list_all_iff)
      with full Cons.prems(7) x True show False by auto
    qed
    moreover have "length (cs ! ?i) \<le> as_part_size a" using Cons.prems(6) i by (simp add: list_all_length)
    ultimately obtain g a1 where a1: "r = Inr (Some (Progress g))" "map_of (incoming t1) rid = Some a1"
        "tracks cs (insert ?i S) a1" "as_total_len a1 = as_total_len a" "as_part_size a1 = as_part_size a"
        "as_request_id a1 = as_request_id a" "as_is_response a1 = as_is_response a"
      using handle_tracked_part(2) [OF Cons.prems(1-4) True i(1) refl i(2), of sha256 c] r by auto
    from Cons.IH [OF wf1 a1(2,3) sub _ _ _ rs(1)] Cons.prems(5-7) x True a1 rs(2) show ?thesis
      by (auto simp: completes_def)
  next
    case False
    from handle_foreign_part [OF Cons.prems(1) False r] have "map_of (incoming t1) rid = Some a" "\<not> completes rid r"
      using Cons.prems(2) by (auto simp: completes_def split: sum.splits option.splits resource_event.splits)
    with Cons.IH [OF wf1 _ Cons.prems(3,4) _ _ _ rs(1)] Cons.prems(5-7) x False rs(2) show ?thesis by auto
  qed
qed

subsection \<open>The split\<close>

lemma resource_split_ok:
  assumes "resource_split sha256 data part_size req isr isq = Inr (adv, parts)"
    and "length data < 2 ^ 32" and "part_size < 2 ^ 32"
  shows "0 < part_size" and "adv = \<lparr>ra_resource_id = take RESOURCE_ID_LEN (sha256 data), ra_request_id = req,
      ra_total_len = length data, ra_part_size = part_size, ra_total_parts = length (chunks part_size data),
      ra_is_response = isr, ra_is_request = isq\<rparr>"
    and "parts = map (\<lambda>(i, d). \<lparr>rp_resource_id = take RESOURCE_ID_LEN (sha256 data), rp_part_index = i, rp_data = d\<rparr>)
        (enumerate 0 (chunks part_size data))"
    and "length (chunks part_size data) < 2 ^ 32" and "concat (chunks part_size data) = data"
    and "list_all (\<lambda>d. length d \<le> part_size) (chunks part_size data)"
proof -
  show ps: "0 < part_size" using assms(1) by (auto simp: resource_split_def split: if_splits)
  let ?n = "(length data + part_size - 1) div part_size"
  have n: "length (chunks part_size data) = ?n" using ps by (rule length_chunks)
  have "?n \<le> length data"
  proof (cases "data = []")
    case True
    then show ?thesis using ps by simp
  next
    case False
    then have "?n \<le> (length data * part_size) div part_size"
      using ps by (intro div_le_mono) (cases part_size; cases data; simp)
    then show ?thesis using ps by simp
  qed
  with n assms(2) show lt: "length (chunks part_size data) < 2 ^ 32" by simp
  have "length data + part_size - 1 < 2 ^ 64" using assms(2,3) by simp
  then have m: "(length data + part_size - 1) mod 2 ^ 64 = length data + part_size - 1" by (rule mod_less)
  have "(length data + part_size - 1) mod 2 ^ 64 div part_size mod 2 ^ 32 = length (chunks part_size data)"
    unfolding m n [symmetric] using lt by (rule mod_less)
  then show "adv = \<lparr>ra_resource_id = take RESOURCE_ID_LEN (sha256 data), ra_request_id = req,
      ra_total_len = length data, ra_part_size = part_size, ra_total_parts = length (chunks part_size data),
      ra_is_response = isr, ra_is_request = isq\<rparr>"
    using assms ps by (auto simp: resource_split_def Let_def)
  have "map (\<lambda>(idx, chunk). \<lparr>rp_resource_id = r, rp_part_index = idx mod 2 ^ 32, rp_data = chunk\<rparr>)
      (enumerate 0 (chunks part_size data)) = map (\<lambda>(i, d). \<lparr>rp_resource_id = r, rp_part_index = i, rp_data = d\<rparr>)
      (enumerate 0 (chunks part_size data))" for r
    using lt by (intro map_cong) (auto simp: in_set_enumerate_eq)
  then show "parts = map (\<lambda>(i, d). \<lparr>rp_resource_id = take RESOURCE_ID_LEN (sha256 data), rp_part_index = i, rp_data = d\<rparr>)
        (enumerate 0 (chunks part_size data))"
    using assms(1) ps by (auto simp: resource_split_def Let_def)
  show "concat (chunks part_size data) = data" using ps by simp
  show "list_all (\<lambda>d. length d \<le> part_size) (chunks part_size data)"
    using chunks_small by (auto simp: list_all_iff)
qed

lemma in_parts_iff:
  "p \<in> set (map (\<lambda>(i, d). \<lparr>rp_resource_id = r, rp_part_index = i, rp_data = d\<rparr>) (enumerate 0 cs)) \<longleftrightarrow>
    rp_resource_id p = r \<and> rp_part_index p < length cs \<and> rp_data p = cs ! rp_part_index p"
  by (cases p) (auto simp: in_set_enumerate_eq image_iff Bex_def)

lemma missing_index:
  assumes mem: "\<And>q. q \<in> set parts \<longleftrightarrow> rp_resource_id q = rid \<and> rp_part_index q < length cs
      \<and> rp_data q = cs ! rp_part_index q"
    and "\<forall>(c, q) \<in> set xs. rp_resource_id q = rid \<longrightarrow> q \<in> set parts"
    and "p \<in> set parts" "p \<notin> snd ` set xs" "set parts \<subseteq> insert p (snd ` set xs)"
  shows "indices rid xs = {..<length cs} - {rp_part_index p}"
proof
  have eq: "q = q'" if "q \<in> set parts" "q' \<in> set parts" "rp_part_index q = rp_part_index q'" for q q'
    using that by (simp add: mem)
  show "indices rid xs \<subseteq> {..<length cs} - {rp_part_index p}"
  proof
    fix i
    assume "i \<in> indices rid xs"
    then obtain c q where q: "(c, q) \<in> set xs" "rp_resource_id q = rid" "i = rp_part_index q"
      by (auto simp: indices_def)
    then have "q \<in> set parts" "q \<noteq> p" using assms(2,4) by force+
    with q(3) eq [of q p] assms(3) mem show "i \<in> {..<length cs} - {rp_part_index p}" by auto
  qed
  show "{..<length cs} - {rp_part_index p} \<subseteq> indices rid xs"
  proof
    fix i
    assume i: "i \<in> {..<length cs} - {rp_part_index p}"
    let ?q = "\<lparr>rp_resource_id = rid, rp_part_index = i, rp_data = cs ! i\<rparr>"
    have "?q \<in> set parts" using i by (simp add: mem)
    moreover have "?q \<noteq> p" using i by auto
    ultimately have "?q \<in> snd ` set xs" using assms(5) by blast
    then show "i \<in> indices rid xs" by (force simp: indices_def)
  qed
qed

subsection \<open>Timeouts\<close>

lemma poll_key_other: "k \<noteq> key \<Longrightarrow> map_of (incoming (snd (poll_key now key t))) k = map_of (incoming t) k"
  by (auto simp: poll_key_def hmap_simps split: option.split)

lemma poll_key_timeout [simp]: "tk_timeout (snd (poll_key now key t)) = tk_timeout t"
  by (simp add: poll_key_def split: option.split)

lemma poll_keys_timeout [simp]: "tk_timeout (snd (poll_keys now ks t)) = tk_timeout t"
  by (induction ks arbitrary: t) (simp_all add: case_prod_beta)

text \<open>What one poll does to one assembly.\<close>

definition poll_one :: "nat \<Rightarrow> nat \<Rightarrow> resource_assembly \<Rightarrow> resource_assembly option" where
  "poll_one timeout now a =
     (if now - as_last_activity a < timeout then Some a
      else if as_retries a \<ge> as_max_retries a then None
      else Some (a\<lparr>as_retries := as_retries a + 1, as_last_activity := now\<rparr>))"

lemma poll_key_same: "map_of (incoming (snd (poll_key now k t))) k =
    (case map_of (incoming t) k of None \<Rightarrow> None | Some a \<Rightarrow> poll_one (tk_timeout t) now a)"
  by (auto simp: poll_key_def poll_one_def hmap_simps split: option.split)

lemma poll_keys_lookup:
  "distinct ks \<Longrightarrow> map_of (incoming (snd (poll_keys now ks t))) k =
    (if k \<in> set ks then (case map_of (incoming t) k of None \<Rightarrow> None | Some a \<Rightarrow> poll_one (tk_timeout t) now a)
     else map_of (incoming t) k)"
proof (induction ks arbitrary: t)
  case (Cons x ks)
  show ?case
  proof (cases "k = x")
    case True
    with Cons poll_key_same [of now x t] show ?thesis by (simp add: case_prod_beta)
  next
    case False
    with Cons poll_key_other [OF False, of now t] show ?thesis
      by (simp add: case_prod_beta cong: option.case_cong)
  qed
qed simp

lemma poll_lookup:
  assumes "tracker_wf t"
  shows "map_of (incoming (snd (resource_poll_timeouts now t))) k =
    (case map_of (incoming t) k of None \<Rightarrow> None | Some a \<Rightarrow> poll_one (tk_timeout t) now a)"
proof -
  have "distinct (hm_keys (incoming t))" using assms by (simp add: tracker_wf_def hm_wf_def hm_keys_def)
  moreover have "k \<notin> set (hm_keys (incoming t)) \<Longrightarrow> map_of (incoming t) k = None"
    by (simp add: hm_keys_def map_of_eq_None_iff)
  ultimately show ?thesis
    by (auto simp: resource_poll_timeouts_def poll_keys_lookup split: option.split)
qed

fun polls :: "nat list \<Rightarrow> resource_tracker \<Rightarrow> resource_tracker" where
  "polls [] t = t"
| "polls (now # ts) t = polls ts (snd (resource_poll_timeouts now t))"

fun spaced :: "nat \<Rightarrow> nat \<Rightarrow> nat list \<Rightarrow> bool" where
  "spaced d x [] = True"
| "spaced d x (y # ys) = (x + d \<le> y \<and> spaced d y ys)"

lemma polls_none:
  "tracker_wf t \<Longrightarrow> map_of (incoming t) k = None \<Longrightarrow> map_of (incoming (polls ts t)) k = None"
proof (induction ts arbitrary: t)
  case (Cons now ts)
  have "tracker_wf (snd (resource_poll_timeouts now t))"
    using Cons.prems(1) by (simp add: resource_poll_timeouts_def poll_keys_wf)
  with Cons show ?case by (simp add: poll_lookup)
qed simp

lemma polls_lookup:
  assumes "tracker_wf t" and "map_of (incoming t) k = Some a" and "spaced (tk_timeout t) (as_last_activity a) ts"
  shows "map_of (incoming (polls ts t)) k =
    (if length ts + as_retries a \<le> as_max_retries a
     then Some (a\<lparr>as_retries := as_retries a + length ts, as_last_activity := last (as_last_activity a # ts)\<rparr>)
     else None)"
  using assms
proof (induction ts arbitrary: t a)
  case Nil
  with tracker_wfD [OF Nil.prems(1,2)] show ?case by (simp add: assembly_wf_def)
next
  case (Cons now ts)
  let ?t = "snd (resource_poll_timeouts now t)"
  have wf: "tracker_wf ?t" using Cons.prems(1) by (simp add: resource_poll_timeouts_def poll_keys_wf)
  have tm: "tk_timeout ?t = tk_timeout t" by (simp add: resource_poll_timeouts_def)
  have idle: "\<not> now - as_last_activity a < tk_timeout t" using Cons.prems(3) by auto
  show ?case
  proof (cases "as_retries a \<ge> as_max_retries a")
    case True
    with Cons.prems idle have "map_of (incoming ?t) k = None" by (simp add: poll_lookup poll_one_def)
    with wf True show ?thesis by (simp add: polls_none)
  next
    case False
    let ?a = "a\<lparr>as_retries := as_retries a + 1, as_last_activity := now\<rparr>"
    from False Cons.prems idle have "map_of (incoming ?t) k = Some ?a" by (simp add: poll_lookup poll_one_def)
    from Cons.IH [OF wf this] Cons.prems(3) tm show ?thesis by simp
  qed
qed

subsection \<open>Properties\<close>

text \<open>C3. Reassembly: when a non-empty resource is split and its advertisement accepted, then however
  its parts arrive (any order, any number of duplicates, interleaved with arbitrary parts of other
  resources), no event completes it before its last missing part, that part completes it with
  exactly the original data and the request id of the split, its assembly is gone, and a repeated
  advertisement is answered with \<open>AlreadyCompleted\<close>.\<close>

theorem resource_transfer_completes:
  assumes wf: "tracker_wf t"
    and split: "resource_split sha256 data part_size req isr isq = Inr (adv, parts)"
    and bounds: "length data < 2 ^ 32" "part_size < 2 ^ 32"
    and adv: "handle_advertisement adv link now t = (Inr Accepted, t0)"
    and parts: "list_all (\<lambda>(c, p). rp_resource_id p = ra_resource_id adv \<longrightarrow> p \<in> set parts) xs"
    and last: "p \<in> set parts" "p \<notin> snd ` set xs" "set parts \<subseteq> insert p (snd ` set xs)"
    and run: "handle_parts sha256 xs t0 = (rs, t1)" "handle_part sha256 clock p t1 = (r, t2)"
  shows "r = Inr (Some (Complete \<lparr>rc_resource_id = ra_resource_id adv, rc_data = data,
            rc_request_id = req, rc_is_response = isr\<rparr>))
    \<and> list_all (\<lambda>r. \<not> completes (ra_resource_id adv) r) rs
    \<and> map_of (incoming t2) (ra_resource_id adv) = None \<and> tracker_wf t2
    \<and> handle_advertisement adv link' now' t2 = (Inr AlreadyCompleted, t2)"
proof -
  let ?cs = "chunks part_size data" and ?rid = "ra_resource_id adv" and ?a = "assembly_new adv link now"
  note sp = resource_split_ok [OF split bounds]
  have n0: "ra_total_parts adv = length ?cs" "0 < length ?cs" "length ?cs < 2 ^ 32"
    using sp(2,4) adv by (auto simp: handle_advertisement_def split: if_splits)
  have t0: "t0 = t\<lparr>incoming := hm_insert ?rid ?a (incoming t)\<rparr>"
    using adv by (auto simp: handle_advertisement_def split: if_splits)
  have wf0: "tracker_wf t0" using handle_advertisement_wf [OF wf, of adv link now] adv n0 by simp
  have l0: "map_of (incoming t0) ?rid = Some ?a" by (simp add: t0 hmap_simps)
  have tr0: "tracks ?cs {} ?a"
    using assembly_new_wf [of adv link now] n0 by (simp add: tracks_def assembly_new_def map_replicate_const)
  have mem: "q \<in> set parts \<longleftrightarrow> rp_resource_id q = ?rid \<and> rp_part_index q < length ?cs
      \<and> rp_data q = ?cs ! rp_part_index q" for q
    unfolding sp(3) in_parts_iff using sp(2) by simp
  have car: "list_all (\<lambda>(c, p). carries ?rid ?cs p) xs"
    using parts by (auto simp: list_all_iff carries_def mem)
  have small: "list_all (\<lambda>d. length d \<le> as_part_size ?a) ?cs" using sp(2,6) by (simp add: assembly_new_def)
  have p: "rp_resource_id p = ?rid" "rp_part_index p < length ?cs" "rp_data p = ?cs ! rp_part_index p"
    using last(1) mem by simp_all
  have idx: "indices ?rid xs = {..<length ?cs} - {rp_part_index p}"
    using last parts p by (intro missing_index [OF mem]) (auto simp: list_all_iff)
  then have "{} \<union> indices ?rid xs \<noteq> {..<length ?cs}" using p(2) by auto
  from handle_parts_tracked [OF wf0 l0 tr0 _ car small this run(1)] obtain a1 where
    a1: "tracker_wf t1" "map_of (incoming t1) ?rid = Some a1" "tracks ?cs (indices ?rid xs) a1"
      "as_total_len a1 = length data" "as_part_size a1 = as_part_size ?a" "as_request_id a1 = req" "as_is_response a1 = isr"
      "indices ?rid xs \<subseteq> {..<length ?cs}" and rs: "list_all (\<lambda>r. \<not> completes ?rid r) rs"
    using sp(2) by (auto simp: assembly_new_def)
  have "insert (rp_part_index p) (indices ?rid xs) = {..<length ?cs}" using idx p(2) by auto
  moreover have "length (?cs ! rp_part_index p) \<le> as_part_size a1"
    using small p(2) a1(5) by (simp add: list_all_length)
  ultimately have fin: "r = Inr (Some (Complete \<lparr>rc_resource_id = ?rid, rc_data = data, rc_request_id = req, rc_is_response = isr\<rparr>))"
      "t2 = t1\<lparr>incoming := hm_remove ?rid (incoming t1), tk_completed := snd (cs_insert ?rid (tk_completed t1))\<rparr>"
    using handle_tracked_part(1) [OF a1(1-3,8) p(1,2) refl p(3), of sha256 clock] run(2) a1(4,6,7) sp(5) by auto
  have "cs_invar (tk_completed t1)" using a1(1) by (simp add: tracker_wf_def)
  with rs fin tracker_wf_drop(1) [OF a1(1)] show ?thesis
    by (simp add: hmap_simps handle_advertisement_def cs_insert_member)
qed

theorem resource_transfer_completes_witness:
  "\<exists>adv p1 p2 t0 rs t1 r t2. resource_split id [1, 2, 3] 2 None False True = Inr (adv, [p1, p2])
    \<and> handle_advertisement adv [] 0 (tracker_new 9) = (Inr Accepted, t0)
    \<and> handle_parts id [(1, p2), (2, p2)] t0 = (rs, t1) \<and> handle_part id 3 p1 t1 = (r, t2)
    \<and> r = Inr (Some (Complete \<lparr>rc_resource_id = ra_resource_id adv, rc_data = [1, 2, 3],
            rc_request_id = None, rc_is_response = False\<rparr>))"
proof -
  let ?adv = "\<lparr>ra_resource_id = [1, 2, 3], ra_request_id = None, ra_total_len = 3, ra_part_size = 2,
      ra_total_parts = 2, ra_is_response = False, ra_is_request = True\<rparr>"
  let ?p1 = "\<lparr>rp_resource_id = [1, 2, 3], rp_part_index = 0, rp_data = [1, 2]\<rparr>"
  let ?p2 = "\<lparr>rp_resource_id = [1, 2, 3], rp_part_index = 1, rp_data = [3]\<rparr>"
  have split: "resource_split id [1, 2, 3] 2 None False True = Inr (?adv, [?p1, ?p2])"
    by (simp add: resource_split_def chunks.simps resource_consts Let_def)
  have wf: "tracker_wf (tracker_new 9)"
    by (simp add: tracker_wf_def tracker_new_def hm_wf_def cs_invar_new RESOURCE_COMPLETED_CACHE_SIZE_def)
  obtain t0 where t0: "handle_advertisement ?adv [] 0 (tracker_new 9) = (Inr Accepted, t0)"
    by (simp add: handle_advertisement_def tracker_new_def cs_contains_def cs_new_def)
  obtain rs t1 where t1: "handle_parts id [(1, ?p2), (2, ?p2)] t0 = (rs, t1)" by fastforce
  obtain r t2 where t2: "handle_part id 3 ?p1 t1 = (r, t2)" by fastforce
  have "r = Inr (Some (Complete \<lparr>rc_resource_id = ra_resource_id ?adv, rc_data = [1, 2, 3],
            rc_request_id = None, rc_is_response = False\<rparr>))"
    using resource_transfer_completes [OF wf split _ _ t0 _ _ _ _ t1 t2] by simp
  with split t0 t1 t2 show ?thesis by blast
qed

text \<open>The reachable states of a tracker under its operations, with advertisements as the decoder
  produces them (\<open>u32\<close> fields).\<close>

inductive tracker_reachable :: "(bytes \<Rightarrow> bytes) \<Rightarrow> resource_tracker \<Rightarrow> bool" for sha256 where
  init: "tracker_reachable sha256 (tracker_new timeout)"
| advertisement: "tracker_reachable sha256 t \<Longrightarrow> ra_total_parts adv < 2 ^ 32 \<Longrightarrow>
    tracker_reachable sha256 (snd (handle_advertisement adv link now t))"
| part: "tracker_reachable sha256 t \<Longrightarrow> tracker_reachable sha256 (snd (handle_part sha256 clock p t))"
| hash_update: "tracker_reachable sha256 t \<Longrightarrow> tracker_reachable sha256 (snd (handle_hash_update u now t))"
| cancel: "tracker_reachable sha256 t \<Longrightarrow> tracker_reachable sha256 (snd (handle_cancel rid t))"
| timeouts: "tracker_reachable sha256 t \<Longrightarrow> tracker_reachable sha256 (snd (resource_poll_timeouts now t))"

text \<open>C20. In every reachable state of the tracker the invariant holds: each assembly is stored under
  its own id, counts exactly its received parts, is incomplete, holds no part longer than announced
  and at most three retries, and no resource is both incoming and completed.\<close>

theorem tracker_reachable_wf:
  assumes "tracker_reachable sha256 t"
  shows "tracker_wf t"
  using assms
proof induction
  case (init timeout)
  then show ?case
    by (simp add: tracker_wf_def tracker_new_def hm_wf_def cs_invar_new RESOURCE_COMPLETED_CACHE_SIZE_def)
next
  case (advertisement t adv link now)
  then show ?case by (simp add: handle_advertisement_wf)
next
  case (part t clock p)
  then show ?case by (simp add: handle_part_wf)
next
  case (hash_update t u now)
  then show ?case by (simp add: handle_hash_update_wf)
next
  case (cancel t rid)
  then show ?case by (simp add: handle_cancel_wf)
next
  case (timeouts t now)
  then show ?case by (simp add: resource_poll_timeouts_def poll_keys_wf)
qed

theorem tracker_reachable_wf_witness:
  "tracker_wf (snd (handle_cancel sample_id (snd (handle_advertisement sample_advert [] 0 (tracker_new 5)))))"
  by (rule tracker_reachable_wf [of id])
    (intro tracker_reachable.intros, simp add: sample_advert_def)

text \<open>C31. A stalled transfer ends: an assembly that only sees polls, each at least the timeout after
  the last activity, is retried exactly until its third retry and is removed by the next poll.\<close>

theorem stalled_resource_is_dropped:
  assumes "tracker_wf t" and "map_of (incoming t) k = Some a" and "spaced (tk_timeout t) (as_last_activity a) ts"
  shows "map_of (incoming (polls ts t)) k =
    (if length ts + as_retries a \<le> 3
     then Some (a\<lparr>as_retries := as_retries a + length ts, as_last_activity := last (as_last_activity a # ts)\<rparr>)
     else None)"
  using polls_lookup [OF assms] tracker_wfD [OF assms(1,2)]
  by (simp add: assembly_wf_def RESOURCE_DEFAULT_MAX_RETRIES_def)

theorem stalled_resource_is_dropped_witness:
  "map_of (incoming (polls [5, 10, 15, 20] (snd (handle_advertisement sample_advert [] 0 (tracker_new 5))))) sample_id
     = (None :: resource_assembly option)"
proof -
  let ?t = "snd (handle_advertisement sample_advert [] 0 (tracker_new 5))"
  have t: "?t = (tracker_new 5)\<lparr>incoming := [(sample_id, assembly_new sample_advert [] 0)]\<rparr>"
    by (simp add: handle_advertisement_def tracker_new_def cs_contains_def cs_new_def sample_advert_def hm_insert_def)
  have "tracker_wf (tracker_new 5)"
    by (simp add: tracker_wf_def tracker_new_def hm_wf_def cs_invar_new RESOURCE_COMPLETED_CACHE_SIZE_def)
  then have wf: "tracker_wf ?t" by (rule handle_advertisement_wf) (simp add: sample_advert_def)
  have l: "map_of (incoming ?t) sample_id = Some (assembly_new sample_advert [] 0)" by (simp add: t)
  have tmo: "tk_timeout ?t = 5" by (simp only: t) (simp add: tracker_new_def)
  show ?thesis
    using stalled_resource_is_dropped [OF wf l, of "[5, 10, 15, 20]"] tmo
    by (simp only: spaced.simps) (simp add: assembly_new_def)
qed

text \<open>Retransmission: every part that a receiver's timeout still misses and whose hash it knows is
  among the parts the sender returns for the request built from that timeout.\<close>

theorem timeout_request_is_served:
  assumes "resource_split sha256 data part_size req isr isq = Inr (adv, parts)"
    and "length data < 2 ^ 32" and "part_size < 2 ^ 32"
    and "tracks (chunks part_size data) S a" and "as_resource_id a = ra_resource_id adv"
    and "i < length parts" and "i \<notin> S" and "as_hashmap a ! i = Some (compute_map_hash sha256 (rp_data (parts ! i)))"
    and "send_state_new sha256 clock dest data part_size req isr isq tmo retries = Inr st"
  shows "parts ! i \<in> set (send_handle_request sha256
      \<lparr>rq_resource_id = rt_resource_id (timeout_of a failed), rq_hashmap_exhausted = rt_hashmap_exhausted (timeout_of a failed),
       rq_last_map_hash = rt_last_map_hash (timeout_of a failed),
       rq_requested_hashes = rt_requested_hashes (timeout_of a failed)\<rparr> st)"
proof -
  let ?h = "compute_map_hash sha256 (rp_data (parts ! i))"
  have st: "ss_parts st = parts" "ss_resource_id st = ra_resource_id adv"
    using assms(1,9) by (auto simp: send_state_new_def)
  note sp = resource_split_ok [OF assms(1-3)]
  have len: "length parts = length (chunks part_size data)" by (simp add: sp(3))
  have awf: "length (as_received a) = length (chunks part_size data)" "length (as_hashmap a) = length (chunks part_size data)"
    using assms(4) by (auto simp: tracks_def assembly_wf_def)
  have "as_received a ! i = None" using assms(4,6,7) len by (simp add: tracks_received)
  then have "(None, Some ?h) \<in> set (zip (as_received a) (as_hashmap a))"
    using assms(6,8) awf len by (auto simp: in_set_zip intro!: exI [of _ i])
  then have "?h \<in> set (missing_hashes a)"
    by (fastforce simp: missing_hashes_def)
  with st assms(5,6) show ?thesis
    by (auto simp: send_handle_request_def timeout_of_def list_ex_iff)
qed

theorem timeout_request_is_served_witness:
  "\<exists>adv parts st. resource_split id [1, 2, 3] 2 None False True = Inr (adv, parts)
    \<and> send_state_new id 0 [] [1, 2, 3] 2 None False True 9 3 = Inr st
    \<and> parts ! 1 \<in> set (send_handle_request id
      \<lparr>rq_resource_id = [1, 2, 3], rq_hashmap_exhausted = True, rq_last_map_hash = Some [3], rq_requested_hashes = [[3]]\<rparr> st)"
proof -
  let ?adv = "\<lparr>ra_resource_id = [1, 2, 3], ra_request_id = None, ra_total_len = 3, ra_part_size = 2,
      ra_total_parts = 2, ra_is_response = False, ra_is_request = True\<rparr>"
  let ?p1 = "\<lparr>rp_resource_id = [1, 2, 3], rp_part_index = 0, rp_data = [1, 2]\<rparr>"
  let ?p2 = "\<lparr>rp_resource_id = [1, 2, 3], rp_part_index = 1, rp_data = [3]\<rparr>"
  let ?a = "(assembly_new ?adv [] 0)\<lparr>as_hashmap := [None, Some [3]]\<rparr>"
  have cs: "chunks 2 [1, 2, 3 :: byte] = [[1, 2], [3]]" by (simp add: chunks.simps)
  have split: "resource_split id [1, 2, 3] 2 None False True = Inr (?adv, [?p1, ?p2])"
    by (simp add: resource_split_def cs resource_consts Let_def)
  obtain st where st: "send_state_new id 0 [] [1, 2, 3] 2 None False True 9 3 = Inr st"
    by (simp add: send_state_new_def split)
  have two: "replicate 2 None = [None, None]" by (simp add: numeral_2_eq_2)
  have tr: "tracks (chunks 2 [1, 2, 3]) {} ?a"
    unfolding cs by (simp add: tracks_def assembly_wf_def assembly_new_def count_some_def upt_rec [of 0] upt_rec [of "Suc 0"]
        numeral_2_eq_2 [symmetric] list_all_iff two)
  have "[?p1, ?p2] ! 1 \<in> set (send_handle_request id
      \<lparr>rq_resource_id = rt_resource_id (timeout_of ?a False), rq_hashmap_exhausted = rt_hashmap_exhausted (timeout_of ?a False),
       rq_last_map_hash = rt_last_map_hash (timeout_of ?a False),
       rq_requested_hashes = rt_requested_hashes (timeout_of ?a False)\<rparr> st)"
    by (rule timeout_request_is_served [OF split _ _ tr _ _ _ _ st])
      (simp_all add: assembly_new_def compute_map_hash_def resource_consts)
  then have "[?p1, ?p2] ! 1 \<in> set (send_handle_request id
      \<lparr>rq_resource_id = [1, 2, 3], rq_hashmap_exhausted = True, rq_last_map_hash = Some [3], rq_requested_hashes = [[3]]\<rparr> st)"
    by (simp add: timeout_of_def assembly_new_def missing_hashes_def missing_unknown_def last_known_hash_def numeral_2_eq_2)
  with split st show ?thesis by blast
qed

text \<open>An empty payload cannot be sent as a resource: it splits into an advertisement of zero parts,
  which every receiver that has not completed it already refuses with \<open>InvalidArgument\<close>.\<close>

theorem empty_resource_is_refused:
  assumes "resource_split sha256 [] part_size req isr isq = Inr (adv, parts)"
    and "\<not> cs_contains (ra_resource_id adv) (tk_completed t)"
  shows "parts = [] \<and> handle_advertisement adv link now t = (Inl InvalidArgument, t)"
proof -
  have "0 < part_size" using assms(1) by (auto simp: resource_split_def split: if_splits)
  then have "(part_size - Suc 0) mod 18446744073709551616 div part_size = 0"
    by (intro div_less) (meson diff_less le_less_trans mod_less_eq_dividend zero_less_Suc)
  with assms show ?thesis
    by (auto simp: resource_split_def handle_advertisement_def Let_def split: if_splits)
qed

theorem empty_resource_is_refused_witness:
  "\<exists>adv. resource_split id [] 4 None False False = Inr (adv, [])
    \<and> handle_advertisement adv [] 0 (tracker_new 9) = (Inl InvalidArgument, tracker_new 9)"
proof -
  obtain adv parts where s: "resource_split id [] 4 None False False = Inr (adv, parts)"
    by (simp add: resource_split_def Let_def)
  have "\<not> cs_contains (ra_resource_id adv) (tk_completed (tracker_new 9))"
    by (simp add: cs_contains_def tracker_new_def cs_new_def)
  from empty_resource_is_refused [OF s this] s show ?thesis by blast
qed

end
