(* ===== verification/Node_Router.thy ===== *)
theory Node_Router
  imports Transport_Node Resources Peer_Select
begin

section \<open>The router of a node (lxmf-rs/src/rns/transport.rs RnsNodeRouter)\<close>

text \<open>
  \<open>RnsNodeRouter\<close> joins the transport with the request tracker and the resource transfers: it sends
  messages, requests and responses as packets or, when they are too large, as resources over its links,
  and it turns the events of the links into received messages, requests and responses. What \<open>try_recv\<close>
  hands out of the two event channels is an argument. The frames of a transfer draw one vector per frame
  and link: \<open>iv n k\<close>. \<open>None\<close> is a panic; instants are nanoseconds.
\<close>

definition RESOURCE_TIMEOUT :: nat where "RESOURCE_TIMEOUT = secs 30"
definition RESOURCE_PROOF_TIMEOUT :: nat where "RESOURCE_PROOF_TIMEOUT = secs 10"

record resource_control_action =
  ac_link_id :: bytes
  ac_context :: packet_context
  ac_payload :: bytes

record rns_node_router =
  nr_identity :: private_identity
  nr_transport :: transport_handler
  nr_destination :: single_input
  nr_requests :: request_tracker
  nr_resources :: resource_tracker
  nr_outgoing :: "(bytes, resource_send_state) hmap"

text \<open>The start of a node; the transport gets one interface and the delivery destination.\<close>

definition new_udp :: "prims \<Rightarrow> string \<Rightarrow> private_identity \<Rightarrow> rns_node_router" where
  "new_udp P name i =
     (let th0 = transport_new (config_new name i True);
          th1 = th0\<lparr>th_manager := fst (manager_new_channel P (th_manager th0))\<rparr>;
          (th2, d) = add_destination P i (name_new P ''lxmf'' ''delivery'') th1 in
      \<lparr>nr_identity = i, nr_transport = th2, nr_destination = d, nr_requests = rt_new, nr_resources = tracker_new RESOURCE_TIMEOUT,
       nr_outgoing = []\<rparr>)"

subsection \<open>Paths and sources\<close>

definition request_path_for_hash :: "crypto \<Rightarrow> bytes \<Rightarrow> string option" where
  "request_path_for_hash cr h =
     (if h = request_path_hash cr (str_bytes CONTROL_STATS_PATH) then Some CONTROL_STATS_PATH
      else if h = request_path_hash cr (str_bytes CONTROL_SYNC_PATH) then Some CONTROL_SYNC_PATH
      else if h = request_path_hash cr (str_bytes CONTROL_UNPEER_PATH) then Some CONTROL_UNPEER_PATH
      else None)"

definition received_request :: "crypto \<Rightarrow> rns_request \<Rightarrow> bytes option \<Rightarrow> received" where
  "received_request cr req src =
     (case request_path_for_hash cr (req_path_hash req) of
        Some path \<Rightarrow>
          (if path = CONTROL_STATS_PATH \<or> path = CONTROL_SYNC_PATH \<or> path = CONTROL_UNPEER_PATH
           then RControlRequest req src else RRequest req src)
      | None \<Rightarrow> RRequest req src)"

definition source_hash_from_event :: "link_signal_data \<Rightarrow> bytes option" where
  "source_hash_from_event ev =
     (case ls_peer ev of
        None \<Rightarrow> None
      | Some h \<Rightarrow>
          (case address_hash_to_array h of
             Inl _ \<Rightarrow> None | Inr a \<Rightarrow> if list_all (\<lambda>b. b = 0) a then None else Some a))"

definition request_of_event :: "env \<Rightarrow> link_signal_data \<Rightarrow> bytes \<Rightarrow> rns_error + rns_request" where
  "request_of_event E ev payload =
     (case address_hash_to_array (ls_address_hash ev) of
        Inl e \<Rightarrow> Inl e | Inr d \<Rightarrow> decode_request_bytes_for_destination E d payload)"

subsection \<open>Events of the links\<close>

text \<open>What the handler of an event writes to.\<close>

record inbox =
  ib_received :: "received list"
  ib_actions :: "resource_control_action list"
  ib_requests :: request_tracker
  ib_resources :: resource_tracker
  ib_outgoing :: "(bytes, resource_send_state) hmap"

definition push_received :: "received \<Rightarrow> inbox \<Rightarrow> inbox" where
  "push_received x s = s\<lparr>ib_received := ib_received s @ [x]\<rparr>"

definition push_action :: "bytes \<Rightarrow> packet_context \<Rightarrow> bytes \<Rightarrow> inbox \<Rightarrow> inbox" where
  "push_action lid ctx payload s = s\<lparr>ib_actions := ib_actions s @ [\<lparr>ac_link_id = lid, ac_context = ctx, ac_payload = payload\<rparr>]\<rparr>"

definition push_response :: "nat \<Rightarrow> rns_response \<Rightarrow> bytes \<Rightarrow> bytes option \<Rightarrow> inbox \<Rightarrow> inbox" where
  "push_response now rsp payload src s =
     (let s1 = push_received (RResponse rsp src) s in
      s1\<lparr>ib_requests := snd (rt_record_response now (rsp_id rsp) payload (ib_requests s1))\<rparr>)"

text \<open>A payload without context: a message, a propagated message, a batch of them, a request or a response,
  whatever decodes first.\<close>

definition receive_plain :: "env \<Rightarrow> nat \<Rightarrow> link_signal_data \<Rightarrow> bytes \<Rightarrow> inbox \<Rightarrow> inbox" where
  "receive_plain E now ev payload s =
     (let src = source_hash_from_event ev in
      case msg_decode (e_codec E) (e_crypto E) payload of
        Inr m \<Rightarrow> push_received (RMessage m) s
      | Inl _ \<Rightarrow>
         (case decode_propagated_payload E payload src (src = None) of
            Inr r \<Rightarrow> push_received r s
          | Inl _ \<Rightarrow>
             (case decode_propagation_resource_payload E payload of
                Inr _ \<Rightarrow> push_received (RPropagationResource payload src) s
              | Inl _ \<Rightarrow>
                 (case request_of_event E ev payload of
                    Inr req \<Rightarrow> push_received (received_request (e_crypto E) req src) s
                  | Inl _ \<Rightarrow>
                     (case decode_response_bytes E payload of
                        Inr rsp \<Rightarrow> push_response now rsp payload src s
                      | Inl _ \<Rightarrow> s)))))"

definition receive_request :: "env \<Rightarrow> link_signal_data \<Rightarrow> bytes \<Rightarrow> inbox \<Rightarrow> inbox" where
  "receive_request E ev payload s =
     (case request_of_event E ev payload of
        Inr req \<Rightarrow> push_received (received_request (e_crypto E) req (source_hash_from_event ev)) s | Inl _ \<Rightarrow> s)"

definition receive_response :: "env \<Rightarrow> nat \<Rightarrow> link_signal_data \<Rightarrow> bytes \<Rightarrow> inbox \<Rightarrow> inbox" where
  "receive_response E now ev payload s =
     (case decode_response_bytes E payload of
        Inr rsp \<Rightarrow> push_response now rsp payload (source_hash_from_event ev) s | Inl _ \<Rightarrow> s)"

subsection \<open>Events of a resource transfer\<close>

definition receive_advertisement :: "nat \<Rightarrow> link_signal_data \<Rightarrow> bytes \<Rightarrow> inbox \<Rightarrow> inbox" where
  "receive_advertisement now ev payload s =
     (case advert_decode payload of
        Inl _ \<Rightarrow> s
      | Inr advert \<Rightarrow>
          (case address_hash_to_array (ls_id ev) of
             Inl _ \<Rightarrow> s
           | Inr lid \<Rightarrow>
               (case handle_advertisement advert lid now (ib_resources s) of
                  (Inl _, t) \<Rightarrow> s\<lparr>ib_resources := t\<rparr>
                | (Inr AlreadyCompleted, t) \<Rightarrow>
                    push_action (ls_id ev) ResourceProof
                      (proof_encode \<lparr>rf_resource_id = ra_resource_id advert, rf_status = RESOURCE_PROOF_STATUS_OK\<rparr>) (s\<lparr>ib_resources := t\<rparr>)
                | (Inr Accepted, t) \<Rightarrow>
                    (let s1 = s\<lparr>ib_resources := t\<rparr> in
                     case ra_request_id advert of
                       Some rid \<Rightarrow> (if ra_is_response advert then s1\<lparr>ib_requests := rt_mark_receiving rid 0 (ib_requests s1)\<rparr> else s1)
                     | None \<Rightarrow> s1))))"

definition receive_hash_update :: "rmp \<Rightarrow> nat \<Rightarrow> bytes \<Rightarrow> inbox \<Rightarrow> inbox" where
  "receive_hash_update c now payload s =
     (case hash_update_decode c payload of
        Inl _ \<Rightarrow> s | Inr u \<Rightarrow> s\<lparr>ib_resources := snd (handle_hash_update u now (ib_resources s))\<rparr>)"

text \<open>The request of a resource that is one fails with it.\<close>

definition fail_request :: "nat \<Rightarrow> bool \<Rightarrow> bytes option \<Rightarrow> inbox \<Rightarrow> inbox" where
  "fail_request now b rid s =
     (case rid of Some r \<Rightarrow> if b then s\<lparr>ib_requests := rt_mark_failed now r (ib_requests s)\<rparr> else s | None \<Rightarrow> s)"

definition receive_cancel :: "nat \<Rightarrow> bytes \<Rightarrow> inbox \<Rightarrow> inbox" where
  "receive_cancel now payload s =
     (case cancel_decode payload of
        Inl _ \<Rightarrow> s
      | Inr rid \<Rightarrow>
          (let (c, t) = handle_cancel rid (ib_resources s);
               s1 = s\<lparr>ib_resources := t\<rparr>;
               s2 = (case c of Some ev \<Rightarrow> fail_request now (rx_is_response ev) (rx_request_id ev) s1 | None \<Rightarrow> s1) in
           case map_of (ib_outgoing s2) rid of
             None \<Rightarrow> s2
           | Some st \<Rightarrow> fail_request now (ss_is_request st) (ss_request_id st)
               (s2\<lparr>ib_outgoing := hm_modify rid (send_mark_failed now) (ib_outgoing s2)\<rparr>)))"

definition receive_proof :: "nat \<Rightarrow> bytes \<Rightarrow> inbox \<Rightarrow> inbox" where
  "receive_proof now payload s =
     (case proof_decode payload of
        Inl _ \<Rightarrow> s
      | Inr prf \<Rightarrow>
          (case map_of (ib_outgoing s) (rf_resource_id prf) of
             None \<Rightarrow> s
           | Some st \<Rightarrow>
               (let (ok, st') = send_handle_proof now prf st;
                    s1 = s\<lparr>ib_outgoing := hm_modify (rf_resource_id prf) (\<lambda>_. st') (ib_outgoing s)\<rparr> in
                if ok \<and> ss_is_request st'
                then (case ss_request_id st' of
                        Some rid \<Rightarrow>
                          s1\<lparr>ib_requests := (if rf_status prf = RESOURCE_PROOF_STATUS_OK then rt_mark_delivered rid (ib_requests s1)
                                              else rt_mark_failed now rid (ib_requests s1))\<rparr>
                      | None \<Rightarrow> s1)
                else s1)))"

text \<open>The index after the first part with the given hash, or 0, and the hashes of the parts from there on.\<close>

fun index_after :: "(bytes \<Rightarrow> bytes) \<Rightarrow> bytes \<Rightarrow> nat \<Rightarrow> resource_part list \<Rightarrow> nat" where
  "index_after sha256 h i [] = 0"
| "index_after sha256 h i (p # ps) = (if compute_map_hash sha256 (rp_data p) = h then i + 1 else index_after sha256 h (i + 1) ps)"

definition hashes_from :: "(bytes \<Rightarrow> bytes) \<Rightarrow> nat \<Rightarrow> resource_part list \<Rightarrow> bytes" where
  "hashes_from sha256 n ps = concat (map (\<lambda>p. compute_map_hash sha256 (rp_data p)) (drop n ps))"

definition receive_part_request :: "prims \<Rightarrow> rmp \<Rightarrow> nat \<Rightarrow> link_signal_data \<Rightarrow> bytes \<Rightarrow> inbox \<Rightarrow> inbox" where
  "receive_part_request P c now ev payload s =
     (case request_decode payload of
        Inl _ \<Rightarrow> s
      | Inr req \<Rightarrow>
          (case map_of (ib_outgoing s) (rq_resource_id req) of
             None \<Rightarrow> s
           | Some st \<Rightarrow>
               (let parts = send_handle_request (pr_sha256 P) req st;
                    s1 = fold (\<lambda>p. push_action (ls_id ev) Resource (part_encode p)) parts s;
                    s2 = (if rq_hashmap_exhausted req
                          then (case rq_last_map_hash req of
                                  None \<Rightarrow> s1
                                | Some h \<Rightarrow> push_action (ls_id ev) ResourceHashUpdate
                                    (hash_update_encode c \<lparr>ru_resource_id = rq_resource_id req, ru_segment = 0,
                                       ru_hashmap = hashes_from (pr_sha256 P) (index_after (pr_sha256 P) h 0 (ss_parts st)) (ss_parts st)\<rparr>) s1)
                          else s1) in
                if parts \<noteq> [] then s2\<lparr>ib_outgoing := hm_modify (rq_resource_id req) (mark_sent now) (ib_outgoing s2)\<rparr> else s2)))"

text \<open>The progress of a transfer: the quotient of two numbers converted to \<open>f32\<close>.\<close>

definition progress_f32 :: "nat \<times> nat \<Rightarrow> 32 word" where
  "progress_f32 = (\<lambda>(n, m). let (a, b) = f32_ratio (f32_round n 1); (c, d) = f32_ratio (f32_round m 1) in of_nat (f32_round (a * d) (b * c)))"

text \<open>A complete resource that belongs to no request: a message, a propagated message or a batch.\<close>

definition receive_complete_data :: "env \<Rightarrow> bytes option \<Rightarrow> bytes \<Rightarrow> inbox \<Rightarrow> inbox" where
  "receive_complete_data E src d s =
     (case msg_decode (e_codec E) (e_crypto E) d of
        Inr m \<Rightarrow> push_received (RMessage m) s
      | Inl _ \<Rightarrow>
         (case decode_propagated_payload E d src (src = None) of
            Inr r \<Rightarrow> push_received r s
          | Inl _ \<Rightarrow>
             (case decode_propagation_resource_payload E d of
                Inr _ \<Rightarrow> push_received (RPropagationResource d src) s | Inl _ \<Rightarrow> s)))"

definition receive_complete :: "env \<Rightarrow> nat \<Rightarrow> link_signal_data \<Rightarrow> resource_completion \<Rightarrow> inbox \<Rightarrow> inbox" where
  "receive_complete E now ev c s =
     (let src = source_hash_from_event ev;
          s1 = push_action (ls_id ev) ResourceProof (proof_encode \<lparr>rf_resource_id = rc_resource_id c, rf_status = RESOURCE_PROOF_STATUS_OK\<rparr>) s in
      case rc_request_id c of
        None \<Rightarrow> receive_complete_data E src (rc_data c) s1
      | Some rid \<Rightarrow>
          (if rc_is_response c
           then (case decode_response_bytes E (rc_data c) of
                   Inr rsp \<Rightarrow> push_response now rsp (rc_data c) src s1 | Inl _ \<Rightarrow> s1)
           else (case decode_request_bytes E (rc_data c) of
                   Inr req \<Rightarrow> push_received (received_request (e_crypto E) (req\<lparr>req_id := rid\<rparr>) src) s1 | Inl _ \<Rightarrow> s1)))"

definition receive_batch :: "env \<Rightarrow> link_signal_data \<Rightarrow> bytes \<Rightarrow> inbox \<Rightarrow> inbox" where
  "receive_batch E ev payload s =
     (case decode_propagation_resource_payload E payload of
        Inr _ \<Rightarrow> push_received (RPropagationResource payload (source_hash_from_event ev)) s | Inl _ \<Rightarrow> s)"

definition receive_part :: "env \<Rightarrow> prims \<Rightarrow> nat \<Rightarrow> link_signal_data \<Rightarrow> bytes \<Rightarrow> inbox \<Rightarrow> inbox" where
  "receive_part E P now ev payload s =
     (case part_decode payload of
        Inl _ \<Rightarrow> receive_batch E ev payload s
      | Inr part \<Rightarrow>
          (case handle_part (pr_sha256 P) now part (ib_resources s) of
             (Inr (Some (Progress g)), t) \<Rightarrow>
               (let s1 = s\<lparr>ib_resources := t\<rparr> in
                case rg_request_id g of
                  Some rid \<Rightarrow> (if rg_is_response g then s1\<lparr>ib_requests := rt_mark_receiving rid (progress_f32 (rg_progress g)) (ib_requests s1)\<rparr> else s1)
                | None \<Rightarrow> s1)
           | (Inr (Some (Complete c)), t) \<Rightarrow> receive_complete E now ev c (s\<lparr>ib_resources := t\<rparr>)
           | (_, t) \<Rightarrow> receive_batch E ev payload (s\<lparr>ib_resources := t\<rparr>)))"

text \<open>The whole handler of an event.\<close>

definition handle_link_event :: "env \<Rightarrow> prims \<Rightarrow> rmp \<Rightarrow> nat \<Rightarrow> link_signal_data \<Rightarrow> inbox \<Rightarrow> inbox option" where
  "handle_link_event E P c now ev s =
     (case ls_event ev of
        DataSignal pl ctx \<Rightarrow>
          (case payload_as_slice pl of
             None \<Rightarrow> None
           | Some payload \<Rightarrow> Some
              (if ctx = CtxNone then receive_plain E now ev payload s
               else if ctx = Request then receive_request E ev payload s
               else if ctx = Response then receive_response E now ev payload s
               else if ctx = ResourceAdvrtisement then receive_advertisement now ev payload s
               else if ctx = ResourceHashUpdate then receive_hash_update c now payload s
               else if ctx = ResourceInitiatorCancel \<or> ctx = ResourceReceiverCancel then receive_cancel now payload s
               else if ctx = ResourceProof then receive_proof now payload s
               else if ctx = ResourceRequest then receive_part_request P c now ev payload s
               else if ctx = Resource then receive_part E P now ev payload s
               else s))
      | _ \<Rightarrow> Some s)"

fun handle_link_events :: "env \<Rightarrow> prims \<Rightarrow> rmp \<Rightarrow> nat \<Rightarrow> link_signal_data list \<Rightarrow> inbox \<Rightarrow> inbox option" where
  "handle_link_events E P c now [] s = Some s"
| "handle_link_events E P c now (ev # evs) s =
     (case handle_link_event E P c now ev s of None \<Rightarrow> None | Some s1 \<Rightarrow> handle_link_events E P c now evs s1)"

subsection \<open>Sending resources\<close>

fun send_frames :: "prims \<Rightarrow> nat \<Rightarrow> (nat \<Rightarrow> bytes \<Rightarrow> bytes) \<Rightarrow> bytes \<Rightarrow> nat \<Rightarrow> (bytes \<times> packet_context) list \<Rightarrow> transport_handler \<Rightarrow> tp_result" where
  "send_frames P now iv dest n [] th = Some (th, [])"
| "send_frames P now iv dest n ((payload, ctx) # fs) th =
     tp_bind (send_to_out_links_with_context P now (iv n) dest payload ctx th) (send_frames P now iv dest (Suc n) fs)"

definition resource_frames :: "resource_send_state \<Rightarrow> resource_part list \<Rightarrow> (bytes \<times> packet_context) list" where
  "resource_frames st parts = (advert_encode (ss_advert st), ResourceAdvrtisement) # map (\<lambda>p. (part_encode p, Resource)) parts"

text \<open>The result, the outputs and the new state; the test for an empty part never succeeds.\<close>

type_synonym node_result = "((rns_error + unit) \<times> rns_node_router \<times> tp_output list) option"

definition send_resource_frames :: "prims \<Rightarrow> nat \<Rightarrow> (nat \<Rightarrow> bytes \<Rightarrow> bytes) \<Rightarrow> bytes \<Rightarrow> bytes \<Rightarrow> bytes option \<Rightarrow> bool \<Rightarrow> bool \<Rightarrow>
    rns_node_router \<Rightarrow> node_result" where
  "send_resource_frames P now iv dest payload rid is_response is_request r =
     (let part_size = PACKET_MDU - RESOURCE_PART_HEADER_LEN in
      if part_size = 0 then Some (Inl (Msgpack ''invalid resource payload''), r, [])
      else (case send_state_new (pr_sha256 P) now dest payload part_size rid is_response is_request RESOURCE_PROOF_TIMEOUT RESOURCE_DEFAULT_MAX_RETRIES of
              Inl _ \<Rightarrow> Some (Inl (Msgpack ''invalid resource payload''), r, [])
            | Inr st \<Rightarrow>
                (case send_frames P now iv dest 0 (resource_frames st (ss_parts st)) (nr_transport r) of
                   None \<Rightarrow> None
                 | Some (th, evs) \<Rightarrow>
                     Some (Inr (), r\<lparr>nr_transport := th, nr_outgoing := hm_insert (ss_resource_id st) (mark_sent now st) (nr_outgoing r)\<rparr>, evs))))"

definition send_resource_payload :: "prims \<Rightarrow> nat \<Rightarrow> (nat \<Rightarrow> bytes \<Rightarrow> bytes) \<Rightarrow> bytes \<Rightarrow> bytes \<Rightarrow> rns_node_router \<Rightarrow> node_result" where
  "send_resource_payload P now iv dest payload r = send_resource_frames P now iv dest payload None False False r"

text \<open>Sending a packet of the transport.\<close>

definition node_send_packet :: "prims \<Rightarrow> nat \<Rightarrow> packet \<Rightarrow> rns_node_router \<Rightarrow> rns_node_router \<times> tp_output list" where
  "node_send_packet P now p r = (let (th, evs) = handler_send_packet P now p (nr_transport r) in (r\<lparr>nr_transport := th\<rparr>, evs))"

definition node_announce :: "prims \<Rightarrow> nat \<Rightarrow> bytes \<Rightarrow> rns_node_router \<Rightarrow> (rns_node_router \<times> tp_output list) option" where
  "node_announce P now rand r =
     map_option (\<lambda>(th, evs). (r\<lparr>nr_transport := th\<rparr>, evs)) (send_announce P now rand (nr_destination r) None (nr_transport r))"

subsection \<open>Messages\<close>

text \<open>\<open>ReticulumEncryptor\<close>, the encryptor of \<open>RnsOutbound::new\<close>: the buffer has 512 bytes more than the text.\<close>

definition reticulum_encrypt :: "prims \<Rightarrow> bytes \<Rightarrow> bytes \<Rightarrow> bytes \<Rightarrow> single_output \<Rightarrow> bytes \<Rightarrow> (rns_error + bytes) option" where
  "reticulum_encrypt P eph eph' iv d plain =
     map_option (map_sum Reticulum id)
       (identity_encrypt P eph' iv plain (identity_derive_key P eph (d_identity d) (Some (dd_address_hash (d_desc d)))) (length plain + 512))"

definition outbound_new :: "prims \<Rightarrow> private_identity \<Rightarrow> identity \<Rightarrow> encrypt_hook \<Rightarrow> rns_outbound" where
  "outbound_new P source destination enc =
     (let name = name_new P ''lxmf'' ''delivery'' in
      \<lparr>ro_source = dd_address_hash (d_desc (single_input_new P source name)), ro_destination = dd_address_hash (d_desc (single_output_new P destination name)),
       ro_sign = private_sign P source, ro_encryptor = enc, ro_policy = AllowPlaintext\<rparr>)"

text \<open>\<open>deliver\<close> with the panic of the encryptor: it runs the encryptor where \<open>deliver\<close> does, on the text that
  \<open>deliver\<close> encrypts, and hands the result on.\<close>

definition node_deliver :: "env \<Rightarrow> prims \<Rightarrow> (bytes \<Rightarrow> (rns_error + bytes) option) \<Rightarrow> rns_outbound \<Rightarrow> lxmessage \<Rightarrow> delivery_mode \<Rightarrow>
    ((rns_error + delivery_output) \<times> lxmessage) option" where
  "node_deliver E P encrypt out m mode =
     (case check_outbound (ro_policy out) mode (ro_encryptor out) of
        Inl e \<Rightarrow> Some (Inl e, m)
      | Inr _ \<Rightarrow>
         (case prepare_message out m of
            (Inl e, m1) \<Rightarrow> Some (Inl e, m1)
          | (Inr _, m1) \<Rightarrow>
             (case encode_signed (e_codec E) (e_crypto E) (e_rng E) (ro_sign out) m1 of
                (Inl e, m2) \<Rightarrow> Some (Inl (Lxmf e), m2)
              | (Inr packed, m2) \<Rightarrow>
                  (if mode = Propagated \<or> mode = Paper
                   then (case encrypt (drop DESTINATION_LENGTH packed) of
                           None \<Rightarrow> None
                         | Some c \<Rightarrow> Some (deliver_packed E (out\<lparr>ro_encryptor := \<lparr>eh_encrypt = \<lambda>_. c, provides_encryption = True\<rparr>\<rparr>) mode packed m2))
                   else Some (deliver_packed E out mode packed m2)))))"

definition send_message :: "env \<Rightarrow> prims \<Rightarrow> nat \<Rightarrow> (nat \<Rightarrow> bytes \<Rightarrow> bytes) \<Rightarrow> bytes \<Rightarrow> bytes \<Rightarrow> bytes \<Rightarrow> identity \<Rightarrow> lxmessage \<Rightarrow> delivery_mode \<Rightarrow>
    rns_node_router \<Rightarrow> ((rns_error + unit) \<times> lxmessage \<times> rns_node_router \<times> tp_output list) option" where
  "send_message E P now iv eph eph' eiv destination m mode r =
     (let d = single_output_new P destination (name_new P ''lxmf'' ''delivery'');
          out = outbound_new P (nr_identity r) destination \<lparr>eh_encrypt = Inr, provides_encryption = True\<rparr> in
      case node_deliver E P (reticulum_encrypt P eph eph' eiv d) out m mode of
        None \<Rightarrow> None
      | Some (Inl e, m') \<Rightarrow> Some (Inl e, m', r, [])
      | Some (Inr (OutPacket p), m') \<Rightarrow> (let (r', evs) = node_send_packet P now p r in Some (Inr (), m', r', evs))
      | Some (Inr (OutResource dest ctx d), m') \<Rightarrow>
          map_option (\<lambda>(res, r', evs). (res, m', r', evs)) (send_resource_frames P now iv dest d None False False r)
      | Some (Inr (OutPaperUri _), m') \<Rightarrow> Some (Inr (), m', r, []))"


subsection \<open>Requests, responses and the directory\<close>

definition packet_from_payload_with_context :: "single_output \<Rightarrow> bytes \<Rightarrow> destination_type \<Rightarrow> packet_context \<Rightarrow> rns_error + packet" where
  "packet_from_payload_with_context d payload dt ctx = packet_from_payload_hash_with_context (dd_address_hash (d_desc d)) payload dt ctx"

definition build_pn_dir_request_packet :: "env \<Rightarrow> prims \<Rightarrow> identity \<Rightarrow> pn_dir_request \<Rightarrow> rns_error + packet" where
  "build_pn_dir_request_packet E P destination req =
     (case encode_pn_dir_request (e_codec E) req of
        Inl e \<Rightarrow> Inl e
      | Inr payload \<Rightarrow> packet_from_payload_with_context (single_output_new P destination (name_new P ''lxmf'' ''pn'')) payload Single Request)"

definition build_pn_dir_response_packet :: "env \<Rightarrow> prims \<Rightarrow> identity \<Rightarrow> pn_dir_response \<Rightarrow> rns_error + packet" where
  "build_pn_dir_response_packet E P destination rsp =
     (case encode_pn_dir_response (e_codec E) rsp of
        Inl e \<Rightarrow> Inl e
      | Inr payload \<Rightarrow> packet_from_payload_with_context (single_output_new P destination (name_new P ''lxmf'' ''pn'')) payload Single Response)"

text \<open>Sending what was built, or the error.\<close>

definition send_built :: "prims \<Rightarrow> nat \<Rightarrow> rns_error + packet \<Rightarrow> rns_node_router \<Rightarrow> (rns_error + unit) \<times> rns_node_router \<times> tp_output list" where
  "send_built P now x r = (case x of Inl e \<Rightarrow> (Inl e, r, []) | Inr p \<Rightarrow> (let (r', evs) = node_send_packet P now p r in (Inr (), r', evs)))"

definition send_pn_dir_request :: "env \<Rightarrow> prims \<Rightarrow> nat \<Rightarrow> identity \<Rightarrow> pn_dir_request \<Rightarrow> rns_node_router \<Rightarrow> (rns_error + unit) \<times> rns_node_router \<times> tp_output list" where
  "send_pn_dir_request E P now destination req r = send_built P now (build_pn_dir_request_packet E P destination req) r"

definition send_pn_dir_response :: "env \<Rightarrow> prims \<Rightarrow> nat \<Rightarrow> identity \<Rightarrow> pn_dir_response \<Rightarrow> rns_node_router \<Rightarrow> (rns_error + unit) \<times> rns_node_router \<times> tp_output list" where
  "send_pn_dir_response E P now destination rsp r = send_built P now (build_pn_dir_response_packet E P destination rsp) r"

definition request_destination :: "prims \<Rightarrow> identity \<Rightarrow> single_output" where
  "request_destination P i = single_output_new P i (name_new P ''lxmf'' ''req'')"

definition build_request_packet :: "env \<Rightarrow> prims \<Rightarrow> identity \<Rightarrow> rns_request \<Rightarrow> (rns_error + packet) \<times> rns_request" where
  "build_request_packet E P destination req =
     (case encode_request_bytes E req of
        Inl e \<Rightarrow> (Inl e, req)
      | Inr payload \<Rightarrow>
         (let d = request_destination P destination in
          case address_hash_to_array (dd_address_hash (d_desc d)) of
            Inl e \<Rightarrow> (Inl e, req)
          | Inr h \<Rightarrow>
             (case packet_from_payload_with_context d payload Single Request of
                Inl e \<Rightarrow> (Inl e, req)
              | Inr p \<Rightarrow>
                 (case request_id_for_destination (e_crypto E) h payload of
                    Inl e \<Rightarrow> (Inl e, req) | Inr i \<Rightarrow> (Inr p, req\<lparr>req_id := i\<rparr>)))))"

definition build_response_packet :: "env \<Rightarrow> prims \<Rightarrow> identity \<Rightarrow> rns_response \<Rightarrow> rns_error + packet" where
  "build_response_packet E P destination rsp =
     (case encode_response_bytes E rsp of
        Inl e \<Rightarrow> Inl e
      | Inr payload \<Rightarrow> packet_from_payload_with_context (request_destination P destination) payload Single Response)"

text \<open>A request: a packet when its payload fits, a resource otherwise.\<close>

definition send_request :: "env \<Rightarrow> prims \<Rightarrow> nat \<Rightarrow> (nat \<Rightarrow> bytes \<Rightarrow> bytes) \<Rightarrow> identity \<Rightarrow> rns_request \<Rightarrow> rns_node_router \<Rightarrow>
    ((rns_error + unit) \<times> rns_request \<times> rns_node_router \<times> tp_output list) option" where
  "send_request E P now iv destination req r =
     (case encode_request_bytes E req of
        Inl e \<Rightarrow> Some (Inl e, req, r, [])
      | Inr payload \<Rightarrow>
         (if length payload \<le> PACKET_MDU
          then (let (x, req') = build_request_packet E P destination req; (res, r', evs) = send_built P now x r in Some (res, req', r', evs))
          else (let req' = ensure_request_id (e_crypto E) req payload in
                map_option (\<lambda>(res, r', evs). (res, req', r', evs))
                  (send_resource_frames P now iv (dd_address_hash (d_desc (request_destination P destination))) payload (Some (req_id req')) False True r))))"

definition send_response :: "env \<Rightarrow> prims \<Rightarrow> nat \<Rightarrow> (nat \<Rightarrow> bytes \<Rightarrow> bytes) \<Rightarrow> identity \<Rightarrow> rns_response \<Rightarrow> rns_node_router \<Rightarrow> node_result" where
  "send_response E P now iv destination rsp r =
     (case encode_response_bytes E rsp of
        Inl e \<Rightarrow> Some (Inl e, r, [])
      | Inr payload \<Rightarrow>
         (if length payload \<le> PACKET_MDU then Some (send_built P now (build_response_packet E P destination rsp) r)
          else send_resource_frames P now iv (dd_address_hash (d_desc (request_destination P destination))) payload (Some (rsp_id rsp)) True False r))"

definition send_request_to_hash :: "env \<Rightarrow> prims \<Rightarrow> nat \<Rightarrow> (nat \<Rightarrow> bytes \<Rightarrow> bytes) \<Rightarrow> bytes \<Rightarrow> rns_request \<Rightarrow> rns_node_router \<Rightarrow>
    ((rns_error + unit) \<times> rns_request \<times> rns_node_router \<times> tp_output list) option" where
  "send_request_to_hash E P now iv dest req r =
     (case encode_request_bytes E req of
        Inl e \<Rightarrow> Some (Inl e, req, r, [])
      | Inr payload \<Rightarrow>
         (if length payload \<le> PACKET_MDU
          then (let (x, req') = build_request_packet_for_hash E dest req; (res, r', evs) = send_built P now x r in Some (res, req', r', evs))
          else (let req' = ensure_request_id (e_crypto E) req payload in
                map_option (\<lambda>(res, r', evs). (res, req', r', evs)) (send_resource_frames P now iv dest payload (Some (req_id req')) False True r))))"

definition send_response_to_hash :: "env \<Rightarrow> prims \<Rightarrow> nat \<Rightarrow> (nat \<Rightarrow> bytes \<Rightarrow> bytes) \<Rightarrow> bytes \<Rightarrow> rns_response \<Rightarrow> rns_node_router \<Rightarrow> node_result" where
  "send_response_to_hash E P now iv dest rsp r =
     (case encode_response_bytes E rsp of
        Inl e \<Rightarrow> Some (Inl e, r, [])
      | Inr payload \<Rightarrow>
         (if length payload \<le> PACKET_MDU then Some (send_built P now (build_response_packet_for_hash E dest rsp) r)
          else send_resource_frames P now iv dest payload (Some (rsp_id rsp)) True False r))"

definition mark_delivered_at :: "bytes \<Rightarrow> rns_node_router \<Rightarrow> rns_node_router" where
  "mark_delivered_at rid r = r\<lparr>nr_requests := rt_mark_delivered rid (nr_requests r)\<rparr>"

text \<open>With a receipt: the request is registered before it is sent and marked delivered after; the handle of
  the receipt is the result. A failing transfer leaves the receipt registered.\<close>

definition send_request_with_receipt_to_hash :: "env \<Rightarrow> prims \<Rightarrow> nat \<Rightarrow> (nat \<Rightarrow> bytes \<Rightarrow> bytes) \<Rightarrow> bytes \<Rightarrow> rns_request \<Rightarrow> nat \<Rightarrow> rns_node_router \<Rightarrow>
    ((rns_error + nat) \<times> rns_request \<times> rns_node_router \<times> tp_output list) option" where
  "send_request_with_receipt_to_hash E P now iv dest req timeout r =
     (case encode_request_bytes E req of
        Inl e \<Rightarrow> Some (Inl e, req, r, [])
      | Inr payload \<Rightarrow>
         (if length payload \<le> PACKET_MDU
          then (case build_request_packet_for_hash E dest req of
                  (Inl e, req') \<Rightarrow> Some (Inl e, req', r, [])
                | (Inr p, req') \<Rightarrow>
                   (let (h, t) = rt_register_request (req_id req') timeout now (nr_requests r);
                        (r1, evs) = node_send_packet P now p (r\<lparr>nr_requests := t\<rparr>) in
                    Some (Inr h, req', mark_delivered_at (req_id req') r1, evs)))
          else (let req' = ensure_request_id (e_crypto E) req payload;
                    (h, t) = rt_register_request (req_id req') timeout now (nr_requests r) in
                case send_resource_frames P now iv dest payload (Some (req_id req')) False True (r\<lparr>nr_requests := t\<rparr>) of
                  None \<Rightarrow> None
                | Some (Inl e, r1, evs) \<Rightarrow> Some (Inl e, req', r1, evs)
                | Some (Inr _, r1, evs) \<Rightarrow> Some (Inr h, req', mark_delivered_at (req_id req') r1, evs))))"

subsection \<open>Polling\<close>

text \<open>The actions for a resource whose receipt timed out.\<close>

definition timeout_actions :: "resource_timeout \<Rightarrow> resource_control_action list" where
  "timeout_actions t =
     (if rt_failed t
      then [\<lparr>ac_link_id = rt_link_id t, ac_context = ResourceProof,
             ac_payload = proof_encode \<lparr>rf_resource_id = rt_resource_id t, rf_status = RESOURCE_PROOF_STATUS_FAILED\<rparr>\<rparr>] else [])
     @ (if \<not> rt_failed t \<and> (rt_requested_hashes t \<noteq> [] \<or> rt_hashmap_exhausted t)
        then [\<lparr>ac_link_id = rt_link_id t, ac_context = ResourceRequest,
               ac_payload = request_encode \<lparr>rq_resource_id = rt_resource_id t, rq_hashmap_exhausted = rt_hashmap_exhausted t,
                 rq_last_map_hash = rt_last_map_hash t, rq_requested_hashes = rt_requested_hashes t\<rparr>\<rparr>] else [])"

definition timeout_request :: "nat \<Rightarrow> resource_timeout \<Rightarrow> request_tracker \<Rightarrow> request_tracker" where
  "timeout_request now t q = (case rt_request_id t of Some rid \<Rightarrow> if rt_failed t then rt_mark_failed now rid q else q | None \<Rightarrow> q)"

text \<open>One outgoing transfer: whether it is to be removed, its state, the requests and what was sent.\<close>

definition retry_outgoing :: "prims \<Rightarrow> nat \<Rightarrow> (nat \<Rightarrow> bytes \<Rightarrow> bytes) \<Rightarrow> resource_send_state \<Rightarrow> request_tracker \<Rightarrow> transport_handler \<Rightarrow>
    (bool \<times> resource_send_state \<times> request_tracker \<times> transport_handler \<times> tp_output list) option" where
  "retry_outgoing P now iv st q th =
     (case resource_receipt.rr_status (ss_receipt st) of
        Completed \<Rightarrow>
          Some (True, st, (case ss_request_id st of Some rid \<Rightarrow> if ss_is_request st then rt_mark_delivered rid q else q | None \<Rightarrow> q), th, [])
      | Failed \<Rightarrow>
          Some (True, st, (case ss_request_id st of Some rid \<Rightarrow> if ss_is_request st then rt_mark_failed now rid q else q | None \<Rightarrow> q), th, [])
      | receipt_status.Sent \<Rightarrow>
          (case poll_retry now st of
             (None, st1) \<Rightarrow> Some (False, st1, q, th, [])
           | (Some parts, st1) \<Rightarrow>
               map_option (\<lambda>(th1, evs). (False, mark_sent now st1, q, th1, evs))
                 (send_frames P now iv (ss_destination st1) 0 (resource_frames st1 parts) th)))"

fun retry_all :: "prims \<Rightarrow> nat \<Rightarrow> (bytes \<Rightarrow> nat \<Rightarrow> bytes \<Rightarrow> bytes) \<Rightarrow> (bytes, resource_send_state) hmap \<Rightarrow> request_tracker \<Rightarrow> transport_handler \<Rightarrow>
    ((bytes, resource_send_state) hmap \<times> request_tracker \<times> transport_handler \<times> tp_output list) option" where
  "retry_all P now iv [] q th = Some ([], q, th, [])"
| "retry_all P now iv ((k, st) # sts) q th =
     (case retry_outgoing P now (iv k) st q th of
        None \<Rightarrow> None
      | Some (removed, st1, q1, th1, o1) \<Rightarrow>
          map_option (\<lambda>(sts2, q2, th2, o2). ((if removed then sts2 else (k, st1) # sts2), q2, th2, o1 @ o2)) (retry_all P now iv sts q1 th1))"

definition retry_outgoing_resources :: "prims \<Rightarrow> nat \<Rightarrow> (bytes \<Rightarrow> nat \<Rightarrow> bytes \<Rightarrow> bytes) \<Rightarrow> rns_node_router \<Rightarrow> (rns_node_router \<times> tp_output list) option" where
  "retry_outgoing_resources P now iv r =
     map_option (\<lambda>(sts, q, th, evs). (r\<lparr>nr_outgoing := sts, nr_requests := q, nr_transport := th\<rparr>, evs))
       (retry_all P now iv (nr_outgoing r) (nr_requests r) (nr_transport r))"

fun send_actions :: "prims \<Rightarrow> nat \<Rightarrow> (nat \<Rightarrow> bytes \<Rightarrow> bytes) \<Rightarrow> nat \<Rightarrow> resource_control_action list \<Rightarrow> transport_handler \<Rightarrow> tp_result" where
  "send_actions P now iv n [] th = Some (th, [])"
| "send_actions P now iv n (a # as) th =
     tp_bind (map_option snd (send_to_link_id_with_context P now (iv n) (ac_link_id a) (ac_payload a) (ac_context a) th)) (send_actions P now iv (Suc n) as)"

definition poll_inbound :: "env \<Rightarrow> prims \<Rightarrow> rmp \<Rightarrow> nat \<Rightarrow> (bytes \<Rightarrow> nat \<Rightarrow> bytes \<Rightarrow> bytes) \<Rightarrow> (nat \<Rightarrow> bytes \<Rightarrow> bytes) \<Rightarrow> link_signal_data list \<Rightarrow> link_signal_data list \<Rightarrow>
    rns_node_router \<Rightarrow> (received list \<times> rns_node_router \<times> tp_output list) option" where
  "poll_inbound E P c now iv iv' in_events out_events r =
     (case handle_link_events E P c now (in_events @ out_events)
             \<lparr>ib_received = [], ib_actions = [], ib_requests = nr_requests r, ib_resources = nr_resources r, ib_outgoing = nr_outgoing r\<rparr> of
        None \<Rightarrow> None
      | Some s \<Rightarrow>
          (let q1 = rt_poll_timeouts now now (ib_requests s);
               (ts, t) = resource_poll_timeouts now (ib_resources s);
               q2 = fold (timeout_request now) ts q1;
               actions = ib_actions s @ concat (map timeout_actions ts);
               r1 = r\<lparr>nr_requests := q2, nr_resources := t, nr_outgoing := ib_outgoing s\<rparr> in
           case retry_outgoing_resources P now iv r1 of
             None \<Rightarrow> None
           | Some (r2, o1) \<Rightarrow>
               map_option (\<lambda>(th, o2). (ib_received s, r2\<lparr>nr_transport := th\<rparr>, o1 @ o2)) (send_actions P now iv' 0 actions (nr_transport r2))))"


end
