(* ===== verification/Node_Router_Facts.thy ===== *)
theory Node_Router_Facts
  imports Node_Router
begin

section \<open>Facts about the router of a node\<close>

text \<open>
  What \<open>Node_Router\<close> does: which resources its links carry, that a resource that fits arrives and is proved,
  that hash updates are misplaced, that messages which need encryption panic, and the invariant of its books over all its steps.
\<close>

subsection \<open>How much a link carries of a resource\<close>

lemma each_send:
  assumes "prims_ok P" and "\<And>k. length (iv k) = 16"
  shows "\<forall>(k, l) \<in> set ls. length (lk_key l) = 64 \<Longrightarrow>
      each_link (send_on_link P now iv meant ctx payload) ls th = None \<longleftrightarrow>
        2000 \<le> length payload \<and> (\<exists>(k, l) \<in> set ls. meant l \<and> lk_status l = Active)"
    and "each_link (send_on_link P now iv meant ctx payload) ls th = Some (ls', th', o1) \<Longrightarrow> ls' = ls \<and> only_cache th th'"
proof (induction ls arbitrary: th ls' th' o1)
  case (Cons x ls)
  obtain k l where x: "x = (k, l)" by force
  {
    case 1
    then have key: "length (lk_key l) = 64" "\<forall>(k, l) \<in> set ls. length (lk_key l) = 64" using x by auto
    show ?case
    proof (cases "meant l \<and> lk_status l = Active \<and> 2000 \<le> length payload")
      case True
      then show ?thesis using x data_packet_cases[OF assms(1) assms(2)[of k] key(1), of ctx payload] by (auto simp: send_on_link_def)
    next
      case False
      then have "send_on_link P now iv meant ctx payload k l th \<noteq> None"
        using data_packet_cases[OF assms(1) assms(2)[of k] key(1), of ctx payload] by (auto simp: send_on_link_def)
      then obtain r where "send_on_link P now iv meant ctx payload k l th = Some r" by blast
      then show ?thesis using x False Cons.IH(1)[OF key(2)] by (cases r) auto
    qed
  next
    case 2
    from 2 x obtain th1 l1 o2 where s: "send_on_link P now iv meant ctx payload k l th = Some (l1, th1, o2)" by (auto split: option.split_asm)
    then have l1: "l1 = l" "only_cache th th1"
      by (auto simp: send_on_link_def dest: handler_send_packet_only_cache split: if_split_asm option.split_asm sum.split_asm)
    from 2 x s obtain ls2 o3 where "each_link (send_on_link P now iv meant ctx payload) ls th1 = Some (ls2, th', o3)" "ls' = (k, l1) # ls2" by auto
    with Cons.IH(2) l1 x show ?case by (auto intro: only_cache_trans)
  }
qed simp_all

lemma send_to_links_cases:
  assumes "prims_ok P" and "\<And>k. length (iv k) = 16" and "tp_invar P th"
  shows "send_to_out_links_with_context P now iv dest payload ctx th = None \<longleftrightarrow>
      2000 \<le> length payload \<and> (\<exists>l. map_of (th_out_links th) dest = Some l \<and> lk_status l = Active)"
    and "send_to_out_links_with_context P now iv dest payload ctx th = Some (th', evs) \<Longrightarrow> only_cache th th'"
proof -
  let ?f = "send_on_link P now iv (\<lambda>l. dd_address_hash (lk_destination l) = dest) ctx payload"
  have ok: "\<forall>(k, l) \<in> set (th_out_links th). out_link_ok P k l" and wf: "hm_wf (th_out_links th)" using assms(3) by (simp_all add: tp_invar_def)
  have "each_link ?f (th_out_links th) th = None \<longleftrightarrow>
      2000 \<le> length payload \<and> (\<exists>(k, l) \<in> set (th_out_links th). dd_address_hash (lk_destination l) = dest \<and> lk_status l = Active)"
    using ok by (intro each_send(1) assms(1,2)) (auto simp: out_link_ok_def)
  also have "(\<exists>(k, l) \<in> set (th_out_links th). dd_address_hash (lk_destination l) = dest \<and> lk_status l = Active) \<longleftrightarrow>
      (\<exists>l. map_of (th_out_links th) dest = Some l \<and> lk_status l = Active)"
    using ok wf by (force simp: hm_wf_def out_link_ok_def)
  finally show "send_to_out_links_with_context P now iv dest payload ctx th = None \<longleftrightarrow>
      2000 \<le> length payload \<and> (\<exists>l. map_of (th_out_links th) dest = Some l \<and> lk_status l = Active)"
    by (simp add: send_to_out_links_with_context_def on_out_links_def)
  assume "send_to_out_links_with_context P now iv dest payload ctx th = Some (th', evs)"
  then obtain ls th1 where "each_link ?f (th_out_links th) th = Some (ls, th1, evs)" "th' = th1\<lparr>th_out_links := ls\<rparr>"
    by (auto simp: send_to_out_links_with_context_def on_out_links_def)
  with each_send(2)[OF assms(1,2)] show "only_cache th th'" by (fastforce simp: only_cache_def)
qed

lemma send_frames_cases:
  assumes "prims_ok P" and "\<And>n k. length (iv n k) = 16"
  shows "tp_invar P th \<Longrightarrow> send_frames P now iv dest n fs th = None \<longleftrightarrow>
      (\<exists>f \<in> set fs. 2000 \<le> length (fst f)) \<and> (\<exists>l. map_of (th_out_links th) dest = Some l \<and> lk_status l = Active)"
    and "tp_invar P th \<Longrightarrow> send_frames P now iv dest n fs th = Some (th', evs) \<Longrightarrow> only_cache th th'"
proof (induction fs arbitrary: n th th' evs)
  case (Cons f fs)
  obtain payload ctx where f: "f = (payload, ctx)" by force
  {
    case 1
    note c = send_to_links_cases[where iv = "iv n", OF assms(1) assms(2)]
    show ?case
    proof (cases "send_to_out_links_with_context P now (iv n) dest payload ctx th")
      case None
      note big = iffD1[OF c(1)[OF 1] None]
      from None big show ?thesis using f by (auto simp: tp_bind_def)
    next
      case (Some r)
      obtain th1 o1 where r: "r = (th1, o1)" by force
      then have oc: "only_cache th th1" using c(2)[OF 1] Some by blast
      from Cons.IH(1)[OF tp_invar_cache[OF 1 oc], of "Suc n"] show ?thesis
        using f r Some c(1)[OF 1, of now dest payload ctx] only_cache_fields(6)[OF oc] by (auto simp: tp_bind_def)
    qed
  next
    case 2
    note c = send_to_links_cases(2)[where iv = "iv n", OF assms(1) assms(2)]
    from 2 obtain th1 o1 o2 where s: "send_to_out_links_with_context P now (iv n) dest payload ctx th = Some (th1, o1)"
        "send_frames P now iv dest (Suc n) fs th1 = Some (th', o2)"
      using f by (auto simp: tp_bind_def split: option.split_asm)
    from c[OF 2(1) s(1)] have oc: "only_cache th th1" .
    with Cons.IH(2)[OF tp_invar_cache[OF 2(1) oc] s(2)] show ?case by (blast intro: only_cache_trans)
  }
qed simp_all

lemma part_encode_length: "length (rp_resource_id p) = 16 \<Longrightarrow> length (part_encode p) = 21 + length (rp_data p)"
  by (simp add: part_encode_def)

lemma advert_encode_length:
  "length (ra_resource_id a) = 16 \<Longrightarrow> pred_option (\<lambda>r. length r = 16) (ra_request_id a) \<Longrightarrow> length (advert_encode a) = 46"
  by (auto simp: advert_encode_def resource_consts Let_def split: option.split)

lemma long_chunk: "0 < m \<Longrightarrow> m \<le> n \<Longrightarrow> (\<exists>c \<in> set (chunks n xs). m \<le> length c) \<longleftrightarrow> m \<le> length xs" for m :: nat
proof (induction n xs rule: chunks.induct)
  case (1 n xs)
  show ?case
  proof (cases "xs = []")
    case False
    then show ?thesis using 1 by (subst chunks_Cons) auto
  qed (use 1(2) in simp)
qed

text \<open>C34. A resource that is too large for a link. Sending a resource panics exactly if there is an active link to the
  destination and the resource has 1979 bytes or more: one of its frames has then 2000 bytes, which no link carries. Requests, responses
  and messages are sent as resources when they have more than 2048 bytes; then none of them can be sent over a link.\<close>

theorem resource_send_panics:
  assumes "prims_ok P" and "tp_invar P (nr_transport r)" and "\<And>n k. length (iv n k) = 16" and "pred_option (\<lambda>i. length i = 16) rid"
  shows "send_resource_frames P now iv dest payload rid is_response is_request r = None \<longleftrightarrow>
    1979 \<le> length payload \<and> (\<exists>l. map_of (th_out_links (nr_transport r)) dest = Some l \<and> lk_status l = Active)"
proof -
  obtain st where st: "send_state_new (pr_sha256 P) now dest payload 2027 rid is_response is_request RESOURCE_PROOF_TIMEOUT RESOURCE_DEFAULT_MAX_RETRIES = Inr st"
    by (auto simp: send_state_new_def resource_split_def Let_def)
  have id: "length (take 16 (pr_sha256 P x)) = 16" for x using assms(1) by (simp add: prims_ok_def)
  have adv: "length (advert_encode (ss_advert st)) = 46"
    using st id assms(4) by (subst advert_encode_length) (auto simp: send_state_new_def resource_split_def Let_def resource_consts)
  have parts: "(length \<circ> part_encode) ` set (ss_parts st) = (\<lambda>c. 21 + length c) ` set (chunks 2027 payload)"
  proof -
    have "(length \<circ> part_encode) ` set (ss_parts st) = (\<lambda>x. 21 + length (snd x)) ` set (enumerate 0 (chunks 2027 payload))"
      using st id by (force simp: send_state_new_def resource_split_def Let_def resource_consts image_image part_encode_length case_prod_beta)
    also have "\<dots> = (\<lambda>c. 21 + length c) ` set (map snd (enumerate 0 (chunks 2027 payload)))" by (simp add: image_image del: map_snd_enumerate)
    finally show ?thesis by simp
  qed
  have "(\<exists>f \<in> set (resource_frames st (ss_parts st)). 2000 \<le> length (fst f)) \<longleftrightarrow> (\<exists>n \<in> (length \<circ> part_encode) ` set (ss_parts st). 2000 \<le> n)"
    using adv by (auto simp: resource_frames_def)
  also have "\<dots> \<longleftrightarrow> (\<exists>c \<in> set (chunks 2027 payload). 1979 \<le> length c)" unfolding parts by auto
  also have "\<dots> \<longleftrightarrow> 1979 \<le> length payload" by (rule long_chunk) simp_all
  finally have "send_frames P now iv dest 0 (resource_frames st (ss_parts st)) (nr_transport r) = None \<longleftrightarrow>
      1979 \<le> length payload \<and> (\<exists>l. map_of (th_out_links (nr_transport r)) dest = Some l \<and> lk_status l = Active)"
    using send_frames_cases(1)[where iv = iv and dest = dest and now = now and n = 0 and fs = "resource_frames st (ss_parts st)", OF assms(1,3,2)] by simp
  moreover have "send_resource_frames P now iv dest payload rid is_response is_request r = None \<longleftrightarrow>
      send_frames P now iv dest 0 (resource_frames st (ss_parts st)) (nr_transport r) = None"
    using st by (auto simp: send_resource_frames_def Let_def PACKET_MDU_def resource_consts split: option.split)
  ultimately show ?thesis by simp
qed

text \<open>A router with an active link to a destination.\<close>

definition sample_desc :: destination_desc where
  "sample_desc = d_desc (single_input_new sample_prims (private_new sample_prims [1] [2]) (name_new sample_prims ''lxmf'' ''delivery''))"

definition sample_link :: link where
  "sample_link = (link_handshake sample_prims (dd_identity sample_desc) (link_new sample_prims 1 [3] [4] sample_desc))\<lparr>lk_status := Active\<rparr>"

definition sample_router :: rns_node_router where
  "sample_router = (let r = new_udp sample_prims ''node'' (private_new sample_prims [5] [6]) in
     r\<lparr>nr_transport := (nr_transport r)\<lparr>th_out_links := [(dd_address_hash sample_desc, sample_link)]\<rparr>\<rparr>)"

lemma new_udp_reachable: "tp_reachable P (nr_transport (new_udp P name (private_new P s k)))"
proof -
  let ?th = "transport_new (config_new name (private_new P s k) True)"
  let ?th1 = "?th\<lparr>th_manager := fst (manager_new_channel P (th_manager ?th))\<rparr>"
  let ?add = "add_destination P (private_new P s k) (name_new P ''lxmf'' ''delivery'') ?th1"
  have "tp_step P ?th [] ?th1" using tp_step.iface[of P ?th "fst (manager_new_channel P (th_manager ?th))"] by (cases "manager_new_channel P (th_manager ?th)") auto
  then have "tp_reachable P ?th1" by (rule tp_reachable.step[OF tp_reachable.start])
  moreover have "tp_step P ?th1 [] (fst ?add)" by (rule tp_step.destination[where d = "snd ?add"]) simp
  ultimately have "tp_reachable P (fst ?add)" by (rule tp_reachable.step)
  then show ?thesis by (simp add: new_udp_def Let_def case_prod_beta)
qed

lemma sample_router_invar: "tp_invar sample_prims (nr_transport sample_router)"
proof -
  let ?th = "nr_transport (new_udp sample_prims ''node'' (private_new sample_prims [5] [6]))"
  have "tp_invar sample_prims ?th" using tp_reachable_ok[OF new_udp_reachable sample_prims_ok] .
  moreover have "out_link_ok sample_prims (dd_address_hash sample_desc) sample_link"
    using sample_prims_ok by (simp add: out_link_ok_def sample_link_def link_handshake_def link_new_def session_agreed_def derived_key_length
        ADDRESS_HASH_SIZE_def valid_key_def sample_desc_def single_input_new_def
        create_address_hash_def address_of_hash_def private_new_def identity_new_def prims_ok_def)
  ultimately show ?thesis by (simp add: sample_router_def Let_def tp_invar_def hm_wf_def)
qed

theorem resource_send_panics_witness:
  "send_resource_payload sample_prims 7 (\<lambda>_ _. replicate 16 3) (dd_address_hash sample_desc) (replicate 1979 1) sample_router = None"
  using resource_send_panics[OF sample_prims_ok sample_router_invar, of "\<lambda>_ _. replicate 16 3" None 7 "dd_address_hash sample_desc"
      "replicate 1979 1" False False]
  by (simp add: send_resource_payload_def sample_router_def Let_def sample_link_def)


subsection \<open>Messages that need encryption\<close>

lemma reticulum_encrypt_panics: "prims_ok P \<Longrightarrow> reticulum_encrypt P eph eph' iv d plain = None"
  by (simp add: reticulum_encrypt_def identity_encrypt_def identity_derive_key_def derived_key_from_ephemeral_key_def derived_key_new_def
      fernet_new_from_slices_def prims_ok_def fernet_sizes identity_sizes)

lemma outbound_addresses: "prims_ok P \<Longrightarrow> length (ro_source (outbound_new P i d h)) = 16 \<and> length (ro_destination (outbound_new P i d h)) = 16"
  by (simp add: outbound_new_def Let_def single_input_new_def single_output_new_def create_address_hash_def address_of_hash_def prims_ok_def
      ADDRESS_HASH_SIZE_def)

text \<open>C35. A propagated or paper message cannot be sent by a node: exactly when the message can be signed and packed, so that
  its encryption is due, sending it panics.\<close>

theorem propagated_send_panics:
  assumes "prims_ok P" and "mode \<in> {Propagated, Paper}"
    and "out = outbound_new P (nr_identity r) destination \<lparr>eh_encrypt = Inr, provides_encryption = True\<rparr>"
  shows "send_message E P now iv eph eph' eiv destination m mode r = None \<longleftrightarrow>
    (\<exists>packed. fst (encode_signed (e_codec E) (e_crypto E) (e_rng E) (private_sign P (nr_identity r))
       (m\<lparr>destination_hash := ro_destination out, source_hash := ro_source out\<rparr>)) = Inr packed)"
proof -
  let ?m = "m\<lparr>destination_hash := ro_destination out, source_hash := ro_source out\<rparr>"
  have prep: "prepare_message out m = (Inr (), ?m)"
    using outbound_addresses[OF assms(1)] by (simp add: assms(3) prepare_message_def address_hash_to_array_def DESTINATION_LENGTH_def Let_def)
  have out: "check_outbound (ro_policy out) mode (ro_encryptor out) = Inr ()" "ro_sign out = private_sign P (nr_identity r)"
    by (simp_all add: assms(3) outbound_new_def Let_def check_outbound_def)
  let ?enc = "encode_signed (e_codec E) (e_crypto E) (e_rng E) (private_sign P (nr_identity r)) ?m"
  obtain x m2 where x: "?enc = (x, m2)" by force
  have "node_deliver E P (reticulum_encrypt P eph eph' eiv d) out m mode = (case x of Inl e \<Rightarrow> Some (Inl (Lxmf e), m2) | Inr packed \<Rightarrow> None)" for d
    using assms(2) x by (auto simp: node_deliver_def prep out reticulum_encrypt_panics[OF assms(1)] split: sum.split)
  then show ?thesis unfolding x by (simp add: send_message_def Let_def assms(3)[symmetric] split: sum.split)
qed

theorem propagated_send_panics_witness:
  "send_message sample_env sample_prims 7 (\<lambda>_ _. replicate 16 3) [1] [2] [3] (dd_identity sample_desc) sample_message Propagated sample_router = None"
proof -
  have "\<exists>packed. fst (encode_signed (e_codec sample_env) (e_crypto sample_env) (e_rng sample_env) sign
      (sample_message\<lparr>destination_hash := d, source_hash := s\<rparr>)) = Inr packed" for sign d s
    by (simp add: sample_env_def encode_signed_def encode_with_signature_def pack_payload_def pack_payload_values_def ref_codec_def
        sample_message_def with_strings_def msg_new_def Let_def)
  then show ?thesis by (intro iffD2[OF propagated_send_panics[OF sample_prims_ok _ refl]]) simp_all
qed

subsection \<open>Hash updates\<close>

lemma index_after_first:
  "j < length ps \<Longrightarrow> compute_map_hash sha256 (rp_data (ps ! j)) = h \<Longrightarrow> \<forall>i < j. compute_map_hash sha256 (rp_data (ps ! i)) \<noteq> h \<Longrightarrow>
    index_after sha256 h n ps = Suc (n + j)"
proof (induction ps arbitrary: j n)
  case (Cons p ps)
  show ?case
  proof (cases j)
    case 0
    then show ?thesis using Cons.prems by simp
  next
    case (Suc i)
    then have "\<forall>k < i. compute_map_hash sha256 (rp_data (ps ! k)) \<noteq> h" "compute_map_hash sha256 (rp_data p) \<noteq> h" using Cons.prems(3) by force+
    then show ?thesis using Suc Cons.prems Cons.IH[of i "Suc n"] by simp
  qed
qed simp

lemma chunks_concat: "\<forall>x \<in> set xs. length x = n \<Longrightarrow> 0 < n \<Longrightarrow> chunks n (concat xs) = xs"
  by (induction xs) (auto simp: chunks_Cons)

lemma length_concat_const: "\<forall>x \<in> set xs. length x = n \<Longrightarrow> length (concat xs) = n * length xs"
  by (induction xs) auto

lemma update_hashmap_nth:
  "n + length hs \<le> length m \<Longrightarrow> i < length m \<Longrightarrow>
    update_hashmap n hs m ! i = (if n \<le> i \<and> i < n + length hs then Some (hs ! (i - n)) else m ! i)"
  by (induction n hs m rule: update_hashmap.induct) (auto simp: nth_list_update nth_Cons')

lemma hash_update_applied:
  assumes "map_of (incoming t) rid = Some a" and "hm_wf (incoming t)" and "\<forall>h \<in> set hs. length h = 4" and "length hs \<le> length (as_hashmap a)"
  shows "\<exists>a'. map_of (incoming (snd (handle_hash_update \<lparr>ru_resource_id = rid, ru_segment = 0, ru_hashmap = concat hs\<rparr> now t))) rid = Some a'
    \<and> (\<forall>i < length (as_hashmap a). as_hashmap a' ! i = (if i < length hs then Some (hs ! i) else as_hashmap a ! i))"
proof -
  have "length (concat hs) = 4 * length hs" using length_concat_const[OF assms(3)] .
  moreover have "chunks 4 (concat hs) = hs" using assms(3) by (intro chunks_concat) auto
  ultimately show ?thesis using assms by (simp add: handle_hash_update_def resource_consts hmap_simps update_hashmap_nth Let_def)
qed

text \<open>C36. A hash update reaches the wrong places. A receiver that knows the hash of part \<open>j\<close> and none after it asks for
  more; the sender answers with the hashes of the parts after \<open>j\<close> as its segment 0, and the receiver files the hash of part
  \<open>j + 1 + i\<close> under part \<open>i\<close>. What it knew of the last \<open>j + 1\<close> parts does not change: it can never ask for them.\<close>

theorem hash_update_misplaced:
  assumes "rmp_ok c" and "prims_ok P" and "request_wf req" and "rq_hashmap_exhausted req" and "rq_last_map_hash req = Some h"
    and "rq_requested_hashes req = []" and "map_of (ib_outgoing s) (rq_resource_id req) = Some st"
    and "j < length (ss_parts st)" and "compute_map_hash (pr_sha256 P) (rp_data (ss_parts st ! j)) = h"
    and "\<forall>i < j. compute_map_hash (pr_sha256 P) (rp_data (ss_parts st ! i)) \<noteq> h"
    and "length (ss_parts st) < 2 ^ 30"
    and "map_of (incoming (ib_resources s')) (rq_resource_id req) = Some a" and "hm_wf (incoming (ib_resources s'))"
    and "length (as_hashmap a) = length (ss_parts st)"
  shows "\<exists>payload a'. ib_actions (receive_part_request P c now ev (request_encode req) s)
        = ib_actions s @ [\<lparr>ac_link_id = ls_id ev, ac_context = ResourceHashUpdate, ac_payload = payload\<rparr>]
    \<and> map_of (incoming (ib_resources (receive_hash_update c now' payload s'))) (rq_resource_id req) = Some a'
    \<and> (\<forall>i. Suc (j + i) < length (ss_parts st) \<longrightarrow> as_hashmap a' ! i = Some (compute_map_hash (pr_sha256 P) (rp_data (ss_parts st ! Suc (j + i)))))
    \<and> (\<forall>i < length (ss_parts st). length (ss_parts st) \<le> Suc (j + i) \<longrightarrow> as_hashmap a' ! i = as_hashmap a ! i)"
proof -
  let ?hash = "\<lambda>p. compute_map_hash (pr_sha256 P) (rp_data p)"
  let ?hs = "map ?hash (drop (Suc j) (ss_parts st))"
  let ?u = "\<lparr>ru_resource_id = rq_resource_id req, ru_segment = 0, ru_hashmap = concat ?hs\<rparr>"
  have len: "\<forall>h \<in> set ?hs. length h = 4" using assms(2) by (auto simp: compute_map_hash_def resource_consts prims_ok_def)
  have acts: "ib_actions (receive_part_request P c now ev (request_encode req) s)
      = ib_actions s @ [\<lparr>ac_link_id = ls_id ev, ac_context = ResourceHashUpdate, ac_payload = hash_update_encode c ?u\<rparr>]"
    using assms(4-7) index_after_first[OF assms(8,9,10), of 0] request_roundtrip[OF assms(3)]
    by (simp add: receive_part_request_def send_handle_request_def hashes_from_def push_action_def Let_def)
  have "length (concat ?hs) = 4 * length ?hs" using length_concat_const[OF len] .
  then have "hash_update_wf ?u" using assms(3,11) by (simp add: hash_update_wf_def request_wf_def u32_max_def)
  then have dec: "hash_update_decode c (hash_update_encode c ?u) = Inr ?u" using hash_update_roundtrip[OF assms(1), of ?u "[]"] by simp
  obtain a' where a': "map_of (incoming (snd (handle_hash_update ?u now' (ib_resources s')))) (rq_resource_id req) = Some a'"
      "\<forall>i < length (as_hashmap a). as_hashmap a' ! i = (if i < length ?hs then Some (?hs ! i) else as_hashmap a ! i)"
    using hash_update_applied[OF assms(12,13) len, of now'] assms(14) by auto
  then have "map_of (incoming (ib_resources (receive_hash_update c now' (hash_update_encode c ?u) s'))) (rq_resource_id req) = Some a'"
    by (simp add: receive_hash_update_def dec)
  moreover have "\<forall>i. Suc (j + i) < length (ss_parts st) \<longrightarrow> as_hashmap a' ! i = Some (?hash (ss_parts st ! Suc (j + i)))"
    using a'(2) assms(14) by (auto simp: nth_drop less_diff_conv add.commute)
  moreover have "\<forall>i < length (ss_parts st). length (ss_parts st) \<le> Suc (j + i) \<longrightarrow> as_hashmap a' ! i = as_hashmap a ! i"
    using a'(2) assms(14) by auto
  ultimately show ?thesis using acts by blast
qed

theorem hash_update_misplaced_witness:
  "\<exists>(st :: resource_send_state) payload (a' :: resource_assembly). send_state_new (pr_sha256 sample_prims) 0 [] [1, 2] 1 None False False 9 3 = Inr st
    \<and> ib_actions (receive_part_request sample_prims rmp_wide 5 (post_event sample_link Activated)
          (request_encode \<lparr>rq_resource_id = ss_resource_id st, rq_hashmap_exhausted = True,
             rq_last_map_hash = Some (compute_map_hash (pr_sha256 sample_prims) [1]), rq_requested_hashes = []\<rparr>)
          \<lparr>ib_received = [], ib_actions = [], ib_requests = rt_new, ib_resources = tracker_new 9, ib_outgoing = [(ss_resource_id st, st)]\<rparr>)
        = [\<lparr>ac_link_id = lk_id sample_link, ac_context = ResourceHashUpdate, ac_payload = payload\<rparr>]
    \<and> as_hashmap a' ! 0 = Some (compute_map_hash (pr_sha256 sample_prims) [2])"
proof -
  obtain st where st: "send_state_new (pr_sha256 sample_prims) 0 [] [1, 2] 1 None False False 9 3 = Inr st"
    by (simp add: send_state_new_def resource_split_def Let_def)
  then have p: "ss_parts st = [\<lparr>rp_resource_id = ss_resource_id st, rp_part_index = 0, rp_data = [1]\<rparr>, \<lparr>rp_resource_id = ss_resource_id st, rp_part_index = 1, rp_data = [2]\<rparr>]"
      "length (ss_resource_id st) = 16"
    using sample_prims_ok by (auto simp: send_state_new_def resource_split_def Let_def chunks.simps resource_consts prims_ok_def)
  let ?req = "\<lparr>rq_resource_id = ss_resource_id st, rq_hashmap_exhausted = True,
      rq_last_map_hash = Some (compute_map_hash (pr_sha256 sample_prims) [1]), rq_requested_hashes = []\<rparr>"
  let ?s = "\<lparr>ib_received = [], ib_actions = [], ib_requests = rt_new, ib_resources = tracker_new 9, ib_outgoing = [(ss_resource_id st, st)]\<rparr>"
  let ?a = "(assembly_new (ss_advert st) [] 0)\<lparr>as_hashmap := [None, None]\<rparr>"
  let ?s' = "?s\<lparr>ib_resources := (tracker_new 9)\<lparr>incoming := [(ss_resource_id st, ?a)]\<rparr>\<rparr>"
  have "request_wf ?req" using p(2) sample_prims_ok by (simp add: request_wf_def id_ok_def compute_map_hash_def resource_consts prims_ok_def)
  then show ?thesis
    using hash_update_misplaced[OF rmp_wide_ok sample_prims_ok, of ?req _ ?s st 0 ?s' ?a 5 "post_event sample_link Activated" 6] st p(1)
    by (fastforce simp: hm_wf_def post_event_def)
qed

subsection \<open>A resource that a link carries\<close>

text \<open>The event of a link that delivers a frame.\<close>

definition carried :: "link_signal_data \<Rightarrow> bytes \<times> packet_context \<Rightarrow> link_signal_data" where
  "carried ev f = ev\<lparr>ls_event := DataSignal (payload_new_from_slice (fst f)) (snd f)\<rparr>"

lemma carried_simps [simp]: "ls_id (carried ev f) = ls_id ev" "source_hash_from_event (carried ev f) = source_hash_from_event ev"
  by (simp_all add: carried_def source_hash_from_event_def)

lemma handle_carried:
  assumes "length p \<le> PACKET_MDU"
  shows "handle_link_event E P c now (carried ev (p, ResourceAdvrtisement)) s = Some (receive_advertisement now (carried ev (p, ResourceAdvrtisement)) p s)"
    and "handle_link_event E P c now (carried ev (p, Resource)) s = Some (receive_part E P now (carried ev (p, Resource)) p s)"
    and "handle_link_event E P c now (carried ev (p, ResourceProof)) s = Some (receive_proof now p s)"
  using assms by (simp_all add: handle_link_event_def carried_def payload_roundtrip)

lemma single_part_state:
  assumes "prims_ok P" and "0 < length d" and "length d < 1979"
    and "send_state_new (pr_sha256 P) now dest d (PACKET_MDU - RESOURCE_PART_HEADER_LEN) rid isr isq tmo n = Inr st"
  shows "ss_advert st = \<lparr>ra_resource_id = ss_resource_id st, ra_request_id = rid, ra_total_len = length d, ra_part_size = 2027, ra_total_parts = 1,
           ra_is_response = isr, ra_is_request = isq\<rparr>"
    and "ss_parts st = [\<lparr>rp_resource_id = ss_resource_id st, rp_part_index = 0, rp_data = d\<rparr>]" and "length (ss_resource_id st) = 16"
proof -
  have "(2026 + length d) div 2027 = 1" by (rule div_nat_eqI) (use assms(2) in linarith, use assms(3) in simp)
  moreover have "chunks 2027 d = [d]" using assms(2,3) by (simp add: chunks_Cons)
  ultimately show "ss_advert st = \<lparr>ra_resource_id = ss_resource_id st, ra_request_id = rid, ra_total_len = length d, ra_part_size = 2027, ra_total_parts = 1,
           ra_is_response = isr, ra_is_request = isq\<rparr>"
      "ss_parts st = [\<lparr>rp_resource_id = ss_resource_id st, rp_part_index = 0, rp_data = d\<rparr>]" "length (ss_resource_id st) = 16"
    using assms by (auto simp: send_state_new_def resource_split_def Let_def PACKET_MDU_def resource_consts prims_ok_def)
qed

lemma single_part_received:
  assumes "length rid = 16" and "length d \<le> 2027" and "0 < length d" and "hm_wf (incoming t)" and "\<not> cs_contains rid (tk_completed t)"
    and "adv = \<lparr>ra_resource_id = rid, ra_request_id = q, ra_total_len = length d, ra_part_size = 2027, ra_total_parts = 1,
           ra_is_response = isr, ra_is_request = isq\<rparr>"
  shows "\<exists>t1 t2. handle_advertisement adv lid now t = (Inr Accepted, t1)
    \<and> handle_part sha256 clock \<lparr>rp_resource_id = rid, rp_part_index = 0, rp_data = d\<rparr> t1
        = (Inr (Some (Complete \<lparr>rc_resource_id = rid, rc_data = d, rc_request_id = q, rc_is_response = isr\<rparr>)), t2)
    \<and> tk_completed t2 = snd (cs_insert rid (tk_completed t))"
  using assms by (simp add: handle_advertisement_def handle_part_def hmap_simps assembly_new_def accept_part_def assemble_def Let_def)


lemma sample_wire:
  obtains d m where "msg_decode (e_codec sample_env) (e_crypto sample_env) d = Inr m" "0 < length d" "length d < 1979" "title m = [72, 105]"
proof -
  let ?m = "snd (encode_signed ref_codec zero_crypto (e_rng sample_env) zero_sign sample_message)"
  obtain bs where e: "encode_signed ref_codec zero_crypto (e_rng sample_env) zero_sign sample_message = (Inr bs, ?m)" by (rule sample_encode_ok)
  from e obtain m2 where f: "timestamp ?m = timestamp sample_message" "title ?m = title sample_message"
      "content ?m = content sample_message" "m_fields ?m = m_fields sample_message" by (rule encode_signedE)
  have ok: "reads_back ref_codec (MArr (payload_values ?m (stamp ?m \<noteq> None)))"
    unfolding payload_values_def f sample_encode(2)
    by (rule ref_codec_reads_back) (simp add: sample_message_def with_strings_def msg_new_def)
  have wf: "msg_wf sample_message" by (simp add: msg_wf_def sample_message_def with_strings_def msg_new_def)
  obtain m where m: "msg_decode ref_codec zero_crypto bs = Inr m" "title m = title sample_message"
    using signed_message_received[OF e wf _ _ ok, of "\<lambda>x s. s = zero_sign x"] by (auto simp: zero_sign_def)
  have "0 < length bs \<and> length bs < 1979"
    using e by (auto simp: encode_signed_def encode_with_signature_def pack_payload_def pack_payload_values_def ref_codec_def
        sample_message_def with_strings_def msg_new_def Let_def zero_sign_def)
  with m that[of bs m] show thesis by (simp add: sample_env_def sample_message_def with_strings_def)
qed


subsection \<open>The books of a node\<close>

text \<open>The handlers of events change the books by the operations of their owners only.\<close>

definition outgoing_ok :: "(bytes, resource_send_state) hmap \<Rightarrow> bool" where
  "outgoing_ok m \<longleftrightarrow> hm_wf m \<and> (\<forall>k st. map_of m k = Some st \<longrightarrow> ss_resource_id st = k)"

definition books_ok :: "request_tracker \<Rightarrow> resource_tracker \<Rightarrow> (bytes, resource_send_state) hmap \<Rightarrow> bool" where
  "books_ok q t m \<longleftrightarrow> rt_invar q \<and> tracker_wf t \<and> outgoing_ok m"

definition kept :: "inbox \<Rightarrow> inbox \<Rightarrow> bool" where
  "kept s s' \<longleftrightarrow> (books_ok (ib_requests s) (ib_resources s) (ib_outgoing s) \<longrightarrow>
     books_ok (ib_requests s') (ib_resources s') (ib_outgoing s') \<and> rt_keeps (ib_requests s) (ib_requests s'))"

named_theorems kept_intros

lemma kept_refl [kept_intros]: "kept s s"
  by (simp add: kept_def)

lemma kept_trans: "kept a b \<Longrightarrow> kept b c \<Longrightarrow> kept a c"
  by (auto simp: kept_def intro: rt_keeps_trans)

lemma kept_received [kept_intros]: "kept s s' \<Longrightarrow> kept s (push_received x s')"
  by (simp add: kept_def push_received_def)

lemma kept_action [kept_intros]: "kept s s' \<Longrightarrow> kept s (push_action lid ctx p s')"
  by (simp add: kept_def push_action_def)

lemma kept_requests: "kept s s' \<Longrightarrow> ib_requests s' = q0 \<Longrightarrow> rt_step q0 q \<Longrightarrow> kept s (s'\<lparr>ib_requests := q\<rparr>)"
  by (auto simp: kept_def books_ok_def dest: rt_step_ok intro: rt_keeps_trans)

lemmas kept_request_steps [kept_intros] = rt_step.intros[THEN kept_requests[rotated 2]]

lemma kept_response [kept_intros]: "kept s s' \<Longrightarrow> kept s (push_response now rsp p src s')"
  unfolding push_response_def Let_def by (intro kept_intros) simp_all

lemma kept_resources: "(tracker_wf (ib_resources s) \<Longrightarrow> tracker_wf t) \<Longrightarrow> kept s (s\<lparr>ib_resources := t\<rparr>)"
  by (simp add: kept_def books_ok_def)

lemma outgoing_modify:
  "outgoing_ok m \<Longrightarrow> map_of m k = Some st \<Longrightarrow> ss_resource_id (f st) = ss_resource_id st \<Longrightarrow> outgoing_ok (hm_modify k f m)"
  by (auto simp: outgoing_ok_def hmap_simps split: if_splits)

lemma kept_outgoing:
  "map_of (ib_outgoing s') k = Some st \<Longrightarrow> ss_resource_id (f st) = ss_resource_id st \<Longrightarrow> kept s s' \<Longrightarrow>
    kept s (s'\<lparr>ib_outgoing := hm_modify k f (ib_outgoing s')\<rparr>)"
  by (auto simp: kept_def books_ok_def intro: outgoing_modify)

lemma send_state_ids [simp]:
  "ss_resource_id (mark_sent now st) = ss_resource_id st" "ss_resource_id (send_mark_failed now st) = ss_resource_id st"
  "ss_resource_id (snd (send_handle_proof now p st)) = ss_resource_id st" "ss_resource_id (snd (poll_retry now st)) = ss_resource_id st"
  by (simp_all add: mark_sent_def send_mark_failed_def conclude_def send_handle_proof_def poll_retry_def)

lemma fail_request_kept [kept_intros]: "kept s s' \<Longrightarrow> kept s (fail_request now b rid s')"
  by (auto simp: fail_request_def intro: kept_intros split: option.split)

lemma receive_plain_kept: "kept s (receive_plain E now ev p s)"
  by (auto simp: receive_plain_def Let_def intro!: kept_intros split: sum.split)

lemma from_be_slice: "from_be_bytes 0 (Resource_Wire.slice n 4 p) < 4294967296"
proof -
  have "(256 :: nat) ^ length (Resource_Wire.slice n 4 p) \<le> 256 ^ 4" by (intro power_increasing) (simp_all add: Resource_Wire.slice_def)
  then show ?thesis using from_be_bytes_bound[of "Resource_Wire.slice n 4 p"] by simp
qed

lemma receive_advertisement_kept: "kept s (receive_advertisement now ev p s)"
proof (cases "advert_decode p")
  case (Inr adv)
  then have "ra_total_parts adv < 2 ^ 32" using from_be_slice[of _ p] by (auto simp: advert_decode_def Let_def split: if_splits)
  then have "kept s (s\<lparr>ib_resources := t\<rparr>)" if "handle_advertisement adv lid now (ib_resources s) = (x, t)" for lid x t
    using handle_advertisement_wf[of "ib_resources s" adv lid now] that by (intro kept_resources) simp
  with Inr show ?thesis
    by (auto simp: receive_advertisement_def Let_def intro!: kept_intros split: sum.split prod.split option.split advertisement_result.split)
qed (simp add: receive_advertisement_def kept_intros)

lemma receive_hash_update_kept: "kept s (receive_hash_update c now p s)"
  by (auto simp: receive_hash_update_def intro!: kept_intros kept_resources handle_hash_update_wf split: sum.split)

lemma receive_cancel_kept: "kept s (receive_cancel now p s)"
proof (cases "cancel_decode p")
  case (Inr rid)
  let ?s1 = "s\<lparr>ib_resources := snd (handle_cancel rid (ib_resources s))\<rparr>"
  define s2 where "s2 = (case fst (handle_cancel rid (ib_resources s)) of
     Some ev \<Rightarrow> fail_request now (rx_is_response ev) (rx_request_id ev) ?s1 | None \<Rightarrow> ?s1)"
  have "kept s ?s1" by (intro kept_resources handle_cancel_wf)
  then have s2: "kept s s2" by (auto simp: s2_def intro: kept_intros split: option.split)
  have r: "receive_cancel now p s = (case map_of (ib_outgoing s2) rid of
       None \<Rightarrow> s2
     | Some st \<Rightarrow> fail_request now (ss_is_request st) (ss_request_id st) (s2\<lparr>ib_outgoing := hm_modify rid (send_mark_failed now) (ib_outgoing s2)\<rparr>))"
    using Inr unfolding s2_def by (simp add: receive_cancel_def Let_def case_prod_beta)
  show ?thesis
  proof (cases "map_of (ib_outgoing s2) rid")
    case (Some st)
    have "kept s (s2\<lparr>ib_outgoing := hm_modify rid (send_mark_failed now) (ib_outgoing s2)\<rparr>)" by (rule kept_outgoing[OF Some _ s2]) simp
    then show ?thesis using r Some by (simp add: fail_request_kept)
  qed (use r s2 in simp)
qed (simp add: receive_cancel_def kept_intros)

lemma receive_proof_kept: "kept s (receive_proof now p s)"
proof -
  have "kept s (s\<lparr>ib_outgoing := hm_modify (rf_resource_id q) (\<lambda>_. snd (send_handle_proof now q st)) (ib_outgoing s)\<rparr>)"
    if "map_of (ib_outgoing s) (rf_resource_id q) = Some st" for q st
    by (rule kept_outgoing[OF that _ kept_refl]) simp
  then show ?thesis
    by (auto simp: receive_proof_def Let_def case_prod_beta intro: kept_intros split: sum.split option.split)
qed

lemma fold_actions_kept: "kept s s' \<Longrightarrow> kept s (fold (\<lambda>p. push_action lid ctx (f p)) ps s')"
  by (induction ps arbitrary: s') (auto intro: kept_intros)

lemma fold_actions_outgoing [simp]: "ib_outgoing (fold (\<lambda>p. push_action lid ctx (f p)) ps s) = ib_outgoing s"
  by (induction ps arbitrary: s) (simp_all add: push_action_def)

lemma push_action_outgoing [simp]: "ib_outgoing (push_action lid ctx p s) = ib_outgoing s"
  by (simp add: push_action_def)

lemma kept_mark_sent:
  "map_of m k = Some st \<Longrightarrow> ib_outgoing s' = m \<Longrightarrow> kept s s' \<Longrightarrow> kept s (s'\<lparr>ib_outgoing := hm_modify k (mark_sent now) m\<rparr>)"
  using kept_outgoing[of s' k st "mark_sent now" s] by simp

lemma receive_part_request_kept: "kept s (receive_part_request P c now ev p s)"
  by (auto simp: receive_part_request_def Let_def intro!: kept_intros fold_actions_kept elim!: kept_mark_sent split: sum.split option.split)

lemma receive_part_kept: "kept s (receive_part E P now ev p s)"
proof (cases "part_decode p")
  case (Inr part)
  obtain x t where h: "handle_part (pr_sha256 P) now part (ib_resources s) = (x, t)" by force
  then have k: "kept s (s\<lparr>ib_resources := t\<rparr>)" using handle_part_wf[of "ib_resources s" "pr_sha256 P" now part] by (intro kept_resources) simp
  have batch: "kept s (receive_batch E ev p (s\<lparr>ib_resources := t\<rparr>))"
    using k by (auto simp: receive_batch_def intro: kept_intros split: sum.split)
  have "kept s (receive_complete E now ev d (s\<lparr>ib_resources := t\<rparr>))" for d
    using k by (auto simp: receive_complete_def receive_complete_data_def Let_def intro!: kept_intros split: sum.split option.split)
  with k batch h Inr show ?thesis
    by (auto simp: receive_part_def Let_def intro!: kept_intros split: sum.split option.split resource_event.split)
qed (auto simp: receive_part_def receive_batch_def intro: kept_intros split: sum.split)

lemma handle_link_event_kept: "handle_link_event E P c now ev s = Some s' \<Longrightarrow> kept s s'"
proof -
  have "kept s (receive_request E ev p s)" "kept s (receive_response E now ev p s)" for p
    by (auto simp: receive_request_def receive_response_def intro!: kept_intros split: sum.split)
  then show "handle_link_event E P c now ev s = Some s' \<Longrightarrow> kept s s'"
    using receive_plain_kept receive_advertisement_kept receive_hash_update_kept receive_cancel_kept receive_proof_kept
      receive_part_request_kept receive_part_kept kept_refl
    by (auto simp: handle_link_event_def split: link_signal.split_asm option.split_asm if_split_asm)
qed

lemma handle_link_events_kept: "handle_link_events E P c now evs s = Some s' \<Longrightarrow> kept s s'"
  by (induction evs arbitrary: s) (auto simp: kept_refl dest: handle_link_event_kept intro: kept_trans split: option.split_asm)

subsection \<open>Steps of a node\<close>

definition node_ok :: "prims \<Rightarrow> rns_node_router \<Rightarrow> bool" where
  "node_ok P r \<longleftrightarrow> tp_invar P (nr_transport r) \<and> books_ok (nr_requests r) (nr_resources r) (nr_outgoing r)"

text \<open>What a node does: its transport works, it polls, it sends resources, requests with receipts and everything else that
  only sends packets or resources.\<close>

inductive nr_step :: "env \<Rightarrow> prims \<Rightarrow> rmp \<Rightarrow> rns_node_router \<Rightarrow> rns_node_router \<Rightarrow> bool" for E P c where
  node: "tp_step P (nr_transport r) evs th \<Longrightarrow> nr_step E P c r (r\<lparr>nr_transport := th\<rparr>)"
| poll: "poll_inbound E P c now iv iv' ins outs r = Some (got, r', evs) \<Longrightarrow> nr_step E P c r r'"
| packet: "node_send_packet P now p r = (r', evs) \<Longrightarrow> nr_step E P c r r'"
| resource: "send_resource_frames P now iv dest d rid isr isq r = Some (res, r', evs) \<Longrightarrow> nr_step E P c r r'"
| message: "send_message E P now iv eph eph' eiv destination m mode r = Some (res, m', r', evs) \<Longrightarrow> nr_step E P c r r'"
| receipt: "send_request_with_receipt_to_hash E P now iv dest req timeout r = Some (res, req', r', evs) \<Longrightarrow> nr_step E P c r r'"
| request: "send_request_to_hash E P now iv dest req r = Some (res, req', r', evs) \<Longrightarrow> nr_step E P c r r'"
| response: "send_response_to_hash E P now iv dest rsp r = Some (res, r', evs) \<Longrightarrow> nr_step E P c r r'"

text \<open>An operation of the node keeps its tables, and what is settled.\<close>

definition node_kept :: "prims \<Rightarrow> rns_node_router \<Rightarrow> rns_node_router \<Rightarrow> bool" where
  "node_kept P r r' \<longleftrightarrow> (prims_ok P \<and> node_ok P r \<longrightarrow> node_ok P r' \<and> rt_keeps (nr_requests r) (nr_requests r'))"

lemma node_kept_refl [simp]: "node_kept P r r"
  by (simp add: node_kept_def)

lemma node_kept_trans: "node_kept P a b \<Longrightarrow> node_kept P b c \<Longrightarrow> node_kept P a c"
  by (auto simp: node_kept_def intro: rt_keeps_trans)

lemma node_kept_transport: "(prims_ok P \<Longrightarrow> tp_invar P (nr_transport r) \<Longrightarrow> tp_invar P th) \<Longrightarrow> node_kept P r (r\<lparr>nr_transport := th\<rparr>)"
  by (simp add: node_kept_def node_ok_def)

lemma node_kept_requests: "rt_step (nr_requests r) q \<Longrightarrow> node_kept P r (r\<lparr>nr_requests := q\<rparr>)"
  by (auto simp: node_kept_def node_ok_def books_ok_def dest: rt_step_ok)

lemma node_send_packet_kept: "node_send_packet P now p r = (r', evs) \<Longrightarrow> node_kept P r r'"
proof -
  obtain th o1 where h: "handler_send_packet P now p (nr_transport r) = (th, o1)" by force
  assume "node_send_packet P now p r = (r', evs)"
  with h have "r' = r\<lparr>nr_transport := th\<rparr>" by (simp add: node_send_packet_def)
  then show ?thesis using tp_invar_cache[OF _ handler_send_packet_only_cache[OF h]] by (simp add: node_kept_transport)
qed

lemma send_built_kept: "send_built P now x r = (res, r', evs) \<Longrightarrow> node_kept P r r'"
  by (auto simp: send_built_def split: sum.split_asm prod.split_asm dest: node_send_packet_kept)

lemma send_frames_invar: "prims_ok P \<Longrightarrow> send_frames P now iv dest n fs th = Some (th', evs) \<Longrightarrow> tp_invar P th \<Longrightarrow> tp_invar P th'"
proof (induction P now iv dest n fs th arbitrary: th' evs rule: send_frames.induct)
  case (2 P now iv dest n payload ctx fs th)
  then obtain th1 o1 o2 where s: "send_to_out_links_with_context P now (iv n) dest payload ctx th = Some (th1, o1)"
      "send_frames P now iv dest (Suc n) fs th1 = Some (th', o2)" by (auto simp: tp_bind_def split: option.split_asm)
  have "tp_invar P th1" using tp_step_invar[OF 2(2) tp_step.to_out[OF s(1)] 2(4)] .
  with 2(1)[OF 2(2) s(2)] show ?case .
qed simp

lemma send_resource_kept: "send_resource_frames P now iv dest d rid isr isq r = Some (res, r', evs) \<Longrightarrow> node_kept P r r'"
proof -
  assume "send_resource_frames P now iv dest d rid isr isq r = Some (res, r', evs)"
  then have "r' = r \<or> (\<exists>st th. send_frames P now iv dest 0 (resource_frames st (ss_parts st)) (nr_transport r) = Some (th, evs)
      \<and> r' = r\<lparr>nr_transport := th, nr_outgoing := hm_insert (ss_resource_id st) (mark_sent now st) (nr_outgoing r)\<rparr>)"
    by (auto simp: send_resource_frames_def Let_def split: if_split_asm sum.split_asm option.split_asm)
  then show ?thesis
    by (auto simp: node_kept_def node_ok_def books_ok_def outgoing_ok_def hmap_simps split: if_split_asm dest: send_frames_invar)
qed

lemma send_message_kept: "send_message E P now iv eph eph' eiv destination m mode r = Some (res, m', r', evs) \<Longrightarrow> node_kept P r r'"
  by (auto simp: send_message_def Let_def dest: node_send_packet_kept send_resource_kept
      split: option.split_asm sum.split_asm delivery_output.split_asm prod.split_asm)

lemma send_to_hash_kept:
  "send_request_to_hash E P now iv dest req r = Some (res, req', r', evs) \<Longrightarrow> node_kept P r r'"
  "send_response_to_hash E P now iv dest rsp r = Some (res', r', evs) \<Longrightarrow> node_kept P r r'"
  by (auto simp: send_request_to_hash_def send_response_to_hash_def Let_def dest: send_built_kept send_resource_kept
      split: sum.split_asm if_split_asm prod.split_asm)

lemma register_kept: "rt_register_request i tmo now (nr_requests r) = (h, t) \<Longrightarrow> node_kept P r (r\<lparr>nr_requests := t\<rparr>)"
  using node_kept_requests[of r "snd (rt_register_request i tmo now (nr_requests r))" P] rt_step.Register[of "nr_requests r" i tmo now] by simp

lemma mark_delivered_kept: "node_kept P r (mark_delivered_at i r)"
  unfolding mark_delivered_at_def by (intro node_kept_requests rt_step.intros)

lemma send_with_receipt_kept: "send_request_with_receipt_to_hash E P now iv dest req timeout r = Some (res, req', r', evs) \<Longrightarrow> node_kept P r r'"
  by (auto simp: send_request_with_receipt_to_hash_def Let_def
      dest!: register_kept[where P = P] node_send_packet_kept send_resource_kept
      intro: node_kept_trans[OF node_kept_trans] node_kept_trans mark_delivered_kept
      split: sum.split_asm if_split_asm prod.split_asm option.split_asm)

lemma retry_outgoing_kept:
  assumes "retry_outgoing P now iv st q th = Some (b, st1, q1, th1, evs)"
  shows "ss_resource_id st1 = ss_resource_id st" and "rt_invar q \<Longrightarrow> rt_invar q1 \<and> rt_keeps q q1" and "prims_ok P \<Longrightarrow> tp_invar P th \<Longrightarrow> tp_invar P th1"
proof -
  note steps = rt_step_ok[OF rt_step.MarkDelivered] rt_step_ok[OF rt_step.MarkFailed]
  have id: "ss_resource_id st2 = ss_resource_id st" if "poll_retry now st = (x, st2)" for x st2 using send_state_ids(4)[of now st] that by simp
  show "ss_resource_id st1 = ss_resource_id st" "prims_ok P \<Longrightarrow> tp_invar P th \<Longrightarrow> tp_invar P th1"
    using assms id by (auto simp: retry_outgoing_def dest: send_frames_invar split: receipt_status.split_asm option.split_asm prod.split_asm)
  show "rt_invar q \<Longrightarrow> rt_invar q1 \<and> rt_keeps q q1"
    using assms steps[of q] by (auto simp: retry_outgoing_def split: receipt_status.split_asm option.split_asm prod.split_asm if_split_asm)
qed

lemma retry_all_kept:
  "retry_all P now iv sts q th = Some (sts', q', th', evs) \<Longrightarrow> prims_ok P \<Longrightarrow> tp_invar P th \<Longrightarrow> rt_invar q \<Longrightarrow>
    tp_invar P th' \<and> rt_invar q' \<and> rt_keeps q q' \<and> (hm_wf sts \<longrightarrow> hm_wf sts') \<and> fst ` set sts' \<subseteq> fst ` set sts
    \<and> ((\<forall>(k, st) \<in> set sts. ss_resource_id st = k) \<longrightarrow> (\<forall>(k, st) \<in> set sts'. ss_resource_id st = k))"
proof (induction sts arbitrary: q th sts' q' th' evs)
  case (Cons x sts)
  obtain k st where x: "x = (k, st)" by force
  obtain b st1 q1 th1 o1 where r: "retry_outgoing P now (iv k) st q th = Some (b, st1, q1, th1, o1)"
    using Cons.prems(1) x by (auto split: option.split_asm)
  then obtain sts2 o2 where all: "retry_all P now iv sts q1 th1 = Some (sts2, q', th', o2)" "sts' = (if b then sts2 else (k, st1) # sts2)"
    using Cons.prems(1) x by auto
  note k = retry_outgoing_kept[OF r]
  from Cons.IH[OF all(1) Cons.prems(2) k(3)[OF Cons.prems(2,3)]] k(2)[OF Cons.prems(4)]
  have ih: "tp_invar P th' \<and> rt_invar q' \<and> rt_keeps q1 q' \<and> (hm_wf sts \<longrightarrow> hm_wf sts2) \<and> fst ` set sts2 \<subseteq> fst ` set sts
      \<and> ((\<forall>(k, st) \<in> set sts. ss_resource_id st = k) \<longrightarrow> (\<forall>(k, st) \<in> set sts2. ss_resource_id st = k))" by blast
  with k(1) k(2)[OF Cons.prems(4)] show ?case unfolding all(2) x by (auto simp: hm_wf_def intro: rt_keeps_trans)
qed simp

lemma outgoing_ok_set: "outgoing_ok m \<longleftrightarrow> hm_wf m \<and> (\<forall>(k, st) \<in> set m. ss_resource_id st = k)"
  by (auto simp: outgoing_ok_def hm_wf_def dest: map_of_SomeD map_of_is_SomeI)

lemma send_actions_invar: "prims_ok P \<Longrightarrow> send_actions P now iv n as th = Some (th', evs) \<Longrightarrow> tp_invar P th \<Longrightarrow> tp_invar P th'"
proof (induction P now iv n as th arbitrary: th' evs rule: send_actions.induct)
  case (2 P now iv n a as th)
  then obtain b th1 o1 o2 where s: "send_to_link_id_with_context P now (iv n) (ac_link_id a) (ac_payload a) (ac_context a) th = Some (b, th1, o1)"
      "send_actions P now iv (Suc n) as th1 = Some (th', o2)" by (auto simp: tp_bind_def split: option.split_asm)
  have "tp_invar P th1" using tp_step_invar[OF 2(2) tp_step.to_id[OF s(1)] 2(4)] .
  with 2(1)[OF 2(2) s(2)] show ?case .
qed simp

lemma timeout_requests_ok: "rt_invar q \<Longrightarrow> rt_invar (fold (timeout_request now) ts q) \<and> rt_keeps q (fold (timeout_request now) ts q)"
proof (induction ts arbitrary: q)
  case (Cons t ts)
  have "rt_invar (timeout_request now t q) \<and> rt_keeps q (timeout_request now t q)"
    using Cons.prems rt_mark_failed_ok by (simp add: timeout_request_def split: option.split)
  with Cons.IH[of "timeout_request now t q"] show ?case by (auto intro: rt_keeps_trans)
qed simp

lemma poll_inbound_kept:
  assumes "poll_inbound E P c now iv iv' ins outs r = Some (got, r', evs)"
  shows "node_kept P r r'"
proof -
  let ?s = "\<lparr>ib_received = [], ib_actions = [], ib_requests = nr_requests r, ib_resources = nr_resources r, ib_outgoing = nr_outgoing r\<rparr>"
  obtain s where s: "handle_link_events E P c now (ins @ outs) ?s = Some s" using assms by (auto simp: poll_inbound_def split: option.split_asm)
  obtain ts t where t: "resource_poll_timeouts now (ib_resources s) = (ts, t)" by force
  let ?q = "fold (timeout_request now) ts (rt_poll_timeouts now now (ib_requests s))"
  obtain sts q th o1 th' o2 where r: "retry_all P now iv (ib_outgoing s) ?q (nr_transport r) = Some (sts, q, th, o1)"
      "send_actions P now iv' 0 (ib_actions s @ concat (map timeout_actions ts)) th = Some (th', o2)"
      "r' = r\<lparr>nr_requests := q, nr_resources := t, nr_outgoing := sts, nr_transport := th'\<rparr>"
    using assms s t by (auto simp: poll_inbound_def retry_outgoing_resources_def Let_def split: option.split_asm)
  show ?thesis unfolding node_kept_def
  proof (intro impI)
    assume "prims_ok P \<and> node_ok P r"
    then have ok: "prims_ok P" "tp_invar P (nr_transport r)" "books_ok (nr_requests r) (nr_resources r) (nr_outgoing r)" by (auto simp: node_ok_def)
    then have b: "books_ok (ib_requests s) (ib_resources s) (ib_outgoing s)" "rt_keeps (nr_requests r) (ib_requests s)"
      using handle_link_events_kept[OF s] by (auto simp: kept_def)
    have q: "rt_invar ?q" "rt_keeps (nr_requests r) ?q"
      using b rt_step_ok[OF rt_step.PollTimeouts, of "ib_requests s" now now] timeout_requests_ok by (auto simp: books_ok_def intro: rt_keeps_trans)
    have wf: "tracker_wf t"
      using b(1) t poll_keys_wf[of "ib_resources s" now "hm_keys (incoming (ib_resources s))"] by (simp add: books_ok_def resource_poll_timeouts_def)
    have o: "hm_wf (ib_outgoing s)" "\<forall>(k, st) \<in> set (ib_outgoing s). ss_resource_id st = k" using b(1) by (auto simp: books_ok_def outgoing_ok_set)
    from retry_all_kept[OF r(1) ok(1,2) q(1)] o
    have a: "tp_invar P th" "rt_invar q" "rt_keeps ?q q" "outgoing_ok sts" by (auto simp: outgoing_ok_set)
    have "tp_invar P th'" using send_actions_invar[OF ok(1) r(2) a(1)] .
    with a wf show "node_ok P r' \<and> rt_keeps (nr_requests r) (nr_requests r')"
      using rt_keeps_trans[OF q(2) a(3)] by (simp add: r(3) node_ok_def books_ok_def)
  qed
qed

lemma nr_step_kept: "nr_step E P c r r' \<Longrightarrow> node_kept P r r'"
proof (induction rule: nr_step.induct)
  case (node r evs th)
  then show ?case using tp_step_invar by (intro node_kept_transport) blast
qed (auto dest: poll_inbound_kept node_send_packet_kept send_resource_kept send_message_kept send_with_receipt_kept send_to_hash_kept)

lemma nr_steps_kept: "(nr_step E P c)\<^sup>*\<^sup>* r r' \<Longrightarrow> node_kept P r r'"
  by (induction rule: rtranclp_induct) (auto dest: nr_step_kept intro: node_kept_trans)

lemma new_udp_ok: "prims_ok P \<Longrightarrow> node_ok P (new_udp P name (private_new P s k))"
  using tp_reachable_ok[OF new_udp_reachable, of P name s k]
  by (simp add: node_ok_def books_ok_def outgoing_ok_def new_udp_def Let_def case_prod_beta rt_invar_def rt_new_def tracker_wf_def tracker_new_def
      cs_invar_new RESOURCE_COMPLETED_CACHE_SIZE_def hm_wf_def)

text \<open>C10. Whatever a node sends, receives and polls, its books stay in order: the tables of its transport are consistent, every pending
  request has an unsettled receipt of its own, every incoming resource counts its parts right and is not completed, every outgoing one is filed under
  its identifier; and a receipt that is ready or failed never changes again.\<close>

theorem node_router_invar:
  assumes "prims_ok P" and "(nr_step E P c)\<^sup>*\<^sup>* (new_udp P name (private_new P s k)) r" and "(nr_step E P c)\<^sup>*\<^sup>* r r'"
  shows "node_ok P r' \<and> length (rt_receipts (nr_requests r)) \<le> length (rt_receipts (nr_requests r'))
    \<and> (\<forall>h < length (rt_receipts (nr_requests r)). settled (rt_receipts (nr_requests r) ! h) \<longrightarrow>
         rt_receipts (nr_requests r') ! h = rt_receipts (nr_requests r) ! h)"
  using nr_steps_kept[OF assms(2)] nr_steps_kept[OF assms(3)] new_udp_ok[OF assms(1), of name s k] assms(1)
  by (auto simp: node_kept_def rt_keeps_def)

theorem node_router_invar_witness:
  "node_ok sample_prims (new_udp sample_prims ''node'' (private_new sample_prims [5] [6]))"
  using node_router_invar[OF sample_prims_ok, of sample_env rmp_wide "''node''" "[5]" "[6]"] by blast

end
