(* ===== verification/File_Store.thy ===== *)
theory File_Store
  imports Storage_Codec Peer_Select
begin

section \<open>The files of a node (storage.rs FileMessageStore)\<close>

text \<open>
  \<open>FileMessageStore\<close> keeps every queued message, failed delivery, received message, propagated message and peer in a
  file of its own, and tickets, stamp costs, statistics, caches and the directory in one file each. The file system is
  explicit: the directories under the root (the root itself is \<open>''''\<close>) and the files in them. Writing fails in a missing
  directory; other failures of the operating system are left out, and names are always text. Base64 and the texts of
  errors come from other crates and are arguments.
\<close>

record file_system =
  fs_dirs :: "string list"
  fs_files :: "(string \<times> string, bytes) hmap"

definition create_dir :: "string \<Rightarrow> file_system \<Rightarrow> file_system" where
  "create_dir d fs = (if d \<in> set (fs_dirs fs) then fs else fs\<lparr>fs_dirs := d # fs_dirs fs\<rparr>)"

definition fs_write :: "string \<times> string \<Rightarrow> bytes \<Rightarrow> file_system \<Rightarrow> file_system" where
  "fs_write p d fs = (if fst p \<in> set (fs_dirs fs) then fs\<lparr>fs_files := hm_insert p d (fs_files fs)\<rparr> else fs)"

definition remove_file :: "string \<times> string \<Rightarrow> file_system \<Rightarrow> file_system" where
  "remove_file p fs = fs\<lparr>fs_files := hm_remove p (fs_files fs)\<rparr>"

definition fs_read :: "string \<times> string \<Rightarrow> file_system \<Rightarrow> bytes option" where
  "fs_read p fs = map_of (fs_files fs) p"

text \<open>The names and contents that \<open>read_dir\<close> and \<open>read\<close> give; nothing for a missing directory.\<close>

definition read_dir :: "string \<Rightarrow> file_system \<Rightarrow> (string \<times> bytes) list" where
  "read_dir d fs = (if d \<in> set (fs_dirs fs) then map (\<lambda>((_, n), x). (n, x)) (filter (\<lambda>((d', _), _). d' = d) (fs_files fs)) else [])"

text \<open>\<open>if write_value(..).is_ok() { let _ = write(path, buf); }\<close>\<close>

definition write_encoded :: "string \<times> string \<Rightarrow> 'e + bytes \<Rightarrow> file_system \<Rightarrow> file_system" where
  "write_encoded p x fs = (case x of Inr d \<Rightarrow> fs_write p d fs | Inl _ \<Rightarrow> fs)"

subsection \<open>Paths\<close>

definition file_store_new :: "file_system \<Rightarrow> file_system" where
  "file_store_new fs = create_dir ''propagation'' (create_dir ''failed'' (create_dir ''inbound'' (create_dir ''outbound'' (create_dir '''' fs))))"

definition outbound_path :: "nat \<Rightarrow> string \<times> string" where
  "outbound_path i = (''outbound'', show_nat i @ ''.mpk'')"

definition failed_path :: "nat \<Rightarrow> string \<times> string" where
  "failed_path i = (''failed'', show_nat i @ ''.mpk'')"

definition b64_name :: "env \<Rightarrow> bytes \<Rightarrow> string" where
  "b64_name E b = map (\<lambda>x. char_of (unat x)) (e_b64 E b)"

definition inbound_path :: "env \<Rightarrow> lxmessage \<Rightarrow> string \<times> string" where
  "inbound_path E m =
     (let name_bytes = (case message_id m of
          Some i \<Rightarrow> i
        | None \<Rightarrow> full_hash (e_crypto E) (destination_hash m @ source_hash m @ title m @ content m)) in
      (''inbound'', b64_name E name_bytes @ ''.mpk''))"

definition peer_path :: "env \<Rightarrow> bytes \<Rightarrow> string \<times> string" where
  "peer_path E i = (''peers'', b64_name E i)"

definition pn_dir_path :: "string \<times> string" where "pn_dir_path = ('''', ''pn_directory.mpk'')"
definition available_tickets_path :: "string \<times> string" where "available_tickets_path = ('''', ''available_tickets'')"
definition outbound_stamp_costs_path :: "string \<times> string" where "outbound_stamp_costs_path = ('''', ''outbound_stamp_costs'')"
definition node_stats_path :: "string \<times> string" where "node_stats_path = ('''', ''node_stats'')"
definition local_deliveries_path :: "string \<times> string" where "local_deliveries_path = ('''', ''local_deliveries'')"
definition locally_processed_path :: "string \<times> string" where "locally_processed_path = ('''', ''locally_processed'')"

subsection \<open>Messages\<close>

definition file_save_outbound :: "env \<Rightarrow> queued_message \<Rightarrow> file_system \<Rightarrow> file_system" where
  "file_save_outbound E item fs = write_encoded (outbound_path (q_id item)) (encode_outbound (e_codec E) item) fs"

definition file_remove_outbound :: "nat \<Rightarrow> file_system \<Rightarrow> file_system" where
  "file_remove_outbound i fs = remove_file (outbound_path i) fs"

definition file_load_outbound :: "env \<Rightarrow> file_system \<Rightarrow> queued_message list" where
  "file_load_outbound E fs =
     concat (map (\<lambda>(_, d). case decode_outbound (e_codec E) d of Inr i \<Rightarrow> [i] | Inl _ \<Rightarrow> []) (read_dir ''outbound'' fs))"

definition file_save_inbound :: "env \<Rightarrow> lxmessage \<Rightarrow> file_system \<Rightarrow> file_system" where
  "file_save_inbound E m fs = write_encoded (inbound_path E m) (write_value (e_codec E) (encode_message_value m)) fs"

definition file_save_failed :: "env \<Rightarrow> (failure \<Rightarrow> bytes) \<Rightarrow> failed_delivery \<Rightarrow> file_system \<Rightarrow> file_system" where
  "file_save_failed E err_text f fs =
     write_encoded (failed_path (fd_id f))
       (write_value (e_codec E) (MMap
          [(key ''id'', MInt (u64_as_i64 (fd_id f))), (key ''attempts'', MInt (int (unat (fd_attempts f)))),
           (key ''error'', MStr (err_text (fd_error f))), (key ''message'', encode_message_value (fd_message f))])) fs"

definition file_ops :: "env \<Rightarrow> (failure \<Rightarrow> bytes) \<Rightarrow> file_system message_store_ops" where
  "file_ops E err_text = \<lparr>save_outbound = file_save_outbound E, remove_outbound = file_remove_outbound, load_outbound = file_load_outbound E,
     save_inbound = file_save_inbound E, save_failed = file_save_failed E err_text\<rparr>"

subsection \<open>Propagated messages\<close>

definition computed_stamp_value :: "env \<Rightarrow> bytes \<Rightarrow> nat" where
  "computed_stamp_value E d = (case validate_pn_stamp (e_codec E) (e_crypto E) d 0 of Some (_, _, v, _) \<Rightarrow> v | None \<Rightarrow> 0)"

definition save_propagation_entry :: "env \<Rightarrow> propagation_entry \<Rightarrow> file_system \<Rightarrow> file_system" where
  "save_propagation_entry E e fs =
     (let f = propagation_entry_filename (pe_transient_id e) (pe_timestamp e) (computed_stamp_value E (pe_lxm_data e)) in
      fs_write (''propagation'', f) (pe_lxm_data e) (create_dir ''propagation'' fs))"

definition remove_propagation_entry :: "bytes \<Rightarrow> file_system \<Rightarrow> file_system" where
  "remove_propagation_entry tid fs =
     (let prefix = to_hex_string tid @ ''_'' in
      fold (\<lambda>(n, _) fs. if take (length prefix) n = prefix then remove_file (''propagation'', n) fs else fs) (read_dir ''propagation'' fs) fs)"

definition remove_propagation_entry_named :: "string \<Rightarrow> file_system \<Rightarrow> file_system" where
  "remove_propagation_entry_named f fs = remove_file (''propagation'', f) fs"

text \<open>\<open>str::split\<close>, \<open>hex::decode\<close> and \<open>u32::from_str\<close>.\<close>

fun split_char :: "char \<Rightarrow> string \<Rightarrow> string list" where
  "split_char c [] = [[]]"
| "split_char c (x # xs) = (if x = c then [] # split_char c xs else (case split_char c xs of p # ps \<Rightarrow> (x # p) # ps | [] \<Rightarrow> [[x]]))"

fun hex_decode :: "string \<Rightarrow> bytes option" where
  "hex_decode [] = Some []"
| "hex_decode [c] = None"
| "hex_decode (c # d # s) =
     (case (digit16 c, digit16 d) of (Some h, Some l) \<Rightarrow> map_option ((#) (of_nat (h * 16 + l))) (hex_decode s) | _ \<Rightarrow> None)"

definition digit10 :: "char \<Rightarrow> nat option" where
  "digit10 c = (let n = of_char c :: nat in if 48 \<le> n \<and> n \<le> 57 then Some (n - 48) else None)"

fun parse_digits :: "nat \<Rightarrow> string \<Rightarrow> nat option" where
  "parse_digits acc [] = Some acc"
| "parse_digits acc (c # s) = (case digit10 c of Some n \<Rightarrow> parse_digits (10 * acc + n) s | None \<Rightarrow> None)"

definition parse_u32 :: "string \<Rightarrow> nat option" where
  "parse_u32 s =
     (let t = (case s of c # r \<Rightarrow> if c = CHR ''+'' \<and> r \<noteq> [] then r else s | [] \<Rightarrow> s) in
      if t = [] then None
      else (case parse_digits 0 t of Some n \<Rightarrow> if n \<le> u32_max then Some n else None | None \<Rightarrow> None))"

text \<open>\<open>f64::from_str\<close>: a sign, then infinity, NaN, or digits with an optional point and exponent; the value is rounded to the nearest double.\<close>

definition is_digit10 :: "char \<Rightarrow> bool" where "is_digit10 c \<longleftrightarrow> digit10 c \<noteq> None"

definition split_sign :: "string \<Rightarrow> bool \<times> string" where
  "split_sign s = (case s of c # r \<Rightarrow> if c = CHR ''-'' then (True, r) else if c = CHR ''+'' then (False, r) else (False, s) | [] \<Rightarrow> (False, []))"

definition lower :: "char \<Rightarrow> char" where
  "lower c = (let n = of_char c :: nat in if 65 \<le> n \<and> n \<le> 90 then char_of (n + 32) else c)"

definition parse_exponent :: "string \<Rightarrow> int option" where
  "parse_exponent s =
     (case s of
        [] \<Rightarrow> Some 0
      | c # r \<Rightarrow>
         (let (neg, ds) = split_sign r in
          if lower c \<noteq> CHR ''e'' \<or> ds = [] then None
          else map_option (\<lambda>n. if neg then - int n else int n) (parse_digits 0 ds)))"

definition f64_from_str :: "string \<Rightarrow> f64 option" where
  "f64_from_str s =
     (let (neg, t) = split_sign s in
      if map lower t = ''inf'' \<or> map lower t = ''infinity'' then Some (f64_inf neg)
      else if map lower t = ''nan'' then Some (with_sign neg (unat f64_nan))
      else (let ip = takeWhile is_digit10 t; r = dropWhile is_digit10 t;
                point = (case r of c # _ \<Rightarrow> c = CHR ''.'' | [] \<Rightarrow> False);
                fp = (if point then takeWhile is_digit10 (tl r) else []);
                r2 = (if point then dropWhile is_digit10 (tl r) else r) in
            if ip @ fp = [] then None
            else (case (parse_digits 0 (ip @ fp), parse_exponent r2) of
                    (Some n, Some e) \<Rightarrow> (let x = e - int (length fp) in Some (with_sign neg (f64_round (n * 10 ^ nat x) (10 ^ nat (- x)))))
                  | _ \<Rightarrow> None)))"

definition parse_propagation_entry_filename :: "string \<Rightarrow> (bytes \<times> f64 \<times> nat) option" where
  "parse_propagation_entry_filename f =
     (case split_char (CHR ''_'') f of
        [a, b, c] \<Rightarrow>
          (if length a \<noteq> 64 then None
           else (case hex_decode a of
                   None \<Rightarrow> None
                 | Some tid \<Rightarrow>
                    (if length tid \<noteq> 32 then None
                     else (case f64_from_str b of
                             None \<Rightarrow> None
                           | Some ts \<Rightarrow>
                              (if (case f64_view ts of Finite _ _ _ \<Rightarrow> \<not> f64_lt 0 ts | _ \<Rightarrow> True) then None
                               else map_option (\<lambda>v. (tid, ts, v)) (parse_u32 c))))))
      | _ \<Rightarrow> None)"

text \<open>One file of the directory: it is loaded, or removed when its name or its stamp is wrong.\<close>

definition load_entry_file :: "env \<Rightarrow> string \<times> bytes \<Rightarrow> propagation_store \<times> file_system \<Rightarrow> propagation_store \<times> file_system" where
  "load_entry_file E = (\<lambda>(f, d) (s, fs).
     case parse_propagation_entry_filename f of
       None \<Rightarrow> (s, remove_file (''propagation'', f) fs)
     | Some (tid, ts, v) \<Rightarrow>
        (if computed_stamp_value E d \<noteq> v then (s, remove_file (''propagation'', f) fs)
         else (insert_with_stamp_value_and_filename
                 \<lparr>pe_transient_id = tid, pe_lxm_data = d, pe_timestamp = ts,
                  pe_destination_hash = (if DESTINATION_LENGTH \<le> length d then Some (take DESTINATION_LENGTH d) else None),
                  pe_filepath = Some (str_bytes f), pe_msg_size = Some (length d)\<rparr> v f s, fs)))"

definition load_propagation_store :: "env \<Rightarrow> file_system \<Rightarrow> propagation_store \<times> file_system" where
  "load_propagation_store E fs = fold (load_entry_file E) (read_dir ''propagation'' fs) (ps_new, fs)"

subsection \<open>Peers\<close>

definition peer_state_code :: "peer_state \<Rightarrow> nat" where
  "peer_state_code s = (case s of PIdle \<Rightarrow> 0 | OfferSent \<Rightarrow> 1 | AwaitingPayload \<Rightarrow> 2 | Backoff \<Rightarrow> 3)"

definition peer_state_from_u8 :: "nat \<Rightarrow> peer_state option" where
  "peer_state_from_u8 n = (if n = 0 then Some PIdle else if n = 1 then Some OfferSent else if n = 2 then Some AwaitingPayload
     else if n = 3 then Some Backoff else None)"

definition stored_peer_value :: "peer \<Rightarrow> mval" where
  "stored_peer_value p = MMap
     [(key ''id'', MBin (peer_id p)), (key ''state'', MInt (int (peer_state_code (peer_state p)))),
      (key ''last_sync_ms'', MInt (u64_as_i64 (last_sync_ms p))), (key ''last_attempt_ms'', MInt (u64_as_i64 (last_attempt_ms p))),
      (key ''next_sync_ms'', MInt (u64_as_i64 (next_sync_ms p))), (key ''backoff_ms'', MInt (u64_as_i64 (backoff_ms p))),
      (key ''failures'', MInt (int (failures p))), (key ''last_heard_ms'', MInt (u64_as_i64 (last_heard_ms p))),
      (key ''rx_bytes'', MInt (u64_as_i64 (peer_rx_bytes p))), (key ''tx_bytes'', MInt (u64_as_i64 (peer_tx_bytes p))),
      (key ''messages_offered'', MInt (u64_as_i64 (messages_offered p))), (key ''messages_outgoing'', MInt (u64_as_i64 (messages_outgoing p))),
      (key ''messages_incoming'', MInt (u64_as_i64 (messages_incoming p))), (key ''messages_unhandled'', MInt (u64_as_i64 (messages_unhandled p))),
      (key ''peering_key'', case peering_key p of Some k \<Rightarrow> MBin k | None \<Rightarrow> MNil)]"

definition save_peer :: "env \<Rightarrow> peer \<Rightarrow> file_system \<Rightarrow> file_system" where
  "save_peer E p fs = write_encoded (peer_path E (peer_id p)) (write_value (e_codec E) (stored_peer_value p)) (create_dir ''peers'' fs)"

definition remove_peer :: "env \<Rightarrow> bytes \<Rightarrow> file_system \<Rightarrow> file_system" where
  "remove_peer E i fs = remove_file (peer_path E i) fs"

text \<open>An integer overwrites the state, with nothing when it names none; other values leave it.\<close>

definition assign_state :: "(mval \<times> mval) list \<Rightarrow> peer_state option" where
  "assign_state es = fold (\<lambda>(k, v) acc. if k = key ''state''
     then (case v of MInt i \<Rightarrow> (if 0 \<le> i \<and> i < 256 then peer_state_from_u8 (nat i) else None) | _ \<Rightarrow> acc) else acc) es None"

definition peer_from_value :: "mval \<Rightarrow> rns_error + peer" where
  "peer_from_value v =
     (case v of
        MMap es \<Rightarrow>
          (case assign_some ''id'' (value_to_fixed_bytes DESTINATION_LENGTH) es None of
             None \<Rightarrow> Inl (Msgpack ''peer missing id'')
           | Some i \<Rightarrow>
              (let u64 = (\<lambda>k d. or_else (assign k value_to_opt_u64 es None) d); p = peer_new i 0 in
               Inr (p\<lparr>peer_state := or_else (assign_state es) (peer_state p),
                      last_sync_ms := u64 ''last_sync_ms'' (last_sync_ms p), last_attempt_ms := u64 ''last_attempt_ms'' (last_attempt_ms p),
                      next_sync_ms := u64 ''next_sync_ms'' (next_sync_ms p), backoff_ms := u64 ''backoff_ms'' (backoff_ms p),
                      failures := or_else (assign ''failures'' (\<lambda>v. case value_to_opt_u64 v of
                          Some n \<Rightarrow> if n \<le> u32_max then Some n else None | None \<Rightarrow> None) es None) (failures p),
                      last_heard_ms := u64 ''last_heard_ms'' (last_heard_ms p),
                      peer_rx_bytes := u64 ''rx_bytes'' (peer_rx_bytes p), peer_tx_bytes := u64 ''tx_bytes'' (peer_tx_bytes p),
                      messages_offered := u64 ''messages_offered'' (messages_offered p),
                      messages_outgoing := u64 ''messages_outgoing'' (messages_outgoing p),
                      messages_incoming := u64 ''messages_incoming'' (messages_incoming p),
                      messages_unhandled := u64 ''messages_unhandled'' (messages_unhandled p),
                      peering_key := (case assign ''peering_key'' (\<lambda>v. case v of MBin b \<Rightarrow> Some b | _ \<Rightarrow> None) es None of
                          Some k \<Rightarrow> Some k | None \<Rightarrow> peering_key p)\<rparr>)))
      | _ \<Rightarrow> Inl (Msgpack ''peer must be map''))"

definition load_peers :: "env \<Rightarrow> file_system \<Rightarrow> peer_table" where
  "load_peers E fs =
     fold (\<lambda>(_, d) m. case read_value (e_codec E) d of
         Inl _ \<Rightarrow> m
       | Inr v \<Rightarrow> (case peer_from_value v of Inr p \<Rightarrow> hm_insert (peer_id p) p m | Inl _ \<Rightarrow> m)) (read_dir ''peers'' fs) []"

definition save_peers :: "env \<Rightarrow> 's lxmf_router \<Rightarrow> file_system \<Rightarrow> file_system" where
  "save_peers E r fs = fold (\<lambda>(_, p). save_peer E p) (lr_peers r) (file_store_new fs)"

subsection \<open>Single files\<close>

definition read_file_value :: "env \<Rightarrow> string \<times> string \<Rightarrow> file_system \<Rightarrow> mval option" where
  "read_file_value E p fs =
     (case fs_read p fs of None \<Rightarrow> None | Some d \<Rightarrow> (case read_value (e_codec E) d of Inr v \<Rightarrow> Some v | Inl _ \<Rightarrow> None))"

definition save_pn_directory :: "env \<Rightarrow> pn_directory \<Rightarrow> file_system \<Rightarrow> file_system" where
  "save_pn_directory E dir fs =
     write_encoded pn_dir_path (write_value (e_codec E) (MArr (map (\<lambda>e. entry_to_value
        \<lparr>w_destination = pn_destination e, w_app_data = pn_app_data e, w_last_seen_ms = pn_entry.last_seen_ms e, w_acked = acked e\<rparr>) (pn_list dir)))) fs"

definition load_pn_directory :: "env \<Rightarrow> file_system \<Rightarrow> pn_directory" where
  "load_pn_directory E fs =
     (case read_file_value E pn_dir_path fs of
        Some (MArr vs) \<Rightarrow>
          fold (\<lambda>v dir. case entry_from_value v of
              Inl _ \<Rightarrow> dir
            | Inr e \<Rightarrow> (let dir1 = snd (upsert_announce (e_codec E) (w_destination e) (w_app_data e) (w_last_seen_ms e) dir) in
                         if w_acked e then snd (acknowledge (w_destination e) dir1) else dir1)) vs []
      | _ \<Rightarrow> [])"

definition save_local_deliveries :: "env \<Rightarrow> (bytes, f64) hmap \<Rightarrow> file_system \<Rightarrow> file_system" where
  "save_local_deliveries E m fs = write_encoded local_deliveries_path (write_value (e_codec E) (transient_cache_to_value m)) fs"

definition save_locally_processed :: "env \<Rightarrow> (bytes, f64) hmap \<Rightarrow> file_system \<Rightarrow> file_system" where
  "save_locally_processed E m fs = write_encoded locally_processed_path (write_value (e_codec E) (transient_cache_to_value m)) fs"

definition load_transient_cache :: "env \<Rightarrow> string \<times> string \<Rightarrow> file_system \<Rightarrow> (bytes, f64) hmap" where
  "load_transient_cache E p fs = (case read_file_value E p fs of Some v \<Rightarrow> transient_cache_from_value v | None \<Rightarrow> [])"

definition file_save_tickets :: "env \<Rightarrow> ticket_snapshot \<Rightarrow> file_system \<Rightarrow> file_system" where
  "file_save_tickets E s fs = (case save_available_tickets (e_codec E) s of Some d \<Rightarrow> fs_write available_tickets_path d fs | None \<Rightarrow> fs)"

definition file_load_tickets :: "env \<Rightarrow> file_system \<Rightarrow> ticket_snapshot" where
  "file_load_tickets E fs =
     (case fs_read available_tickets_path fs of
        Some d \<Rightarrow> load_available_tickets (e_codec E) d | None \<Rightarrow> \<lparr>sn_outbound = [], sn_inbound = [], sn_last_deliveries = []\<rparr>)"

definition save_outbound_stamp_costs :: "env \<Rightarrow> (bytes, f64 \<times> nat) hmap \<Rightarrow> file_system \<Rightarrow> file_system" where
  "save_outbound_stamp_costs E m fs = write_encoded outbound_stamp_costs_path (write_value (e_codec E) (stamp_costs_to_value m)) fs"

definition load_outbound_stamp_costs :: "env \<Rightarrow> file_system \<Rightarrow> (bytes, f64 \<times> nat) hmap" where
  "load_outbound_stamp_costs E fs = (case read_file_value E outbound_stamp_costs_path fs of Some v \<Rightarrow> stamp_costs_from_value v | None \<Rightarrow> [])"

definition file_save_node_stats :: "env \<Rightarrow> node_stats \<Rightarrow> file_system \<Rightarrow> file_system" where
  "file_save_node_stats E s fs = write_encoded node_stats_path (write_value (e_codec E) (node_stats_value s)) fs"

definition file_load_node_stats :: "env \<Rightarrow> file_system \<Rightarrow> node_stats" where
  "file_load_node_stats E fs =
     (case fs_read node_stats_path fs of
        Some d \<Rightarrow> load_node_stats (e_codec E) d
      | None \<Rightarrow> \<lparr>client_propagation_messages_received = 0, client_propagation_messages_served = 0, unpeered_propagation_incoming = 0, unpeered_propagation_rx_bytes = 0\<rparr>)"

subsection \<open>Persistence of the router\<close>

text \<open>What \<open>LxmfRouter\<close> writes below its persistence root.\<close>

definition persist_ticket_store :: "env \<Rightarrow> 's lxmf_router \<Rightarrow> file_system \<Rightarrow> file_system" where
  "persist_ticket_store E r fs = file_save_tickets E (snapshot_tickets (lr_tickets r)) (file_store_new fs)"

definition persist_outbound_stamp_costs :: "env \<Rightarrow> 's lxmf_router \<Rightarrow> file_system \<Rightarrow> file_system" where
  "persist_outbound_stamp_costs E r fs = save_outbound_stamp_costs E (outbound_stamp_costs r) (file_store_new fs)"

definition save_node_stats :: "env \<Rightarrow> 's lxmf_router \<Rightarrow> file_system \<Rightarrow> file_system" where
  "save_node_stats E r fs = file_save_node_stats E (lr_node_stats r) (file_store_new fs)"

definition persist_propagation_entry :: "env \<Rightarrow> propagation_entry \<Rightarrow> file_system \<Rightarrow> file_system" where
  "persist_propagation_entry E e fs = save_propagation_entry E e (file_store_new fs)"

definition remove_propagation_entry_exact :: "'s lxmf_router \<Rightarrow> bytes \<Rightarrow> file_system \<Rightarrow> file_system" where
  "remove_propagation_entry_exact r tid fs =
     (case ps_filename tid (lr_prop_store r) of
        Some f \<Rightarrow> remove_propagation_entry_named f (file_store_new fs) | None \<Rightarrow> remove_propagation_entry tid (file_store_new fs))"

definition save_local_caches :: "env \<Rightarrow> 's lxmf_router \<Rightarrow> file_system \<Rightarrow> file_system" where
  "save_local_caches E r fs = save_locally_processed E (locally_processed r) (save_local_deliveries E (local_deliveries r) (file_store_new fs))"

text \<open>The start of a router on its files: everything is loaded, then cleaned, and what the cleaning changed is written
  back. The queue comes from the message store.\<close>

definition load_from_root :: "env \<Rightarrow> 's lxmf_router \<Rightarrow> file_system \<Rightarrow> 's lxmf_router \<times> file_system" where
  "load_from_root E r fs =
     (let (ps, fs1) = load_propagation_store E fs in
      (r\<lparr>lr_peers := load_peers E fs, static_peers := {}, ignored_destinations := {}, allowed_identities := {}, auth_required := False,
         lr_tickets := ticket_restore (file_load_tickets E fs) (lr_tickets r), outbound_stamp_costs := load_outbound_stamp_costs E fs,
         local_deliveries := load_transient_cache E local_deliveries_path fs, locally_processed := load_transient_cache E locally_processed_path fs,
         lr_prop_store := ps, lr_node_stats := file_load_node_stats E fs1\<rparr>, fs1))"

definition clean_loaded :: "env \<Rightarrow> nat \<Rightarrow> 's lxmf_router \<Rightarrow> file_system \<Rightarrow> 's lxmf_router \<times> file_system" where
  "clean_loaded E now r fs =
     (let r1 = clean_tickets now r; fs1 = persist_ticket_store E r1 fs;
          (n2, r2) = clean_outbound_stamp_costs now r1; fs2 = (if n2 > 0 then persist_outbound_stamp_costs E r2 fs1 else fs1);
          (n3, r3) = clean_transient_id_caches now r2; fs3 = (if n3 > 0 then save_local_caches E r3 fs2 else fs2);
          (_, r4) = clean_propagation_store now r3;
          gone = filter (\<lambda>i. \<not> ps_has i (lr_prop_store r4)) (map fst (ps_entries (lr_prop_store r3)));
          fs4 = fold (remove_propagation_entry_exact r3) gone fs3 in
      (r4, save_local_caches E r4 fs4))"

definition with_store_and_root :: "env \<Rightarrow> bytes \<Rightarrow> nat \<Rightarrow> nat \<Rightarrow> 's rns_router \<Rightarrow> runtime_config \<Rightarrow> file_system \<Rightarrow> 's lxmf_router \<times> file_system" where
  "with_store_and_root E ident started now router c fs =
     (let (r, fs1) = load_from_root E (facade_with_config ident started router c) (file_store_new fs) in clean_loaded E now r fs1)"

end
