(* ===== verification/File_Facts.thy ===== *)
theory File_Facts
  imports File_Store
begin

section \<open>Facts about the files of a node\<close>

text \<open>
  The files of the outbound queue refine a map from ids to messages, propagated messages are loaded as they
  were saved, and a router that restarts on its files has what it had when it wrote them, less what has expired.
\<close>

subsection \<open>Numbers in names\<close>

lemma parse_digits_append: "parse_digits a (xs @ ys) = Option.bind (parse_digits a xs) (\<lambda>n. parse_digits n ys)"
  by (induction xs arbitrary: a) (auto split: option.split)

lemma digit10_char: "n < 10 \<Longrightarrow> digit10 (char_of (48 + n)) = Some n"
  by (simp add: digit10_def Let_def)

lemma parse_show_nat: "parse_digits 0 (show_nat n) = Some n"
proof (induction n rule: show_nat.induct)
  case (1 n)
  show ?case
  proof (cases "n < 10")
    case True
    then show ?thesis by (subst show_nat.simps) (simp add: digit10_char)
  next
    case False
    have "digit10 (char_of (48 + n mod 10)) = Some (n mod 10)" by (rule digit10_char) simp
    with False 1 show ?thesis by (subst show_nat.simps) (simp add: parse_digits_append)
  qed
qed

lemma show_nat_inj: "show_nat m = show_nat n \<longleftrightarrow> m = n"
  by (metis parse_show_nat option.inject)

lemma show_nat_digits: "\<forall>c \<in> set (show_nat n). is_digit10 c"
proof (induction n rule: show_nat.induct)
  case (1 n)
  have "digit10 (char_of (48 + n mod 10)) = Some (n mod 10)" by (rule digit10_char) simp
  then have d: "is_digit10 (char_of (48 + n mod 10))" "n < 10 \<Longrightarrow> is_digit10 (char_of (48 + n))" by (auto simp: is_digit10_def digit10_char)
  show ?case using 1 d by (subst show_nat.simps) auto
qed

lemma show_nat_nonempty: "show_nat n \<noteq> []"
  by (subst show_nat.simps) simp

lemma parse_u32_show: "n \<le> u32_max \<Longrightarrow> parse_u32 (show_nat n) = Some n"
proof -
  assume n: "n \<le> u32_max"
  have "hd (show_nat n) \<noteq> CHR ''+''" using show_nat_digits[of n] show_nat_nonempty[of n]
    by (cases "show_nat n") (auto simp: is_digit10_def digit10_def)
  then show ?thesis using n show_nat_nonempty[of n] parse_show_nat[of n] by (cases "show_nat n") (auto simp: parse_u32_def Let_def)
qed

subsection \<open>Files\<close>

definition fs_wf :: "file_system \<Rightarrow> bool" where
  "fs_wf fs \<longleftrightarrow> hm_wf (fs_files fs)"

lemma create_dir_simps [simp]: "fs_files (create_dir d fs) = fs_files fs" "set (fs_dirs (create_dir d fs)) = insert d (set (fs_dirs fs))"
  "fs_wf (create_dir d fs) = fs_wf fs" "fs_read p (create_dir d fs) = fs_read p fs"
  by (auto simp: create_dir_def fs_wf_def fs_read_def)

lemma file_store_new_simps [simp]: "fs_files (file_store_new fs) = fs_files fs" "fs_wf (file_store_new fs) = fs_wf fs" "fs_read p (file_store_new fs) = fs_read p fs"
  "set (fs_dirs (file_store_new fs)) = {'''', ''outbound'', ''inbound'', ''failed'', ''propagation''} \<union> set (fs_dirs fs)"
  by (auto simp: file_store_new_def)

lemma fs_write_simps [simp]:
  "fs_dirs (fs_write p d fs) = fs_dirs fs" "fs_wf fs \<Longrightarrow> fs_wf (fs_write p d fs)"
  "fs_wf fs \<Longrightarrow> fs_read q (fs_write p d fs) = (if q = p \<and> fst p \<in> set (fs_dirs fs) then Some d else fs_read q fs)"
  by (auto simp: fs_write_def fs_wf_def fs_read_def hmap_simps)

lemma remove_file_simps [simp]:
  "fs_dirs (remove_file p fs) = fs_dirs fs" "fs_wf fs \<Longrightarrow> fs_wf (remove_file p fs)"
  "fs_wf fs \<Longrightarrow> fs_read q (remove_file p fs) = (if q = p then None else fs_read q fs)"
  by (auto simp: remove_file_def fs_wf_def fs_read_def hmap_simps)

lemma write_encoded_simps [simp]:
  "fs_dirs (write_encoded p x fs) = fs_dirs fs" "fs_wf fs \<Longrightarrow> fs_wf (write_encoded p x fs)"
  "fs_wf fs \<Longrightarrow> fst q \<noteq> fst p \<Longrightarrow> fs_read q (write_encoded p x fs) = fs_read q fs"
  by (auto simp: write_encoded_def split: sum.split)

lemma read_dir_iff: "fs_wf fs \<Longrightarrow> (n, d) \<in> set (read_dir dir fs) \<longleftrightarrow> dir \<in> set (fs_dirs fs) \<and> fs_read (dir, n) fs = Some d"
  by (force simp: read_dir_def fs_wf_def fs_read_def hm_wf_def)

lemma read_dir_distinct: "fs_wf fs \<Longrightarrow> distinct (map fst (read_dir dir fs))"
proof -
  assume "fs_wf fs"
  then have "distinct (map fst (filter (\<lambda>((d', _), _). d' = dir) (fs_files fs)))" by (simp add: fs_wf_def hm_wf_def distinct_map_filter)
  then have "distinct (map snd (map fst (filter (\<lambda>((d', _), _). d' = dir) (fs_files fs))))"
    by (subst distinct_map) (auto intro!: inj_onI)
  then show ?thesis by (simp add: read_dir_def comp_def case_prod_beta)
qed

subsection \<open>The queue\<close>

text \<open>What the store of the queue promises: a map from ids to messages.\<close>

datatype queue_op = QSave queued_message | QRemove nat | QInbound lxmessage | QFailed failed_delivery

fun file_op :: "env \<Rightarrow> (failure \<Rightarrow> bytes) \<Rightarrow> queue_op \<Rightarrow> file_system \<Rightarrow> file_system" where
  "file_op E t (QSave i) fs = save_outbound (file_ops E t) i fs"
| "file_op E t (QRemove n) fs = remove_outbound (file_ops E t) n fs"
| "file_op E t (QInbound m) fs = save_inbound (file_ops E t) m fs"
| "file_op E t (QFailed f) fs = save_failed (file_ops E t) f fs"

fun map_op :: "queue_op \<Rightarrow> (nat \<rightharpoonup> queued_message) \<Rightarrow> (nat \<rightharpoonup> queued_message)" where
  "map_op (QSave i) m = m(q_id i \<mapsto> i)"
| "map_op (QRemove n) m = m(n := None)"
| "map_op (QInbound _) m = m"
| "map_op (QFailed _) m = m"

definition storable :: "env \<Rightarrow> queued_message \<Rightarrow> bool" where
  "storable E i \<longleftrightarrow> reads_back (e_codec E) (MMap (item_entries i)) \<and> stored_wf (q_message i) \<and> q_id i \<le> u64_max \<and> q_next_attempt_at_ms i \<le> u64_max"

definition queue_files :: "env \<Rightarrow> file_system \<Rightarrow> (nat \<rightharpoonup> queued_message) \<Rightarrow> bool" where
  "queue_files E fs m \<longleftrightarrow> fs_wf fs \<and> {''outbound'', ''inbound'', ''failed''} \<subseteq> set (fs_dirs fs)
     \<and> (\<forall>i item. m i = Some item \<longrightarrow> q_id item = i \<and> storable E item)
     \<and> (\<forall>n d. fs_read (''outbound'', n) fs = Some d \<longleftrightarrow>
          (\<exists>i item. m i = Some item \<and> n = show_nat i @ ''.mpk'' \<and> encode_outbound (e_codec E) item = Inr d))"

lemma storable_encodes: "storable E i \<Longrightarrow> \<exists>d. encode_outbound (e_codec E) i = Inr d \<and> decode_outbound (e_codec E) d = Inr i"
  unfolding storable_def by (blast intro: queue_item_roundtrip)

lemma file_op_refines:
  assumes "queue_files E fs m" and "\<And>i. op = QSave i \<Longrightarrow> storable E i"
  shows "queue_files E (file_op E t op fs) (map_op op m)"
proof (cases op)
  case (QSave i)
  obtain d where d: "encode_outbound (e_codec E) i = Inr d" using storable_encodes[OF assms(2)[OF QSave]] by blast
  with QSave assms show ?thesis
    by (auto simp: queue_files_def file_ops_def file_save_outbound_def write_encoded_def outbound_path_def show_nat_inj split: if_splits)
next
  case (QRemove n)
  with assms(1) show ?thesis by (auto simp: queue_files_def file_ops_def file_remove_outbound_def outbound_path_def show_nat_inj split: if_splits)
next
  case (QInbound m)
  with assms(1) show ?thesis by (simp add: queue_files_def file_ops_def file_save_inbound_def inbound_path_def Let_def)
next
  case (QFailed f)
  with assms(1) show ?thesis by (simp add: queue_files_def file_ops_def file_save_failed_def failed_path_def)
qed

lemma file_ops_refine:
  "queue_files E fs m \<Longrightarrow> \<forall>i. QSave i \<in> set ops \<longrightarrow> storable E i \<Longrightarrow> queue_files E (fold (file_op E t) ops fs) (fold map_op ops m)"
proof (induction ops arbitrary: fs m)
  case (Cons a ops)
  from Cons.prems(2) have "queue_files E (file_op E t a fs) (map_op a m)" by (intro file_op_refines Cons.prems(1)) auto
  from Cons.IH[OF this] Cons.prems(2) show ?case by auto
qed simp

lemma sort_key_map_ids: "map f (sort_key f xs) = sort (map f xs)"
  by (rule properties_for_sort[symmetric]) simp_all

lemma loaded_queue:
  assumes "queue_files E fs m"
  shows "set (file_load_outbound E fs) = ran m" and "distinct (map q_id (file_load_outbound E fs))"
proof -
  let ?L = "read_dir ''outbound'' fs"
  define g where "g = (\<lambda>x :: string \<times> bytes. case decode_outbound (e_codec E) (snd x) of Inr i \<Rightarrow> i)"
  have wf: "fs_wf fs" and dir: "''outbound'' \<in> set (fs_dirs fs)" using assms by (simp_all add: queue_files_def)
  have mem: "x \<in> set ?L \<longleftrightarrow> (\<exists>i item. m i = Some item \<and> fst x = show_nat i @ ''.mpk'' \<and> encode_outbound (e_codec E) item = Inr (snd x))" for x
    using read_dir_iff[OF wf, of "fst x" "snd x" "''outbound''"] dir assms by (simp add: queue_files_def)
  have g: "decode_outbound (e_codec E) (snd x) = Inr (g x) \<and> m (q_id (g x)) = Some (g x) \<and> fst x = show_nat (q_id (g x)) @ ''.mpk''" if x: "x \<in> set ?L" for x
  proof -
    obtain i item where i: "m i = Some item" "fst x = show_nat i @ ''.mpk''" "encode_outbound (e_codec E) item = Inr (snd x)" using x mem by blast
    with assms have "q_id item = i" "storable E item" by (auto simp: queue_files_def)
    with i storable_encodes[of E item] show ?thesis by (auto simp: g_def)
  qed
  have load: "file_load_outbound E fs = map g ?L"
  proof -
    have "map (\<lambda>(_, d). case decode_outbound (e_codec E) d of Inr i \<Rightarrow> [i] | Inl _ \<Rightarrow> []) ?L = map (\<lambda>x. [g x]) ?L"
      by (rule map_cong[OF refl]) (use g in fastforce)
    then show ?thesis unfolding file_load_outbound_def by (simp only:) simp
  qed
  show "set (file_load_outbound E fs) = ran m"
  proof
    show "set (file_load_outbound E fs) \<subseteq> ran m" using g by (auto simp: load ran_def)
    show "ran m \<subseteq> set (file_load_outbound E fs)"
    proof
      fix item assume "item \<in> ran m"
      then obtain i where i: "m i = Some item" by (auto simp: ran_def)
      with assms obtain d where d: "encode_outbound (e_codec E) item = Inr d" "decode_outbound (e_codec E) d = Inr item"
        using storable_encodes[of E item] by (auto simp: queue_files_def)
      with i have "(show_nat i @ ''.mpk'', d) \<in> set ?L" by (auto simp: mem)
      with d show "item \<in> set (file_load_outbound E fs)" by (force simp: load g_def)
    qed
  qed
  have "inj_on (q_id \<circ> g) (set ?L)"
  proof (rule inj_onI)
    fix x y assume xy: "x \<in> set ?L" "y \<in> set ?L" "(q_id \<circ> g) x = (q_id \<circ> g) y"
    then have "fst x = fst y" using g by simp
    with xy(1,2) read_dir_distinct[OF wf] show "x = y" by (metis distinct_map inj_onD)
  qed
  moreover have "distinct ?L" using read_dir_distinct[OF wf] by (simp add: distinct_map)
  ultimately have "distinct (map (q_id \<circ> g) ?L)" unfolding distinct_map by blast
  then show "distinct (map q_id (file_load_outbound E fs))" by (simp add: load)
qed

text \<open>C11. The files of the queue are a map. Whatever messages are saved, saved again, removed, received and given up, in whatever order,
  loading the queue gives exactly the last saved form of every message that was not removed since, each once; and a router that
  is started on these files has them in its queue in the order of their ids.\<close>

theorem file_queue_refines:
  assumes "\<forall>i. QSave i \<in> set ops \<longrightarrow> storable E i" and "hm_wf (fs_files fs)" and "\<forall>n. fs_read (''outbound'', n) fs = None"
  shows "set (file_load_outbound E (fold (file_op E t) ops (file_store_new fs))) = ran (fold map_op ops Map.empty)
    \<and> distinct (map q_id (file_load_outbound E (fold (file_op E t) ops (file_store_new fs))))
    \<and> queue_ids (with_store (file_ops E t) out (fold (file_op E t) ops (file_store_new fs))) = sorted_list_of_set (dom (fold map_op ops Map.empty))"
proof -
  let ?fs = "fold (file_op E t) ops (file_store_new fs)" and ?m = "fold map_op ops Map.empty"
  have "queue_files E (file_store_new fs) Map.empty" using assms(2,3) by (simp add: queue_files_def fs_wf_def)
  then have q: "queue_files E ?fs ?m" using assms(1) by (rule file_ops_refine)
  note l = loaded_queue[OF q]
  have "q_id ` set (file_load_outbound E ?fs) = dom ?m" using q unfolding l(1) queue_files_def by (force simp: ran_def)
  then have ids: "set (map q_id (file_load_outbound E ?fs)) = dom ?m" by simp
  have "queue_ids (with_store (file_ops E t) out ?fs) = sort (map q_id (file_load_outbound E ?fs))"
    unfolding restored_ids by (simp add: file_ops_def sort_key_map_ids)
  then have "queue_ids (with_store (file_ops E t) out ?fs) = sorted_list_of_set (dom ?m)"
    using l(2) ids by (metis sorted_list_of_set_sort_remdups distinct_remdups_id)
  with l show ?thesis by blast
qed

theorem file_queue_refines_witness:
  "set (file_load_outbound sample_env (fold (file_op sample_env (\<lambda>_. [])) [QSave sample_item, QSave (sample_item\<lparr>q_id := 3\<rparr>), QRemove (2 ^ 63 + 5)]
      (file_store_new \<lparr>fs_dirs = [], fs_files = []\<rparr>))) = {sample_item\<lparr>q_id := 3\<rparr>}"
proof -
  note defs = sample_item_def sample_message_def with_strings_def msg_new_def
  have st: "storable sample_env (sample_item\<lparr>q_id := n\<rparr>)" if "n \<le> u64_max" for n
  proof -
    have "- (2 ^ 63) \<le> u64_as_i64 n \<and> u64_as_i64 n < 2 ^ 63" using that u64_as_i64_range[of n] by simp
    then have "reads_back ref_codec (MMap (item_entries (sample_item\<lparr>q_id := n\<rparr>)))"
      by (intro ref_codec_reads_back)
        (simp add: item_entries_def encode_message_value_def message_entries_def key_def str_bytes_def defs u64_as_i64_def
          delivery_mode_to_i64_def option_bytes_to_value_def option_u32_to_value_def option_u8_to_value_def option_bool_to_value_def
          option_string_to_value_def STATE_GENERATING_def REPR_UNKNOWN_def)
    then show ?thesis using that by (simp add: storable_def stored_wf_def msg_wf_def u64_max_def sample_env_def defs)
  qed
  have "storable sample_env sample_item" using st[of "2 ^ 63 + 5"] by (simp add: u64_max_def sample_item_def)
  moreover have "storable sample_env (sample_item\<lparr>q_id := 3\<rparr>)" by (rule st) (simp add: u64_max_def)
  ultimately have "\<forall>i. QSave i \<in> set [QSave sample_item, QSave (sample_item\<lparr>q_id := 3\<rparr>), QRemove (2 ^ 63 + 5)] \<longrightarrow> storable sample_env i" by simp
  moreover have "ran (fold map_op [QSave sample_item, QSave (sample_item\<lparr>q_id := 3\<rparr>), QRemove (2 ^ 63 + 5)] Map.empty) = {sample_item\<lparr>q_id := 3\<rparr>}"
    by (auto simp: sample_item_def ran_def split: if_splits)
  ultimately show ?thesis
    using file_queue_refines[of "[QSave sample_item, QSave (sample_item\<lparr>q_id := 3\<rparr>), QRemove (2 ^ 63 + 5)]" sample_env
        "\<lparr>fs_dirs = [], fs_files = []\<rparr>" "\<lambda>_. []" sample_outbound] by (simp add: hm_wf_def fs_read_def)
qed

subsection \<open>Names of propagated messages\<close>

lemma split_char_none: "c \<notin> set xs \<Longrightarrow> split_char c xs = [xs]"
  by (induction xs) auto

lemma split_char_at: "c \<notin> set xs \<Longrightarrow> split_char c (xs @ c # ys) = xs # split_char c ys"
  by (induction xs) auto

lemma hex_decode_encode: "hex_decode (to_hex_string h) = Some h"
proof (induction h)
  case (Cons b h)
  have "unat b div 16 < 16" using unat_byte_lt[of b] by simp
  moreover have "unat b div 16 * 16 + unat b mod 16 = unat b" by simp
  ultimately show ?case using Cons digit16_hex_digit[of "unat b div 16"] digit16_hex_digit[of "unat b mod 16"]
    by (simp add: to_hex_string_def hex_byte_def del: of_nat_add of_nat_mult)
qed (simp add: to_hex_string_def)

lemma hex_no_underscore: "CHR ''_'' \<notin> set (to_hex_string h)"
proof -
  have "hex_digit n \<noteq> CHR ''_''" if "n < 16" for n using digit16_hex_digit[OF that] by (auto simp: digit16_def)
  then have "hex_digit (unat b div 16) \<noteq> CHR ''_'' \<and> hex_digit (unat b mod 16) \<noteq> CHR ''_''" for b :: byte
    using unat_byte_lt[of b] by simp
  then show ?thesis by (fastforce simp: to_hex_string_def hex_byte_def)
qed

lemma digits_no_underscore: "\<forall>c \<in> set s. is_digit10 c \<Longrightarrow> CHR ''_'' \<notin> set s"
  by (auto simp: is_digit10_def digit10_def)

lemma display_no_underscore: "CHR ''_'' \<notin> set (f64_display w)"
proof -
  have "CHR ''_'' \<notin> set (place_point (rev (dropWhile (\<lambda>x. x = CHR ''0'') (rev (show_nat c)))) k)" for c k
    using digits_no_underscore[OF show_nat_digits[of c]]
    by (auto simp: place_point_def Let_def dest!: set_dropWhileD in_set_takeD in_set_dropD)
  then show ?thesis by (auto simp: f64_display_def Let_def case_prod_beta split: f64_view.split)
qed

text \<open>A positive finite time whose decimal form reads back.\<close>

definition shown :: "f64 \<Rightarrow> bool" where
  "shown ts \<longleftrightarrow> f64_from_str (f64_display ts) = Some ts \<and> (case f64_view ts of Finite _ _ _ \<Rightarrow> f64_lt 0 ts | _ \<Rightarrow> False)"

lemma filename_parsed:
  assumes "length tid = 32" and "shown ts" and "v \<le> u32_max"
  shows "parse_propagation_entry_filename (propagation_entry_filename tid ts v) = Some (tid, ts, v)"
proof -
  have "split_char (CHR ''_'') (propagation_entry_filename tid ts v) = [to_hex_string tid, f64_display ts, show_nat v]"
    by (simp add: propagation_entry_filename_def split_char_at split_char_none hex_no_underscore display_no_underscore
        digits_no_underscore[OF show_nat_digits])
  then show ?thesis using assms
    by (auto simp: parse_propagation_entry_filename_def length_to_hex_string hex_decode_encode shown_def parse_u32_show split: f64_view.split_asm)
qed

lemma filename_prefix:
  assumes "length tid = length tid'"
  shows "take (length (to_hex_string tid @ ''_'')) (propagation_entry_filename tid' ts v) = to_hex_string tid @ ''_'' \<longleftrightarrow> tid' = tid"
proof -
  have "propagation_entry_filename tid' ts v = (to_hex_string tid' @ ''_'') @ f64_display ts @ ''_'' @ show_nat v"
    by (simp add: propagation_entry_filename_def)
  then have "take (length (to_hex_string tid @ ''_'')) (propagation_entry_filename tid' ts v) = to_hex_string tid' @ ''_''"
    using assms by (simp add: length_to_hex_string)
  then show ?thesis using hex_decode_encode[of tid] hex_decode_encode[of tid'] by (metis append_same_eq option.inject)
qed

subsection \<open>Propagated messages\<close>

definition entry_name :: "env \<Rightarrow> propagation_entry \<Rightarrow> string" where
  "entry_name E e = propagation_entry_filename (pe_transient_id e) (pe_timestamp e) (computed_stamp_value E (pe_lxm_data e))"

definition loaded_entry :: "env \<Rightarrow> propagation_entry \<Rightarrow> propagation_entry" where
  "loaded_entry E e = \<lparr>pe_transient_id = pe_transient_id e, pe_lxm_data = pe_lxm_data e, pe_timestamp = pe_timestamp e,
     pe_destination_hash = (if DESTINATION_LENGTH \<le> length (pe_lxm_data e) then Some (take DESTINATION_LENGTH (pe_lxm_data e)) else None),
     pe_filepath = Some (str_bytes (entry_name E e)), pe_msg_size = Some (length (pe_lxm_data e))\<rparr>"

definition entry_storable :: "env \<Rightarrow> propagation_entry \<Rightarrow> bool" where
  "entry_storable E e \<longleftrightarrow> length (pe_transient_id e) = 32 \<and> shown (pe_timestamp e) \<and> computed_stamp_value E (pe_lxm_data e) \<le> u32_max"

definition prop_files :: "env \<Rightarrow> file_system \<Rightarrow> propagation_entry set \<Rightarrow> bool" where
  "prop_files E fs S \<longleftrightarrow> fs_wf fs \<and> ''propagation'' \<in> set (fs_dirs fs) \<and> (\<forall>e \<in> S. entry_storable E e) \<and> inj_on pe_transient_id S
     \<and> (\<forall>n d. fs_read (''propagation'', n) fs = Some d \<longleftrightarrow> (\<exists>e \<in> S. n = entry_name E e \<and> d = pe_lxm_data e))"

lemma entry_name_parsed: "entry_storable E e \<Longrightarrow>
    parse_propagation_entry_filename (entry_name E e) = Some (pe_transient_id e, pe_timestamp e, computed_stamp_value E (pe_lxm_data e))"
  unfolding entry_name_def entry_storable_def by (blast intro: filename_parsed)

lemma persist_prop_files:
  assumes "prop_files E fs S" and "entry_storable E e" and "pe_transient_id e \<notin> pe_transient_id ` S"
  shows "prop_files E (persist_propagation_entry E e fs) (insert e S)"
proof -
  have "entry_name E e \<noteq> entry_name E e'" if "e' \<in> S" for e'
  proof
    assume "entry_name E e = entry_name E e'"
    then have "pe_transient_id e = pe_transient_id e'" using entry_name_parsed[OF assms(2)] entry_name_parsed[of E e'] that assms(1)
      by (auto simp: prop_files_def)
    then show False using that assms(3) by auto
  qed
  then show ?thesis using assms
    by (auto simp: prop_files_def persist_propagation_entry_def save_propagation_entry_def Let_def simp flip: entry_name_def split: if_splits)
qed

lemma persist_all_prop_files:
  "prop_files E fs S \<Longrightarrow> \<forall>e \<in> set es. entry_storable E e \<Longrightarrow> distinct (map pe_transient_id es) \<Longrightarrow> pe_transient_id ` set es \<inter> pe_transient_id ` S = {} \<Longrightarrow>
    prop_files E (fold (persist_propagation_entry E) es fs) (set es \<union> S)"
proof (induction es arbitrary: fs S)
  case (Cons e es)
  have "prop_files E (persist_propagation_entry E e fs) (insert e S)" using Cons.prems by (intro persist_prop_files) auto
  from Cons.IH[OF this] Cons.prems show ?case by auto
qed simp

lemma remove_prop_files:
  assumes "prop_files E fs S" and "length tid = 32"
  shows "prop_files E (remove_propagation_entry tid fs) {e \<in> S. pe_transient_id e \<noteq> tid}"
proof -
  let ?prefix = "to_hex_string tid @ ''_''"
  let ?f = "\<lambda>(n, _ :: bytes) fs. if take (length ?prefix) n = ?prefix then remove_file (''propagation'', n) fs else fs"
  have wf: "fs_wf fs" "''propagation'' \<in> set (fs_dirs fs)" using assms(1) by (simp_all add: prop_files_def)
  have fold: "fs_wf g \<Longrightarrow> fs_wf (fold ?f L g) \<and> fs_dirs (fold ?f L g) = fs_dirs g
      \<and> (\<forall>p. fs_read p (fold ?f L g) = (if \<exists>(n, d) \<in> set L. p = (''propagation'', n) \<and> take (length ?prefix) n = ?prefix then None else fs_read p g))" for L g
  proof (induction L arbitrary: g)
    case (Cons x L)
    obtain n d where x: "x = (n, d)" by (cases x)
    show ?case
    proof (cases "take (length ?prefix) n = ?prefix")
      case True
      then show ?thesis using Cons.IH[of "remove_file (''propagation'', n) g"] Cons.prems x by auto
    next
      case False
      then show ?thesis using Cons.IH[of g] Cons.prems x by auto
    qed
  qed simp
  have pre: "take (length ?prefix) (entry_name E e) = ?prefix \<longleftrightarrow> pe_transient_id e = tid" if "e \<in> S" for e
    using that assms filename_prefix[of tid "pe_transient_id e"] by (simp add: prop_files_def entry_storable_def entry_name_def)
  have read: "fs_read (''propagation'', n) (remove_propagation_entry tid fs) =
      (if take (length ?prefix) n = ?prefix then None else fs_read (''propagation'', n) fs)" for n
    using fold[OF wf(1), of "read_dir ''propagation'' fs"] read_dir_iff[OF wf(1), of n _ "''propagation''"] wf(2)
    by (cases "fs_read (''propagation'', n) fs") (auto simp: remove_propagation_entry_def Let_def)
  show ?thesis using assms(1) pre fold[OF wf(1), of "read_dir ''propagation'' fs"]
    unfolding prop_files_def read by (auto simp: remove_propagation_entry_def Let_def intro: inj_on_subset)
qed

lemma load_entry_ok: "entry_storable E e \<Longrightarrow> load_entry_file E (entry_name E e, pe_lxm_data e) (s, fs) =
    (insert_with_stamp_value_and_filename (loaded_entry E e) (computed_stamp_value E (pe_lxm_data e)) (entry_name E e) s, fs)"
  by (simp add: load_entry_file_def entry_name_parsed loaded_entry_def)

lemma ps_get_insert: "hm_wf (ps_entries s) \<Longrightarrow> ps_get t (insert_with_stamp_value_and_filename e v f s) = (if t = pe_transient_id e then Some e else ps_get t s)"
  "hm_wf (ps_entries s) \<Longrightarrow> hm_wf (ps_entries (insert_with_stamp_value_and_filename e v f s))"
  by (auto simp: ps_get_def insert_with_stamp_value_and_filename_def hmap_simps)

lemma loaded_entry_id [simp]: "pe_transient_id (loaded_entry E e) = pe_transient_id e"
  by (simp add: loaded_entry_def)

lemma load_entries:
  "hm_wf (ps_entries s) \<Longrightarrow> \<forall>e \<in> set es. entry_storable E e \<Longrightarrow> inj_on pe_transient_id (set es) \<Longrightarrow>
    snd (fold (load_entry_file E) (map (\<lambda>e. (entry_name E e, pe_lxm_data e)) es) (s, fs)) = fs
    \<and> ps_get t (fst (fold (load_entry_file E) (map (\<lambda>e. (entry_name E e, pe_lxm_data e)) es) (s, fs)))
      = (case find (\<lambda>e. pe_transient_id e = t) es of Some e \<Rightarrow> Some (loaded_entry E e) | None \<Rightarrow> ps_get t s)"
proof (induction es arbitrary: s)
  case (Cons e es)
  let ?s = "insert_with_stamp_value_and_filename (loaded_entry E e) (computed_stamp_value E (pe_lxm_data e)) (entry_name E e) s"
  have "x = e" if "find (\<lambda>x. pe_transient_id x = t) es = Some x" and "pe_transient_id e = t" for x
  proof -
    from that(1) have "x \<in> set es \<and> pe_transient_id x = t" by (auto simp: find_Some_iff)
    with that(2) Cons.prems(3) show ?thesis by (auto simp: inj_on_def)
  qed
  then have "find (\<lambda>x. pe_transient_id x = t) es \<in> {None, Some e}" if "pe_transient_id e = t" using that by fastforce
  with Cons.IH[of ?s] Cons.prems ps_get_insert[OF Cons.prems(1)] show ?case
    by (auto simp: load_entry_ok inj_on_insert split: option.split)
qed simp

lemma load_prop_files:
  assumes "prop_files E fs S"
  shows "snd (load_propagation_store E fs) = fs"
    and "ps_get t (fst (load_propagation_store E fs)) = Some e' \<longleftrightarrow> (\<exists>e \<in> S. pe_transient_id e = t \<and> e' = loaded_entry E e)"
proof -
  let ?h = "\<lambda>e. (entry_name E e, pe_lxm_data e)"
  have wf: "fs_wf fs" "''propagation'' \<in> set (fs_dirs fs)" and S: "\<forall>e \<in> S. entry_storable E e" "inj_on pe_transient_id S"
    using assms by (simp_all add: prop_files_def)
  have files: "set (read_dir ''propagation'' fs) = ?h ` S"
    using read_dir_iff[OF wf(1)] wf(2) assms by (auto simp: prop_files_def)
  have inj: "inj_on ?h S"
  proof (rule inj_onI)
    fix e e' assume e: "e \<in> S" "e' \<in> S" "?h e = ?h e'"
    then have "pe_transient_id e = pe_transient_id e'" using S(1) entry_name_parsed[of E e] entry_name_parsed[of E e'] by auto
    with e S(2) show "e = e'" by (simp add: inj_on_def)
  qed
  define es where "es = map (the_inv_into S ?h) (read_dir ''propagation'' fs)"
  have es: "read_dir ''propagation'' fs = map ?h es"
    unfolding es_def map_map by (rule map_idI[symmetric]) (simp add: files f_the_inv_into_f[OF inj] del: split_paired_All)
  have set: "set es = S" by (simp add: es_def files the_inv_into_onto[OF inj])
  have "hm_wf (ps_entries ps_new)" by (simp add: ps_new_def hm_wf_def)
  note load = load_entries[OF this, of es E fs t, unfolded set, OF S, folded es, folded load_propagation_store_def]
  then show "snd (load_propagation_store E fs) = fs" ..
  have "find (\<lambda>e. pe_transient_id e = t) es = Some e \<longleftrightarrow> e \<in> S \<and> pe_transient_id e = t" for e
  proof
    assume "find (\<lambda>e. pe_transient_id e = t) es = Some e"
    then show "e \<in> S \<and> pe_transient_id e = t" using set by (auto simp: find_Some_iff)
  next
    assume e: "e \<in> S \<and> pe_transient_id e = t"
    then obtain x where x: "find (\<lambda>e. pe_transient_id e = t) es = Some x" using set by (cases "find (\<lambda>e. pe_transient_id e = t) es") (auto simp: find_None_iff)
    then have "x \<in> S \<and> pe_transient_id x = t" using set by (auto simp: find_Some_iff)
    with e S(2) x show "find (\<lambda>e. pe_transient_id e = t) es = Some e" by (auto simp: inj_on_def)
  qed
  note found = this
  have "ps_get t (fst (load_propagation_store E fs)) = Some e' \<longleftrightarrow> (\<exists>e. find (\<lambda>e. pe_transient_id e = t) es = Some e \<and> e' = loaded_entry E e)"
    using load by (auto simp: ps_new_def ps_get_def split: option.split)
  then show "ps_get t (fst (load_propagation_store E fs)) = Some e' \<longleftrightarrow> (\<exists>e \<in> S. pe_transient_id e = t \<and> e' = loaded_entry E e)"
    unfolding found by blast
qed

text \<open>C22. Propagated messages survive a restart. Messages with different transient ids are written to files named by id, time and stamp value; after
  one of them is removed, loading the directory keeps every file and gives exactly the other messages, with their data, time and id.\<close>

theorem propagation_files_reload:
  assumes "\<forall>e \<in> set es. entry_storable E e" and "distinct (map pe_transient_id es)" and "length tid = 32"
    and "hm_wf (fs_files fs)" and "\<forall>n. fs_read (''propagation'', n) fs = None"
  shows "let fs' = remove_propagation_entry tid (fold (persist_propagation_entry E) es (file_store_new fs)) in
    snd (load_propagation_store E fs') = fs'
    \<and> (\<forall>t e'. ps_get t (fst (load_propagation_store E fs')) = Some e' \<longleftrightarrow>
         (\<exists>e \<in> set es. pe_transient_id e = t \<and> t \<noteq> tid \<and> e' = loaded_entry E e))"
proof -
  have "prop_files E (file_store_new fs) {}" using assms(4,5) by (simp add: prop_files_def fs_wf_def)
  from persist_all_prop_files[OF this assms(1,2)] have "prop_files E (fold (persist_propagation_entry E) es (file_store_new fs)) (set es)" by simp
  from load_prop_files[OF remove_prop_files[OF this assms(3)]] show ?thesis unfolding Let_def by auto
qed

text \<open>The double 1 is written and read as \<open>1\<close>.\<close>

lemma view_one: "f64_view 0x3FF0000000000000 = Finite False 0x10000000000000 (- 52)" by (simp add: f64_view_def)

lemma dec_exp_one: "dec_exp 0x10000000000000 0x10000000000000 = 1" by (simp add: dec_exp_def show_nat.simps)

lemma round_one: "f64_round (Suc 0) (Suc 0) = 0x3FF0000000000000" by (simp add: f64_eval)

lemma round_two: "f64_round 2 (Suc 0) = 0x4000000000000000" by (simp add: f64_eval)

lemma candidates_one: "dec_candidates 0x10000000000000 0x10000000000000 1 0x3FF0000000000000 (Suc 0) = [1]" by (simp add: dec_candidates_def round_half_even_def round_one round_two[unfolded numeral_2_eq_2] Let_def)

lemma digits_one: "dec_digits 17 0x10000000000000 0x10000000000000 1 0x3FF0000000000000 (Suc 0) = (1, 1)"
proof -
  have "dec_digits (Suc 16) 0x10000000000000 0x10000000000000 1 0x3FF0000000000000 (Suc 0) = (1, 1)" by (subst dec_digits.simps) (simp add: candidates_one)
  then show ?thesis by simp
qed

lemma display_one: "f64_display 0x3FF0000000000000 = ''1''" by (simp add: f64_display_def view_one dec_exp_one digits_one show_nat.simps place_point_def char_of_def bit_0 Let_def)

lemma from_str_one: "f64_from_str ''1'' = Some 0x3FF0000000000000" by (simp add: f64_from_str_def split_sign_def lower_def is_digit10_def digit10_def parse_exponent_def round_one with_sign_def Let_def)

lemma shown_one: "shown 0x3FF0000000000000"
  by (simp add: shown_def display_one from_str_one view_one f64_lt_def) (simp add: f64_eval)

definition filed_entry :: "byte \<Rightarrow> propagation_entry" where
  "filed_entry b = \<lparr>pe_transient_id = replicate 32 b, pe_lxm_data = replicate 20 b, pe_timestamp = 0x3FF0000000000000,
     pe_destination_hash = None, pe_filepath = None, pe_msg_size = None\<rparr>"

lemma filed_entry_storable: "entry_storable sample_env (filed_entry b)"
proof -
  have "computed_stamp_value sample_env (replicate 20 b) = 0" by (simp add: computed_stamp_value_def validate_pn_stamp_def STAMP_SIZE_def LXMF_OVERHEAD_def)
  then show ?thesis by (simp add: shown_one u32_max_def entry_storable_def filed_entry_def)
qed

theorem propagation_files_reload_witness:
  "let fs' = remove_propagation_entry (replicate 32 2) (fold (persist_propagation_entry sample_env) [filed_entry 1, filed_entry 2, filed_entry 3]
      (file_store_new \<lparr>fs_dirs = [], fs_files = []\<rparr>)) in
    ps_get (replicate 32 3) (fst (load_propagation_store sample_env fs')) = Some (loaded_entry sample_env (filed_entry 3))
    \<and> ps_get (replicate 32 2) (fst (load_propagation_store sample_env fs')) = None"
proof -
  have d: "distinct (map pe_transient_id [filed_entry 1, filed_entry 2, filed_entry 3])" by (simp add: filed_entry_def)
  note r = propagation_files_reload[where fs = "\<lparr>fs_dirs = [], fs_files = []\<rparr>" and tid = "replicate 32 2", OF _ d, of sample_env]
  have "(\<exists>e \<in> set [filed_entry 1, filed_entry 2, filed_entry 3]. pe_transient_id e = replicate 32 3 \<and> replicate 32 3 \<noteq> replicate 32 (2 :: byte)
      \<and> loaded_entry sample_env (filed_entry 3) = loaded_entry sample_env e)" by (auto simp: filed_entry_def)
  then show ?thesis using r unfolding Let_def
    by (simp add: filed_entry_storable hm_wf_def fs_read_def del: fold.simps) (metis not_None_eq)
qed

subsection \<open>Restart\<close>

text \<open>What a router keeps in single files can be stored: ids have their length, times are not negative, and the codec reads
  the values it wrote.\<close>

definition router_storable :: "env \<Rightarrow> 's lxmf_router \<Rightarrow> bool" where
  "router_storable E r \<longleftrightarrow> tickets_wf (lr_tickets r)
     \<and> hm_wf (outbound_stamp_costs r) \<and> (\<forall>(d, t, n) \<in> set (outbound_stamp_costs r). length d = DESTINATION_LENGTH \<and> time_ok t \<and> n < 2 ^ 32)
     \<and> hm_wf (local_deliveries r) \<and> (\<forall>(i, t) \<in> set (local_deliveries r). length i = 32 \<and> f64_lt 0 t)
     \<and> hm_wf (locally_processed r) \<and> (\<forall>(i, t) \<in> set (locally_processed r). length i = 32 \<and> f64_lt 0 t)
     \<and> list_all (reads_back (e_codec E)) [tickets_value (snapshot_tickets (lr_tickets r)), stamp_costs_to_value (outbound_stamp_costs r),
         transient_cache_to_value (local_deliveries r), transient_cache_to_value (locally_processed r)]"

lemma read_written: "reads_back (e_codec E) v \<Longrightarrow> fs_wf fs \<Longrightarrow> fst p \<in> set (fs_dirs fs) \<Longrightarrow>
    read_file_value E p (write_encoded p (write_value (e_codec E) v) fs) = Some v"
  by (auto elim!: reads_backE simp: read_file_value_def write_encoded_def)

lemma read_elsewhere: "fs_wf fs \<Longrightarrow> p \<noteq> q \<Longrightarrow> fs_read p (write_encoded q x fs) = fs_read p fs"
  "fs_wf fs \<Longrightarrow> p \<noteq> q \<Longrightarrow> read_file_value E p (write_encoded q x fs) = read_file_value E p fs"
  by (auto simp: read_file_value_def write_encoded_def split: sum.split)

lemma read_fresh [simp]: "read_file_value E p (file_store_new fs) = read_file_value E p fs"
  by (simp add: read_file_value_def)

lemmas root_paths = available_tickets_path_def outbound_stamp_costs_path_def local_deliveries_path_def locally_processed_path_def

definition persist_all :: "env \<Rightarrow> 's lxmf_router \<Rightarrow> file_system \<Rightarrow> file_system" where
  "persist_all E r fs = save_local_caches E r (persist_outbound_stamp_costs E r (persist_ticket_store E r fs))"

lemma persisted_tickets:
  assumes "router_storable E r" and "fs_wf fs"
  shows "fs_wf (persist_ticket_store E r fs)" and "'''' \<in> set (fs_dirs (persist_ticket_store E r fs))"
    and "\<exists>b. fs_read available_tickets_path (persist_ticket_store E r fs) = Some b \<and> load_available_tickets (e_codec E) b = snapshot_tickets (lr_tickets r)"
proof -
  from assms(1) have w: "tickets_wf (lr_tickets r)" "reads_back (e_codec E) (tickets_value (snapshot_tickets (lr_tickets r)))" by (simp_all add: router_storable_def)
  from w(2) obtain b where b: "write_value (e_codec E) (tickets_value (snapshot_tickets (lr_tickets r))) = Inr b"
      "read_value (e_codec E) b = Inr (tickets_value (snapshot_tickets (lr_tickets r)))" by (rule reads_backE)
  then have s: "persist_ticket_store E r fs = fs_write available_tickets_path b (file_store_new fs)"
    by (simp add: persist_ticket_store_def file_save_tickets_def save_available_tickets_def tickets_value_def)
  show "fs_wf (persist_ticket_store E r fs)" "'''' \<in> set (fs_dirs (persist_ticket_store E r fs))" using assms(2) by (simp_all add: s)
  show "\<exists>b. fs_read available_tickets_path (persist_ticket_store E r fs) = Some b \<and> load_available_tickets (e_codec E) b = snapshot_tickets (lr_tickets r)"
    using assms(2) snapshot_loads[OF w(1) b(2)] by (simp add: s available_tickets_path_def)
qed

lemma persisted_reads:
  assumes "router_storable E r" and "fs_wf fs"
  shows "file_load_tickets E (persist_all E r fs) = snapshot_tickets (lr_tickets r)"
    and "load_outbound_stamp_costs E (persist_all E r fs) = outbound_stamp_costs r"
    and "load_transient_cache E local_deliveries_path (persist_all E r fs) = local_deliveries r"
    and "load_transient_cache E locally_processed_path (persist_all E r fs) = locally_processed r"
proof -
  note t = persisted_tickets[OF assms]
  note defs = persist_all_def save_local_caches_def save_local_deliveries_def save_locally_processed_def persist_outbound_stamp_costs_def save_outbound_stamp_costs_def
  show "file_load_tickets E (persist_all E r fs) = snapshot_tickets (lr_tickets r)"
    using t by (auto simp: defs file_load_tickets_def read_elsewhere root_paths)
  have "stamp_costs_from_value (stamp_costs_to_value (outbound_stamp_costs r)) = outbound_stamp_costs r"
    unfolding stamp_costs_from_value_def stamp_costs_to_value_def using assms(1) by (intro costs.map_roundtrip) (auto simp: router_storable_def)
  moreover have "reads_back (e_codec E) (stamp_costs_to_value (outbound_stamp_costs r))" using assms(1) by (simp add: router_storable_def)
  ultimately show "load_outbound_stamp_costs E (persist_all E r fs) = outbound_stamp_costs r"
    using t by (simp add: defs load_outbound_stamp_costs_def read_elsewhere read_written root_paths)
  have c: "transient_cache_from_value (transient_cache_to_value m) = m" if "hm_wf m" "\<forall>(i, t) \<in> set m. length i = 32 \<and> f64_lt 0 t" for m
    unfolding transient_cache_from_value_def transient_cache_to_value_def using that by (rule cache.map_roundtrip)
  from assms(1) show "load_transient_cache E local_deliveries_path (persist_all E r fs) = local_deliveries r"
    using t by (simp add: defs load_transient_cache_def read_elsewhere read_written root_paths c router_storable_def)
  from assms(1) show "load_transient_cache E locally_processed_path (persist_all E r fs) = locally_processed r"
    using t by (simp add: defs load_transient_cache_def read_elsewhere read_written root_paths c router_storable_def)
qed

lemma loads_fresh [simp]: "file_load_tickets E (file_store_new fs) = file_load_tickets E fs" "load_outbound_stamp_costs E (file_store_new fs) = load_outbound_stamp_costs E fs"
  "load_transient_cache E p (file_store_new fs) = load_transient_cache E p fs"
  by (simp_all add: file_load_tickets_def load_outbound_stamp_costs_def load_transient_cache_def)

lemma clean_loaded_fields:
  "lr_tickets (fst (clean_loaded E now r fs)) = clean_expired now (lr_tickets r)"
  "outbound_stamp_costs (fst (clean_loaded E now r fs)) = outbound_stamp_costs (snd (clean_outbound_stamp_costs now r))"
  "local_deliveries (fst (clean_loaded E now r fs)) = snd (clean_transient_cache (now_s now) (local_deliveries r))"
  "locally_processed (fst (clean_loaded E now r fs)) = snd (clean_transient_cache (now_s now) (locally_processed r))"
  by (simp_all add: clean_loaded_def clean_tickets_def clean_outbound_stamp_costs_def clean_transient_id_caches_def clean_propagation_store_def
      case_prod_beta Let_def)

text \<open>C21. A router that is started on its files takes up where it stopped: its tickets, the stamp costs it learned and its caches of delivered and
  processed messages are those of the router that wrote them, less the tickets, costs and ids that have expired at the time of the start.\<close>

theorem restart_restores:
  assumes "router_storable E r" and "hm_wf (fs_files fs)"
    and "(r', fs') = with_store_and_root E ident started now router c (persist_all E r fs)"
  shows "lr_tickets r' = clean_expired now (lr_tickets r)
    \<and> outbound_stamp_costs r' = outbound_stamp_costs (snd (clean_outbound_stamp_costs now r))
    \<and> local_deliveries r' = snd (clean_transient_cache (now_s now) (local_deliveries r))
    \<and> locally_processed r' = snd (clean_transient_cache (now_s now) (locally_processed r))"
proof -
  obtain r1 fs1 where l: "load_from_root E (facade_with_config ident started router c) (file_store_new (persist_all E r fs)) = (r1, fs1)" by fastforce
  with assms(3) have r': "r' = fst (clean_loaded E now r1 fs1)" by (simp add: with_store_and_root_def) (metis fst_conv)
  have "fs_wf fs" using assms(2) by (simp add: fs_wf_def)
  note reads = persisted_reads[OF assms(1) this]
  have "hm_wf (tk_outbound (lr_tickets r))" using assms(1) by (simp add: router_storable_def tickets_wf_def)
  with l reads have "lr_tickets r1 = lr_tickets r" "outbound_stamp_costs r1 = outbound_stamp_costs r"
      "local_deliveries r1 = local_deliveries r" "locally_processed r1 = locally_processed r"
    by (auto simp: load_from_root_def case_prod_beta Let_def ticket_store_saved)
  then show ?thesis by (simp add: r' clean_loaded_fields clean_outbound_stamp_costs_def Let_def)
qed

lemma sample_tickets_stored: "tickets_wf sample_tickets" "reads_back ref_codec (tickets_value (snapshot_tickets sample_tickets))"
proof -
  have "time_ok x" if "x \<in> {3, 5, 7, 9}" for x
    using that by (auto simp: time_ok_def f64_lt_def f64_key_def Let_def)
  then show "tickets_wf sample_tickets"
    by (simp add: tickets_wf_def sample_tickets_def hm_wf_def given_ok_def)
  have "hm_wf (tk_outbound sample_tickets)" by (simp add: sample_tickets_def hm_wf_def)
  note out = snapshot_outbound[OF this]
  show "reads_back ref_codec (tickets_value (snapshot_tickets sample_tickets))"
    by (rule ref_codec_reads_back)
      (simp add: tickets_value_def tickets_outbound_to_value_def tickets_inbound_to_value_def tickets_last_deliveries_to_value_def
        map_value_def out given_to_value_def ticket_pair_to_value_def key_def str_bytes_def,
       simp add: snapshot_tickets_def sample_tickets_def map_value_def given_to_value_def)
qed

definition stored_router :: "in_memory_store lxmf_router" where
  "stored_router = (facade_with_config [] 0 (router_with sample_outbound retry_default mem_new) runtime_config_default)
     \<lparr>lr_tickets := sample_tickets, outbound_stamp_costs := [(replicate 16 1, 5, 8)], local_deliveries := [(replicate 32 1, 0x3FF0000000000000)], locally_processed := []\<rparr>"

lemma stored_router_storable: "router_storable sample_env stored_router"
proof -
  have "time_ok 5" by (simp add: time_ok_def f64_lt_def f64_key_def Let_def)
  moreover have "f64_lt 0 0x3FF0000000000000" using shown_one by (simp add: shown_def view_one)
  moreover have "reads_back ref_codec (stamp_costs_to_value (outbound_stamp_costs stored_router))" "reads_back ref_codec (transient_cache_to_value (local_deliveries stored_router))"
      "reads_back ref_codec (transient_cache_to_value (locally_processed stored_router))"
    by (intro ref_codec_reads_back; simp add: stored_router_def stamp_costs_to_value_def transient_cache_to_value_def map_value_def cost_to_value_def)+
  ultimately show ?thesis using sample_tickets_stored
    by (simp add: router_storable_def stored_router_def sample_env_def hm_wf_def DESTINATION_LENGTH_def)
qed

theorem restart_restores_witness:
  "lr_tickets (fst (with_store_and_root sample_env [] 0 0 (router_with sample_outbound retry_default mem_new) runtime_config_default
      (persist_all sample_env stored_router \<lparr>fs_dirs = [], fs_files = []\<rparr>))) = clean_expired 0 sample_tickets"
  using restart_restores[OF stored_router_storable, of "\<lparr>fs_dirs = [], fs_files = []\<rparr>", OF _ prod.collapse[of "with_store_and_root sample_env [] 0 0
      (router_with sample_outbound retry_default mem_new) runtime_config_default (persist_all sample_env stored_router \<lparr>fs_dirs = [], fs_files = []\<rparr>)"]]
  by (simp add: hm_wf_def) (simp add: stored_router_def)
end
