(* ===== verification/Daemon.thy ===== *)
theory Daemon
  imports Node Node_Router_Facts File_Store
begin

section \<open>The daemon (lxmd-rs/src/main.rs, config.rs)\<close>

text \<open>
  \<open>lxmd\<close> builds a router on its files and a node, configures both and then works in rounds: it ticks the router, sends what is
  due, takes in what the node received, and answers. The file with the configuration is parsed by other crates, so the
  model starts with its values; texts are ASCII. \<open>None\<close> is a panic. The encryptor of the router's deliveries is an argument;
  that of the source panics, as \<open>Node_Router_Facts\<close> shows for the node.
\<close>

subsection \<open>Configuration\<close>

record lxmf_config =
  lc_display_name :: "string option"
  lc_announce_at_start :: "bool option"
  lc_announce_interval :: "nat option"
  lc_delivery_transfer_max_accepted_size :: "f64 option"
  lc_on_inbound :: "string option"

record propagation_config =
  pc_enable_node :: "bool option"
  pc_node_name :: "string option"
  pc_auth_required :: "bool option"
  pc_announce_at_start :: "bool option"
  pc_autopeer :: "bool option"
  pc_autopeer_maxdepth :: "nat option"
  pc_announce_interval :: "nat option"
  pc_message_storage_limit :: "f64 option"
  pc_propagation_transfer_max_accepted_size :: "f64 option"
  pc_propagation_message_max_accepted_size :: "f64 option"
  pc_propagation_sync_max_accepted_size :: "f64 option"
  pc_propagation_stamp_cost_target :: "nat option"
  pc_propagation_stamp_cost_flexibility :: "nat option"
  pc_peering_cost :: "nat option"
  pc_remote_peering_cost_max :: "nat option"
  pc_prioritise_destinations :: "string list option"
  pc_control_allowed :: "string list option"
  pc_static_peers :: "string list option"
  pc_max_peers :: "nat option"
  pc_from_static_only :: "bool option"

record daemon_config =
  dc_storage_path :: "string option"
  dc_identity_path :: "string option"
  dc_inbound_dir :: "string option"
  dc_bind_addr :: "string option"
  dc_forward_addr :: "string option"
  dc_node_name :: "string option"
  dc_tick_interval_ms :: "nat option"
  dc_lxmf :: "lxmf_config option"
  dc_propagation :: "propagation_config option"
  dc_loglevel :: "byte option"

record daemon_args =
  da_propagation_node :: bool
  da_verbose :: byte
  da_quiet :: byte

definition MIN_TRANSFER_LIMIT_KB :: f64 where "MIN_TRANSFER_LIMIT_KB = with_sign False (f64_round 38 100)"
definition MIN_MESSAGE_STORE_MB :: f64 where "MIN_MESSAGE_STORE_MB = with_sign False (f64_round 5 1000)"

text \<open>The level is cast from \<open>i32\<close> to \<open>u8\<close>.\<close>

definition effective_log_level :: "daemon_config \<Rightarrow> daemon_args \<Rightarrow> byte" where
  "effective_log_level c a = word_of_int (max 0 (uint (or_else (dc_loglevel c) 3) + uint (da_verbose a) - uint (da_quiet a)))"

datatype level_filter = LevelError | LevelWarn | LevelInfo | LevelDebug | LevelTrace

definition init_logging :: "byte \<Rightarrow> level_filter" where
  "init_logging l = (if l = 0 then LevelError else if l = 1 then LevelWarn else if l = 2 then LevelInfo else if l = 3 then LevelDebug else LevelTrace)"

text \<open>Addresses in hexadecimal; what is too short is skipped.\<close>

fun parse_hashes :: "string list \<Rightarrow> bytes list option" where
  "parse_hashes [] = Some []"
| "parse_hashes (x # xs) =
     (case new_from_hex_string x of
        None \<Rightarrow> None
      | Some (Inl _) \<Rightarrow> parse_hashes xs
      | Some (Inr a) \<Rightarrow> map_option ((#) a) (parse_hashes xs))"

definition parse_hash_list :: "string list option \<Rightarrow> bytes list option" where
  "parse_hash_list l = (case l of None \<Rightarrow> Some [] | Some xs \<Rightarrow> parse_hashes xs)"

definition parse_destination_bytes :: "string \<Rightarrow> (ret_error + bytes) option" where
  "parse_destination_bytes hex = new_from_hex_string hex"

text \<open>\<open>str::lines\<close> and \<open>str::trim\<close>.\<close>

definition is_space :: "char \<Rightarrow> bool" where
  "is_space c = (let n = of_char c :: nat in n = 32 \<or> 9 \<le> n \<and> n \<le> 13)"

definition trim :: "string \<Rightarrow> string" where
  "trim s = rev (dropWhile is_space (rev (dropWhile is_space s)))"

definition text_lines :: "string \<Rightarrow> string list" where
  "text_lines s =
     (let ls = split_char (CHR 0x0A) s; ls' = (if last ls = [] then butlast ls else ls) in
      map (\<lambda>l. if l \<noteq> [] \<and> last l = CHR 0x0D then butlast l else l) ls')"

definition read_hash_file :: "string option \<Rightarrow> bytes list option" where
  "read_hash_file f =
     (case f of
        None \<Rightarrow> Some []
      | Some d \<Rightarrow> parse_hashes (filter (\<lambda>t. t \<noteq> [] \<and> hd t \<noteq> CHR ''#'') (map trim (text_lines d))))"

text \<open>The identity is read from its file, or made and written there.\<close>

definition load_or_create_identity :: "prims \<Rightarrow> bytes \<Rightarrow> bytes \<Rightarrow> string option \<Rightarrow> ((ret_error + private_identity) \<times> string option) option" where
  "load_or_create_identity P secret sign_key f =
     (case f of
        Some d \<Rightarrow> map_option (\<lambda>i. (i, f)) (private_new_from_hex_string P (trim d))
      | None \<Rightarrow> (let i = private_new P secret sign_key in Some (Inr i, Some (private_to_hex_string i))))"

definition propagation_limits :: "propagation_config option \<Rightarrow> f64 \<times> f64" where
  "propagation_limits pc =
     (let message = Option.bind pc pc_propagation_message_max_accepted_size; transfer = Option.bind pc pc_propagation_transfer_max_accepted_size in
      (f64_max (or_else (case message of Some x \<Rightarrow> Some x | None \<Rightarrow> transfer) (u64_to_f64 256)) MIN_TRANSFER_LIMIT_KB,
       f64_max (or_else (Option.bind pc pc_propagation_sync_max_accepted_size) (f64_mul (u64_to_f64 256) (u64_to_f64 40))) MIN_TRANSFER_LIMIT_KB))"

definition apply_limits :: "daemon_config \<Rightarrow> 's lxmf_router \<Rightarrow> 's lxmf_router" where
  "apply_limits c r =
     (let delivery = f64_max (or_else (Option.bind (dc_lxmf c) lc_delivery_transfer_max_accepted_size) (u64_to_f64 1000)) MIN_TRANSFER_LIMIT_KB;
          (propagation, sync) = propagation_limits (dc_propagation c);
          storage = f64_max (or_else (Option.bind (dc_propagation c) pc_message_storage_limit) (u64_to_f64 500)) MIN_MESSAGE_STORE_MB in
      set_message_storage_limit (Some (f64_as_u64 (f64_mul storage (u64_to_f64 1000)))) None None
        (set_transfer_limits_kb delivery propagation sync r))"

definition apply_propagation :: "propagation_config \<Rightarrow> 's lxmf_router \<Rightarrow> 's lxmf_router option" where
  "apply_propagation pc r =
     (let own = lr_identity_hash r;
          r1 = r\<lparr>lr_propagation_validation := Some \<lparr>prv_stamp_cost = or_else (pc_propagation_stamp_cost_target pc) 16,
                   prv_stamp_cost_flex = or_else (pc_propagation_stamp_cost_flexibility pc) 3\<rparr>,
                 lr_peering_validation := Some \<lparr>pv_local_identity_hash = own, pv_target_cost = or_else (pc_peering_cost pc) 18\<rparr>,
                 max_peering_cost := or_else (pc_remote_peering_cost_max pc) 26, autopeer_maxdepth := pc_autopeer_maxdepth pc,
                 max_peers := pc_max_peers pc, from_static_only := or_else (pc_from_static_only pc) False,
                 auth_required := or_else (pc_auth_required pc) False\<rparr> in
      case (parse_hash_list (pc_static_peers pc), parse_hash_list (pc_control_allowed pc), parse_hash_list (pc_prioritise_destinations pc)) of
        (Some peers, Some allowed, Some prioritised) \<Rightarrow>
          Some (r1\<lparr>static_peers := (if peers = [] then static_peers r1 else set peers), control_allowed := set allowed \<union> {own},
                   propagation_prioritised := propagation_prioritised r1 \<union> set prioritised\<rparr>)
      | _ \<Rightarrow> None)"

definition apply_router_config :: "daemon_config \<Rightarrow> nat \<Rightarrow> 's lxmf_router \<Rightarrow> 's lxmf_router option" where
  "apply_router_config c now r =
     map_option (enable_propagation_node (or_else (Option.bind (dc_propagation c) pc_enable_node) False) now)
       (case dc_propagation c of None \<Rightarrow> Some (apply_limits c r) | Some pc \<Rightarrow> apply_propagation pc (apply_limits c r))"

subsection \<open>Start\<close>

definition build_router :: "env \<Rightarrow> prims \<Rightarrow> (failure \<Rightarrow> bytes) \<Rightarrow> encrypt_hook \<Rightarrow> private_identity \<Rightarrow> daemon_config \<Rightarrow> nat \<Rightarrow> file_system \<Rightarrow>
    file_system lxmf_router option" where
  "build_router E P t enc i c now fs =
     apply_router_config c now
       (facade_with_config (idt_address_hash (pid_identity i)) now
          (with_store (file_ops E t) (outbound_new P i (pid_identity i) enc) (file_store_new fs)) runtime_config_default)"

record daemon =
  dm_router :: "file_system lxmf_router"
  dm_node :: rns_node_router
  dm_messages :: "(string, bytes) hmap"

definition daemon_start :: "env \<Rightarrow> prims \<Rightarrow> (failure \<Rightarrow> bytes) \<Rightarrow> encrypt_hook \<Rightarrow> private_identity \<Rightarrow> daemon_config \<Rightarrow> daemon_args \<Rightarrow>
    string option \<Rightarrow> string option \<Rightarrow> nat \<Rightarrow> nat \<Rightarrow> file_system \<Rightarrow> daemon option" where
  "daemon_start E P t enc i c a ignored allowed built now fs =
     (let name = (case dc_node_name c of Some n \<Rightarrow> n | None \<Rightarrow> or_else (Option.bind (dc_propagation c) pc_node_name) ''lxmd-rs'') in
      case build_router E P t enc i c built fs of
        None \<Rightarrow> None
      | Some r \<Rightarrow>
         (let r1 = enable_propagation_node (da_propagation_node a \<or> or_else (Option.bind (dc_propagation c) pc_enable_node) False) now r in
          case read_hash_file ignored of
            None \<Rightarrow> None
          | Some ig \<Rightarrow>
             (let r2 = r1\<lparr>ignored_destinations := ignored_destinations r1 \<union> set ig\<rparr>;
                  d = \<lparr>dm_router = r2, dm_node = new_udp P name i, dm_messages = []\<rparr> in
              if \<not> auth_required r2 then Some d
              else (case read_hash_file allowed of
                      None \<Rightarrow> None
                    | Some al \<Rightarrow> Some (d\<lparr>dm_router := (if al = [] then r2 else r2\<lparr>allowed_identities := set al\<rparr>)\<rparr>)))))"

text \<open>The commands \<open>--sync\<close> and \<open>--break\<close> without a remote node.\<close>

definition local_sync :: "env \<Rightarrow> prims \<Rightarrow> (failure \<Rightarrow> bytes) \<Rightarrow> encrypt_hook \<Rightarrow> private_identity \<Rightarrow> daemon_config \<Rightarrow> string \<Rightarrow> nat \<Rightarrow> file_system \<Rightarrow>
    (ret_error + bool) option" where
  "local_sync E P t enc i c target now fs =
     (case parse_destination_bytes target of
        None \<Rightarrow> None
      | Some (Inl e) \<Rightarrow> Some (Inl e)
      | Some (Inr b) \<Rightarrow> map_option (\<lambda>r. Inr (fst (request_peer_sync b now r))) (build_router E P t enc i c now fs))"

definition local_unpeer :: "env \<Rightarrow> prims \<Rightarrow> (failure \<Rightarrow> bytes) \<Rightarrow> encrypt_hook \<Rightarrow> private_identity \<Rightarrow> daemon_config \<Rightarrow> string \<Rightarrow> nat \<Rightarrow> file_system \<Rightarrow>
    (ret_error + bool) option" where
  "local_unpeer E P t enc i c target now fs =
     (case parse_destination_bytes target of
        None \<Rightarrow> None
      | Some (Inl e) \<Rightarrow> Some (Inl e)
      | Some (Inr b) \<Rightarrow> map_option (\<lambda>r. Inr (fst (unpeer b r))) (build_router E P t enc i c now fs))"

subsection \<open>A round\<close>

text \<open>What the surroundings give to a round: the lock, the clocks, the vectors for encryption (of the \<open>k\<close>-th sending, for
  retries, for actions) and the link events that arrived.\<close>

record round =
  rd_lock_free :: bool
  rd_now_ms :: nat
  rd_time :: nat
  rd_iv :: "nat \<Rightarrow> nat \<Rightarrow> bytes \<Rightarrow> bytes"
  rd_retry_iv :: "bytes \<Rightarrow> nat \<Rightarrow> bytes \<Rightarrow> bytes"
  rd_action_iv :: "nat \<Rightarrow> bytes \<Rightarrow> bytes"
  rd_in_events :: "link_signal_data list"
  rd_out_events :: "link_signal_data list"

fun dispatch_deliveries :: "prims \<Rightarrow> nat \<Rightarrow> (nat \<Rightarrow> nat \<Rightarrow> bytes \<Rightarrow> bytes) \<Rightarrow> nat \<Rightarrow> queued_delivery list \<Rightarrow> rns_node_router \<Rightarrow>
    (nat \<times> rns_node_router \<times> tp_output list) option" where
  "dispatch_deliveries P t iv k [] r = Some (0, r, [])"
| "dispatch_deliveries P t iv k (d # ds) r =
     (case (case qd_delivery d of
              OutPacket p \<Rightarrow> (let (r1, o1) = node_send_packet P t p r in Some (Inr (), r1, o1))
            | OutResource dest _ x \<Rightarrow> send_resource_payload P t (iv k) dest x r
            | OutPaperUri _ \<Rightarrow> Some (Inr (), r, [])) of
        None \<Rightarrow> None
      | Some (res, r1, o1) \<Rightarrow>
          map_option (\<lambda>(n, r2, o2). (if isl res then n else sat_add64 n 1, r2, o1 @ o2)) (dispatch_deliveries P t iv (Suc k) ds r1))"

fun send_requests :: "env \<Rightarrow> prims \<Rightarrow> nat \<Rightarrow> (nat \<Rightarrow> nat \<Rightarrow> bytes \<Rightarrow> bytes) \<Rightarrow> nat \<Rightarrow> (bytes \<times> rns_request) list \<Rightarrow> rns_node_router \<Rightarrow>
    (rns_node_router \<times> tp_output list) option" where
  "send_requests E P t iv k [] r = Some (r, [])"
| "send_requests E P t iv k ((pid, req) # xs) r =
     (case send_request_to_hash E P t (iv k) pid req r of
        None \<Rightarrow> None
      | Some (_, _, r1, o1) \<Rightarrow> map_option (\<lambda>(r2, o2). (r2, o1 @ o2)) (send_requests E P t iv (Suc k) xs r1))"

fun send_responses :: "env \<Rightarrow> prims \<Rightarrow> nat \<Rightarrow> (nat \<Rightarrow> nat \<Rightarrow> bytes \<Rightarrow> bytes) \<Rightarrow> nat \<Rightarrow> (bytes \<times> rns_response) list \<Rightarrow> rns_node_router \<Rightarrow>
    (rns_node_router \<times> tp_output list) option" where
  "send_responses E P t iv k [] r = Some (r, [])"
| "send_responses E P t iv k ((pid, rsp) # xs) r =
     (case send_response_to_hash E P t (iv k) pid rsp r of
        None \<Rightarrow> None
      | Some (_, r1, o1) \<Rightarrow> map_option (\<lambda>(r2, o2). (r2, o1 @ o2)) (send_responses E P t iv (Suc k) xs r1))"

definition receive_inbound :: "received \<Rightarrow> 's lxmf_router \<Rightarrow> 's lxmf_router" where
  "receive_inbound x r = r\<lparr>lr_runtime := (lr_runtime r)\<lparr>rt_router := (rt_router (lr_runtime r))\<lparr>inbound := facade_inbound r @ [x]\<rparr>\<rparr>\<rparr>"

definition write_inbound_message :: "env \<Rightarrow> nat \<Rightarrow> lxmessage \<Rightarrow> (string, bytes) hmap \<Rightarrow> (string, bytes) hmap" where
  "write_inbound_message E now m files =
     (let name = (case message_id m of Some i \<Rightarrow> to_hex_string i | None \<Rightarrow> ''lxm-'' @ show_nat now) in
      case encode_with_signature (e_codec E) m of Inl _ \<Rightarrow> files | Inr b \<Rightarrow> hm_insert (name @ ''.lxm'') b files)"

definition daemon_round :: "env \<Rightarrow> prims \<Rightarrow> rmp \<Rightarrow> (failure \<Rightarrow> bytes) \<Rightarrow> round \<Rightarrow> daemon \<Rightarrow> (daemon \<times> tp_output list) option" where
  "daemon_round E P c t rd d =
     (let now = rd_now_ms rd; tm = rd_time rd; iv = rd_iv rd;
          (tk, r1) = facade_tick E (file_ops E t) (rd_lock_free rd) now (dm_router d) in
      case dispatch_peer_sync_requests E (peer_sync_requests tk) now r1 of
        None \<Rightarrow> None
      | Some (reqs, r2) \<Rightarrow>
     (case dispatch_deliveries P tm iv 0 (deliveries tk) (dm_node d) of
        None \<Rightarrow> None
      | Some (_, n1, o1) \<Rightarrow>
     (let k1 = length (deliveries tk) in
      case send_requests E P tm iv k1 (map (\<lambda>(q, pid). (pid, q)) reqs) n1 of
        None \<Rightarrow> None
      | Some (n2, o2) \<Rightarrow>
     (case poll_inbound E P c tm (rd_retry_iv rd) (rd_action_iv rd) (rd_in_events rd) (rd_out_events rd) n2 of
        None \<Rightarrow> None
      | Some (got, n3, o3) \<Rightarrow>
     (case process_inbound_queue E now False (fold receive_inbound got r2) of
        None \<Rightarrow> None
      | Some (ms, r3) \<Rightarrow>
     (let k2 = k1 + length reqs; answers = filter (\<lambda>(pid, _). \<exists>b \<in> set pid. b \<noteq> 0) (control_responses r3) in
      case send_responses E P tm iv k2 answers n3 of
        None \<Rightarrow> None
      | Some (n4, o4) \<Rightarrow>
     (let k3 = k2 + length answers in
      case send_responses E P tm iv k3 (peer_sync_responses r3) n4 of
        None \<Rightarrow> None
      | Some (n5, o5) \<Rightarrow>
     (case send_requests E P tm iv (k3 + length (peer_sync_responses r3)) (peer_sync_outbound r3) n5 of
        None \<Rightarrow> None
      | Some (n6, o6) \<Rightarrow>
          Some (\<lparr>dm_router = r3\<lparr>control_responses := [], peer_sync_responses := [], peer_sync_outbound := []\<rparr>, dm_node = n6,
                  dm_messages = fold (write_inbound_message E now) ms (dm_messages d)\<rparr>, o1 @ o2 @ o3 @ o4 @ o5 @ o6)))))))))"

subsection \<open>Control of a remote node\<close>

text \<open>The request is sent with a receipt, and the node is polled until the receipt is settled or the time is over. Between
  two tries the task of the transport runs: a poll finds the transport in the state \<open>pl_net\<close>. \<open>pl_after\<close> is the clock after the poll.
  An outcome is \<open>Waiting\<close> when the tries run out.\<close>

record poll =
  pl_time :: nat
  pl_after :: nat
  pl_net :: transport_handler
  pl_retry_iv :: "bytes \<Rightarrow> nat \<Rightarrow> bytes \<Rightarrow> bytes"
  pl_action_iv :: "nat \<Rightarrow> bytes \<Rightarrow> bytes"
  pl_in_events :: "link_signal_data list"
  pl_out_events :: "link_signal_data list"

datatype control_outcome =
    Answer mval | BadAddress ret_error | NotSent rns_error | EmptyResponse | BadResponse rns_error | RemoteFailed | RemoteTimedOut | Waiting

fun await_receipt :: "env \<Rightarrow> prims \<Rightarrow> rmp \<Rightarrow> nat \<Rightarrow> nat \<Rightarrow> nat \<Rightarrow> poll list \<Rightarrow> rns_node_router \<Rightarrow> control_outcome option" where
  "await_receipt E P c h start timeout [] r = Some Waiting"
| "await_receipt E P c h start timeout (x # xs) r =
     (case poll_inbound E P c (pl_time x) (pl_retry_iv x) (pl_action_iv x) (pl_in_events x) (pl_out_events x) (r\<lparr>nr_transport := pl_net x\<rparr>) of
        None \<Rightarrow> None
      | Some (_, r1, _) \<Rightarrow>
         (let rc = rt_receipts (nr_requests r1) ! h in
          case request_receipt.rr_status rc of
            RReady \<Rightarrow> Some (case rr_response rc of
                None \<Rightarrow> EmptyResponse
              | Some b \<Rightarrow> (case decode_response_bytes E b of Inl e \<Rightarrow> BadResponse e | Inr rsp \<Rightarrow> Answer (rsp_data rsp)))
          | RFailed \<Rightarrow> Some RemoteFailed
          | _ \<Rightarrow> if timeout \<le> pl_after x - start then Some RemoteTimedOut else await_receipt E P c h start timeout xs r1))"

definition remote_control_request :: "env \<Rightarrow> prims \<Rightarrow> rmp \<Rightarrow> private_identity \<Rightarrow> string \<Rightarrow> string \<Rightarrow> mval \<Rightarrow> nat \<Rightarrow> nat \<Rightarrow> nat \<Rightarrow>
    (nat \<Rightarrow> bytes \<Rightarrow> bytes) \<Rightarrow> poll list \<Rightarrow> control_outcome option" where
  "remote_control_request E P c i remote path data timeout now start iv tries =
     (case parse_destination_bytes remote of
        None \<Rightarrow> None
      | Some (Inl e) \<Rightarrow> Some (BadAddress e)
      | Some (Inr dest) \<Rightarrow>
         (case rm_register_request E dest (Some (str_bytes path)) data now 5000 rm_new of
            None \<Rightarrow> None
          | Some (Inl e, _) \<Rightarrow> Some (NotSent e)
          | Some (Inr req, _) \<Rightarrow>
             (case send_request_with_receipt_to_hash E P start iv dest req timeout (new_udp P ''lxmd-remote'' i) of
                None \<Rightarrow> None
              | Some (Inl e, _, _, _) \<Rightarrow> Some (NotSent e)
              | Some (Inr h, _, r, _) \<Rightarrow> await_receipt E P c h start timeout tries r)))"

definition remote_stats :: "env \<Rightarrow> prims \<Rightarrow> rmp \<Rightarrow> private_identity \<Rightarrow> string \<Rightarrow> nat \<Rightarrow> nat \<Rightarrow> nat \<Rightarrow>
    (nat \<Rightarrow> bytes \<Rightarrow> bytes) \<Rightarrow> poll list \<Rightarrow> control_outcome option" where
  "remote_stats E P c i remote timeout now start iv tries =
     remote_control_request E P c i remote CONTROL_STATS_PATH MNil timeout now start iv tries"

definition remote_peer_control :: "env \<Rightarrow> prims \<Rightarrow> rmp \<Rightarrow> private_identity \<Rightarrow> string \<Rightarrow> string \<Rightarrow> string \<Rightarrow> nat \<Rightarrow> nat \<Rightarrow> nat \<Rightarrow>
    (nat \<Rightarrow> bytes \<Rightarrow> bytes) \<Rightarrow> poll list \<Rightarrow> control_outcome option" where
  "remote_peer_control E P c i remote path peer_hex timeout now start iv tries =
     (case parse_destination_bytes peer_hex of
        None \<Rightarrow> None
      | Some (Inl e) \<Rightarrow> Some (BadAddress e)
      | Some (Inr target) \<Rightarrow> remote_control_request E P c i remote path (MBin target) timeout now start iv tries)"

end
