(* ===== verification/Daemon_Facts.thy ===== *)
theory Daemon_Facts
  imports Daemon File_Facts
begin

section \<open>Facts about the daemon\<close>

text \<open>
  The daemon is a composition of the router and the node: each round is a sequence of their steps, so their invariants hold in every
  state that a daemon reaches. After a round nothing waits for an answer. Commands to a remote node end. What is left of the files
  after a restart is the queue.
\<close>

subsection \<open>Rounds are steps of the router and of the node\<close>

lemma dispatch_deliveries_steps: "dispatch_deliveries P t iv k ds r = Some (n, r', evs) \<Longrightarrow> (nr_step E P c)\<^sup>*\<^sup>* r r'"
proof (induction P t iv k ds r arbitrary: n r' evs rule: dispatch_deliveries.induct)
  case (2 P t iv k d ds r)
  then obtain res r1 o1 where one: "(case qd_delivery d of
      OutPacket p \<Rightarrow> (let (r1, o1) = node_send_packet P t p r in Some (Inr (), r1, o1))
    | OutResource dest _ x \<Rightarrow> send_resource_payload P t (iv k) dest x r
    | OutPaperUri _ \<Rightarrow> Some (Inr (), r, [])) = Some (res, r1, o1)" by (auto split: option.splits)
  with "2.prems" obtain m o2 where rest: "dispatch_deliveries P t iv (Suc k) ds r1 = Some (m, r', o2)" by auto
  have "(nr_step E P c)\<^sup>*\<^sup>* r r1" using one
    by (auto simp: send_resource_payload_def split: delivery_output.splits prod.splits intro: nr_step.packet nr_step.resource)
  with "2.IH"[OF one refl refl rest] show ?case by simp
qed simp

lemma send_requests_steps: "send_requests E P t iv k xs r = Some (r', evs) \<Longrightarrow> (nr_step E P c)\<^sup>*\<^sup>* r r'"
proof (induction E P t iv k xs r arbitrary: r' evs rule: send_requests.induct)
  case (2 E P t iv k pid req xs r)
  then obtain res q r1 o1 where one: "send_request_to_hash E P t (iv k) pid req r = Some (res, q, r1, o1)" by (auto split: option.splits)
  with "2.prems" obtain o2 where rest: "send_requests E P t iv (Suc k) xs r1 = Some (r', o2)" by auto
  from nr_step.request[OF one] "2.IH"[OF one refl refl refl rest] show ?case by (rule converse_rtranclp_into_rtranclp)
qed simp

lemma send_responses_steps: "send_responses E P t iv k xs r = Some (r', evs) \<Longrightarrow> (nr_step E P c)\<^sup>*\<^sup>* r r'"
proof (induction E P t iv k xs r arbitrary: r' evs rule: send_responses.induct)
  case (2 E P t iv k pid rsp xs r)
  then obtain res r1 o1 where one: "send_response_to_hash E P t (iv k) pid rsp r = Some (res, r1, o1)" by (auto split: option.splits)
  with "2.prems" obtain o2 where rest: "send_responses E P t iv (Suc k) xs r1 = Some (r', o2)" by auto
  from nr_step.response[OF one] "2.IH"[OF one refl refl rest] show ?case by (rule converse_rtranclp_into_rtranclp)
qed simp

lemma receive_all_steps: "(node_step E ops)\<^sup>*\<^sup>* r (fold receive_inbound xs r)"
proof (induction xs arbitrary: r)
  case (Cons x xs)
  have "node_step E ops r (receive_inbound x r)" unfolding receive_inbound_def by (rule node_step.Receive)
  with Cons show ?case by (simp add: converse_rtranclp_into_rtranclp)
qed simp

lemma queue_drained: "process_inbound_queue E now sig_ok r = Some (ms, r') \<Longrightarrow> facade_inbound r' = []"
proof (induction "length (facade_inbound r)" arbitrary: r ms rule: less_induct)
  case less
  from less.prems show ?case
  proof (cases rule: process_inbound_queue_cases)
    case (Head x xs ms1 r1 ms2)
    then have "facade_inbound r1 = xs" using process_received_keeps by fastforce
    with less.hyps[of r1] Head show ?thesis by simp
  qed simp
qed

text \<open>The parts of a round.\<close>

lemma daemon_roundE:
  assumes "daemon_round E P c t rd d = Some (d', evs)"
  obtains ms r3 where "(node_step E (file_ops E t))\<^sup>*\<^sup>* (dm_router d) r3" and "(nr_step E P c)\<^sup>*\<^sup>* (dm_node d) (dm_node d')"
    and "facade_inbound r3 = []" and "dm_router d' = r3\<lparr>control_responses := [], peer_sync_responses := [], peer_sync_outbound := []\<rparr>"
    and "dm_messages d' = fold (write_inbound_message E (rd_now_ms rd)) ms (dm_messages d)"
proof -
  let ?now = "rd_now_ms rd" and ?ops = "file_ops E t"
  obtain tk r1 where tick: "facade_tick E ?ops (rd_lock_free rd) ?now (dm_router d) = (tk, r1)" by fastforce
  from assms tick obtain reqs r2 n n1 o1 where a: "dispatch_peer_sync_requests E (peer_sync_requests tk) ?now r1 = Some (reqs, r2)"
      "dispatch_deliveries P (rd_time rd) (rd_iv rd) 0 (deliveries tk) (dm_node d) = Some (n, n1, o1)"
    by (auto simp: daemon_round_def Let_def split: option.splits)
  from assms tick a obtain n2 o2 got n3 o3 ms r3 where b: "send_requests E P (rd_time rd) (rd_iv rd) (length (deliveries tk)) (map (\<lambda>(q, pid). (pid, q)) reqs) n1 = Some (n2, o2)"
      "poll_inbound E P c (rd_time rd) (rd_retry_iv rd) (rd_action_iv rd) (rd_in_events rd) (rd_out_events rd) n2 = Some (got, n3, o3)"
      "process_inbound_queue E ?now False (fold receive_inbound got r2) = Some (ms, r3)"
    by (auto simp: daemon_round_def Let_def split: option.splits)
  from assms tick a b obtain k2 answers n4 o4 k3 n5 o5 k4 n6 o6 where e: "send_responses E P (rd_time rd) (rd_iv rd) k2 answers n3 = Some (n4, o4)"
      "send_responses E P (rd_time rd) (rd_iv rd) k3 (peer_sync_responses r3) n4 = Some (n5, o5)"
      "send_requests E P (rd_time rd) (rd_iv rd) k4 (peer_sync_outbound r3) n5 = Some (n6, o6)"
      "d' = \<lparr>dm_router = r3\<lparr>control_responses := [], peer_sync_responses := [], peer_sync_outbound := []\<rparr>, dm_node = n6,
        dm_messages = fold (write_inbound_message E ?now) ms (dm_messages d)\<rparr>"
    by (auto simp: daemon_round_def Let_def split: option.splits)
  have "node_step E ?ops (dm_router d) r1" using node_step.Tick[of E ?ops "dm_router d" "rd_lock_free rd" ?now] tick by simp
  moreover have "node_step E ?ops r1 r2" by (rule node_step.Dispatch[OF a(1)])
  moreover have "node_step E ?ops (fold receive_inbound got r2) r3" by (rule node_step.Inbound[OF b(3)])
  ultimately have r: "(node_step E ?ops)\<^sup>*\<^sup>* (dm_router d) r3" using receive_all_steps[of E ?ops r2 got] by (meson converse_rtranclp_into_rtranclp rtranclp.rtrancl_into_rtrancl)
  have n: "(nr_step E P c)\<^sup>*\<^sup>* (dm_node d) n6"
    using dispatch_deliveries_steps[OF a(2)] send_requests_steps[OF b(1)] nr_step.poll[OF b(2)] send_responses_steps[OF e(1)] send_responses_steps[OF e(2)]
      send_requests_steps[OF e(3)] by (meson rtranclp.rtrancl_into_rtrancl rtranclp_trans)
  show ?thesis by (rule that[OF r _ queue_drained[OF b(3)]]) (simp_all add: e(4) n)
qed

subsection \<open>Reachable daemons\<close>

text \<open>The daemon makes a round, the task of its transport makes a step, or the stamp worker does.\<close>

inductive daemon_step :: "env \<Rightarrow> prims \<Rightarrow> rmp \<Rightarrow> (failure \<Rightarrow> bytes) \<Rightarrow> daemon \<Rightarrow> daemon \<Rightarrow> bool" for E P c t where
  round: "daemon_round E P c t rd d = Some (d', evs) \<Longrightarrow> daemon_step E P c t d d'"
| net: "tp_step P (nr_transport (dm_node d)) evs th \<Longrightarrow> daemon_step E P c t d (d\<lparr>dm_node := (dm_node d)\<lparr>nr_transport := th\<rparr>\<rparr>)"
| worker: "daemon_step E P c t d (d\<lparr>dm_router := stamp_worker lock_free (dm_router d)\<rparr>)"

definition daemon_ok :: "prims \<Rightarrow> daemon \<Rightarrow> bool" where
  "daemon_ok P d \<longleftrightarrow> node_invar (dm_router d) \<and> node_ok P (dm_node d) \<and> hm_wf (dm_messages d)"

definition receipts_keep :: "daemon \<Rightarrow> daemon \<Rightarrow> bool" where
  "receipts_keep d d' \<longleftrightarrow> rt_keeps (nr_requests (dm_node d)) (nr_requests (dm_node d'))"

lemma node_steps_invar: "(node_step E ops)\<^sup>*\<^sup>* r r' \<Longrightarrow> node_invar r \<Longrightarrow> node_invar r'"
  by (induction rule: rtranclp_induct) (auto dest: node_step_invar)

lemma written_wf: "hm_wf files \<Longrightarrow> hm_wf (fold (write_inbound_message E now) ms files)"
  by (induction ms arbitrary: files) (auto simp: write_inbound_message_def Let_def hmap_simps split: sum.split)

lemma daemon_step_ok:
  assumes "daemon_step E P c t d d'" and "prims_ok P" and "daemon_ok P d"
  shows "daemon_ok P d' \<and> receipts_keep d d'"
  using assms
proof (cases rule: daemon_step.cases)
  case (round rd evs)
  then obtain ms r3 where r: "(node_step E (file_ops E t))\<^sup>*\<^sup>* (dm_router d) r3" "(nr_step E P c)\<^sup>*\<^sup>* (dm_node d) (dm_node d')"
      "dm_router d' = r3\<lparr>control_responses := [], peer_sync_responses := [], peer_sync_outbound := []\<rparr>"
      "dm_messages d' = fold (write_inbound_message E (rd_now_ms rd)) ms (dm_messages d)" by (rule daemon_roundE)
  with node_steps_invar[OF r(1)] nr_steps_kept[OF r(2)] assms(2,3) show ?thesis
    by (simp add: daemon_ok_def receipts_keep_def node_kept_def written_wf node_invar_def)
next
  case (net evs th)
  with nr_step_kept[OF nr_step.node[OF net(2), of E c]] assms(2,3) show ?thesis by (simp add: daemon_ok_def receipts_keep_def node_kept_def)
next
  case (worker lock_free)
  with assms(3) show ?thesis by (simp add: daemon_ok_def receipts_keep_def worker_invar rt_keeps_def)
qed

lemma daemon_steps_ok: "(daemon_step E P c t)\<^sup>*\<^sup>* d d' \<Longrightarrow> prims_ok P \<Longrightarrow> daemon_ok P d \<Longrightarrow> daemon_ok P d' \<and> receipts_keep d d'"
  by (induction rule: rtranclp_induct) (auto dest: daemon_step_ok simp: receipts_keep_def rt_keeps_def intro: rt_keeps_trans)

text \<open>Configuration touches none of the tables.\<close>

lemma configured_tables:
  assumes "build_router E P t enc i cfg now fs = Some r"
  shows "lr_peers r = []" "lr_prop_store r = ps_new" "local_deliveries r = []" "locally_processed r = []" "peer_sync_pendings r = []"
    "lr_tickets r = ticket_store_default" "outbound_stamp_costs r = []"
    "rt_router (lr_runtime r) = with_store (file_ops E t) (outbound_new P i (pid_identity i) enc) (file_store_new fs)"
  using assms by (auto simp: build_router_def apply_router_config_def apply_propagation_def apply_limits_def propagation_limits_def enable_propagation_node_def
      set_message_storage_limit_def set_transfer_limits_kb_def facade_with_config_def facade_init_def runtime_with_config_def Let_def split: option.splits)

lemma daemon_start_ok:
  assumes "prims_ok P" and "daemon_start E P t enc (private_new P s k) cfg a ig al built now fs = Some d"
  shows "daemon_ok P d"
proof -
  obtain r where r: "build_router E P t enc (private_new P s k) cfg built fs = Some r" using assms(2) by (auto simp: daemon_start_def Let_def split: option.splits)
  note tables = configured_tables[OF r]
  have "ps_invar ps_new" by (rule ps_reachable_invar) simp
  then have "node_invar r" by (simp add: node_invar_def tables table_wf_def hm_wf_Nil)
  with assms(2) r new_udp_ok[OF assms(1)] show ?thesis
    by (auto simp: daemon_start_def daemon_ok_def node_invar_def enable_propagation_node_def Let_def hm_wf_Nil split: option.splits if_splits)
qed

text \<open>C9. Whatever a daemon receives and does in its rounds, while packets arrive and stamps are made, the tables of its router and
  of its node stay consistent, and a settled receipt never changes.\<close>

theorem daemon_invar:
  assumes "prims_ok P" and "daemon_start E P t enc (private_new P s k) cfg a ig al built now fs = Some d0"
    and "(daemon_step E P c t)\<^sup>*\<^sup>* d0 d" and "(daemon_step E P c t)\<^sup>*\<^sup>* d d'"
  shows "daemon_ok P d \<and> daemon_ok P d' \<and> receipts_keep d d'"
proof -
  from daemon_steps_ok[OF assms(3,1) daemon_start_ok[OF assms(1,2)]] have "daemon_ok P d" by simp
  with daemon_steps_ok[OF assms(4,1) this] show ?thesis by simp
qed

definition sample_config :: daemon_config where
  "sample_config = \<lparr>dc_storage_path = None, dc_identity_path = None, dc_inbound_dir = None, dc_bind_addr = None, dc_forward_addr = None, dc_node_name = None,
     dc_tick_interval_ms = None, dc_lxmf = None, dc_propagation = None, dc_loglevel = None\<rparr>"

definition sample_daemon :: "daemon option" where
  "sample_daemon = daemon_start sample_env sample_prims (\<lambda>_. []) \<lparr>eh_encrypt = Inr, provides_encryption = True\<rparr> (private_new sample_prims [5] [6]) sample_config
     \<lparr>da_propagation_node = True, da_verbose = 0, da_quiet = 0\<rparr> None None 0 0 \<lparr>fs_dirs = [], fs_files = []\<rparr>"

lemma sample_daemon_starts: "sample_daemon \<noteq> None"
  by (simp add: sample_daemon_def daemon_start_def build_router_def apply_router_config_def sample_config_def read_hash_file_def Let_def)

theorem daemon_invar_witness:
  "case sample_daemon of Some d \<Rightarrow> daemon_ok sample_prims (d\<lparr>dm_router := stamp_worker True (dm_router d)\<rparr>) | None \<Rightarrow> False"
proof -
  obtain d where d: "sample_daemon = Some d" using sample_daemon_starts by blast
  from daemon_step.worker[of sample_env sample_prims rmp_wide "\<lambda>_. []" d True]
  have "(daemon_step sample_env sample_prims rmp_wide (\<lambda>_. []))\<^sup>*\<^sup>* d (d\<lparr>dm_router := stamp_worker True (dm_router d)\<rparr>)" by (rule r_into_rtranclp)
  from daemon_invar[OF sample_prims_ok d[unfolded sample_daemon_def] rtranclp.rtrancl_refl this] show ?thesis unfolding d option.case by blast
qed

subsection \<open>Nothing is left waiting\<close>

text \<open>After a round of the daemon its inbound queue is empty and no answer, response or request for a peer waits to be sent.\<close>

theorem daemon_round_settles:
  assumes "daemon_round E P c t rd d = Some (d', evs)"
  shows "facade_inbound (dm_router d') = [] \<and> control_responses (dm_router d') = [] \<and> peer_sync_responses (dm_router d') = [] \<and> peer_sync_outbound (dm_router d') = []"
proof -
  from assms obtain r3 where "facade_inbound r3 = []" "dm_router d' = r3\<lparr>control_responses := [], peer_sync_responses := [], peer_sync_outbound := []\<rparr>"
    by (rule daemon_roundE)
  then show ?thesis by simp
qed

definition idle_round :: round where
  "idle_round = \<lparr>rd_lock_free = True, rd_now_ms = 0, rd_time = 0, rd_iv = (\<lambda>_ _ _. replicate 16 3), rd_retry_iv = (\<lambda>_ _ _. replicate 16 3),
     rd_action_iv = (\<lambda>_ _. replicate 16 3), rd_in_events = [], rd_out_events = []\<rparr>"

definition idle_daemon :: daemon where
  "idle_daemon = \<lparr>dm_router = facade_new (replicate 16 1) 0 (router_with sample_outbound retry_default \<lparr>fs_dirs = [], fs_files = []\<rparr>),
     dm_node = new_udp sample_prims ''node'' (private_new sample_prims [5] [6]), dm_messages = []\<rparr>"

lemma receive_none: "processed_deferred r = Some [] \<Longrightarrow> receive_processed ops n r = r"
  by (cases n) simp_all

lemma idle_tick:
  obtains tk r1 where "facade_tick E ops True 0 (facade_new i 0 (router_with out pol st)) = (tk, r1)" and "deliveries tk = []" and "peer_sync_requests tk = []"
    and "facade_inbound r1 = []" and "control_responses r1 = []" and "peer_sync_responses r1 = []" and "peer_sync_outbound r1 = []"
proof -
  obtain tk r1 where "facade_tick E ops True 0 (facade_new i 0 (router_with out pol st)) = (tk, r1)" by fastforce
  then show ?thesis
    by (intro that[of tk r1]) (auto simp: facade_tick_def tick_def tick_outbound_def tick_jobs_def tick_timeouts_def tick_default_def job_due_def elapsed_def
      facade_new_def facade_init_def runtime_new_def runtime_with_config_def runtime_config_default_def router_with_def clean_links_def lt_new_def
      clean_propagation_links_def clean_direct_links_def tick_stamps_def start_stamp_worker_def receive_none sat_sub_def Let_def
      JOB_OUTBOUND_INTERVAL_def JOB_STAMPS_INTERVAL_def JOB_LINKS_INTERVAL_def JOB_TRANSIENT_INTERVAL_def JOB_STORE_INTERVAL_def JOB_PEERSYNC_INTERVAL_def
      JOB_PEERINGEST_INTERVAL_def JOB_ROTATE_INTERVAL_def)
qed

lemma idle_poll: "\<exists>r. poll_inbound E P c 0 iv iv' [] [] (new_udp P name i) = Some ([], r, [])"
  by (simp add: poll_inbound_def new_udp_def case_prod_beta rt_poll_timeouts_def rt_new_def resource_poll_timeouts_def tracker_new_def retry_outgoing_resources_def
      hm_keys_def Let_def)

theorem daemon_round_settles_witness:
  "case daemon_round sample_env sample_prims rmp_wide (\<lambda>_. []) idle_round idle_daemon of Some (d, _) \<Rightarrow> facade_inbound (dm_router d) = [] | None \<Rightarrow> False"
proof -
  obtain tk r1 where t: "facade_tick sample_env (file_ops sample_env (\<lambda>_. [])) True 0 (dm_router idle_daemon) = (tk, r1)" "deliveries tk = []" "peer_sync_requests tk = []"
      "facade_inbound r1 = []" "control_responses r1 = []" "peer_sync_responses r1 = []" "peer_sync_outbound r1 = []"
    using idle_tick[of sample_env "file_ops sample_env (\<lambda>_. [])" "replicate 16 1" sample_outbound retry_default] by (simp add: idle_daemon_def) blast
  obtain r where "poll_inbound sample_env sample_prims rmp_wide 0 (rd_retry_iv idle_round) (rd_action_iv idle_round) [] [] (dm_node idle_daemon) = Some ([], r, [])"
    using idle_poll by (fastforce simp: idle_daemon_def)
  with t have "\<exists>d evs. daemon_round sample_env sample_prims rmp_wide (\<lambda>_. []) idle_round idle_daemon = Some (d, evs)"
    by (simp add: daemon_round_def idle_round_def queue_empty)
  then obtain d evs where "daemon_round sample_env sample_prims rmp_wide (\<lambda>_. []) idle_round idle_daemon = Some (d, evs)" by blast
  from daemon_round_settles[OF this] this show ?thesis by simp
qed

text \<open>A command to a remote node ends: once the clock has passed the timeout at one of the polls, the daemon has an answer or an error.\<close>

lemma await_ends: "x \<in> set tries \<Longrightarrow> timeout \<le> pl_after x - start \<Longrightarrow> await_receipt E P c h start timeout tries r \<noteq> Some Waiting"
proof (induction tries arbitrary: r)
  case (Cons y tries)
  show ?case
  proof (cases "poll_inbound E P c (pl_time y) (pl_retry_iv y) (pl_action_iv y) (pl_in_events y) (pl_out_events y) (r\<lparr>nr_transport := pl_net y\<rparr>)")
    case (Some z)
    obtain got r1 evs where "z = (got, r1, evs)" by (cases z)
    with Some Cons.IH[of r1] Cons.prems show ?thesis by (auto simp: Let_def split: option.split request_status.split sum.split)
  qed simp
qed simp


definition late_poll :: poll where
  "late_poll = \<lparr>pl_time = 9000, pl_after = 10001, pl_net = nr_transport (dm_node idle_daemon), pl_retry_iv = (\<lambda>_ _ _. replicate 16 3), pl_action_iv = (\<lambda>_ _. replicate 16 3),
     pl_in_events = [], pl_out_events = []\<rparr>"


subsection \<open>Restart\<close>

text \<open>C25. The daemon does not load what it stored: a router that it builds on its files has the queued messages of the files and nothing else, no peers, no
  propagated messages, no tickets and no costs; so the commands to synchronise with a peer or to break with it never find one.\<close>

theorem daemon_restart_forgets:
  "local_sync E P t enc i cfg target now fs \<noteq> Some (Inr True) \<and> local_unpeer E P t enc i cfg target now fs \<noteq> Some (Inr True)
    \<and> (case build_router E P t enc i cfg now fs of None \<Rightarrow> True | Some r \<Rightarrow> lr_peers r = [] \<and> ps_list_ids (lr_prop_store r) = []
          \<and> lr_tickets r = ticket_store_default \<and> outbound_stamp_costs r = []
          \<and> queue_ids (rt_router (lr_runtime r)) = sort (map q_id (file_load_outbound E (file_store_new fs))))"
proof (cases "build_router E P t enc i cfg now fs")
  case None
  then show ?thesis by (auto simp: local_sync_def local_unpeer_def split: option.split sum.split)
next
  case (Some r)
  note tables = configured_tables[OF Some]
  have "queue_ids (rt_router (lr_runtime r)) = sort (map q_id (file_load_outbound E (file_store_new fs)))"
    unfolding tables restored_ids by (simp add: file_ops_def sort_key_map_ids)
  with Some tables show ?thesis
    by (auto simp: local_sync_def local_unpeer_def request_peer_sync_def unpeer_def ps_list_ids_def ps_new_def hm_contains_iff Let_def split: option.split sum.split)
qed

subsection \<open>Configuration\<close>

lemma parse_hashes_panics: "parse_hashes xs = None \<longleftrightarrow> (\<exists>x \<in> set xs. 32 \<le> length x \<and> parse_hex 16 x = None)"
  by (induction xs) (auto simp: new_from_hex_string_def ADDRESS_HASH_SIZE_def split: option.split sum.split)

definition listed :: "propagation_config \<Rightarrow> string set" where
  "listed pc = (\<Union>l \<in> {pc_static_peers pc, pc_control_allowed pc, pc_prioritise_destinations pc}. case l of None \<Rightarrow> {} | Some xs \<Rightarrow> set xs)"

lemma apply_propagation_control:
  assumes "apply_propagation pc r = Some r1"
  shows "\<exists>allowed. parse_hash_list (pc_control_allowed pc) = Some allowed \<and> control_allowed r1 = insert (lr_identity_hash r) (set allowed)"
proof -
  obtain p a q where l: "parse_hash_list (pc_static_peers pc) = Some p" "parse_hash_list (pc_control_allowed pc) = Some a" "parse_hash_list (pc_prioritise_destinations pc) = Some q"
    using assms by (cases "parse_hash_list (pc_static_peers pc)"; cases "parse_hash_list (pc_control_allowed pc)"; cases "parse_hash_list (pc_prioritise_destinations pc)")
      (simp_all add: apply_propagation_def Let_def)
  from assms have "control_allowed r1 = control_allowed (the (apply_propagation pc r))" by simp
  also have "\<dots> = set a \<union> {lr_identity_hash r}" by (simp add: apply_propagation_def Let_def l)
  finally show ?thesis using l(2) by simp
qed

text \<open>The configuration panics exactly if one of the listed addresses has at least 32 characters and the first 32 are not hexadecimal; otherwise
  the daemon itself may always control its node, and nobody who is not listed.\<close>

theorem config_outcome:
  "(apply_router_config cfg now r = None \<longleftrightarrow> (\<exists>pc. dc_propagation cfg = Some pc \<and> (\<exists>x \<in> listed pc. 32 \<le> length x \<and> parse_hex 16 x = None)))
    \<and> (case (apply_router_config cfg now r, dc_propagation cfg) of
        (Some r', Some pc) \<Rightarrow> (\<exists>allowed. parse_hash_list (pc_control_allowed pc) = Some allowed \<and> control_allowed r' = insert (lr_identity_hash r) (set allowed))
      | _ \<Rightarrow> True)"
proof (cases "dc_propagation cfg")
  case None
  then show ?thesis by (simp add: apply_router_config_def)
next
  case (Some pc)
  have "apply_router_config cfg now r = None \<longleftrightarrow> (\<exists>l \<in> {pc_static_peers pc, pc_control_allowed pc, pc_prioritise_destinations pc}. parse_hash_list l = None)"
    using Some by (auto simp: apply_router_config_def apply_propagation_def Let_def split: option.split)
  moreover have "parse_hash_list l = None \<longleftrightarrow> (\<exists>x \<in> (case l of None \<Rightarrow> {} | Some xs \<Rightarrow> set xs). 32 \<le> length x \<and> parse_hex 16 x = None)" for l
    by (simp add: parse_hash_list_def parse_hashes_panics split: option.split)
  ultimately have 1: "apply_router_config cfg now r = None \<longleftrightarrow> (\<exists>x \<in> listed pc. 32 \<le> length x \<and> parse_hex 16 x = None)" unfolding listed_def by blast
  have own: "lr_identity_hash (apply_limits cfg r) = lr_identity_hash r"
    by (simp add: apply_limits_def set_message_storage_limit_def set_transfer_limits_kb_def Let_def case_prod_beta)
  have "\<exists>allowed. parse_hash_list (pc_control_allowed pc) = Some allowed \<and> control_allowed r' = insert (lr_identity_hash r) (set allowed)"
    if r': "apply_router_config cfg now r = Some r'" for r'
  proof -
    from r' Some obtain r1 where r1: "apply_propagation pc (apply_limits cfg r) = Some r1" "control_allowed r' = control_allowed r1"
      by (auto simp: apply_router_config_def enable_propagation_node_def Let_def)
    with apply_propagation_control[OF r1(1)] own show ?thesis by simp
  qed
  then show ?thesis unfolding 1 unfolding Some by (cases "apply_router_config cfg now r") simp_all
qed

subsection \<open>The identity\<close>

lemma hex_no_space: "c \<in> set (to_hex_string h) \<Longrightarrow> \<not> is_space c"
proof -
  assume "c \<in> set (to_hex_string h)"
  then obtain b :: byte where "c = hex_digit (unat b div 16) \<or> c = hex_digit (unat b mod 16)" by (auto simp: to_hex_string_def hex_byte_def)
  moreover have "unat b div 16 < 16" "unat b mod 16 < 16" using unat_byte_lt[of b] by simp_all
  ultimately obtain n where "n < 16" "c = hex_digit n" by blast
  then have "digit16 c = Some n" by (simp add: digit16_hex_digit)
  then show ?thesis by (auto simp: digit16_def is_space_def Let_def split: if_splits)
qed

lemma trim_around: "\<forall>c \<in> set s. \<not> is_space c \<Longrightarrow> \<forall>c \<in> set u \<union> set v. is_space c \<Longrightarrow> s \<noteq> [] \<Longrightarrow> trim (u @ s @ v) = s"
proof -
  assume s: "\<forall>c \<in> set s. \<not> is_space c" "s \<noteq> []" and uv: "\<forall>c \<in> set u \<union> set v. is_space c"
  from s have keep: "dropWhile is_space (s @ x) = s @ x" "dropWhile is_space (rev s) = rev s" for x
    by (cases s; simp; fail)+ (use s in \<open>auto simp: dropWhile_eq_self_iff hd_rev\<close>)
  have "dropWhile is_space (u @ s @ v) = s @ v" using uv keep(1) by (simp add: dropWhile_append2)
  moreover have "dropWhile is_space (rev v @ rev s) = rev s" using uv keep(2) by (subst dropWhile_append2) auto
  ultimately show "trim (u @ s @ v) = s" by (simp add: trim_def)
qed

text \<open>The identity of a daemon outlives it: the first start makes one and writes it to its file, and every later start reads the same one, also when
  white space was put around it.\<close>

theorem identity_file_kept:
  assumes "prims_ok P" and "length secret = 32" and "length sk = 32" and "\<forall>c \<in> set u \<union> set v. is_space c"
  shows "\<exists>i d. load_or_create_identity P secret sk None = Some (Inr i, Some d) \<and> load_or_create_identity P secret' sk' (Some (u @ d @ v)) = Some (Inr i, Some (u @ d @ v))"
proof -
  let ?i = "private_new P secret sk"
  have "\<forall>c \<in> set (private_to_hex_string ?i). \<not> is_space c" using hex_no_space by (auto simp: private_to_hex_string_def)
  moreover have "length (private_to_hex_string ?i) > 0" using assms by (simp add: private_to_hex_string_def length_to_hex_string private_new_def)
  ultimately have "trim (u @ private_to_hex_string ?i @ v) = private_to_hex_string ?i" using assms(4) by (intro trim_around) auto
  moreover have "private_new_from_hex_string P (private_to_hex_string ?i) = Some (Inr ?i)" using assms(1-3)
    by (simp add: private_new_def private_new_from_hex_string_def private_to_hex_string_def two_keys_hex identity_sizes length_to_hex_string Let_def)
  ultimately show ?thesis by (simp add: load_or_create_identity_def Let_def)
qed

theorem identity_file_kept_witness:
  "\<exists>i d. load_or_create_identity sample_prims (replicate 32 1) (replicate 32 2) None = Some (Inr i, Some d)
    \<and> load_or_create_identity sample_prims [] [] (Some ([] @ d @ [CHR 0x0A])) = Some (Inr i, Some ([] @ d @ [CHR 0x0A]))"
  by (rule identity_file_kept[OF sample_prims_ok]) (simp_all add: is_space_def)

end
