(* ===== verification/Status_Report.thy ===== *)
theory Status_Report
  imports Daemon
begin

section \<open>The status report of the daemon (lxmd-rs/src/main.rs)\<close>

text \<open>
  \<open>--status\<close> and \<open>--peers\<close> print the statistics of a node, its own or those of a remote one, so the report is computed from any MessagePack
  value; what a value lacks is printed as zero or unknown. The debug form of a value that is no map comes from rmpv and is an argument.
  The sum of two counters wraps as it does in a release build.
\<close>

subsection \<open>Values\<close>

definition extract_map_value :: "(mval \<times> mval) list \<Rightarrow> string \<Rightarrow> mval option" where
  "extract_map_value m k = map_option snd (find (\<lambda>(x, _). x = MStr (str_bytes k) \<or> x = MBin (str_bytes k)) m)"

definition value_as_f64 :: "mval \<Rightarrow> f64 option" where
  "value_as_f64 v = (case v of MF64 x \<Rightarrow> Some x | MF32 x \<Rightarrow> Some (f32_to_f64 x) | MInt _ \<Rightarrow> map_option i64_to_f64 (as_i64 v) | _ \<Rightarrow> None)"

definition value_as_i64 :: "mval \<Rightarrow> int option" where
  "value_as_i64 v = (case v of MInt _ \<Rightarrow> as_i64 v | _ \<Rightarrow> None)"

definition value_as_bool :: "mval \<Rightarrow> bool option" where
  "value_as_bool v = (case v of MBool b \<Rightarrow> Some b | _ \<Rightarrow> None)"

definition num_of :: "(mval \<times> mval) list \<Rightarrow> string \<Rightarrow> int" where
  "num_of m k = or_else (Option.bind (extract_map_value m k) value_as_i64) 0"

definition f64_of :: "(mval \<times> mval) list \<Rightarrow> string \<Rightarrow> f64" where
  "f64_of m k = or_else (Option.bind (extract_map_value m k) value_as_f64) 0"

definition flag_of :: "(mval \<times> mval) list \<Rightarrow> string \<Rightarrow> bool" where
  "flag_of m k = or_else (Option.bind (extract_map_value m k) value_as_bool) False"

subsection \<open>Texts\<close>

definition show_int :: "int \<Rightarrow> string" where
  "show_int i = (if i < 0 then ''-'' else []) @ show_nat (nat \<bar>i\<bar>)"

text \<open>\<open>{:.2}\<close>: rounded to the nearest, ties to even.\<close>

definition two_places :: "f64 \<Rightarrow> string" where
  "two_places w =
     (case f64_view w of
        NaN \<Rightarrow> ''NaN''
      | Infinite s \<Rightarrow> (if s then ''-inf'' else ''inf'')
      | Finite s m e \<Rightarrow>
          (let n = round_half_even (m * 2 ^ nat e * 100) (2 ^ nat (- e)) in
           (if s then ''-'' else []) @ show_nat (n div 100) @ ''.'' @ show_nat (n mod 100 div 10) @ show_nat (n mod 10)))"

definition pretty_hex :: "bytes \<Rightarrow> string" where
  "pretty_hex b = to_hex_string b"

fun scale_size :: "nat \<Rightarrow> f64 \<Rightarrow> nat \<Rightarrow> f64 \<times> nat" where
  "scale_size 0 sz i = (sz, i)"
| "scale_size (Suc n) sz i = (if f64_le f64_1000 sz then scale_size n (f64_div sz f64_1000) (Suc i) else (sz, i))"

text \<open>There are five units, so the size is divided at most four times.\<close>

definition prettysize :: "f64 \<Rightarrow> string" where
  "prettysize b =
     (let (sz, i) = scale_size 4 b 0 in
      (if i = 0 then show_nat (f64_as_u64 sz) else two_places sz) @ '' '' @ [''B'', ''KB'', ''MB'', ''GB'', ''TB''] ! i)"

definition prettytime :: "f64 \<Rightarrow> string" where
  "prettytime seconds =
     (let n = f64_as_u64 (f64_max seconds 0);
          days = n div 86400; hours = n mod 86400 div 3600; mins = n mod 86400 mod 3600 div 60; secs = n mod 86400 mod 3600 mod 60 in
      if days > 0 then show_nat days @ ''d '' @ show_nat hours @ ''h''
      else if hours > 0 then show_nat hours @ ''h '' @ show_nat mins @ ''m''
      else if mins > 0 then show_nat mins @ ''m '' @ show_nat secs @ ''s''
      else show_nat secs @ ''s'')"

definition nl :: string where "nl = [CHR 0x0A]"

subsection \<open>The node\<close>

definition store_line :: "(mval \<times> mval) list \<Rightarrow> string" where
  "store_line m =
     (case extract_map_value m ''messagestore'' of
        Some (MMap st) \<Rightarrow>
          (let used = f64_of st ''bytes''; limit = f64_of st ''limit'';
               util = (if f64_lt 0 limit then f64_mul (f64_div used limit) (u64_to_f64 100) else 0) in
           ''Messagestore contains '' @ show_int (num_of st ''count'') @ '' messages, '' @ prettysize used @ '' ('' @ two_places util
           @ ''% utilised of '' @ prettysize limit @ '')'' @ nl)
      | _ \<Rightarrow> [])"

definition cost_lines :: "(mval \<times> mval) list \<Rightarrow> string" where
  "cost_lines m =
     ''Required propagation stamp cost is '' @ show_int (num_of m ''target_stamp_cost'') @ '', flexibility is '' @ show_int (num_of m ''stamp_cost_flexibility'') @ nl
     @ ''Peering cost is '' @ show_int (num_of m ''peering_cost'') @ '', max remote peering cost is '' @ show_int (num_of m ''max_peering_cost'') @ nl
     @ ''Accepting propagated messages from '' @ (if flag_of m ''from_static_only'' then ''static peers only'' else ''all nodes'') @ nl
     @ prettysize (f64_mul (f64_of m ''propagation_limit'') f64_1000) @ '' message limit, '' @ prettysize (f64_mul (f64_of m ''sync_limit'') f64_1000) @ '' sync limit'' @ nl @ nl"

definition peer_count_lines :: "(mval \<times> mval) list \<Rightarrow> string" where
  "peer_count_lines m =
     ''Peers   : '' @ show_int (num_of m ''total_peers'') @ '' total (peer limit is '' @ show_int (num_of m ''max_peers'') @ '')'' @ nl
     @ ''          '' @ show_int (num_of m ''discovered_peers'') @ '' discovered, '' @ show_int (num_of m ''static_peers'') @ '' static'' @ nl @ nl"

definition client_count :: "(mval \<times> mval) list \<Rightarrow> string \<Rightarrow> int" where
  "client_count m k = (case extract_map_value m ''clients'' of Some (MMap c) \<Rightarrow> num_of c k | _ \<Rightarrow> 0)"

definition traffic_lines :: "(mval \<times> mval) list \<Rightarrow> string" where
  "traffic_lines m =
     (let unpeered = num_of m ''unpeered_propagation_incoming''; rx = f64_of m ''unpeered_propagation_rx_bytes'';
          received = client_count m ''client_propagation_messages_received''; served = client_count m ''client_propagation_messages_served'' in
      ''Traffic : '' @ show_int (sint (word_of_int (unpeered + received) :: 64 word)) @ '' messages received in total ('' @ prettysize rx @ '')'' @ nl
      @ ''          '' @ show_int unpeered @ '' messages received from unpeered nodes ('' @ prettysize rx @ '')'' @ nl
      @ ''          '' @ show_int received @ '' propagation messages received directly from clients'' @ nl
      @ ''          '' @ show_int served @ '' propagation messages served to clients'' @ nl @ nl)"

subsection \<open>The peers\<close>

definition shown_number :: "(mval \<times> mval) list \<Rightarrow> string \<Rightarrow> string" where
  "shown_number m k = (case Option.bind (extract_map_value m k) value_as_i64 of Some i \<Rightarrow> show_int i | None \<Rightarrow> ''unknown'')"

definition shown_limit :: "(mval \<times> mval) list \<Rightarrow> string \<Rightarrow> string \<Rightarrow> string" where
  "shown_limit m k other = (case Option.bind (extract_map_value m k) value_as_f64 of Some x \<Rightarrow> prettysize (f64_mul x f64_1000) | None \<Rightarrow> other)"

definition hops_text :: "(mval \<times> mval) list \<Rightarrow> string" where
  "hops_text m =
     (let hops = or_else (Option.bind (extract_map_value m ''network_distance'') value_as_i64) (- 1) in
      if hops < 0 then ''hops unknown'' else if hops = 1 then ''1 hop away'' else show_int hops @ '' hops away'')"

definition key_text :: "(mval \<times> mval) list \<Rightarrow> string" where
  "key_text m =
     (case extract_map_value m ''peering_key'' of
        None \<Rightarrow> ''Not generated'' | Some MNil \<Rightarrow> ''Not generated'' | Some (MBin b) \<Rightarrow> ''Generated, value is '' @ pretty_hex b | Some _ \<Rightarrow> ''unknown'')"

definition peer_messages :: "(mval \<times> mval) list \<Rightarrow> int \<times> int \<times> int \<times> int" where
  "peer_messages m =
     (case extract_map_value m ''messages'' of
        Some (MMap c) \<Rightarrow> (num_of c ''offered'', num_of c ''outgoing'', num_of c ''incoming'', num_of c ''unhandled'') | _ \<Rightarrow> (0, 0, 0, 0))"

definition synced_text :: "f64 \<Rightarrow> (mval \<times> mval) list \<Rightarrow> string" where
  "synced_text now m =
     (let last = f64_of m ''last_sync_attempt'' in
      if f64_le last 0 then ''never synced'' else ''last synced '' @ prettytime (f64_max (f64_sub now last) 0) @ '' ago'')"

definition peer_type_text :: "(mval \<times> mval) list \<Rightarrow> string" where
  "peer_type_text m = (case Option.bind (extract_map_value m ''type'') (\<lambda>v. case v of MStr b \<Rightarrow> as_str b | _ \<Rightarrow> None) of Some b \<Rightarrow> map (\<lambda>x. char_of (unat x)) b | None \<Rightarrow> ''unknown'')"

definition peer_lines :: "f64 \<Rightarrow> mval \<times> mval \<Rightarrow> string" where
  "peer_lines now = (\<lambda>(pid, v).
     case v of
       MMap m \<Rightarrow>
         (let (offered, outgoing, incoming, unhandled) = peer_messages m in
          ''  '' @ peer_type_text m @ '' peer     '' @ (case pid of MBin b \<Rightarrow> pretty_hex b | _ \<Rightarrow> ''unknown'') @ nl
          @ ''    Status     : '' @ (if flag_of m ''alive'' then ''Available'' else ''Unreachable'') @ '', '' @ hops_text m @ '', last heard ''
            @ prettytime (f64_max (f64_sub now (f64_of m ''last_heard'')) 0) @ '' ago'' @ nl
          @ ''    Costs      : Propagation '' @ shown_number m ''target_stamp_cost'' @ '' (flex '' @ shown_number m ''stamp_cost_flexibility'' @ ''), peering ''
            @ shown_number m ''peering_cost'' @ nl
          @ ''    Sync key   : '' @ key_text m @ nl
          @ ''    Limits     : '' @ shown_limit m ''transfer_limit'' ''Unknown'' @ '' message limit, '' @ shown_limit m ''sync_limit'' ''unknown'' @ '' sync limit'' @ nl
          @ ''    Messages   : '' @ show_int offered @ '' offered, '' @ show_int outgoing @ '' outgoing, '' @ show_int incoming @ '' incoming, ''
            @ two_places (f64_mul (f64_of m ''acceptance_rate'') (u64_to_f64 100)) @ ''% acceptance rate'' @ nl
          @ ''    Sync state : '' @ show_int unhandled @ '' unhandled message(s), '' @ synced_text now m @ nl @ nl)
     | _ \<Rightarrow> [])"

definition format_stats_output :: "(mval \<Rightarrow> string) \<Rightarrow> f64 \<Rightarrow> mval \<Rightarrow> bool \<Rightarrow> bool \<Rightarrow> string" where
  "format_stats_output dbg now stats show_status show_peers =
     (case stats of
        MMap m \<Rightarrow>
          nl @ ''LXMF Propagation Node running on '' @ (case extract_map_value m ''destination_hash'' of Some (MBin b) \<Rightarrow> pretty_hex b | _ \<Rightarrow> ''unknown'')
          @ '', uptime is '' @ prettytime (f64_of m ''uptime'') @ nl
          @ (if show_status then store_line m @ cost_lines m @ peer_count_lines m @ traffic_lines m else [])
          @ (if show_peers then (case extract_map_value m ''peers'' of Some (MMap ps) \<Rightarrow> concat (map (peer_lines now) ps) | _ \<Rightarrow> []) else [])
      | _ \<Rightarrow> ''stats: '' @ dbg stats @ nl)"

definition format_status :: "(mval \<Rightarrow> string) \<Rightarrow> f64 \<Rightarrow> 's lxmf_router \<Rightarrow> nat \<Rightarrow> bool \<Rightarrow> bool \<Rightarrow> string" where
  "format_status dbg t r now show_status show_peers = format_stats_output dbg t (compile_stats now r) show_status show_peers"

subsection \<open>What the report of a node says\<close>

lemma extract_skip: "extract_map_value ((key a, v) # m) k = (if a = k then Some v else extract_map_value m k)" "extract_map_value [] k = None"
  by (auto simp: extract_map_value_def simp flip: key_def) (simp_all add: key_def)

lemmas stat_values = extract_skip num_of_def value_as_i64_def as_i64_def or_else_def

lemma show_int_nat: "show_int (int n) = show_nat n"
  by (simp add: show_int_def)

text \<open>A node's report on itself shows the number of messages in its store and the number of its peers, and for every peer, in the order of the
  table, a paragraph with its id; a node without a limit on its peers reports a limit of 0.\<close>

theorem status_shows_counts:
  assumes "length (ps_entries (lr_prop_store r)) < 2 ^ 63" and "length (lr_peers r) < 2 ^ 63" and "pred_option (\<lambda>n. n < 2 ^ 32) (max_peers r)"
  shows "\<exists>a b c. format_status dbg t r now True True =
      a @ ''Messagestore contains '' @ show_nat (length (ps_entries (lr_prop_store r))) @ '' messages, '' @ b
      @ ''Peers   : '' @ show_nat (length (lr_peers r)) @ '' total (peer limit is '' @ show_nat (or_else (max_peers r) 0) @ '')'' @ c
      @ concat (map (\<lambda>(i, p). peer_lines t (MBin i, peer_stats r i p)) (lr_peers r))
    \<and> (\<forall>i p. \<exists>x y. peer_lines t (MBin i, peer_stats r i p) = x @ '' peer     '' @ to_hex_string i @ nl @ y)"
proof -
  define m where "m = (case compile_stats now r of MMap m \<Rightarrow> m | _ \<Rightarrow> [])"
  have m: "compile_stats now r = MMap m" by (simp add: m_def compile_stats_def Let_def)
  have count: "u64_as_i64 n = int n" if "n < 2 ^ 63" for n using that by (simp add: u64_as_i64_small)
  have peers: "num_of m ''total_peers'' = int (length (lr_peers r))" using assms(2) by (simp add: m_def compile_stats_def Let_def stat_values count)
  have limit: "num_of m ''max_peers'' = int (or_else (max_peers r) 0)" using assms(3)
    by (cases "max_peers r") (simp_all add: m_def compile_stats_def Let_def stat_values opt_u32_value_def or_else_def)
  have table: "extract_map_value m ''peers'' = Some (MMap (map (\<lambda>(i, p). (MBin i, peer_stats r i p)) (lr_peers r)))"
    by (simp add: m_def compile_stats_def Let_def extract_skip)
  obtain st where st: "extract_map_value m ''messagestore'' = Some (MMap st)" "num_of st ''count'' = int (length (ps_entries (lr_prop_store r)))"
    using assms(1) by (simp add: m_def compile_stats_def Let_def stat_values count)
  have "\<exists>y. store_line m = ''Messagestore contains '' @ show_nat (length (ps_entries (lr_prop_store r))) @ '' messages, '' @ y"
    by (simp add: store_line_def st show_int_nat Let_def)
  then obtain y1 where y1: "store_line m = ''Messagestore contains '' @ show_nat (length (ps_entries (lr_prop_store r))) @ '' messages, '' @ y1" by blast
  have "\<exists>y. peer_count_lines m = ''Peers   : '' @ show_nat (length (lr_peers r)) @ '' total (peer limit is '' @ show_nat (or_else (max_peers r) 0) @ '')'' @ y"
    by (simp add: peer_count_lines_def peers limit show_int_nat)
  then obtain y2 where y2: "peer_count_lines m = ''Peers   : '' @ show_nat (length (lr_peers r)) @ '' total (peer limit is '' @ show_nat (or_else (max_peers r) 0) @ '')'' @ y2" by blast
  obtain a where "format_stats_output dbg t (MMap m) True True = a @ store_line m @ cost_lines m @ peer_count_lines m @ traffic_lines m
      @ concat (map (\<lambda>(i, p). peer_lines t (MBin i, peer_stats r i p)) (lr_peers r))"
  proof
    show "format_stats_output dbg t (MMap m) True True = (nl @ ''LXMF Propagation Node running on '' @ (case extract_map_value m ''destination_hash'' of Some (MBin b) \<Rightarrow> pretty_hex b | _ \<Rightarrow> ''unknown'')
        @ '', uptime is '' @ prettytime (f64_of m ''uptime'') @ nl) @ store_line m @ cost_lines m @ peer_count_lines m @ traffic_lines m
        @ concat (map (\<lambda>(i, p). peer_lines t (MBin i, peer_stats r i p)) (lr_peers r))"
      by (simp add: format_stats_output_def table comp_def case_prod_unfold)
  qed
  then have "\<exists>a b c. format_stats_output dbg t (MMap m) True True =
      a @ ''Messagestore contains '' @ show_nat (length (ps_entries (lr_prop_store r))) @ '' messages, '' @ b
      @ ''Peers   : '' @ show_nat (length (lr_peers r)) @ '' total (peer limit is '' @ show_nat (or_else (max_peers r) 0) @ '')'' @ c
      @ concat (map (\<lambda>(i, p). peer_lines t (MBin i, peer_stats r i p)) (lr_peers r))"
    by (intro exI[of _ a] exI[of _ "y1 @ cost_lines m"] exI[of _ "y2 @ traffic_lines m"]) (simp only: y1 y2 append_assoc)
  moreover have "\<exists>x y. peer_lines t (MBin i, peer_stats r i p) = x @ '' peer     '' @ to_hex_string i @ nl @ y" for i p
  proof -
    obtain e where e: "peer_stats r i p = MMap e" by (simp add: peer_stats_def)
    show ?thesis by (rule exI[of _ "''  '' @ peer_type_text e"]) (simp add: e peer_lines_def case_prod_beta pretty_hex_def)
  qed
  ultimately show ?thesis by (simp add: format_status_def m)
qed

theorem status_shows_counts_witness:
  "\<exists>a b. format_status (\<lambda>_. []) 0 (facade_new [1] 0 (router_with sample_outbound retry_default mem_new)) 0 True True = a @ ''Peers   : 0 total (peer limit is 0)'' @ b"
proof -
  let ?r = "facade_new [1] 0 (router_with sample_outbound retry_default mem_new)"
  have z: "show_nat 0 = ''0''" by (simp add: show_nat.simps char_of_def bit_0)
  have r: "length (ps_entries (lr_prop_store ?r)) = 0" "lr_peers ?r = []" "max_peers ?r = None" by (simp_all add: facade_new_def facade_init_def ps_new_def)
  from status_shows_counts[of ?r "\<lambda>_. []" 0 0] obtain a b c where "format_status (\<lambda>_. []) 0 ?r 0 True True =
      a @ ''Messagestore contains '' @ show_nat 0 @ '' messages, '' @ b @ ''Peers   : '' @ show_nat 0 @ '' total (peer limit is '' @ show_nat 0 @ '')'' @ c"
    unfolding r or_else_def by auto
  then show ?thesis unfolding z
    by (intro exI[of _ "a @ ''Messagestore contains '' @ ''0'' @ '' messages, '' @ b"] exI[of _ c]) simp
qed

end
