(* ===== verification/Spec2Isabelle.thy ===== *)
theory Spec2Isabelle
  imports Tcp_Stream Runtime Pn_Directory Node Node_Router_Facts File_Facts Daemon_Facts Status_Report
begin

text \<open>
  \<^bold>\<open>The program.\<close> lxmf-rs sends messages of the LXMF protocol over a Reticulum network. Three crates: \<open>reticulum-patched\<close> is the
  network (packets, framing, identities, destinations, encrypted links, resource transfers, the transport task of a node);
  \<open>lxmf-rs\<close> has the messages with their stamps and tickets, the router with queues, peers and the propagation store, and
  \<open>RnsNodeRouter\<close>, which puts the router on a node; \<open>lxmd-rs\<close> is a daemon around both. A message is encoded and signed
  (\<open>message.rs\<close>), queued (\<open>RnsRouter\<close>), turned into a packet or a resource (\<open>rns/transport.rs\<close>), sent over a link and framed
  for an interface; on the other side the bytes are unframed, parsed, decrypted by the link, assembled by the resource
  tracker and put into the inbound queue, which \<open>LxmfRouter\<close> works off: it delivers messages, answers control
  requests, and exchanges propagated messages with its peers.

  \<^bold>\<open>Conventions.\<close> Structs are records, enums datatypes, \<open>HashMap\<close>s association lists without repeated keys (\<open>hm_insert\<close> and
  its relatives in \<open>Prelude\<close>; \<open>hm_wf\<close> is the invariant), fixed-width integers are words or naturals with the wrap-around and
  saturation written out, \<open>f64\<close> is its 64-bit pattern. A \<open>Result\<close> is a sum with the error on the left; \<open>None\<close> as the outcome
  of an operation that can panic stands for the panic. Times, random bytes and the order of maps are
  arguments. What other crates provide is a parameter: \<open>prims\<close> (SHA-256, HMAC, AES-CBC, X25519, Ed25519, HKDF) with the laws
  \<open>prims_ok\<close>, \<open>crypto\<close> (hashing, HKDF and verification in \<open>lxmf-rs\<close>), \<open>codec\<close> (rmpv; \<open>reads_back\<close> says that a value that was written is read), \<open>rmp\<close>
  (integers and binaries of the crate rmp), base64 and the texts of errors. \<open>sample_prims\<close>, \<open>Msgpack_Ref\<close> and their like are
  concrete instances that satisfy the laws; the witnesses use them.

  \<^bold>\<open>The network\<close> (\<open>reticulum-patched/src\<close>).
  \<^item> \<open>Prelude\<close>: association lists and their interface \<open>keyed_table\<close>, chunks, saturating arithmetic, words. \<open>Floats\<close>: rounding,
    arithmetic, comparison, conversion and decimal output of doubles.
  \<^item> \<open>Buffers\<close> (\<open>buffer.rs\<close>): \<open>StaticBuffer\<close>, \<open>OutputBuffer\<close>, \<open>InputBuffer\<close>; the interface \<open>byte_sink\<close> is what writers rely on.
    \<open>Hdlc\<close> (\<open>iface/hdlc.rs\<close>): encode, find, decode, and that a frame in a stream is found and decoded.
    \<open>Packets\<close> (\<open>packet.rs\<close>, \<open>serde.rs\<close>, \<open>hash.rs\<close>, \<open>transport/path_table.rs\<close>): header codes, serialisation and parsing as inverses, the
    outcome of parsing for every datagram, packet hashes, next hops. \<open>Tcp_Stream\<close> (\<open>iface/tcp_client.rs\<close>): the receive window; any way of
    cutting the stream gives the packets that were sent. \<open>Caches\<close> (\<open>utils/cache_set.rs\<close>, \<open>transport/packet_cache.rs\<close>):
    duplicate suppression behind the interface \<open>dedup_cache\<close>.
  \<^item> \<open>Fernet\<close> (\<open>crypt/fernet.rs\<close>), \<open>Identities\<close> (\<open>identity.rs\<close>), \<open>Destinations\<close> (\<open>destination.rs\<close>): tokens, key agreement, announces; round trips,
    what is accepted, and which calls panic.
  \<^item> \<open>Link_Layer\<close> (\<open>destination/link.rs\<close>, \<open>link_map.rs\<close>): the link state machine with handshake, proof, data, keep-alive and
    close; that establishing works, that only a proof activates, that data is authentic, and the size limit.
    \<open>Transport_Node\<close> (\<open>transport.rs\<close>, \<open>iface.rs\<close>): the handler of a node, one step for each packet type, timer and send; loops over the
    links are interpretations of \<open>link_loop\<close> and \<open>total_link_loop\<close>. Reachable nodes are the inductive \<open>tp_reachable\<close>.
  \<^item> \<open>Resource_Wire\<close>, \<open>Resources\<close> (\<open>resource.rs\<close>): the messages of a transfer and the tracker and sender; completion under every order, repetition and
    interleaving, the invariant of reachable trackers, retries. \<open>Requests\<close> (\<open>request.rs\<close>, \<open>RnsRequestManager\<close>): both
    are instances of \<open>request_ledger\<close>; receipts are shared objects on an explicit heap.

  \<^bold>\<open>Messages and router\<close> (\<open>lxmf-rs/src\<close>).
  \<^item> \<open>Msgpack_Values\<close> (\<open>rns/mod.rs\<close>), \<open>Msgpack_Ref\<close> (a reference codec), \<open>Stamps\<close> and \<open>Messages\<close> (\<open>message.rs\<close>): signed messages, proof of work, stamps from
    tickets, containers.
  \<^item> \<open>Delivery\<close> (\<open>rns/transport.rs\<close>, \<open>RnsOutbound\<close>, request and response payloads), \<open>Outbox\<close> (\<open>RnsRouter\<close>, \<open>InMemoryStore\<close>; the
    interface \<open>message_store\<close> is what the queue relies on), \<open>Runtime\<close> (\<open>LxmfRuntime::tick\<close>), \<open>Prop_Store\<close> (\<open>PropagationStore\<close>; both kinds of marks are instances of
    \<open>peer_marks\<close>), \<open>Peers\<close> and \<open>Peer_Wire\<close> (\<open>rns/peer.rs\<close>), \<open>Pn_Directory\<close> (\<open>pn.rs\<close>, \<open>rns/pn.rs\<close>), \<open>Tickets\<close> and \<open>Links\<close> (parts of \<open>rns/router.rs\<close>).
  \<^item> \<open>Facade\<close> (\<open>LxmfRouter\<close>: configuration, sending, receiving, downloads, cleaning) and \<open>Facade_Facts\<close> (ticket exchange, the limit of the store, deferred stamps,
    path waits), \<open>Peer_Sync\<close> (every handler of the synchronisation protocol), \<open>Peer_Select\<close> (scheduling, rotation, distribution), \<open>Node\<close> (control
    requests, statistics, the inbound queue, the tick; its \<open>node_step\<close> has every operation that changes the facade).
  \<^item> \<open>Node_Router\<close> and \<open>Node_Router_Facts\<close> (\<open>RnsNodeRouter\<close>): link events, polling, and sending of messages, requests, responses and resources over
    \<open>Transport_Node\<close>; \<open>nr_step\<close> is one call or event of a node.
  \<^item> \<open>Storage_Codec\<close>, \<open>File_Store\<close>, \<open>File_Facts\<close> (\<open>rns/storage.rs\<close>): the values on disk (maps of hashes through \<open>map_codec\<close>), \<open>FileMessageStore\<close>
    over an explicit file system, the start of a router on its files.

  \<^bold>\<open>The daemon\<close> (\<open>lxmd-rs/src\<close>). \<open>Daemon\<close> has the values of the configuration and how they are applied, the start, one round of the main loop
  (tick, deliveries, requests, polling, inbound queue, answers) and the local and remote commands; \<open>Daemon_Facts\<close> shows that a round is a sequence of steps of the
  router and of the node, so that the invariants of both hold in every state a daemon reaches. \<open>Status_Report\<close> is the printed form of the statistics.

  \<^bold>\<open>What is proved.\<close> Liveness and function across components: two nodes link up, a stream of bytes delivers packets, a resource completes, a message sent as a
    resource arrives and is proved, a synchronisation moves messages, tickets are exchanged and honoured, ticks drain the
    queue, deferred messages are enqueued once. Safety: no packet panics a reachable node, links are activated by proofs only and deliver
    authentic data, control needs permission, rotation keeps peers. Invariants of reachable states by rule induction for tracker, transport, node router,
    facade, propagation store and the whole daemon. Refinement: the files of the queue refine a map, directories merge entry by entry.
    Round trips of messages, packets, frames, deliveries, files; equivalence of the bytewise stamp check with arithmetic; bounds and errors, among them
    exact conditions for the panics found.

  \<^bold>\<open>Loops and fuel.\<close> Every loop of the sources is a total function. \<open>drain\<close> ends because each step lowers \<open>drain_rank\<close> (an attempt left or a message less),
    \<open>process_inbound_queue\<close> because messages taken from the queue add none, \<open>generate_loop\<close> at its round limit, \<open>chunks\<close> and \<open>read_hashes\<close> on the length.
    \<open>dec_digits\<close> has fuel 17, the number of digits that identify a double; \<open>leading_zeros\<close> 400, more than a double below 1 has.
    \<open>receive_processed\<close> keeps the limit of 100 of the source, \<open>scale_size\<close> that of the four divisions that five units allow.
    \<open>await_receipt\<close> runs over the polls that its surroundings grant and is shown to end at the first one after the timeout.

  \<^bold>\<open>Not modelled.\<close> Errors of the operating system on files other than missing directories; the tokio tasks, channels, locks and sockets around the
    handlers (\<open>iface/udp.rs\<close>, \<open>iface/tcp_server.rs\<close>, connecting in \<open>iface/tcp_client.rs\<close>, \<open>iface/kaonic\<close>), whose effect is the order of the steps, which is
    arbitrary here; the cryptographic crates; the command line, the TOML parser, the paths and the hook command of the daemon; QR codes;
    \<open>Display\<close>, logging and callbacks, which only observe.
\<close>

end
